(* ===== verification/Prelude.thy ===== *)
theory Prelude
  imports Main "HOL-Library.Word"
begin

text \<open>
  Shared vocabulary of the development: the result of a Go call (a value, an error or a
  panic) with its bind, the 64-bit and 32-bit signed integers of Go as integers with the
  wrap-around written out, and generic lemmas on lists and association lists.
\<close>

named_theorems go_simps \<open>evaluation of the result and transaction combinators\<close>
named_theorems int64_simps \<open>wrap-around arithmetic within range\<close>

section \<open>Results of Go calls\<close>

text \<open>
  The errors a database statement reports to its caller: \<open>ErrNoRows\<close> is \<^verbatim>\<open>pgx.ErrNoRows\<close>,
  \<open>ErrConstraint\<close> a violated unique constraint, \<open>ErrTxAborted\<close> a statement issued in a
  transaction that an earlier error has aborted, \<open>ErrTxClosed\<close> (\<^verbatim>\<open>pgx.ErrTxClosed\<close>) the use of one
  that has ended, \<open>ErrQuery\<close> any failure of the connection.
\<close>

datatype db_error = ErrNoRows | ErrConstraint | ErrTxAborted | ErrTxClosed | ErrQuery

text \<open>
  A Go error value: \<^verbatim>\<open>fmt.Errorf\<close>/\<^verbatim>\<open>errors.New\<close> with the constant part of its message, an
  error wrapped under a message, or an error of the database.
\<close>

datatype go_error = Errorf string | Wrapf string go_error | DbErr db_error

text \<open>
  The outcome of a call: \<open>Ok\<close> is a return with a nil error, \<open>Err\<close> a return with an error,
  \<open>Panic\<close> a run-time panic (a nil dereference or an explicit panic), which only the middleware of
  an HTTP server and the sender of play events recover from.
\<close>

datatype 'a result = Ok 'a | Err go_error | Panic string

primrec bind_result :: "'a result \<Rightarrow> ('a \<Rightarrow> 'b result) \<Rightarrow> 'b result" where
  "bind_result (Ok a) f = f a"
| "bind_result (Err e) f = Err e"
| "bind_result (Panic p) f = Panic p"

primrec wrap_err :: "string \<Rightarrow> 'a result \<Rightarrow> 'a result" where
  "wrap_err msg (Ok a) = Ok a"
| "wrap_err msg (Err e) = Err (Wrapf msg e)"
| "wrap_err msg (Panic p) = Panic p"

text \<open>\<^verbatim>\<open>errors.Is(err, pgx.ErrNoRows)\<close> on an error the database has returned.\<close>

definition is_no_rows :: "go_error \<Rightarrow> bool" where
  "is_no_rows e \<longleftrightarrow> e = DbErr ErrNoRows"

definition is_ok :: "'a result \<Rightarrow> bool" where
  "is_ok r \<longleftrightarrow> (case r of Ok _ \<Rightarrow> True | _ \<Rightarrow> False)"

definition is_panic :: "'a result \<Rightarrow> bool" where
  "is_panic r \<longleftrightarrow> (case r of Panic _ \<Rightarrow> True | _ \<Rightarrow> False)"

lemma bind_result_eq_Ok [go_simps]:
  "bind_result r f = Ok b \<longleftrightarrow> (\<exists>a. r = Ok a \<and> f a = Ok b)"
  by (cases r) auto

lemma wrap_err_eq_Ok [go_simps]: "wrap_err msg r = Ok a \<longleftrightarrow> r = Ok a"
  by (cases r) auto

lemma map_result_eq_Ok [go_simps]: "map_result f r = Ok b \<longleftrightarrow> (\<exists>a. r = Ok a \<and> b = f a)"
  by (cases r) auto

lemma bind_result_eq_Panic [go_simps]:
  "bind_result r f = Panic p \<longleftrightarrow> r = Panic p \<or> (\<exists>a. r = Ok a \<and> f a = Panic p)"
  by (cases r) auto

lemma wrap_err_eq_Panic [go_simps]: "wrap_err msg r = Panic p \<longleftrightarrow> r = Panic p"
  by (cases r) auto

lemma is_ok_simps [simp]: "is_ok (Ok a)" "\<not> is_ok (Err e)" "\<not> is_ok (Panic p)"
  by (simp_all add: is_ok_def)

lemma is_ok_iff [go_simps]: "is_ok r \<longleftrightarrow> (\<exists>a. r = Ok a)"
  by (cases r) auto

lemma is_panic_simps [simp]: "\<not> is_panic (Ok a)" "\<not> is_panic (Err e)" "is_panic (Panic p)"
  by (simp_all add: is_panic_def)

section \<open>Machine integers\<close>

type_synonym byte = "8 word"
type_synonym bytes = "byte list"

text \<open>
  Go's \<^verbatim>\<open>int64\<close> (and \<^verbatim>\<open>int\<close> on the 64-bit platforms the program runs on) is an integer in
  range, and every arithmetic operation of the source wraps its result by \<open>wrap64\<close>;
  \<open>wrap32\<close> is the conversion to \<^verbatim>\<open>int32\<close> and \<open>uwrap64\<close> the one to \<^verbatim>\<open>uint64\<close>.
\<close>

type_synonym int64 = int

definition wrap64 :: "int \<Rightarrow> int64" where
  "wrap64 x = (x + 2 ^ 63) mod 2 ^ 64 - 2 ^ 63"

definition wrap32 :: "int \<Rightarrow> int" where
  "wrap32 x = (x + 2 ^ 31) mod 2 ^ 32 - 2 ^ 31"

definition uwrap64 :: "int \<Rightarrow> int" where
  "uwrap64 x = x mod 2 ^ 64"

definition in_int64 :: "int \<Rightarrow> bool" where
  "in_int64 x \<longleftrightarrow> - (2 ^ 63) \<le> x \<and> x < 2 ^ 63"

lemma wrap64_in_range [simp]: "in_int64 (wrap64 x)"
proof -
  have "0 \<le> (x + 2 ^ 63) mod (2 ^ 64 :: int)" and "(x + 2 ^ 63) mod (2 ^ 64 :: int) < 2 ^ 64"
    by simp_all
  then show ?thesis by (simp add: in_int64_def wrap64_def)
qed

lemma wrap64_id [int64_simps]: "in_int64 x \<Longrightarrow> wrap64 x = x"
  by (simp add: in_int64_def wrap64_def)

lemma wrap64_small [int64_simps]: "- (2 ^ 63) \<le> x \<Longrightarrow> x < 2 ^ 63 \<Longrightarrow> wrap64 x = x"
  by (rule wrap64_id) (simp add: in_int64_def)

lemma wrap32_small [int64_simps]: "- (2 ^ 31) \<le> x \<Longrightarrow> x < 2 ^ 31 \<Longrightarrow> wrap32 x = x"
  by (simp add: wrap32_def)

text \<open>Go's \<^verbatim>\<open>/\<close> and \<^verbatim>\<open>%\<close> truncate towards zero.\<close>

definition go_div :: "int \<Rightarrow> int \<Rightarrow> int" where
  "go_div a b = sgn a * sgn b * (\<bar>a\<bar> div \<bar>b\<bar>)"

definition go_mod :: "int \<Rightarrow> int \<Rightarrow> int" where
  "go_mod a b = a - b * go_div a b"

lemma go_div_nonneg [int64_simps]: "0 \<le> a \<Longrightarrow> 0 < b \<Longrightarrow> go_div a b = a div b"
  by (auto simp: go_div_def sgn_if)

lemma go_mod_nonneg [int64_simps]: "0 \<le> a \<Longrightarrow> 0 < b \<Longrightarrow> go_mod a b = a mod b"
  by (simp add: go_mod_def go_div_nonneg minus_mult_div_eq_mod)

section \<open>Lists and association lists\<close>

text \<open>The first element that satisfies a predicate, as \<^verbatim>\<open>limit 1\<close> and \<^verbatim>\<open>:one\<close> queries return it.\<close>

definition find_row :: "('a \<Rightarrow> bool) \<Rightarrow> 'a list \<Rightarrow> 'a option" where
  "find_row p xs = List.find p xs"

lemma find_row_None_iff: "find_row p xs = None \<longleftrightarrow> (\<forall>x \<in> set xs. \<not> p x)"
  by (auto simp: find_row_def find_None_iff)

lemma find_row_SomeD: "find_row p xs = Some x \<Longrightarrow> x \<in> set xs \<and> p x"
  by (auto simp: find_row_def find_Some_iff)

lemma find_row_by_key:
  assumes "distinct (map f xs)" and "x \<in> set xs"
  shows "find_row (\<lambda>r. f r = f x) xs = Some x"
proof -
  have "find_row (\<lambda>r. f r = f x) xs \<noteq> None" using assms(2) by (auto simp: find_row_None_iff)
  then obtain y where y: "find_row (\<lambda>r. f r = f x) xs = Some y" by blast
  then have "y \<in> set xs" "f y = f x" by (auto dest: find_row_SomeD)
  with assms have "y = x" by (simp add: distinct_map inj_on_def)
  with y show ?thesis by simp
qed

lemma find_row_Nil [simp]: "find_row p [] = None"
  by (simp add: find_row_def)

lemma find_row_Cons [simp]: "find_row p (x # xs) = (if p x then Some x else find_row p xs)"
  by (simp add: find_row_def)

lemma distinct_map_filter_fst: "distinct (map f xs) \<Longrightarrow> distinct (map f (filter p xs))"
  by (rule distinct_map_filter)

lemma map_of_filter_key:
  "map_of (filter (\<lambda>kv. fst kv \<noteq> k) xs) = (map_of xs)(k := None)"
  by (induction xs) (auto simp: fun_eq_iff)

lemma map_of_snoc_fresh:
  "k \<notin> set (map fst xs) \<Longrightarrow> map_of (xs @ [(k, v)]) = (map_of xs)(k \<mapsto> v)"
  by (induction xs) (auto simp: fun_eq_iff)

lemma length_filter_remove_one:
  assumes "distinct (map f xs)" and "x \<in> set xs"
  shows "length (filter (\<lambda>y. f y \<noteq> f x) xs) = length xs - 1"
  using assms
proof (induction xs)
  case Nil
  then show ?case by simp
next
  case (Cons y ys)
  show ?case
  proof (cases "f y = f x")
    case True
    with Cons.prems have "f x \<notin> f ` set ys" by auto
    then have "\<forall>z \<in> set ys. f z \<noteq> f x" by (metis imageI)
    then have "filter (\<lambda>z. f z \<noteq> f x) ys = ys" by simp
    with True show ?thesis by simp
  next
    case False
    with Cons have "length (filter (\<lambda>z. f z \<noteq> f x) ys) = length ys - 1" "ys \<noteq> []" by auto
    with False show ?thesis by (cases ys) auto
  qed
qed

end
