(* ===== verification/Safemap.thy ===== *)
theory Safemap
  imports Prelude "HOL-Library.AList"
begin

text \<open>
  The package \<^verbatim>\<open>pkg/safemap\<close>: a map guarded by a read-write lock. Each method holds the lock for
  its whole body, so it is one atomic function of the map. The Go map is an association list
  with distinct keys (its order stands for the unspecified iteration order), absent where the
  field is the nil map of a zero value.
\<close>

section \<open>Keyed stores\<close>

text \<open>
  The interface the peer tables of the server rely on: reading after a write, and an
  invariant the write keeps.
\<close>

locale kv_store =
  fixes get :: "'m \<Rightarrow> 'k \<Rightarrow> 'v option"
    and put :: "'k \<Rightarrow> 'v \<Rightarrow> 'm \<Rightarrow> 'm"
    and invar :: "'m \<Rightarrow> bool"
  assumes get_put: "invar m \<Longrightarrow> get (put k v m) = (get m)(k \<mapsto> v)"
    and invar_put: "invar m \<Longrightarrow> invar (put k v m)"
begin

lemma get_put_same: "invar m \<Longrightarrow> get (put k v m) k = Some v"
  by (simp add: get_put)

lemma get_put_other: "invar m \<Longrightarrow> k' \<noteq> k \<Longrightarrow> get (put k v m) k' = get m k'"
  by (simp add: get_put)

text \<open>A loop that stores a value under every key that has none keeps all earlier values.\<close>

lemma fold_put_absent:
  assumes "invar m"
  shows "invar (fold (\<lambda>(k, v) m. if get m k = None then put k v m else m) kvs m)
    \<and> get (fold (\<lambda>(k, v) m. if get m k = None then put k v m else m) kvs m)
       = (\<lambda>k. case get m k of Some v \<Rightarrow> Some v | None \<Rightarrow> map_of kvs k)"
  using assms
proof (induction kvs arbitrary: m)
  case Nil
  then show ?case by (auto simp: fun_eq_iff split: option.splits)
next
  case (Cons kv kvs)
  obtain k v where kv: "kv = (k, v)" by force
  let ?m = "if get m k = None then put k v m else m"
  have "invar ?m" using Cons.prems by (simp add: invar_put)
  moreover have "get ?m k' = (case get m k' of Some w \<Rightarrow> Some w | None \<Rightarrow> if k' = k then Some v else None)" for k'
    using Cons.prems by (auto simp: get_put split: option.splits)
  ultimately show ?case using Cons.IH [of ?m]
    by (auto simp: kv fun_eq_iff split: option.splits)
qed

end

section \<open>The map and its methods\<close>

record ('k, 'v) safemap =
  sm_m :: "('k \<times> 'v) list option"

definition entries :: "('k, 'v) safemap \<Rightarrow> ('k \<times> 'v) list" where
  "entries s = (case sm_m s of None \<Rightarrow> [] | Some xs \<Rightarrow> xs)"

definition sm_New :: "('k, 'v) safemap" where
  "sm_New = \<lparr>sm_m = Some []\<rparr>"

definition sm_NewFrom :: "('k \<times> 'v) list \<Rightarrow> ('k, 'v) safemap" where
  "sm_NewFrom src = \<lparr>sm_m = Some src\<rparr>"

definition sm_Get :: "('k, 'v) safemap \<Rightarrow> 'k \<Rightarrow> 'v option" where
  "sm_Get s key = map_of (entries s) key"

definition sm_Set :: "'k \<Rightarrow> 'v \<Rightarrow> ('k, 'v) safemap \<Rightarrow> ('k, 'v) safemap" where
  "sm_Set key value s = s\<lparr>sm_m := Some (AList.update key value (entries s))\<rparr>"

definition sm_Delete :: "'k \<Rightarrow> ('k, 'v) safemap \<Rightarrow> ('k, 'v) safemap" where
  "sm_Delete key s = s\<lparr>sm_m := map_option (AList.delete key) (sm_m s)\<rparr>"

definition sm_Has :: "('k, 'v) safemap \<Rightarrow> 'k \<Rightarrow> bool" where
  "sm_Has s key \<longleftrightarrow> sm_Get s key \<noteq> None"

definition sm_Len :: "('k, 'v) safemap \<Rightarrow> nat" where
  "sm_Len s = length (entries s)"

definition sm_Clear :: "('k, 'v) safemap \<Rightarrow> ('k, 'v) safemap" where
  "sm_Clear s = s\<lparr>sm_m := Some []\<rparr>"

definition sm_Keys :: "('k, 'v) safemap \<Rightarrow> 'k list" where
  "sm_Keys s = map fst (entries s)"

definition sm_Values :: "('k, 'v) safemap \<Rightarrow> 'v list" where
  "sm_Values s = map snd (entries s)"

text \<open>\<^verbatim>\<open>Range\<close> runs the callback on a snapshot, with the effects of the callback as a state.\<close>

fun range_loop :: "('k \<Rightarrow> 'v \<Rightarrow> 's \<Rightarrow> bool \<times> 's) \<Rightarrow> ('k \<times> 'v) list \<Rightarrow> 's \<Rightarrow> 's" where
  "range_loop fn [] st = st"
| "range_loop fn ((k, v) # kvs) st =
     (case fn k v st of (go_on, st') \<Rightarrow> if \<not> go_on then st' else range_loop fn kvs st')"

definition sm_Range :: "('k, 'v) safemap \<Rightarrow> ('k \<Rightarrow> 'v \<Rightarrow> 's \<Rightarrow> bool \<times> 's) \<Rightarrow> 's \<Rightarrow> 's" where
  "sm_Range s fn st = range_loop fn (entries s) st"

definition sm_LoadOrStore :: "'k \<Rightarrow> 'v \<Rightarrow> ('k, 'v) safemap \<Rightarrow> ('v \<times> bool) \<times> ('k, 'v) safemap" where
  "sm_LoadOrStore key value s =
     (case sm_Get s key of Some v \<Rightarrow> ((v, True), s) | None \<Rightarrow> ((value, False), sm_Set key value s))"

text \<open>
  \<^verbatim>\<open>Compute\<close>: the callback sees the previous value, if there is one, and returns the next value
  and whether to delete; the zero value and false are None.
\<close>

definition sm_Compute ::
    "'k \<Rightarrow> ('v option \<Rightarrow> 'v \<times> bool) \<Rightarrow> ('k, 'v) safemap \<Rightarrow> 'v option \<times> ('k, 'v) safemap" where
  "sm_Compute key fn s =
     (case fn (sm_Get s key) of (next_v, del) \<Rightarrow>
        if del then (None, sm_Delete key s) else (Some next_v, sm_Set key next_v s))"

definition sm_ToSlice :: "('k, 'v) safemap \<Rightarrow> ('k \<Rightarrow> 'v \<Rightarrow> 't) \<Rightarrow> 't list" where
  "sm_ToSlice s mapFn = map (\<lambda>(k, v). mapFn k v) (entries s)"

definition sm_ToMap :: "('k, 'v) safemap \<Rightarrow> ('k \<times> 'v) list" where
  "sm_ToMap s = entries s"

section \<open>Invariant and laws\<close>

definition sm_inv :: "('k, 'v) safemap \<Rightarrow> bool" where
  "sm_inv s \<longleftrightarrow> distinct (map fst (entries s))"

lemma entries_simps [simp]:
  "entries sm_New = []" "entries (sm_NewFrom src) = src" "entries (sm_Clear s) = []"
  "entries (sm_Set k v s) = AList.update k v (entries s)"
  "entries (sm_Delete k s) = AList.delete k (entries s)"
  by (simp_all add: entries_def sm_New_def sm_NewFrom_def sm_Clear_def sm_Set_def sm_Delete_def
      split: option.splits)

lemma sm_inv_ops [intro, simp]:
  "sm_inv sm_New" "sm_inv (sm_Clear s)" "sm_inv s \<Longrightarrow> sm_inv (sm_Set k v s)"
  "sm_inv s \<Longrightarrow> sm_inv (sm_Delete k s)"
  by (simp_all add: sm_inv_def distinct_update distinct_delete)

lemma sm_Get_Set: "sm_Get (sm_Set k v s) = (sm_Get s)(k \<mapsto> v)"
  by (simp add: sm_Get_def fun_eq_iff update_conv')

lemma sm_Get_Delete: "sm_Get (sm_Delete k s) = (sm_Get s)(k := None)"
  by (simp add: sm_Get_def fun_eq_iff delete_conv')

interpretation safemap: kv_store sm_Get sm_Set sm_inv
  by unfold_locales (auto simp: sm_Get_Set)

lemma sm_Len_dom:
  assumes "sm_inv s"
  shows "sm_Len s = card (dom (sm_Get s))"
proof -
  have "dom (sm_Get s) = set (map fst (entries s))"
    by (simp add: sm_Get_def [abs_def] dom_map_of_conv_image_fst)
  moreover have "card (set (map fst (entries s))) = length (map fst (entries s))"
    using assms unfolding sm_inv_def by (rule distinct_card)
  ultimately show ?thesis by (simp add: sm_Len_def)
qed

lemma range_loop_all: "(\<And>k v st. fst (fn k v st)) \<Longrightarrow>
   range_loop fn kvs st = fold (\<lambda>(k, v) st. snd (fn k v st)) kvs st"
  by (induction kvs arbitrary: st) (auto split: prod.splits, metis fst_conv)

end
