(* ===== verification/Pubsub.thy ===== *)
theory Pubsub
  imports Prelude "HOL-Library.AList"
begin

text \<open>
  The topic-based publish/subscribe of \<^verbatim>\<open>pkg/pubsub/pubsub.go\<close>. \<^verbatim>\<open>Publish\<close> starts one goroutine
  per subscriber, each of which later tries one non-blocking send; the model keeps these as
  pending sends and runs them in any order, interleaved with the other operations.
\<close>

section \<open>Channels\<close>

text \<open>
  A Go channel: its capacity, the buffered messages, the number of receivers blocked on it,
  whether it is closed, and the messages its receivers have taken so far.
\<close>

record 'm chan =
  ch_cap :: nat
  ch_buf :: "'m list"
  ch_waiting :: nat
  ch_closed :: bool
  ch_got :: "'m list"

definition make_chan :: "nat \<Rightarrow> 'm chan" where
  "make_chan cap = \<lparr>ch_cap = cap, ch_buf = [], ch_waiting = 0, ch_closed = False, ch_got = []\<rparr>"

text \<open>\<^verbatim>\<open>select { case ch <- msg: default: }\<close>; None is the panic of a send on a closed channel.\<close>

definition try_send :: "'m \<Rightarrow> 'm chan \<Rightarrow> 'm chan option" where
  "try_send msg ch =
     (if ch_closed ch then None
      else if 0 < ch_waiting ch
        then Some (ch\<lparr>ch_waiting := ch_waiting ch - 1, ch_got := ch_got ch @ [msg]\<rparr>)
      else if length (ch_buf ch) < ch_cap ch then Some (ch\<lparr>ch_buf := ch_buf ch @ [msg]\<rparr>)
      else Some ch)"

definition chan_recv :: "'m chan \<Rightarrow> 'm chan" where
  "chan_recv ch =
     (case ch_buf ch of
        msg # rest \<Rightarrow> ch\<lparr>ch_buf := rest, ch_got := ch_got ch @ [msg]\<rparr>
      | [] \<Rightarrow> if ch_closed ch then ch else ch\<lparr>ch_waiting := Suc (ch_waiting ch)\<rparr>)"

definition chan_close :: "'m chan \<Rightarrow> 'm chan" where
  "chan_close ch = ch\<lparr>ch_closed := True, ch_waiting := 0\<rparr>"

section \<open>The hub\<close>

text \<open>
  A channel is identified by its index in \<open>ps_chans\<close>; \<open>ps_pending\<close> are the goroutines that
  \<^verbatim>\<open>Publish\<close> has started and that have not run yet.
\<close>

record 'm pubsub =
  ps_subscribers :: "(string \<times> nat list) list"
  ps_chans :: "'m chan list"
  ps_pending :: "(nat \<times> 'm) list"
  ps_panicked :: bool

definition NewPubsub :: "'m pubsub" where
  "NewPubsub = \<lparr>ps_subscribers = [], ps_chans = [], ps_pending = [], ps_panicked = False\<rparr>"

definition subs_of :: "'m pubsub \<Rightarrow> string \<Rightarrow> nat list" where
  "subs_of ps topic = (case map_of (ps_subscribers ps) topic of None \<Rightarrow> [] | Some subs \<Rightarrow> subs)"

definition Subscribe :: "string \<Rightarrow> int list \<Rightarrow> 'm pubsub \<Rightarrow> nat result \<times> 'm pubsub" where
  "Subscribe topic bufferSizes ps =
     (let bufferSize = (case bufferSizes of [] \<Rightarrow> 1 | b # _ \<Rightarrow> b);
          ch = length (ps_chans ps)
      in if bufferSize < 0 then (Panic ''makechan: size out of range'', ps\<lparr>ps_panicked := True\<rparr>)
         else (Ok ch, ps\<lparr>ps_chans := ps_chans ps @ [make_chan (nat bufferSize)],
                         ps_subscribers := AList.update topic (subs_of ps topic @ [ch]) (ps_subscribers ps)\<rparr>))"

definition Unsubscribe :: "string \<Rightarrow> nat \<Rightarrow> 'm pubsub \<Rightarrow> 'm pubsub" where
  "Unsubscribe topic ch ps =
     (case map_of (ps_subscribers ps) topic of
        None \<Rightarrow> ps
      | Some subs \<Rightarrow>
          let subs' = filter (\<lambda>c. c \<noteq> ch) subs;
              chans' = (if ch \<in> set subs then (ps_chans ps)[ch := chan_close (ps_chans ps ! ch)] else ps_chans ps)
          in ps\<lparr>ps_chans := chans',
                ps_subscribers := (if subs' = [] then AList.delete topic (ps_subscribers ps)
                                   else AList.update topic subs' (ps_subscribers ps))\<rparr>)"

definition Publish :: "string \<Rightarrow> 'm \<Rightarrow> 'm pubsub \<Rightarrow> 'm pubsub" where
  "Publish topic msg ps = ps\<lparr>ps_pending := ps_pending ps @ map (\<lambda>ch. (ch, msg)) (subs_of ps topic)\<rparr>"

text \<open>The scheduler picks the \<open>i\<close>-th pending goroutine and runs it to its end.\<close>

definition run_send :: "nat \<Rightarrow> 'm pubsub \<Rightarrow> 'm pubsub" where
  "run_send i ps =
     (case ps_pending ps ! i of (ch, msg) \<Rightarrow>
        let ps' = ps\<lparr>ps_pending := take i (ps_pending ps) @ drop (Suc i) (ps_pending ps)\<rparr>
        in case try_send msg (ps_chans ps ! ch) of
             None \<Rightarrow> ps'\<lparr>ps_panicked := True\<rparr>
           | Some c \<Rightarrow> ps'\<lparr>ps_chans := (ps_chans ps)[ch := c]\<rparr>)"

definition receive :: "nat \<Rightarrow> 'm pubsub \<Rightarrow> 'm pubsub" where
  "receive ch ps = ps\<lparr>ps_chans := (ps_chans ps)[ch := chan_recv (ps_chans ps ! ch)]\<rparr>"

inductive ps_step :: "'m pubsub \<Rightarrow> 'm pubsub \<Rightarrow> bool" where
  StepSubscribe: "\<not> ps_panicked ps \<Longrightarrow> 0 \<le> b \<Longrightarrow> ps_step ps (snd (Subscribe topic [b] ps))"
| StepUnsubscribe: "\<not> ps_panicked ps \<Longrightarrow> ps_step ps (Unsubscribe topic ch ps)"
| StepPublish: "\<not> ps_panicked ps \<Longrightarrow> ps_step ps (Publish topic msg ps)"
| StepSend: "\<not> ps_panicked ps \<Longrightarrow> i < length (ps_pending ps) \<Longrightarrow> ps_step ps (run_send i ps)"
| StepReceive: "\<not> ps_panicked ps \<Longrightarrow> ch < length (ps_chans ps) \<Longrightarrow> ps_step ps (receive ch ps)"

inductive ps_reachable :: "'m pubsub \<Rightarrow> bool" where
  ReachNew: "ps_reachable NewPubsub"
| ReachStep: "ps_reachable ps \<Longrightarrow> ps_step ps ps' \<Longrightarrow> ps_reachable ps'"

inductive_cases ps_stepE: "ps_step ps ps'"

section \<open>Invariant of the hub\<close>

definition subscribed :: "'m pubsub \<Rightarrow> string \<Rightarrow> nat \<Rightarrow> bool" where
  "subscribed ps topic ch \<longleftrightarrow> ch \<in> set (subs_of ps topic)"

definition ps_inv :: "'m pubsub \<Rightarrow> bool" where
  "ps_inv ps \<longleftrightarrow>
     (\<forall>t ch. subscribed ps t ch \<longrightarrow> ch < length (ps_chans ps) \<and> \<not> ch_closed (ps_chans ps ! ch))
   \<and> (\<forall>ch < length (ps_chans ps). \<not> ch_closed (ps_chans ps ! ch) \<longrightarrow> (\<exists>t. subscribed ps t ch))
   \<and> (\<forall>t t' ch. subscribed ps t ch \<longrightarrow> subscribed ps t' ch \<longrightarrow> t = t')
   \<and> (\<forall>p \<in> set (ps_pending ps). fst p < length (ps_chans ps))
   \<and> (\<forall>c \<in> set (ps_chans ps). length (ch_buf c) \<le> ch_cap c \<and> (0 < ch_waiting c \<longrightarrow> ch_buf c = []))"

lemma subs_of_update:
  "subs_of (ps\<lparr>ps_chans := cs, ps_subscribers := AList.update t xs (ps_subscribers ps)\<rparr>) t'
     = (if t' = t then xs else subs_of ps t')"
  by (simp add: subs_of_def update_conv')

lemma subs_of_delete:
  "subs_of (ps\<lparr>ps_chans := cs, ps_subscribers := AList.delete t (ps_subscribers ps)\<rparr>) t'
     = (if t' = t then [] else subs_of ps t')"
  by (simp add: subs_of_def delete_conv')

lemma subscribed_Subscribe:
  "0 \<le> b \<Longrightarrow> subscribed (snd (Subscribe topic (b # bs) ps)) t ch \<longleftrightarrow>
     subscribed ps t ch \<or> (t = topic \<and> ch = length (ps_chans ps))"
  by (auto simp: subscribed_def Subscribe_def Let_def subs_of_update)

lemma subscribed_Unsubscribe:
  "subscribed (Unsubscribe topic ch ps) t c \<longleftrightarrow> subscribed ps t c \<and> \<not> (t = topic \<and> c = ch)"
proof (cases "map_of (ps_subscribers ps) topic")
  case None
  then show ?thesis by (auto simp: Unsubscribe_def subscribed_def subs_of_def)
next
  case (Some subs)
  show ?thesis
  proof (cases "filter (\<lambda>c. c \<noteq> ch) subs = []")
    case True
    then have "set subs \<subseteq> {ch}" by (auto simp: filter_empty_conv)
    with Some True show ?thesis
      by (auto simp: Unsubscribe_def Let_def subscribed_def subs_of_delete)
        (auto simp: subs_of_def)
  next
    case False
    with Some show ?thesis
      by (auto simp: Unsubscribe_def Let_def subscribed_def subs_of_update)
        (auto simp: subs_of_def)
  qed
qed

lemma Unsubscribe_chans:
  "ps_chans (Unsubscribe topic ch ps) =
     (if subscribed ps topic ch then (ps_chans ps)[ch := chan_close (ps_chans ps ! ch)] else ps_chans ps)"
  "ps_pending (Unsubscribe topic ch ps) = ps_pending ps"
  "ps_panicked (Unsubscribe topic ch ps) = ps_panicked ps"
  by (auto simp: Unsubscribe_def subscribed_def subs_of_def Let_def split: option.splits)

text \<open>What a channel operation keeps of the buffer bound, and that only closing closes.\<close>

definition chan_ok :: "'m chan \<Rightarrow> bool" where
  "chan_ok c \<longleftrightarrow> length (ch_buf c) \<le> ch_cap c \<and> (0 < ch_waiting c \<longrightarrow> ch_buf c = [])"

lemma chan_ok_ops [simp]:
  "chan_ok (make_chan n)" "chan_ok c \<Longrightarrow> chan_ok (chan_close c)" "chan_ok c \<Longrightarrow> chan_ok (chan_recv c)"
  by (auto simp: chan_ok_def make_chan_def chan_close_def chan_recv_def split: list.splits if_splits)

lemma ch_closed_ops [simp]:
  "\<not> ch_closed (make_chan n)" "ch_closed (chan_close c)" "ch_closed (chan_recv c) = ch_closed c"
  by (auto simp: make_chan_def chan_close_def chan_recv_def split: list.splits if_splits)

lemma try_send_keeps:
  assumes "try_send msg c = Some c'"
  shows "chan_ok c \<Longrightarrow> chan_ok c'" and "ch_closed c' = ch_closed c"
  using assms by (auto simp: chan_ok_def try_send_def split: if_splits)

lemma ps_inv_chan_ok:
  "ps_inv ps \<longleftrightarrow>
     (\<forall>t ch. subscribed ps t ch \<longrightarrow> ch < length (ps_chans ps) \<and> \<not> ch_closed (ps_chans ps ! ch))
   \<and> (\<forall>ch < length (ps_chans ps). \<not> ch_closed (ps_chans ps ! ch) \<longrightarrow> (\<exists>t. subscribed ps t ch))
   \<and> (\<forall>t t' ch. subscribed ps t ch \<longrightarrow> subscribed ps t' ch \<longrightarrow> t = t')
   \<and> (\<forall>p \<in> set (ps_pending ps). fst p < length (ps_chans ps))
   \<and> (\<forall>c \<in> set (ps_chans ps). chan_ok c)"
  by (simp add: ps_inv_def chan_ok_def)

lemma subscribed_chan_update [simp]:
  "subscribed (ps\<lparr>ps_chans := cs\<rparr>) = subscribed ps"
  "subscribed (ps\<lparr>ps_pending := qs\<rparr>) = subscribed ps"
  "subscribed (ps\<lparr>ps_panicked := b\<rparr>) = subscribed ps"
  by (simp_all add: subscribed_def subs_of_def fun_eq_iff)

lemma ps_inv_update_chan:
  assumes "ps_inv ps" and "ch < length (ps_chans ps)" and "chan_ok c"
    and "ch_closed c = ch_closed (ps_chans ps ! ch)"
  shows "ps_inv (ps\<lparr>ps_chans := (ps_chans ps)[ch := c]\<rparr>)"
  using assms unfolding ps_inv_chan_ok
  by (auto simp: nth_list_update dest!: set_update_subset_insert [THEN subsetD])

lemma ps_inv_pending:
  "ps_inv ps \<Longrightarrow> set qs \<subseteq> set (ps_pending ps) \<Longrightarrow> ps_inv (ps\<lparr>ps_pending := qs\<rparr>)"
  by (auto simp: ps_inv_chan_ok)

lemma ps_inv_Subscribe:
  assumes "ps_inv ps" and "0 \<le> b"
  shows "ps_inv (snd (Subscribe topic (b # bs) ps))"
proof -
  have "\<forall>t. \<not> subscribed ps t (length (ps_chans ps))" using assms(1) by (auto simp: ps_inv_def)
  moreover have "ps_chans (snd (Subscribe topic (b # bs) ps)) = ps_chans ps @ [make_chan (nat b)]"
    "ps_pending (snd (Subscribe topic (b # bs) ps)) = ps_pending ps"
    using assms(2) by (simp_all add: Subscribe_def Let_def)
  ultimately show ?thesis
    using assms unfolding ps_inv_chan_ok
    by (auto simp: subscribed_Subscribe nth_append less_Suc_eq)
qed

lemma ps_inv_Unsubscribe:
  assumes "ps_inv ps"
  shows "ps_inv (Unsubscribe topic ch ps)"
proof -
  have "c \<noteq> ch" if "subscribed (Unsubscribe topic ch ps) t c" "subscribed ps topic ch" for t c
    using that assms by (auto simp: subscribed_Unsubscribe ps_inv_def)
  with assms show ?thesis unfolding ps_inv_chan_ok
    by (auto simp: Unsubscribe_chans subscribed_Unsubscribe nth_list_update
        dest!: set_update_subset_insert [THEN subsetD])
qed

lemma ps_inv_run_send:
  assumes "ps_inv ps" and "i < length (ps_pending ps)"
  shows "ps_inv (run_send i ps)"
proof -
  obtain ch msg where p: "ps_pending ps ! i = (ch, msg)" by fastforce
  with assms have ch: "ch < length (ps_chans ps)" unfolding ps_inv_def
    by (metis fst_conv nth_mem)
  let ?ps = "ps\<lparr>ps_pending := take i (ps_pending ps) @ drop (Suc i) (ps_pending ps)\<rparr>"
  have inv: "ps_inv ?ps"
    using assms(1) by (intro ps_inv_pending) (auto dest: in_set_takeD in_set_dropD)
  have ok: "chan_ok (ps_chans ps ! ch)" using assms(1) ch by (simp add: ps_inv_chan_ok)
  show ?thesis
  proof (cases "try_send msg (ps_chans ps ! ch)")
    case None
    with inv p show ?thesis by (simp add: run_send_def Let_def ps_inv_chan_ok)
  next
    case (Some c)
    with ps_inv_update_chan [OF inv, of ch c] try_send_keeps [OF Some] ch ok p show ?thesis
      by (simp add: run_send_def Let_def)
  qed
qed

lemma ps_inv_step: "ps_step ps ps' \<Longrightarrow> ps_inv ps \<Longrightarrow> ps_inv ps'"
proof (induction rule: ps_step.induct)
  case (StepPublish ps topic msg)
  then show ?case
    by (auto simp: Publish_def ps_inv_chan_ok subscribed_def)
next
  case (StepReceive ps ch)
  then show ?case unfolding receive_def
    by (intro ps_inv_update_chan) (auto simp: ps_inv_chan_ok)
qed (simp_all add: ps_inv_Subscribe ps_inv_Unsubscribe ps_inv_run_send)

lemma ps_inv_reachable: "ps_reachable ps \<Longrightarrow> ps_inv ps"
proof (induction rule: ps_reachable.induct)
  case ReachNew
  show ?case by (simp add: ps_inv_def NewPubsub_def subscribed_def subs_of_def)
qed (rule ps_inv_step)

section \<open>Properties\<close>

text \<open>
  (C19) In every state the hub can reach, under any interleaving of subscriptions, publications,
  goroutine sends and receives: a channel is open exactly while a topic has it as a
  subscriber, that topic is unique, and no channel holds more messages than its capacity.
\<close>

theorem pubsub_channels:
  assumes "ps_reachable ps" and "ch < length (ps_chans ps)"
  shows "(\<not> ch_closed (ps_chans ps ! ch) \<longleftrightarrow> (\<exists>!topic. subscribed ps topic ch))
    \<and> length (ch_buf (ps_chans ps ! ch)) \<le> ch_cap (ps_chans ps ! ch)"
  using ps_inv_reachable [OF assms(1)] assms(2) unfolding ps_inv_def
  by (metis nth_mem)

definition demo_hub :: "nat pubsub" where
  "demo_hub = Publish ''blocks'' 7 (snd (Subscribe ''blocks'' [1] NewPubsub))"

lemma demo_hub_reachable: "ps_reachable demo_hub"
proof -
  have "ps_step (NewPubsub :: nat pubsub) (snd (Subscribe ''blocks'' [1] NewPubsub))"
    by (rule StepSubscribe) (simp_all add: NewPubsub_def)
  moreover have "ps_step (snd (Subscribe ''blocks'' [1] NewPubsub)) demo_hub"
    unfolding demo_hub_def by (rule StepPublish) (simp add: NewPubsub_def Subscribe_def)
  ultimately show ?thesis using ReachNew ReachStep by metis
qed

theorem pubsub_channels_witness:
  "ps_reachable demo_hub \<and> 0 < length (ps_chans demo_hub)
   \<and> (\<exists>!topic. subscribed demo_hub topic 0)"
proof -
  have len: "0 < length (ps_chans demo_hub)" and open0: "\<not> ch_closed (ps_chans demo_hub ! 0)"
    by (simp_all add: demo_hub_def Publish_def Subscribe_def NewPubsub_def make_chan_def)
  with pubsub_channels [OF demo_hub_reachable len] demo_hub_reachable show ?thesis by blast
qed

text \<open>
  Unsubscribing races with the goroutines of an earlier publication: a reachable hub
  panics when such a goroutine runs, precisely when the channel it was started for has been
  unsubscribed in the meantime, and some interleaving reaches that panic.
\<close>

theorem publish_unsubscribe_race:
  "(\<forall>(ps :: nat pubsub) i. ps_reachable ps \<and> \<not> ps_panicked ps \<and> i < length (ps_pending ps) \<longrightarrow>
      (ps_panicked (run_send i ps) \<longleftrightarrow> (\<forall>topic. \<not> subscribed ps topic (fst (ps_pending ps ! i)))))
   \<and> (\<exists>ps :: nat pubsub. ps_reachable ps \<and> ps_panicked ps)"
proof (intro conjI allI impI)
  fix ps :: "nat pubsub" and i
  assume asm: "ps_reachable ps \<and> \<not> ps_panicked ps \<and> i < length (ps_pending ps)"
  obtain ch msg where p: "ps_pending ps ! i = (ch, msg)" by fastforce
  from asm have inv: "ps_inv ps" by (simp add: ps_inv_reachable)
  then have "ch < length (ps_chans ps)" using asm p unfolding ps_inv_def by (metis fst_conv nth_mem)
  then have "ch_closed (ps_chans ps ! ch) \<longleftrightarrow> (\<forall>topic. \<not> subscribed ps topic ch)"
    using inv unfolding ps_inv_def by blast
  moreover have "ps_panicked (run_send i ps) \<longleftrightarrow> ch_closed (ps_chans ps ! ch)"
    using asm by (simp add: run_send_def try_send_def Let_def p split del: if_split)
      (simp split: if_splits)
  ultimately show "ps_panicked (run_send i ps) \<longleftrightarrow>
      (\<forall>topic. \<not> subscribed ps topic (fst (ps_pending ps ! i)))" by (simp add: p)
next
  let ?u = "Unsubscribe ''blocks'' 0 demo_hub"
  have eval: "\<not> ps_panicked demo_hub" "\<not> ps_panicked ?u" "ps_pending ?u = [(0, 7)]"
    by (simp_all add: demo_hub_def Publish_def Subscribe_def NewPubsub_def Unsubscribe_def subs_of_def)
  have "ps_step demo_hub ?u" by (rule StepUnsubscribe) (rule eval)
  moreover have "ps_step ?u (run_send 0 ?u)" by (rule StepSend) (simp_all add: eval)
  moreover have "ch_closed (ps_chans ?u ! 0)"
    by (simp add: demo_hub_def Publish_def Subscribe_def NewPubsub_def Unsubscribe_def subs_of_def)
  then have "ps_panicked (run_send 0 ?u)"
    by (simp add: run_send_def try_send_def eval)
  ultimately show "\<exists>ps :: nat pubsub. ps_reachable ps \<and> ps_panicked ps"
    using demo_hub_reachable by (intro exI [of _ "run_send 0 ?u"] conjI) (auto intro: ReachStep)
qed

theorem publish_unsubscribe_race_witness:
  "ps_reachable demo_hub \<and> \<not> ps_panicked (run_send 0 demo_hub)"
proof -
  have eval: "\<not> ps_panicked demo_hub" "ps_pending demo_hub = [(0, 7)]" "subs_of demo_hub ''blocks'' = [0]"
    by (simp_all add: demo_hub_def Publish_def Subscribe_def NewPubsub_def subs_of_def)
  then have "subscribed demo_hub ''blocks'' 0" by (simp add: subscribed_def)
  moreover have "ps_panicked (run_send 0 demo_hub)
      \<longleftrightarrow> (\<forall>topic. \<not> subscribed demo_hub topic (fst (ps_pending demo_hub ! 0)))"
    by (rule publish_unsubscribe_race [THEN conjunct1, rule_format]) (simp add: eval demo_hub_reachable)
  ultimately show ?thesis using eval demo_hub_reachable by auto
qed

end
