(* ===== verification/Encoding.thy ===== *)
theory Encoding
  imports Prelude "HOL-Library.Char_ord" "HOL-Library.List_Lexorder"
begin

text \<open>
  The parts of Go's standard library the program encodes its data with: strings as byte
  sequences, \<^verbatim>\<open>encoding/hex\<close>, \<^verbatim>\<open>encoding/binary\<close>, \<^verbatim>\<open>encoding/base64\<close>, \<^verbatim>\<open>strconv\<close>, the string
  helpers of \<^verbatim>\<open>strings\<close> and the conversion of a rune to a string. A Go string is a sequence
  of bytes, so a \<open>string\<close> (a list of 8-bit characters) models it exactly.
\<close>

section \<open>Strings and bytes\<close>

definition bytes_of :: "string \<Rightarrow> bytes" where
  "bytes_of s = map of_char s"

definition string_of :: "bytes \<Rightarrow> string" where
  "string_of bs = map (\<lambda>b. char_of (unat b)) bs"

lemma unat_byte_less [simp]: "unat (b :: byte) < 256"
  using unsigned_less [of b, where ?'a = nat] by simp

lemma unat_of_char [simp]: "unat (of_char c :: byte) = of_char c"
proof -
  have "unat (of_nat (of_char c) :: byte) = of_char c mod 256"
    by (simp only: unat_of_nat) simp
  then show ?thesis by (simp add: of_nat_of_char)
qed

lemma string_of_bytes_of [simp]: "string_of (bytes_of s) = s"
  by (simp add: string_of_def bytes_of_def comp_def)

lemma bytes_of_string_of [simp]: "bytes_of (string_of bs) = bs"
proof -
  have "of_char (char_of (unat b) :: char) = b" for b :: byte
    by (metis of_char_of mod_less of_nat_of_char unat_byte_less of_nat_unat ucast_id)
  then show ?thesis by (simp add: string_of_def bytes_of_def comp_def)
qed

lemma length_bytes_of [simp]: "length (bytes_of s) = length s"
  by (simp add: bytes_of_def)

lemma length_string_of [simp]: "length (string_of bs) = length bs"
  by (simp add: string_of_def)

lemma bytes_of_append [simp]: "bytes_of (s @ t) = bytes_of s @ bytes_of t"
  by (simp add: bytes_of_def)

lemma bytes_of_inject [simp]: "bytes_of s = bytes_of t \<longleftrightarrow> s = t"
  by (metis string_of_bytes_of)

text \<open>\<^verbatim>\<open>strings.HasPrefix\<close>, \<^verbatim>\<open>strings.TrimPrefix\<close> and \<^verbatim>\<open>strings.TrimSuffix\<close>.\<close>

definition has_prefix :: "string \<Rightarrow> string \<Rightarrow> bool" where
  "has_prefix s p \<longleftrightarrow> take (length p) s = p"

definition has_suffix :: "string \<Rightarrow> string \<Rightarrow> bool" where
  "has_suffix s t \<longleftrightarrow> has_prefix (rev s) (rev t)"

definition trim_prefix :: "string \<Rightarrow> string \<Rightarrow> string" where
  "trim_prefix s p = (if has_prefix s p then drop (length p) s else s)"

lemma trim_prefix_append [simp]: "trim_prefix (p @ s) p = s"
  by (simp add: trim_prefix_def has_prefix_def)

text \<open>
  \<^verbatim>\<open>strings.EqualFold\<close>, by the folding of the ASCII letters. Every comparison of the modelled
  code has a hexadecimal address or the word \<^verbatim>\<open>Create\<close> on one side, and no character outside
  ASCII folds to a letter of these (only k and s have such partners).
\<close>

definition to_lower :: "char \<Rightarrow> char" where
  "to_lower c = (let n = (of_char c :: nat) in if 65 \<le> n \<and> n \<le> 90 then char_of (n + 32) else c)"

definition equal_fold :: "string \<Rightarrow> string \<Rightarrow> bool" where
  "equal_fold s t \<longleftrightarrow> map to_lower s = map to_lower t"

lemma equal_fold_refl [simp]: "equal_fold s s"
  by (simp add: equal_fold_def)

lemma equal_fold_sym: "equal_fold s t \<Longrightarrow> equal_fold t s"
  by (simp add: equal_fold_def)

lemma equal_fold_trans: "equal_fold s t \<Longrightarrow> equal_fold t u \<Longrightarrow> equal_fold s u"
  by (simp add: equal_fold_def)

section \<open>Hexadecimal\<close>

definition hex_digit :: "nat \<Rightarrow> char" where
  "hex_digit n = char_of (if n < 10 then 48 + n else 87 + n)"

text \<open>\<^verbatim>\<open>hex.EncodeToString\<close>: two lower-case digits per byte, the high nibble first.\<close>

fun hex_encode :: "bytes \<Rightarrow> string" where
  "hex_encode [] = []"
| "hex_encode (b # bs) = hex_digit (unat b div 16) # hex_digit (unat b mod 16) # hex_encode bs"

definition from_hex_char :: "char \<Rightarrow> nat option" where
  "from_hex_char c = (let n = (of_char c :: nat) in
     if 48 \<le> n \<and> n \<le> 57 then Some (n - 48)
     else if 97 \<le> n \<and> n \<le> 102 then Some (n - 87)
     else if 65 \<le> n \<and> n \<le> 70 then Some (n - 55)
     else None)"

text \<open>\<^verbatim>\<open>hex.DecodeString\<close>: both cases of digit, an error on any other byte or an odd length.\<close>

fun hex_decode :: "string \<Rightarrow> bytes result" where
  "hex_decode [] = Ok []"
| "hex_decode [c] =
     (case from_hex_char c of None \<Rightarrow> Err (Errorf ''encoding/hex: invalid byte'')
      | Some _ \<Rightarrow> Err (Errorf ''encoding/hex: odd length hex string''))"
| "hex_decode (c # d # cs) =
     (case (from_hex_char c, from_hex_char d) of
        (Some h, Some l) \<Rightarrow> bind_result (hex_decode cs) (\<lambda>bs. Ok (of_nat (16 * h + l) # bs))
      | _ \<Rightarrow> Err (Errorf ''encoding/hex: invalid byte''))"

lemma from_hex_digit: "n < 16 \<Longrightarrow> from_hex_char (hex_digit n) = Some n"
  by (auto simp: from_hex_char_def hex_digit_def Let_def)

lemma hex_decode_encode [simp]: "hex_decode (hex_encode bs) = Ok bs"
proof (induction bs)
  case Nil
  show ?case by simp
next
  case (Cons b bs)
  have "unat b div 16 < 16" using unat_byte_less [of b] by linarith
  then have "from_hex_char (hex_digit (unat b div 16)) = Some (unat b div 16)"
    and "from_hex_char (hex_digit (unat b mod 16)) = Some (unat b mod 16)"
    by (simp_all add: from_hex_digit)
  moreover have "(of_nat (16 * (unat b div 16) + unat b mod 16) :: byte) = b"
    by (simp only: mult_div_mod_eq) simp
  ultimately show ?case using Cons by (simp del: of_nat_add of_nat_mult)
qed

lemma length_hex_encode [simp]: "length (hex_encode bs) = 2 * length bs"
  by (induction bs) simp_all

lemma hex_decode_length: "hex_decode s = Ok bs \<Longrightarrow> length s = 2 * length bs"
  by (induction s arbitrary: bs rule: hex_decode.induct)
    (auto simp: go_simps split: option.splits)

lemma hex_decode_no_panic: "hex_decode s \<noteq> Panic p"
  by (induction s rule: hex_decode.induct) (auto simp: go_simps split: option.splits)

section \<open>Integers in text and in bytes\<close>

text \<open>\<^verbatim>\<open>binary.BigEndian.PutUint64\<close> and \<^verbatim>\<open>binary.LittleEndian.PutUint64\<close> into eight bytes.\<close>

definition put_uint64_le :: "int \<Rightarrow> bytes" where
  "put_uint64_le v = map (\<lambda>i. word_of_int (v div 2 ^ (8 * i))) [0..<8]"

definition put_uint64_be :: "int \<Rightarrow> bytes" where
  "put_uint64_be v = rev (put_uint64_le v)"

lemma length_put_uint64 [simp]: "length (put_uint64_le v) = 8" "length (put_uint64_be v) = 8"
  by (simp_all add: put_uint64_le_def put_uint64_be_def)

text \<open>The decimal of a natural number and of an integer, as \<^verbatim>\<open>strconv.FormatInt\<close> and \<^verbatim>\<open>%d\<close> print them.\<close>

fun format_nat :: "nat \<Rightarrow> string" where
  "format_nat n = (if n < 10 then [char_of (48 + n)]
     else format_nat (n div 10) @ [char_of (48 + n mod 10)])"

declare format_nat.simps [simp del]

definition format_int :: "int \<Rightarrow> string" where
  "format_int i = (if i < 0 then ''-'' @ format_nat (nat (- i)) else format_nat (nat i))"

definition digit_val :: "char \<Rightarrow> nat option" where
  "digit_val c = (let n = (of_char c :: nat) in if 48 \<le> n \<and> n \<le> 57 then Some (n - 48) else None)"

fun parse_digits :: "nat \<Rightarrow> string \<Rightarrow> nat option" where
  "parse_digits acc [] = Some acc"
| "parse_digits acc (c # cs) =
     (case digit_val c of None \<Rightarrow> None | Some d \<Rightarrow> parse_digits (10 * acc + d) cs)"

text \<open>\<^verbatim>\<open>strconv.ParseUint(s, 10, bits)\<close> and \<^verbatim>\<open>strconv.ParseInt(s, 10, bits)\<close>.\<close>

definition parse_uint :: "nat \<Rightarrow> string \<Rightarrow> int result" where
  "parse_uint bits s =
     (if s = [] then Err (Errorf ''strconv: invalid syntax'')
      else case parse_digits 0 s of
        None \<Rightarrow> Err (Errorf ''strconv: invalid syntax'')
      | Some n \<Rightarrow> if int n < 2 ^ bits then Ok (int n)
                  else Err (Errorf ''strconv: value out of range''))"

definition parse_int :: "nat \<Rightarrow> string \<Rightarrow> int result" where
  "parse_int bits s =
     (let neg = has_prefix s ''-'';
          body = (if neg \<or> has_prefix s ''+'' then tl s else s)
      in if body = [] then Err (Errorf ''strconv: invalid syntax'')
         else case parse_digits 0 body of
           None \<Rightarrow> Err (Errorf ''strconv: invalid syntax'')
         | Some n \<Rightarrow>
             if neg then if int n \<le> 2 ^ (bits - 1) then Ok (- int n)
                         else Err (Errorf ''strconv: value out of range'')
             else if int n < 2 ^ (bits - 1) then Ok (int n)
             else Err (Errorf ''strconv: value out of range''))"

lemma parse_digits_append:
  "parse_digits acc (s @ t) =
     (case parse_digits acc s of None \<Rightarrow> None | Some a \<Rightarrow> parse_digits a t)"
  by (induction s arbitrary: acc) (auto split: option.splits)

lemma digit_val_char: "n < 10 \<Longrightarrow> digit_val (char_of (48 + n :: nat)) = Some n"
  by (simp add: digit_val_def Let_def)

lemma parse_format_nat [simp]: "parse_digits 0 (format_nat n) = Some n"
proof (induction n rule: format_nat.induct)
  case (1 n)
  show ?case
  proof (cases "n < 10")
    case True
    then show ?thesis by (simp add: format_nat.simps [of n] digit_val_char)
  next
    case False
    with 1 show ?thesis
      by (simp add: format_nat.simps [of n] parse_digits_append digit_val_char)
  qed
qed

lemma format_nat_not_Nil [simp]: "format_nat n \<noteq> []"
  by (simp add: format_nat.simps [of n])

lemma format_nat_hd_digit: "digit_val (hd (format_nat n)) \<noteq> None"
proof (induction n rule: format_nat.induct)
  case (1 n)
  then show ?case
    by (cases "n < 10") (simp_all add: format_nat.simps [of n] digit_val_char)
qed

lemma format_nat_not_sign:
  "\<not> has_prefix (format_nat n) ''-''" "\<not> has_prefix (format_nat n) ''+''"
proof -
  obtain c cs where c: "format_nat n = c # cs" by (cases "format_nat n") auto
  have "digit_val c \<noteq> None" using format_nat_hd_digit [of n] c by simp
  then have "c \<noteq> CHR ''-''" "c \<noteq> CHR ''+''" by (auto simp: digit_val_def)
  then show "\<not> has_prefix (format_nat n) ''-''" "\<not> has_prefix (format_nat n) ''+''"
    by (auto simp: has_prefix_def c)
qed

lemma parse_format_int: "in_int64 i \<Longrightarrow> parse_int 64 (format_int i) = Ok i"
  by (auto simp: parse_int_def format_int_def in_int64_def Let_def format_nat_not_sign
      has_prefix_def [of "CHR ''-'' # _"])

section \<open>Runes\<close>

text \<open>
  The conversion \<^verbatim>\<open>string(rune(v))\<close> of an \<^verbatim>\<open>int64\<close>: the value is first truncated to 32 bits,
  and a value that is no Unicode scalar value becomes U+FFFD.
\<close>

definition utf8_encode :: "int \<Rightarrow> string" where
  "utf8_encode r =
     (if r < 0x80 then [char_of (nat r)]
      else if r < 0x800 then [char_of (nat (0xC0 + r div 64)), char_of (nat (0x80 + r mod 64))]
      else if r < 0x10000 then
        [char_of (nat (0xE0 + r div 4096)), char_of (nat (0x80 + r div 64 mod 64)),
         char_of (nat (0x80 + r mod 64))]
      else [char_of (nat (0xF0 + r div 262144)), char_of (nat (0x80 + r div 4096 mod 64)),
            char_of (nat (0x80 + r div 64 mod 64)), char_of (nat (0x80 + r mod 64))])"

definition valid_rune :: "int \<Rightarrow> bool" where
  "valid_rune r \<longleftrightarrow> (0 \<le> r \<and> r < 0xD800) \<or> (0xE000 \<le> r \<and> r \<le> 0x10FFFF)"

definition string_of_rune :: "int64 \<Rightarrow> string" where
  "string_of_rune v = (let r = wrap32 v in utf8_encode (if valid_rune r then r else 0xFFFD))"

section \<open>Base64\<close>

text \<open>
  \<^verbatim>\<open>base64.StdEncoding\<close>: three bytes become four digits, the last group is padded with the
  equals sign. Decoding skips carriage returns and line feeds.
\<close>

definition b64_digit :: "nat \<Rightarrow> char" where
  "b64_digit n = char_of (if n < 26 then 65 + n else if n < 52 then 71 + n
     else if n < 62 then n - 4 else if n = 62 then 43 else 47)"

definition b64_val :: "char \<Rightarrow> nat option" where
  "b64_val c = (let n = (of_char c :: nat) in
     if 65 \<le> n \<and> n \<le> 90 then Some (n - 65)
     else if 97 \<le> n \<and> n \<le> 122 then Some (n - 71)
     else if 48 \<le> n \<and> n \<le> 57 then Some (n + 4)
     else if n = 43 then Some 62
     else if n = 47 then Some 63
     else None)"

fun b64_encode :: "bytes \<Rightarrow> string" where
  "b64_encode [] = []"
| "b64_encode [a] =
     [b64_digit (unat a div 4), b64_digit (unat a mod 4 * 16), CHR ''='', CHR ''='']"
| "b64_encode [a, b] =
     [b64_digit (unat a div 4), b64_digit (unat a mod 4 * 16 + unat b div 16),
      b64_digit (unat b mod 16 * 4), CHR ''='']"
| "b64_encode (a # b # c # bs) =
     b64_digit (unat a div 4) # b64_digit (unat a mod 4 * 16 + unat b div 16)
     # b64_digit (unat b mod 16 * 4 + unat c div 64) # b64_digit (unat c mod 64)
     # b64_encode bs"

definition b64_error :: "'a result" where
  "b64_error = Err (Errorf ''illegal base64 data'')"

fun b64_decode_quads :: "string \<Rightarrow> bytes result" where
  "b64_decode_quads [] = Ok []"
| "b64_decode_quads (p # q # r # s # cs) =
     (case (b64_val p, b64_val q) of
        (Some x, Some y) \<Rightarrow>
          if r = CHR ''='' then
            (if s = CHR ''='' \<and> cs = [] then Ok [of_nat (x * 4 + y div 16)] else b64_error)
          else (case b64_val r of
            None \<Rightarrow> b64_error
          | Some z \<Rightarrow>
              if s = CHR ''='' then
                (if cs = [] then Ok [of_nat (x * 4 + y div 16), of_nat (y mod 16 * 16 + z div 4)]
                 else b64_error)
              else (case b64_val s of
                None \<Rightarrow> b64_error
              | Some w \<Rightarrow>
                  bind_result (b64_decode_quads cs)
                    (\<lambda>bs. Ok (of_nat (x * 4 + y div 16) # of_nat (y mod 16 * 16 + z div 4)
                              # of_nat (z mod 4 * 64 + w) # bs))))
      | _ \<Rightarrow> b64_error)"
| "b64_decode_quads _ = b64_error"

definition b64_decode :: "string \<Rightarrow> bytes result" where
  "b64_decode s = b64_decode_quads (filter (\<lambda>c. c \<noteq> char_of (10 :: nat) \<and> c \<noteq> char_of (13 :: nat)) s)"

lemma b64_val_digit: "n < 64 \<Longrightarrow> b64_val (b64_digit n) = Some n"
  by (auto simp: b64_val_def b64_digit_def Let_def)

lemma b64_val_pad: "b64_val (CHR ''='') = None"
  by (simp add: b64_val_def)

lemma b64_digit_not_pad: "n < 64 \<Longrightarrow> b64_digit n \<noteq> CHR ''=''"
  by (metis b64_val_digit b64_val_pad option.distinct(1))

lemma b64_digit_not_eol:
  "n < 64 \<Longrightarrow> b64_digit n \<noteq> char_of (10 :: nat) \<and> b64_digit n \<noteq> char_of (13 :: nat)"
  by (auto simp: b64_digit_def)

lemma b64_pad_not_eol: "CHR ''='' \<noteq> char_of (10 :: nat) \<and> CHR ''='' \<noteq> char_of (13 :: nat)"
  by code_simp

lemma b64_group_bounds:
  "unat (a :: byte) div 4 < 64" "unat (a :: byte) mod 4 * 16 + unat (b :: byte) div 16 < 64"
  "unat (b :: byte) mod 16 * 4 + unat (c :: byte) div 64 < 64"
  "unat (a :: byte) mod 4 * 16 < 64" "unat (b :: byte) mod 16 * 4 < 64"
  using unat_byte_less [of a] unat_byte_less [of b] unat_byte_less [of c] by linarith+

lemma b64_regroup:
  "unat (b :: byte) div 16 div 16 = 0" "unat (b :: byte) div 16 mod 16 = unat b div 16"
  "unat (b :: byte) div 64 div 4 = 0" "unat (b :: byte) div 64 mod 4 = unat b div 64"
proof -
  have "unat b div 16 < 16" "unat b div 64 < 4"
    using unat_byte_less [of b] by linarith+
  then show "unat b div 16 div 16 = 0" "unat b div 16 mod 16 = unat b div 16"
    "unat b div 64 div 4 = 0" "unat b div 64 mod 4 = unat b div 64"
    by simp_all
qed

lemma b64_decode_quads_encode: "b64_decode_quads (b64_encode bs) = Ok bs"
  by (induction bs rule: b64_encode.induct)
    (simp_all add: b64_val_digit b64_digit_not_pad b64_group_bounds b64_regroup
      del: of_nat_add of_nat_mult)

lemma b64_encode_no_eol:
  "filter (\<lambda>c. c \<noteq> char_of (10 :: nat) \<and> c \<noteq> char_of (13 :: nat)) (b64_encode bs) = b64_encode bs"
  by (induction bs rule: b64_encode.induct)
    (simp_all add: b64_digit_not_eol b64_group_bounds b64_pad_not_eol)

lemma b64_decode_encode [simp]: "b64_decode (b64_encode bs) = Ok bs"
  by (simp add: b64_decode_def b64_encode_no_eol b64_decode_quads_encode)

lemma b64_decode_no_panic: "b64_decode s \<noteq> Panic p"
proof -
  have "b64_decode_quads t \<noteq> Panic p" for t
    by (induction t rule: b64_decode_quads.induct)
      (auto simp: b64_error_def go_simps split: option.splits)
  then show ?thesis by (simp add: b64_decode_def)
qed

lemma digits256_inject:
  fixes v w :: int
  assumes "\<forall>i < n. (v div 256 ^ i) mod 256 = (w div 256 ^ i) mod 256"
  shows "v mod 256 ^ n = w mod 256 ^ n"
  using assms
proof (induction n)
  case 0
  show ?case by simp
next
  case (Suc n)
  have split: "u mod 256 ^ Suc n = 256 ^ n * ((u div 256 ^ n) mod 256) + u mod 256 ^ n" for u :: int
    using zmod_zmult2_eq [of 256 u "256 ^ n"] by (simp add: mult.commute)
  from Suc show ?case unfolding split by simp
qed

lemma put_uint64_le_inject:
  assumes "0 \<le> v" "v < 2 ^ 64" "0 \<le> w" "w < 2 ^ 64" and "put_uint64_le v = put_uint64_le w"
  shows "v = w"
proof -
  have "(v div 256 ^ i) mod 256 = (w div 256 ^ i) mod 256" if "i < 8" for i
  proof -
    have "put_uint64_le v ! i = put_uint64_le w ! i" using assms(5) by simp
    with that have "(word_of_int (v div 2 ^ (8 * i)) :: byte) = word_of_int (w div 2 ^ (8 * i))"
      by (simp add: put_uint64_le_def)
    then have "uint (word_of_int (v div 2 ^ (8 * i)) :: byte) = uint (word_of_int (w div 2 ^ (8 * i)) :: byte)"
      by simp
    then show ?thesis by (simp add: uint_word_of_int power_mult)
  qed
  then have "v mod 256 ^ 8 = w mod 256 ^ 8" by (intro digits256_inject) simp
  with assms show ?thesis by simp
qed

lemma split_first_inject:
  "c \<notin> set s \<Longrightarrow> c \<notin> set s' \<Longrightarrow> s @ c # t = s' @ c # t' \<Longrightarrow> s = s' \<and> t = t'"
proof (induction s arbitrary: s')
  case Nil
  then show ?case by (cases s') auto
next
  case (Cons d s)
  then show ?case by (cases s') auto
qed

section \<open>Decimals of a fixed width\<close>

text \<open>Decimals of a fixed width, most significant digit first.\<close>

fun digits :: "nat \<Rightarrow> nat \<Rightarrow> string" where
  "digits 0 n = []"
| "digits (Suc w) n = digits w (n div 10) @ [char_of (48 + n mod 10)]"

lemma length_digits [simp]: "length (digits w n) = w"
  by (induction w arbitrary: n) simp_all

lemma char_zero: "char_of (48 :: nat) = CHR ''0''"
  by code_simp

lemma digits_zero: "digits w 0 = replicate w (CHR ''0'')"
  by (induction w) (simp_all add: replicate_append_same char_zero)

lemma pad_digits: "n < 10 ^ w \<Longrightarrow> 0 < w \<Longrightarrow> replicate (w - length (format_nat n)) (CHR ''0'') @ format_nat n = digits w n"
proof (induction w arbitrary: n)
  case (Suc w)
  show ?case
  proof (cases "n < 10")
    case True
    then show ?thesis by (simp add: format_nat.simps [of n] digits_zero)
  next
    case False
    with Suc.prems have "n div 10 < 10 ^ w" "0 < w"
      by (auto simp: less_mult_imp_div_less mult.commute intro: gr0I)
    from Suc.IH [OF this] False show ?thesis by (simp add: format_nat.simps [of n])
  qed
qed simp

lemma list_less_append: "length a = length b \<Longrightarrow> (a :: 'a :: linorder list) < b \<Longrightarrow> a @ c < b @ d"
proof (induction a b rule: list_induct2)
  case (Cons x xs y ys)
  then show ?case by (auto simp: Cons_less_Cons)
qed simp

lemma list_less_same_prefix: "(a @ c < a @ d) \<longleftrightarrow> (c :: 'a :: linorder list) < d"
  by (induction a) simp_all

lemma digit_char_less: "a < 10 \<Longrightarrow> b < 10 \<Longrightarrow> a < b \<Longrightarrow> char_of (48 + a :: nat) < char_of (48 + b)"
  by (simp add: less_char_def)

lemma digits_less: "a < b \<Longrightarrow> b < 10 ^ w \<Longrightarrow> digits w a < digits w b"
proof (induction w arbitrary: a b)
  case (Suc w)
  show ?case
  proof (cases "a div 10 = b div 10")
    case True
    with Suc.prems have "a mod 10 < b mod 10" by (metis div_mult_mod_eq nat_add_left_cancel_less)
    with True show ?thesis by (simp add: list_less_same_prefix digit_char_less)
  next
    case False
    with Suc.prems have "a div 10 < b div 10" "b div 10 < 10 ^ w"
      by (auto simp: div_le_mono le_neq_implies_less less_mult_imp_div_less mult.commute)
    from Suc.IH [OF this] show ?thesis by (simp add: list_less_append)
  qed
qed simp

end
