(* ===== verification/Chain_Types.thy ===== *)
theory Chain_Types
  imports Encoding
begin

text \<open>
  The messages of the chain (the Go structs generated from \<^verbatim>\<open>proto/core/v1\<close>, \<^verbatim>\<open>core/v1beta1\<close> and
  \<^verbatim>\<open>ddex/v1beta1\<close>), the part of the configuration the modelled code reads, and the record of
  functions the program takes from third-party packages. A pointer field that may be nil is
  an option; a oneof is a datatype with one constructor per alternative.
\<close>

section \<open>Version 1 messages\<close>

record timestamp =
  ts_seconds :: int64
  ts_nanos :: int

record track_play =
  tp_user_id :: string
  tp_track_id :: string
  tp_timestamp :: "timestamp option"
  tp_signature :: string
  tp_city :: string
  tp_region :: string
  tp_country :: string

record validator_registration_legacy =
  vrl_endpoint :: string
  vrl_comet_address :: string
  vrl_eth_block :: string
  vrl_node_type :: string
  vrl_sp_id :: string
  vrl_pub_key :: bytes
  vrl_power :: int64

record sla_node_report_msg =
  snr_address :: string
  snr_num_blocks_proposed :: int

record sla_rollup_msg =
  sr_timestamp :: "timestamp option"
  sr_block_start :: int64
  sr_block_end :: int64
  sr_reports :: "sla_node_report_msg list"

record manage_entity_legacy =
  me_user_id :: int64
  me_entity_type :: string
  me_entity_id :: int64
  me_action :: string
  me_metadata :: string
  me_signature :: string
  me_signer :: string
  me_nonce :: string

record misbehavior_deregistration =
  vmd_comet_address :: string
  vmd_pub_key :: bytes

record storage_proof_msg =
  sp_height :: int64
  sp_address :: string
  sp_prover_addresses :: "string list"
  sp_cid :: string
  sp_proof_signature :: bytes

record storage_proof_verification_msg =
  spv_height :: int64
  spv_proof :: bytes

record validator_registration =
  vr_delegate_wallet :: string
  vr_endpoint :: string
  vr_node_type :: string
  vr_sp_id :: string
  vr_eth_block :: int64
  vr_comet_address :: string
  vr_pub_key :: bytes
  vr_power :: int64
  vr_deadline :: int64

record validator_deregistration =
  vd_comet_address :: string
  vd_pub_key :: bytes
  vd_deadline :: int64

datatype attestation_body =
    AttRegistration validator_registration
  | AttDeregistration validator_deregistration

record attestation =
  att_signatures :: "string list"
  att_body :: "attestation_body option"

record claim_authority =
  ca_address :: string
  ca_name :: string

record create_reward =
  cr_reward_id :: string
  cr_name :: string
  cr_amount :: int
  cr_claim_authorities :: "claim_authority list"
  cr_deadline_block_height :: int64
  cr_signature :: string

record delete_reward =
  dr_address :: string
  dr_deadline_block_height :: int64
  dr_signature :: string

datatype reward_action = RewardCreate create_reward | RewardDelete delete_reward

record file_upload =
  fu_uploader_address :: string
  fu_upload_signature :: string
  fu_cid :: string
  fu_upload_id :: string
  fu_transcoded_cid :: string
  fu_validator_address :: string
  fu_validator_signature :: string

section \<open>DDEX messages\<close>

text \<open>
  The fields of an ERN message the code reads. MEAD and PIE messages, deals and the parts of
  a message that are only marshalled are opaque byte strings here.
\<close>

datatype message_control_type =
  ControlUnspecified | ControlNew | ControlUpdated | ControlTakedown | ControlTest | ControlOther int

record proprietary_id =
  pid_namespace :: string
  pid_id :: string

record party_id =
  party_proprietary_ids :: "proprietary_id list"

record message_sender =
  ms_party_id :: "party_id option"

record message_header =
  mh_message_id :: string
  mh_sender :: "message_sender option"
  mh_control_type :: "message_control_type option"

record file_msg =
  f_uri :: string

record delivery_file =
  df_file :: "file_msg option"

record technical_details =
  td_delivery_file :: "delivery_file option"

record sound_recording_edition =
  sre_technical_details :: "technical_details option"

record sound_recording =
  snd_reference :: string
  snd_edition :: "sound_recording_edition option"

datatype ern_resource = ResSound sound_recording | ResImage string | ResNone

datatype ern_release = RelMain string | RelTrack string | RelNone

record new_release_message =
  nrm_header :: "message_header option"
  nrm_party_list :: "string list"
  nrm_resource_list :: "ern_resource list"
  nrm_release_list :: "ern_release list"
  nrm_deal_list :: "bytes list"

record new_release_message_ack =
  ack_ern_address :: string
  ack_party_addresses :: "string list"
  ack_resource_addresses :: "string list"
  ack_release_addresses :: "string list"
  ack_deal_addresses :: "string list"

datatype mead_message = MeadMessage bytes

datatype pie_message = PieMessage bytes

section \<open>Transactions\<close>

datatype tx_body =
    TxPlays "track_play list"
  | TxLegacyRegistration validator_registration_legacy
  | TxSlaRollup sla_rollup_msg
  | TxManageEntity manage_entity_legacy
  | TxMisbehaviorDeregistration misbehavior_deregistration
  | TxStorageProof storage_proof_msg
  | TxStorageProofVerification storage_proof_verification_msg
  | TxAttestation attestation
  | TxRelease new_release_message
  | TxReward "reward_action option"
  | TxFileUpload file_upload

record signed_transaction =
  st_signature :: string
  st_request_id :: string
  st_transaction :: "tx_body option"

record envelope_header =
  eh_chain_id :: string
  eh_expiration :: int64
  eh_nonce :: string
  eh_from :: string
  eh_to :: string

datatype v2_message =
  V2Ern new_release_message | V2Mead mead_message | V2Pie pie_message | V2None

record envelope =
  env_header :: "envelope_header option"
  env_messages :: "v2_message list"

record v2_transaction =
  v2_signature :: bytes
  v2_envelope :: "envelope option"

text \<open>The getters of the generated code: the alternative of the oneof, or nil.\<close>

definition get_attestation :: "signed_transaction \<Rightarrow> attestation option" where
  "get_attestation tx = (case st_transaction tx of Some (TxAttestation a) \<Rightarrow> Some a | _ \<Rightarrow> None)"

definition att_registration :: "attestation \<Rightarrow> validator_registration option" where
  "att_registration a = (case att_body a of Some (AttRegistration r) \<Rightarrow> Some r | _ \<Rightarrow> None)"

definition att_deregistration :: "attestation \<Rightarrow> validator_deregistration option" where
  "att_deregistration a = (case att_body a of Some (AttDeregistration r) \<Rightarrow> Some r | _ \<Rightarrow> None)"

definition get_legacy_registration :: "signed_transaction \<Rightarrow> validator_registration_legacy option" where
  "get_legacy_registration tx =
     (case st_transaction tx of Some (TxLegacyRegistration r) \<Rightarrow> Some r | _ \<Rightarrow> None)"

definition get_misbehavior_deregistration :: "signed_transaction \<Rightarrow> misbehavior_deregistration option" where
  "get_misbehavior_deregistration tx =
     (case st_transaction tx of Some (TxMisbehaviorDeregistration r) \<Rightarrow> Some r | _ \<Rightarrow> None)"

definition get_storage_proof :: "signed_transaction \<Rightarrow> storage_proof_msg option" where
  "get_storage_proof tx = (case st_transaction tx of Some (TxStorageProof r) \<Rightarrow> Some r | _ \<Rightarrow> None)"

definition get_storage_proof_verification ::
    "signed_transaction \<Rightarrow> storage_proof_verification_msg option" where
  "get_storage_proof_verification tx =
     (case st_transaction tx of Some (TxStorageProofVerification r) \<Rightarrow> Some r | _ \<Rightarrow> None)"

definition get_manage_entity :: "signed_transaction \<Rightarrow> manage_entity_legacy option" where
  "get_manage_entity tx = (case st_transaction tx of Some (TxManageEntity r) \<Rightarrow> Some r | _ \<Rightarrow> None)"

definition get_plays :: "signed_transaction \<Rightarrow> track_play list option" where
  "get_plays tx = (case st_transaction tx of Some (TxPlays r) \<Rightarrow> Some r | _ \<Rightarrow> None)"

definition get_file_upload :: "signed_transaction \<Rightarrow> file_upload option" where
  "get_file_upload tx = (case st_transaction tx of Some (TxFileUpload r) \<Rightarrow> Some r | _ \<Rightarrow> None)"

definition get_reward :: "signed_transaction \<Rightarrow> reward_action option option" where
  "get_reward tx = (case st_transaction tx of Some (TxReward r) \<Rightarrow> Some r | _ \<Rightarrow> None)"

definition get_ern :: "v2_message \<Rightarrow> new_release_message option" where
  "get_ern m = (case m of V2Ern e \<Rightarrow> Some e | _ \<Rightarrow> None)"

definition get_mead :: "v2_message \<Rightarrow> mead_message option" where
  "get_mead m = (case m of V2Mead e \<Rightarrow> Some e | _ \<Rightarrow> None)"

definition get_pie :: "v2_message \<Rightarrow> pie_message option" where
  "get_pie m = (case m of V2Pie e \<Rightarrow> Some e | _ \<Rightarrow> None)"

lemmas getter_defs = get_attestation_def att_registration_def att_deregistration_def
  get_legacy_registration_def get_misbehavior_deregistration_def get_storage_proof_def
  get_storage_proof_verification_def get_manage_entity_def get_plays_def get_file_upload_def
  get_reward_def get_ern_def get_mead_def get_pie_def

section \<open>Configuration and third-party functions\<close>

record state_sync_config =
  ss_ServeSnapshots :: bool
  ss_Keep :: int
  ss_BlockInterval :: int64

record core_config =
  cfg_ChainID :: string
  cfg_Environment :: string
  cfg_WalletAddress :: string
  cfg_ProposerAddress :: string
  cfg_NodeEndpoint :: string
  cfg_Archive :: bool
  cfg_RetainHeight :: int64
  cfg_SlaRollupInterval :: int64
  cfg_ValidatorVotingPower :: int64
  cfg_AttRegistrationMin :: int64
  cfg_AttRegistrationRSize :: int64
  cfg_AttDeregistrationMin :: int64
  cfg_AttDeregistrationRSize :: int64
  cfg_ProgrammableDistributionEnabled :: bool
  cfg_EthereumKey :: string
  cfg_StateSync :: state_sync_config

text \<open>
  The functions of packages outside the repository: hashes, the secp256k1 and ed25519
  primitives, CometBFT's addresses and transaction hash, and protobuf marshalling.
  \<open>x_ed25519_address\<close> is None where CometBFT's \<^verbatim>\<open>PubKey.Address\<close> panics (a key that is not
  32 bytes long); a marshaller is None where \<^verbatim>\<open>proto.Marshal\<close> returns an error.
\<close>

record ext =
  x_sha256 :: "bytes \<Rightarrow> bytes"
  x_keccak256 :: "bytes \<Rightarrow> bytes"
  x_SigToPub :: "bytes \<Rightarrow> bytes \<Rightarrow> bytes option"
  x_PubkeyToAddress :: "bytes \<Rightarrow> string"
  x_CompressPubkey :: "bytes \<Rightarrow> bytes"
  x_Sign :: "bytes \<Rightarrow> string \<Rightarrow> bytes option"
  x_IsHexAddress :: "string \<Rightarrow> bool"
  x_ed25519_address :: "bytes \<Rightarrow> string option"
  x_ed25519_verify :: "bytes \<Rightarrow> bytes \<Rightarrow> bytes \<Rightarrow> bool"
  x_address_string :: "bytes \<Rightarrow> string"
  x_tx_hash :: "bytes \<Rightarrow> string"
  x_unmarshal_signed :: "bytes \<Rightarrow> signed_transaction option"
  x_marshal_signed :: "signed_transaction \<Rightarrow> bytes option"
  x_unmarshal_v2 :: "bytes \<Rightarrow> v2_transaction option"
  x_marshal_v2 :: "v2_transaction \<Rightarrow> bytes option"
  x_marshal_attestation :: "attestation \<Rightarrow> bytes option"
  x_marshal_registration :: "validator_registration \<Rightarrow> bytes option"
  x_marshal_deregistration :: "validator_deregistration \<Rightarrow> bytes option"
  x_marshal_legacy_registration :: "validator_registration_legacy \<Rightarrow> bytes option"
  x_marshal_misbehavior :: "misbehavior_deregistration \<Rightarrow> bytes option"
  x_marshal_storage_proof :: "storage_proof_msg \<Rightarrow> bytes option"
  x_marshal_storage_proof_verification :: "storage_proof_verification_msg \<Rightarrow> bytes option"
  x_marshal_upload_signature :: "string \<Rightarrow> bytes option"
  x_marshal_create_reward :: "create_reward \<Rightarrow> bytes option"
  x_marshal_ern :: "new_release_message \<Rightarrow> bytes option"
  x_marshal_ern_ack :: "new_release_message_ack \<Rightarrow> bytes option"
  x_marshal_mead :: "mead_message \<Rightarrow> bytes option"
  x_marshal_mead_ack :: "string \<Rightarrow> bytes option"
  x_marshal_pie :: "pie_message \<Rightarrow> bytes option"
  x_marshal_pie_ack :: "string \<Rightarrow> bytes option"
  x_deal_string :: "bytes \<Rightarrow> string"

text \<open>\<^verbatim>\<open>proto.Marshal\<close> as a Go call.\<close>

definition marshal :: "('m \<Rightarrow> bytes option) \<Rightarrow> 'm \<Rightarrow> bytes result" where
  "marshal enc m = (case enc m of None \<Rightarrow> Err (Errorf ''proto: marshal error'') | Some b \<Rightarrow> Ok b)"

lemma marshal_eq_Ok [go_simps]: "marshal enc m = Ok b \<longleftrightarrow> enc m = Some b"
  by (auto simp: marshal_def split: option.splits)

lemma marshal_no_panic [simp]: "marshal enc m \<noteq> Panic p"
  by (auto simp: marshal_def split: option.splits)

text \<open>The address of an ed25519 key, with the panic of the CometBFT package as a result.\<close>

definition ed25519_address :: "ext \<Rightarrow> bytes \<Rightarrow> string result" where
  "ed25519_address x k =
     (case x_ed25519_address x k of None \<Rightarrow> Panic ''pubkey is incorrect size'' | Some a \<Rightarrow> Ok a)"

lemma ed25519_address_eq_Ok [go_simps]: "ed25519_address x k = Ok a \<longleftrightarrow> x_ed25519_address x k = Some a"
  by (auto simp: ed25519_address_def split: option.splits)

section \<open>Concrete instances for evaluation\<close>

text \<open>
  A transparent instance of the third-party functions, used to evaluate the model on
  concrete inputs: a hash pads or cuts its input to 32 bytes, a signature is a public key,
  an address is the text of the key, and the marshallers write the fields the examples vary.
\<close>

definition pad32 :: "bytes \<Rightarrow> bytes" where
  "pad32 bs = take 32 (bs @ replicate 32 0)"

definition demo_ext :: ext where
  "demo_ext = \<lparr>x_sha256 = pad32, x_keccak256 = pad32,
     x_SigToPub = (\<lambda>h s. if s = [] then None else Some s),
     x_PubkeyToAddress = string_of, x_CompressPubkey = id,
     x_Sign = (\<lambda>h k. Some (bytes_of k)), x_IsHexAddress = (\<lambda>s. s \<noteq> []),
     x_ed25519_address = (\<lambda>k. if length k = 32 then Some (hex_encode (take 2 k)) else None),
     x_ed25519_verify = (\<lambda>k m s. s = k @ m),
     x_address_string = hex_encode, x_tx_hash = hex_encode \<circ> pad32,
     x_unmarshal_signed = (\<lambda>_. None), x_marshal_signed = (\<lambda>_. Some []),
     x_unmarshal_v2 = (\<lambda>_. None), x_marshal_v2 = (\<lambda>_. Some []),
     x_marshal_attestation = (\<lambda>_. Some []),
     x_marshal_registration = (\<lambda>_. Some []), x_marshal_deregistration = (\<lambda>_. Some []),
     x_marshal_legacy_registration = (\<lambda>_. Some []), x_marshal_misbehavior = (\<lambda>_. Some []),
     x_marshal_storage_proof = (\<lambda>_. Some []), x_marshal_storage_proof_verification = (\<lambda>_. Some []),
     x_marshal_upload_signature = (\<lambda>s. Some (bytes_of s)), x_marshal_create_reward = (\<lambda>_. Some []),
     x_marshal_ern = (\<lambda>_. Some []), x_marshal_ern_ack = (\<lambda>_. Some []),
     x_marshal_mead = (\<lambda>m. case m of MeadMessage b \<Rightarrow> Some b), x_marshal_mead_ack = (\<lambda>s. Some (bytes_of s)),
     x_marshal_pie = (\<lambda>m. case m of PieMessage b \<Rightarrow> Some b), x_marshal_pie_ack = (\<lambda>s. Some (bytes_of s)),
     x_deal_string = string_of\<rparr>"

definition demo_config :: core_config where
  "demo_config = \<lparr>cfg_ChainID = ''audius'', cfg_Environment = ''dev'',
     cfg_WalletAddress = ''0xself'', cfg_ProposerAddress = ''AA'', cfg_NodeEndpoint = ''https://self'',
     cfg_Archive = False, cfg_RetainHeight = 200, cfg_SlaRollupInterval = 10,
     cfg_ValidatorVotingPower = 10, cfg_AttRegistrationMin = 1, cfg_AttRegistrationRSize = 2,
     cfg_AttDeregistrationMin = 1, cfg_AttDeregistrationRSize = 2,
     cfg_ProgrammableDistributionEnabled = True, cfg_EthereumKey = ''key'',
     cfg_StateSync = \<lparr>ss_ServeSnapshots = True, ss_Keep = 2, ss_BlockInterval = 100\<rparr>\<rparr>"

end
