(* ===== verification/Tx_Order.thy ===== *)
theory Tx_Order
  imports Chain_Types
begin

unbundle bit_operations_syntax

text \<open>
  The order in which the API lists the transactions of a block (\<^verbatim>\<open>pkg/core/server/tx.go\<close>):
  the comparison handed to \<^verbatim>\<open>sort.SliceStable\<close> and the FNV-1a hash it falls back on.
\<close>

definition stringToUint32 :: "string \<Rightarrow> 32 word" where
  "stringToUint32 s = fold (\<lambda>b h. (h XOR ucast b) * 16777619) (bytes_of s) 2166136261"

definition isStringGreater :: "string \<Rightarrow> string \<Rightarrow> bool" where
  "isStringGreater a b \<longleftrightarrow> stringToUint32 a > stringToUint32 b"

definition isCreateAction :: "string \<Rightarrow> bool" where
  "isCreateAction action \<longleftrightarrow> equal_fold action ''Create''"

definition getTransactionType :: "signed_transaction \<Rightarrow> string" where
  "getTransactionType tx =
     (if get_manage_entity tx \<noteq> None then ''manage''
      else if get_plays tx \<noteq> None then ''play'' else ''other'')"

definition is_create :: "signed_transaction \<Rightarrow> bool" where
  "is_create tx = isCreateAction (case get_manage_entity tx of None \<Rightarrow> '''' | Some m \<Rightarrow> me_action m)"

text \<open>The comparison of \<^verbatim>\<open>sortTransactionResponse\<close>.\<close>

definition tx_less :: "signed_transaction \<Rightarrow> signed_transaction \<Rightarrow> bool" where
  "tx_less one two =
     (if getTransactionType one \<noteq> getTransactionType two then getTransactionType one = ''manage''
      else if getTransactionType one = ''manage'' \<and> is_create one \<noteq> is_create two then is_create one
      else isStringGreater (st_signature one) (st_signature two))"

lemma fnv_vectors:
  "stringToUint32 '''' = 0x811c9dc5" "stringToUint32 ''a'' = 0xe40c292c" "stringToUint32 ''foobar'' = 0xbf9cf968"
  by (code_simp, code_simp, code_simp)

text \<open>Transactions the comparison cannot tell apart.\<close>

definition tx_tied :: "signed_transaction \<Rightarrow> signed_transaction \<Rightarrow> bool" where
  "tx_tied one two \<longleftrightarrow> \<not> tx_less one two \<and> \<not> tx_less two one"

text \<open>
  The comparison is a strict partial order that puts entity management first and creations
  first among it; on lists without both plays and other transactions its ties are transitive,
  as a stable sort requires, and on mixed lists they are not: two plays can be ordered while
  each is tied with a third transaction, so the sorted order depends on the order of the input.
\<close>

theorem tx_order_strict_but_not_weak:
  "(\<not> tx_less a a) \<and> (tx_less a b \<longrightarrow> \<not> tx_less b a) \<and> (tx_less a b \<and> tx_less b c \<longrightarrow> tx_less a c)
   \<and> (getTransactionType a = ''manage'' \<and> getTransactionType b \<noteq> ''manage'' \<longrightarrow> tx_less a b)
   \<and> ((getTransactionType ` {a, b, c} \<subseteq> {''manage'', ''play''} \<or> getTransactionType ` {a, b, c} \<subseteq> {''manage'', ''other''})
       \<and> tx_tied a b \<and> tx_tied b c \<longrightarrow> tx_tied a c)
   \<and> (\<exists>a b c. tx_tied a b \<and> tx_tied b c \<and> \<not> tx_tied a c)"
proof (intro conjI)
  let ?play = "\<lambda>s. \<lparr>st_signature = s, st_request_id = '''', st_transaction = Some (TxPlays [])\<rparr>"
  let ?rollup = "\<lparr>st_signature = '''', st_request_id = '''', st_transaction = None\<rparr>"
  have hash: "stringToUint32 ''a'' = 0xe40c292c" "stringToUint32 '''' = 0x811c9dc5" by (rule fnv_vectors)+
  have "tx_tied (?play ''a'') ?rollup" "tx_tied ?rollup (?play '''')" "\<not> tx_tied (?play ''a'') (?play '''')"
    by (simp_all add: tx_tied_def tx_less_def getTransactionType_def getter_defs isStringGreater_def hash)
  then show "\<exists>a b c. tx_tied a b \<and> tx_tied b c \<and> \<not> tx_tied a c" by blast
qed (auto simp: tx_less_def tx_tied_def isStringGreater_def split: if_splits)

theorem tx_order_strict_but_not_weak_witness:
  "tx_less \<lparr>st_signature = '''', st_request_id = '''', st_transaction = Some (TxManageEntity
       \<lparr>me_user_id = 1, me_entity_type = '''', me_entity_id = 1, me_action = ''create'', me_metadata = '''',
        me_signature = '''', me_signer = '''', me_nonce = ''''\<rparr>)\<rparr>
     \<lparr>st_signature = ''a'', st_request_id = '''', st_transaction = Some (TxPlays [])\<rparr>"
  by (rule tx_order_strict_but_not_weak [THEN conjunct2, THEN conjunct2, THEN conjunct2, THEN conjunct1, rule_format])
    (simp add: getTransactionType_def getter_defs)

end
