(* ===== verification/Core_Db.thy ===== *)
theory Core_Db
  imports Chain_Types
begin

text \<open>
  The tables of the core database with the statements the modelled code issues
  (\<^verbatim>\<open>pkg/core/db\<close>: \<^verbatim>\<open>models.go\<close>, \<^verbatim>\<open>reads.sql.go\<close>, \<^verbatim>\<open>writes.sql.go\<close>), and PostgreSQL transactions: a
  failing statement aborts its transaction, later statements of it are refused, and
  committing it rolls it back. The columns that the code never reads (serial row
  numbers, creation times filled in by the server) are left out.
\<close>

section \<open>Tables\<close>

datatype proof_status = ProofUnresolved | ProofPass | ProofFail

datatype validator_event_type = EventRegistered | EventDeregistered

record validator_row =
  v_pub_key :: string
  v_endpoint :: string
  v_eth_address :: string
  v_comet_address :: string
  v_comet_pub_key :: string
  v_eth_block :: string
  v_node_type :: string
  v_sp_id :: string

record validator_history_row =
  vh_endpoint :: string
  vh_eth_address :: string
  vh_comet_address :: string
  vh_sp_id :: int64
  vh_service_type :: string
  vh_event_type :: validator_event_type
  vh_event_time :: int
  vh_event_block :: int64

record app_state_row =
  as_block_height :: int64
  as_app_hash :: bytes

record block_row =
  b_height :: int64
  b_chain_id :: string
  b_hash :: string
  b_proposer :: string
  b_created_at :: int

record transaction_row =
  t_block_id :: int64
  t_index :: int
  t_tx_hash :: string
  t_transaction :: bytes
  t_created_at :: int

record tx_stat_row =
  tst_tx_type :: string
  tst_tx_hash :: string
  tst_block_height :: int64
  tst_created_at :: int

record sla_rollup_row =
  sl_id :: int
  sl_tx_hash :: string
  sl_block_start :: int64
  sl_block_end :: int64
  sl_time :: int

record sla_node_report_row =
  nr_address :: string
  nr_blocks_proposed :: int
  nr_sla_rollup_id :: "int option"

record storage_proof_row =
  spr_block_height :: int64
  spr_address :: string
  spr_cid :: "string option"
  spr_proof_signature :: "string option"
  spr_proof :: "string option"
  spr_prover_addresses :: "string list"
  spr_status :: proof_status

record storage_proof_peers_row =
  spp_block_height :: int64
  spp_prover_addresses :: "string list"

record entity_row =
  e_address :: string
  e_ern_address :: string
  e_entity_type :: string
  e_entity_index :: int
  e_tx_hash :: string
  e_block_height :: int64

record ern_row =
  er_address :: string
  er_tx_hash :: string
  er_index :: int64
  er_sender :: string
  er_message_control_type :: int
  er_raw_message :: bytes
  er_raw_acknowledgment :: bytes
  er_block_height :: int64

record mead_pie_row =
  mq_address :: string
  mq_tx_hash :: string
  mq_index :: int64
  mq_sender :: string
  mq_raw_message :: bytes
  mq_raw_acknowledgment :: bytes
  mq_block_height :: int64

record reward_row =
  rw_address :: string
  rw_tx_hash :: string
  rw_index :: int64
  rw_sender :: string
  rw_reward_id :: string
  rw_name :: string
  rw_amount :: int64
  rw_claim_authorities :: "string list"
  rw_raw_message :: bytes
  rw_block_height :: int64

record upload_row =
  up_uploader_address :: string
  up_cid :: string
  up_transcoded_cid :: string
  up_upid :: string
  up_upload_signature :: string
  up_validator_address :: string
  up_validator_signature :: string
  up_tx_hash :: string
  up_block_height :: int64

text \<open>
  The database. \<open>db_fault\<close> names the queries that fail for reasons of the connection or of the
  server; \<open>seq_sla_rollups\<close> is the sequence behind \<^verbatim>\<open>sla_rollups.id\<close>, which a rollback does not
  reset.
\<close>

record core_db =
  core_validators :: "validator_row list"
  validator_history :: "validator_history_row list"
  core_app_state :: "app_state_row list"
  core_blocks :: "block_row list"
  core_transactions :: "transaction_row list"
  core_tx_stats :: "tx_stat_row list"
  sla_rollups :: "sla_rollup_row list"
  sla_node_reports :: "sla_node_report_row list"
  storage_proofs :: "storage_proof_row list"
  storage_proof_peers :: "storage_proof_peers_row list"
  core_ern :: "ern_row list"
  core_parties :: "entity_row list"
  core_resources :: "entity_row list"
  core_releases :: "entity_row list"
  core_deals :: "entity_row list"
  core_mead :: "mead_pie_row list"
  core_pie :: "mead_pie_row list"
  core_rewards :: "reward_row list"
  core_uploads :: "upload_row list"
  seq_sla_rollups :: int
  db_fault :: "string \<Rightarrow> bool"

definition empty_db :: core_db where
  "empty_db = \<lparr>core_validators = [], validator_history = [], core_app_state = [], core_blocks = [],
     core_transactions = [], core_tx_stats = [], sla_rollups = [], sla_node_reports = [],
     storage_proofs = [], storage_proof_peers = [], core_ern = [], core_parties = [],
     core_resources = [], core_releases = [], core_deals = [], core_mead = [], core_pie = [],
     core_rewards = [], core_uploads = [], seq_sla_rollups = 1, db_fault = (\<lambda>_. False)\<rparr>"

text \<open>Times are stored as microseconds since the epoch; a nil timestamp is the epoch.\<close>

definition pg_time :: "timestamp option \<Rightarrow> int" where
  "pg_time t = (case t of None \<Rightarrow> 0 | Some ts \<Rightarrow> ts_seconds ts * 1000000 + ts_nanos ts div 1000)"

section \<open>Statements\<close>

text \<open>
  A transaction that was committed or rolled back is closed. It refuses statements as an
  aborted one does, so that \<open>tx_aborted\<close> is set with \<open>tx_closed\<close>.
\<close>

record pgtx =
  tx_db :: core_db
  tx_aborted :: bool
  tx_closed :: bool

type_synonym 'a stmt = "pgtx \<Rightarrow> 'a result \<times> pgtx"

definition stmt_return :: "'a \<Rightarrow> 'a stmt" where
  "stmt_return a tx = (Ok a, tx)"

definition stmt_lift :: "'a result \<Rightarrow> 'a stmt" where
  "stmt_lift r tx = (r, tx)"

definition stmt_bind :: "'a stmt \<Rightarrow> ('a \<Rightarrow> 'b stmt) \<Rightarrow> 'b stmt" where
  "stmt_bind s f tx =
     (case s tx of (Ok a, tx') \<Rightarrow> f a tx' | (Err e, tx') \<Rightarrow> (Err e, tx') | (Panic p, tx') \<Rightarrow> (Panic p, tx'))"

text \<open>The outcome of a statement as a value, for code that looks at the error.\<close>

definition stmt_try :: "'a stmt \<Rightarrow> ('a result \<Rightarrow> 'b stmt) \<Rightarrow> 'b stmt" where
  "stmt_try s f tx = (case s tx of (r, tx') \<Rightarrow> f r tx')"

definition stmt_wrap :: "string \<Rightarrow> 'a stmt \<Rightarrow> 'a stmt" where
  "stmt_wrap msg s tx = (case s tx of (r, tx') \<Rightarrow> (wrap_err msg r, tx'))"

primrec stmt_iter :: "('a \<Rightarrow> unit stmt) \<Rightarrow> 'a list \<Rightarrow> unit stmt" where
  "stmt_iter f [] = stmt_return ()"
| "stmt_iter f (x # xs) = stmt_bind (f x) (\<lambda>_. stmt_iter f xs)"

text \<open>
  A write: None is a violated constraint. A read of several rows cannot miss, a read of one
  row may find none, which is an error to the caller but not to the transaction.
\<close>

definition exec_stmt :: "string \<Rightarrow> (core_db \<Rightarrow> core_db option) \<Rightarrow> unit stmt" where
  "exec_stmt name upd tx =
     (if tx_aborted tx then (Err (DbErr ErrTxAborted), tx)
      else if db_fault (tx_db tx) name then (Err (DbErr ErrQuery), tx\<lparr>tx_aborted := True\<rparr>)
      else case upd (tx_db tx) of
             None \<Rightarrow> (Err (DbErr ErrConstraint), tx\<lparr>tx_aborted := True\<rparr>)
           | Some db \<Rightarrow> (Ok (), tx\<lparr>tx_db := db\<rparr>))"

definition rows_stmt :: "string \<Rightarrow> (core_db \<Rightarrow> 'a) \<Rightarrow> 'a stmt" where
  "rows_stmt name q tx =
     (if tx_aborted tx then (Err (DbErr ErrTxAborted), tx)
      else if db_fault (tx_db tx) name then (Err (DbErr ErrQuery), tx\<lparr>tx_aborted := True\<rparr>)
      else (Ok (q (tx_db tx)), tx))"

definition row_stmt :: "string \<Rightarrow> (core_db \<Rightarrow> 'a option) \<Rightarrow> 'a stmt" where
  "row_stmt name q =
     stmt_bind (rows_stmt name q) (\<lambda>r. stmt_lift (case r of None \<Rightarrow> Err (DbErr ErrNoRows) | Some a \<Rightarrow> Ok a))"

text \<open>The same reads on the connection pool, outside any transaction.\<close>

definition db_rows :: "string \<Rightarrow> (core_db \<Rightarrow> 'a) \<Rightarrow> core_db \<Rightarrow> 'a result" where
  "db_rows name q db = (if db_fault db name then Err (DbErr ErrQuery) else Ok (q db))"

definition db_row :: "string \<Rightarrow> (core_db \<Rightarrow> 'a option) \<Rightarrow> core_db \<Rightarrow> 'a result" where
  "db_row name q db =
     (if db_fault db name then Err (DbErr ErrQuery)
      else case q db of None \<Rightarrow> Err (DbErr ErrNoRows) | Some a \<Rightarrow> Ok a)"

definition begin_tx :: "core_db \<Rightarrow> pgtx" where
  "begin_tx db = \<lparr>tx_db = db, tx_aborted = False, tx_closed = False\<rparr>"

text \<open>
  Committing an aborted transaction is an error and rolls it back; the commit of any other may
  fail too, and every attempt closes the transaction. \<^verbatim>\<open>storage_proof_peers\<close> is written on
  the pool while a block's transaction is open and is kept as it is there.
\<close>

definition rolled_back :: "core_db \<Rightarrow> pgtx \<Rightarrow> core_db" where
  "rolled_back db tx = db\<lparr>seq_sla_rollups := seq_sla_rollups (tx_db tx)\<rparr>"

definition close_tx :: "pgtx \<Rightarrow> pgtx" where
  "close_tx tx = tx\<lparr>tx_aborted := True, tx_closed := True\<rparr>"

definition commit_tx :: "core_db \<Rightarrow> pgtx \<Rightarrow> unit result \<times> core_db \<times> pgtx" where
  "commit_tx db tx =
     (if tx_closed tx then (Err (DbErr ErrTxClosed), db, tx)
      else if db_fault db ''Commit'' then (Err (DbErr ErrQuery), rolled_back db tx, close_tx tx)
      else if tx_aborted tx
      then (Err (Errorf ''commit unexpectedly resulted in rollback''), rolled_back db tx, close_tx tx)
      else (Ok (), (tx_db tx)\<lparr>storage_proof_peers := storage_proof_peers db\<rparr>, close_tx tx))"

lemma if_None_eq_Some [simp]: "(if b then None else x) = Some y \<longleftrightarrow> \<not> b \<and> x = Some y"
  by simp

definition insert_unique :: "('r \<Rightarrow> 'k) \<Rightarrow> 'r \<Rightarrow> 'r list \<Rightarrow> 'r list option" where
  "insert_unique key r rows = (if key r \<in> key ` set rows then None else Some (rows @ [r]))"

text \<open>\<^verbatim>\<open>order by key desc limit 1\<close> and \<^verbatim>\<open>order by key desc limit n\<close>.\<close>

definition latest_by :: "('r \<Rightarrow> 'k :: linorder) \<Rightarrow> 'r list \<Rightarrow> 'r option" where
  "latest_by key rows =
     (case rows of [] \<Rightarrow> None
      | r # rs \<Rightarrow> Some (fold (\<lambda>y best. if key best < key y then y else best) rs r))"

definition latest_n_by :: "('r \<Rightarrow> int) \<Rightarrow> int \<Rightarrow> 'r list \<Rightarrow> 'r list" where
  "latest_n_by key n rows = take (nat n) (sort_key (\<lambda>r. - key r) rows)"

section \<open>Writes (writes.sql.go)\<close>

definition UpsertAppState :: "int64 \<Rightarrow> bytes \<Rightarrow> unit stmt" where
  "UpsertAppState height apphash = exec_stmt ''UpsertAppState'' (\<lambda>db.
     map_option (\<lambda>rs. db\<lparr>core_app_state := rs\<rparr>)
       (insert_unique (\<lambda>r. (as_block_height r, as_app_hash r))
          \<lparr>as_block_height = height, as_app_hash = apphash\<rparr> (core_app_state db)))"

definition InsertRegisteredNode :: "validator_row \<Rightarrow> unit stmt" where
  "InsertRegisteredNode r = exec_stmt ''InsertRegisteredNode'' (\<lambda>db.
     Some (db\<lparr>core_validators := core_validators db @ [r]\<rparr>))"

definition DeleteRegisteredNode :: "string \<Rightarrow> unit stmt" where
  "DeleteRegisteredNode cometAddress = exec_stmt ''DeleteRegisteredNode'' (\<lambda>db.
     Some (db\<lparr>core_validators := filter (\<lambda>r. v_comet_address r \<noteq> cometAddress) (core_validators db)\<rparr>))"

definition in_progress_for :: "string \<Rightarrow> sla_node_report_row \<Rightarrow> bool" where
  "in_progress_for address r \<longleftrightarrow> nr_address r = address \<and> nr_sla_rollup_id r = None"

text \<open>The column of the counter is an \<^verbatim>\<open>integer\<close> of 32 bits; a sum outside of it is an error of the statement.\<close>

definition UpsertSlaRollupReport :: "string \<Rightarrow> unit stmt" where
  "UpsertSlaRollupReport address = exec_stmt ''UpsertSlaRollupReport'' (\<lambda>db.
     let rs = sla_node_reports db in
     if \<exists>r \<in> set rs. in_progress_for address r \<and> 2 ^ 31 \<le> nr_blocks_proposed r + 1 then None
     else Some (db\<lparr>sla_node_reports :=
       (if \<exists>r \<in> set rs. in_progress_for address r
        then map (\<lambda>r. if in_progress_for address r
                       then r\<lparr>nr_blocks_proposed := nr_blocks_proposed r + 1\<rparr> else r) rs
        else rs @ [\<lparr>nr_address = address, nr_blocks_proposed = 1, nr_sla_rollup_id = None\<rparr>])\<rparr>))"

definition ClearUncommittedSlaNodeReports :: "unit stmt" where
  "ClearUncommittedSlaNodeReports = exec_stmt ''ClearUncommittedSlaNodeReports'' (\<lambda>db.
     Some (db\<lparr>sla_node_reports := filter (\<lambda>r. nr_sla_rollup_id r \<noteq> None) (sla_node_reports db)\<rparr>))"

text \<open>The unique constraint on \<^verbatim>\<open>(address, sla_rollup_id)\<close> does not compare NULLs.\<close>

definition CommitSlaNodeReport :: "int \<Rightarrow> string \<Rightarrow> int \<Rightarrow> unit stmt" where
  "CommitSlaNodeReport rollupId address blocks = exec_stmt ''CommitSlaNodeReport'' (\<lambda>db.
     map_option (\<lambda>rs. db\<lparr>sla_node_reports := rs\<rparr>)
       (insert_unique (\<lambda>r. (nr_address r, nr_sla_rollup_id r))
          \<lparr>nr_address = address, nr_blocks_proposed = blocks, nr_sla_rollup_id = Some rollupId\<rparr>
          (sla_node_reports db)))"

definition CommitSlaRollup :: "int \<Rightarrow> string \<Rightarrow> int64 \<Rightarrow> int64 \<Rightarrow> int stmt" where
  "CommitSlaRollup time txhash blockStart blockEnd =
     stmt_bind (rows_stmt ''CommitSlaRollup'' seq_sla_rollups) (\<lambda>i.
     stmt_bind (exec_stmt ''CommitSlaRollup'' (\<lambda>db.
       Some (db\<lparr>seq_sla_rollups := i + 1,
         sla_rollups := sla_rollups db @ [\<lparr>sl_id = i, sl_tx_hash = txhash, sl_block_start = blockStart,
                                          sl_block_end = blockEnd, sl_time = time\<rparr>]\<rparr>))) (\<lambda>_.
     stmt_return i))"

definition InsertTxStat :: "string \<Rightarrow> string \<Rightarrow> int64 \<Rightarrow> int \<Rightarrow> unit stmt" where
  "InsertTxStat txType txhash height createdAt = exec_stmt ''InsertTxStat'' (\<lambda>db.
     Some (case insert_unique tst_tx_hash \<lparr>tst_tx_type = txType, tst_tx_hash = txhash,
             tst_block_height = height, tst_created_at = createdAt\<rparr> (core_tx_stats db) of
        None \<Rightarrow> db | Some rs \<Rightarrow> db\<lparr>core_tx_stats := rs\<rparr>))"

definition StoreBlock :: "block_row \<Rightarrow> unit stmt" where
  "StoreBlock r = exec_stmt ''StoreBlock'' (\<lambda>db.
     map_option (\<lambda>rs. db\<lparr>core_blocks := rs\<rparr>)
       (insert_unique (\<lambda>r. (b_height r, b_chain_id r)) r (core_blocks db)))"

definition StoreTransaction :: "transaction_row \<Rightarrow> unit stmt" where
  "StoreTransaction r = exec_stmt ''StoreTransaction'' (\<lambda>db.
     map_option (\<lambda>rs. db\<lparr>core_transactions := rs\<rparr>)
       (insert_unique (\<lambda>r. (t_block_id r, t_index r)) r (core_transactions db)))"

text \<open>Written on the pool, outside the transaction of a block.\<close>

definition InsertStorageProofPeers :: "int64 \<Rightarrow> string list \<Rightarrow> core_db \<Rightarrow> unit result \<times> core_db" where
  "InsertStorageProofPeers height addrs db =
     (if db_fault db ''InsertStorageProofPeers'' then (Err (DbErr ErrQuery), db)
      else case insert_unique spp_block_height
             \<lparr>spp_block_height = height, spp_prover_addresses = addrs\<rparr> (storage_proof_peers db) of
             None \<Rightarrow> (Err (DbErr ErrConstraint), db)
           | Some rs \<Rightarrow> (Ok (), db\<lparr>storage_proof_peers := rs\<rparr>))"

definition proof_key :: "storage_proof_row \<Rightarrow> string \<times> int64" where
  "proof_key r = (spr_address r, spr_block_height r)"

text \<open>
  A transaction without prover addresses is read with a nil slice, which is a NULL that the column refuses.
\<close>

definition InsertStorageProof :: "int64 \<Rightarrow> string \<Rightarrow> string \<Rightarrow> string \<Rightarrow> string list \<Rightarrow> unit stmt" where
  "InsertStorageProof height address cid proofSig provers = exec_stmt ''InsertStorageProof'' (\<lambda>db.
     if provers = [] then None
     else map_option (\<lambda>rs. db\<lparr>storage_proofs := rs\<rparr>)
       (insert_unique proof_key
          \<lparr>spr_block_height = height, spr_address = address, spr_cid = Some cid,
           spr_proof_signature = Some proofSig, spr_proof = None, spr_prover_addresses = provers,
           spr_status = ProofUnresolved\<rparr> (storage_proofs db)))"

definition UpdateStorageProof :: "string \<Rightarrow> proof_status \<Rightarrow> int64 \<Rightarrow> string \<Rightarrow> unit stmt" where
  "UpdateStorageProof proof status height address = exec_stmt ''UpdateStorageProof'' (\<lambda>db.
     Some (db\<lparr>storage_proofs := map (\<lambda>r. if spr_block_height r = height \<and> spr_address r = address
       then r\<lparr>spr_proof := Some proof, spr_status := status\<rparr> else r) (storage_proofs db)\<rparr>))"

definition InsertFailedStorageProof :: "int64 \<Rightarrow> string \<Rightarrow> unit stmt" where
  "InsertFailedStorageProof height address = exec_stmt ''InsertFailedStorageProof'' (\<lambda>db.
     map_option (\<lambda>rs. db\<lparr>storage_proofs := rs\<rparr>)
       (insert_unique proof_key
          \<lparr>spr_block_height = height, spr_address = address, spr_cid = None,
           spr_proof_signature = None, spr_proof = None, spr_prover_addresses = [],
           spr_status = ProofFail\<rparr> (storage_proofs db)))"

definition InsertCoreERN :: "ern_row \<Rightarrow> unit stmt" where
  "InsertCoreERN r = exec_stmt ''InsertCoreERN'' (\<lambda>db. Some (db\<lparr>core_ern := core_ern db @ [r]\<rparr>))"

definition InsertCoreResource :: "entity_row \<Rightarrow> unit stmt" where
  "InsertCoreResource r = exec_stmt ''InsertCoreResource'' (\<lambda>db.
     map_option (\<lambda>rs. db\<lparr>core_resources := rs\<rparr>) (insert_unique e_address r (core_resources db)))"

definition InsertCoreRelease :: "entity_row \<Rightarrow> unit stmt" where
  "InsertCoreRelease r = exec_stmt ''InsertCoreRelease'' (\<lambda>db.
     map_option (\<lambda>rs. db\<lparr>core_releases := rs\<rparr>) (insert_unique e_address r (core_releases db)))"

definition InsertCoreParty :: "entity_row \<Rightarrow> unit stmt" where
  "InsertCoreParty r = exec_stmt ''InsertCoreParty'' (\<lambda>db.
     map_option (\<lambda>rs. db\<lparr>core_parties := rs\<rparr>) (insert_unique e_address r (core_parties db)))"

definition InsertCoreDeal :: "entity_row \<Rightarrow> unit stmt" where
  "InsertCoreDeal r = exec_stmt ''InsertCoreDeal'' (\<lambda>db.
     map_option (\<lambda>rs. db\<lparr>core_deals := rs\<rparr>) (insert_unique e_address r (core_deals db)))"

definition InsertCoreMEAD :: "mead_pie_row \<Rightarrow> unit stmt" where
  "InsertCoreMEAD r = exec_stmt ''InsertCoreMEAD'' (\<lambda>db. Some (db\<lparr>core_mead := core_mead db @ [r]\<rparr>))"

definition InsertCorePIE :: "mead_pie_row \<Rightarrow> unit stmt" where
  "InsertCorePIE r = exec_stmt ''InsertCorePIE'' (\<lambda>db. Some (db\<lparr>core_pie := core_pie db @ [r]\<rparr>))"

definition AppendValidatorHistory :: "validator_history_row \<Rightarrow> unit stmt" where
  "AppendValidatorHistory r = exec_stmt ''AppendValidatorHistory'' (\<lambda>db.
     Some (db\<lparr>validator_history := validator_history db @ [r]\<rparr>))"

definition InsertCoreReward :: "reward_row \<Rightarrow> unit stmt" where
  "InsertCoreReward r = exec_stmt ''InsertCoreReward'' (\<lambda>db.
     Some (db\<lparr>core_rewards := core_rewards db @ [r]\<rparr>))"

definition DeleteCoreReward :: "string \<Rightarrow> unit stmt" where
  "DeleteCoreReward address = exec_stmt ''DeleteCoreReward'' (\<lambda>db.
     Some (db\<lparr>core_rewards := filter (\<lambda>r. rw_address r \<noteq> address) (core_rewards db)\<rparr>))"

definition InsertFileUpload :: "upload_row \<Rightarrow> unit stmt" where
  "InsertFileUpload r = exec_stmt ''InsertFileUpload'' (\<lambda>db.
     Some (db\<lparr>core_uploads := core_uploads db @ [r]\<rparr>))"

lemmas write_defs = UpsertAppState_def InsertRegisteredNode_def DeleteRegisteredNode_def
  UpsertSlaRollupReport_def ClearUncommittedSlaNodeReports_def CommitSlaNodeReport_def
  CommitSlaRollup_def InsertTxStat_def StoreBlock_def StoreTransaction_def InsertStorageProof_def
  UpdateStorageProof_def InsertFailedStorageProof_def InsertCoreERN_def InsertCoreResource_def
  InsertCoreRelease_def InsertCoreParty_def InsertCoreDeal_def InsertCoreMEAD_def InsertCorePIE_def
  AppendValidatorHistory_def InsertCoreReward_def DeleteCoreReward_def InsertFileUpload_def

section \<open>Reads (reads.sql.go)\<close>

definition GetRegisteredNodeByEthAddress :: "string \<Rightarrow> core_db \<Rightarrow> validator_row option" where
  "GetRegisteredNodeByEthAddress a db = find_row (\<lambda>r. v_eth_address r = a) (core_validators db)"

definition GetRegisteredNodeByCometAddress :: "string \<Rightarrow> core_db \<Rightarrow> validator_row option" where
  "GetRegisteredNodeByCometAddress a db = find_row (\<lambda>r. v_comet_address r = a) (core_validators db)"

definition GetAllEthAddressesOfRegisteredNodes :: "core_db \<Rightarrow> string list" where
  "GetAllEthAddressesOfRegisteredNodes db = map v_eth_address (core_validators db)"

definition GetAllRegisteredNodes :: "core_db \<Rightarrow> validator_row list" where
  "GetAllRegisteredNodes db = core_validators db"

definition GetAllRegisteredNodesSorted :: "core_db \<Rightarrow> validator_row list" where
  "GetAllRegisteredNodesSorted db = sort_key v_comet_address (core_validators db)"

definition GetLatestAppState :: "core_db \<Rightarrow> app_state_row option" where
  "GetLatestAppState db = latest_by as_block_height (core_app_state db)"

definition GetAppStateAtHeight :: "int64 \<Rightarrow> core_db \<Rightarrow> app_state_row option" where
  "GetAppStateAtHeight h db = find_row (\<lambda>r. as_block_height r = h) (core_app_state db)"

definition GetTx :: "string \<Rightarrow> core_db \<Rightarrow> transaction_row option" where
  "GetTx txhash db = find_row (\<lambda>r. map to_lower (t_tx_hash r) = map to_lower txhash) (core_transactions db)"

definition GetBlock :: "int64 \<Rightarrow> core_db \<Rightarrow> block_row option" where
  "GetBlock h db = find_row (\<lambda>r. b_height r = h) (core_blocks db)"

definition GetLatestBlock :: "core_db \<Rightarrow> block_row option" where
  "GetLatestBlock db = latest_by b_height (core_blocks db)"

definition GetLatestSlaRollup :: "core_db \<Rightarrow> sla_rollup_row option" where
  "GetLatestSlaRollup db = latest_by sl_time (sla_rollups db)"

definition GetInProgressRollupReports :: "core_db \<Rightarrow> sla_node_report_row list" where
  "GetInProgressRollupReports db =
     sort_key nr_address (filter (\<lambda>r. nr_sla_rollup_id r = None) (sla_node_reports db))"

definition GetRollupReportsForId :: "int \<Rightarrow> core_db \<Rightarrow> sla_node_report_row list" where
  "GetRollupReportsForId i db =
     sort_key nr_address (filter (\<lambda>r. nr_sla_rollup_id r = Some i) (sla_node_reports db))"

text \<open>The rollups of the window, oldest first, each with the report of the node if there is one.\<close>

definition GetRecentRollupsForNode ::
    "int \<Rightarrow> string \<Rightarrow> core_db \<Rightarrow> (sla_rollup_row \<times> sla_node_report_row option) list" where
  "GetRecentRollupsForNode n a db =
     concat (map (\<lambda>rr. case filter (\<lambda>nr. nr_sla_rollup_id nr = Some (sl_id rr) \<and> nr_address nr = a)
                              (sla_node_reports db) of
                         [] \<Rightarrow> [(rr, None)]
                       | nrs \<Rightarrow> map (\<lambda>nr. (rr, Some nr)) nrs)
       (sort_key sl_time (latest_n_by sl_time n (sla_rollups db))))"

definition GetStorageProofPeers :: "int64 \<Rightarrow> core_db \<Rightarrow> string list option" where
  "GetStorageProofPeers h db =
     map_option spp_prover_addresses (find_row (\<lambda>r. spp_block_height r = h) (storage_proof_peers db))"

definition GetStorageProof :: "int64 \<Rightarrow> string \<Rightarrow> core_db \<Rightarrow> storage_proof_row option" where
  "GetStorageProof h a db = find_row (\<lambda>r. spr_block_height r = h \<and> spr_address r = a) (storage_proofs db)"

definition GetStorageProofs :: "int64 \<Rightarrow> core_db \<Rightarrow> storage_proof_row list" where
  "GetStorageProofs h db = filter (\<lambda>r. spr_block_height r = h) (storage_proofs db)"

definition GetReward :: "string \<Rightarrow> core_db \<Rightarrow> reward_row option" where
  "GetReward a db = latest_by rw_block_height (filter (\<lambda>r. rw_address r = a) (core_rewards db))"

definition GetCoreUpload :: "string \<Rightarrow> core_db \<Rightarrow> upload_row option" where
  "GetCoreUpload c db = find_row (\<lambda>r. up_cid r = c \<or> up_transcoded_cid r = c) (core_uploads db)"

definition GetERN :: "string \<Rightarrow> core_db \<Rightarrow> ern_row option" where
  "GetERN a db = latest_by er_block_height (filter (\<lambda>r. er_address r = a) (core_ern db))"

section \<open>What statements keep\<close>

named_theorems keeps_intros \<open>statements that keep a property of the database\<close>
named_theorems abort_intros \<open>statements that do nothing in an aborted transaction\<close>

definition keeps :: "(core_db \<Rightarrow> bool) \<Rightarrow> 'a stmt \<Rightarrow> bool" where
  "keeps P s \<longleftrightarrow> (\<forall>tx. P (tx_db tx) \<longrightarrow> P (tx_db (snd (s tx))))"

text \<open>A statement does nothing in an aborted transaction, and never closes a transaction.\<close>

definition respects_abort :: "'a stmt \<Rightarrow> bool" where
  "respects_abort s \<longleftrightarrow> (\<forall>tx. (tx_aborted tx \<longrightarrow> snd (s tx) = tx) \<and> tx_closed (snd (s tx)) = tx_closed tx)"

lemma keepsD: "keeps P s \<Longrightarrow> P (tx_db tx) \<Longrightarrow> P (tx_db (snd (s tx)))"
  by (simp add: keeps_def)

lemma respects_abortD: "respects_abort s \<Longrightarrow> tx_aborted tx \<Longrightarrow> snd (s tx) = tx"
  by (simp add: respects_abort_def)

lemma respects_abort_closed: "respects_abort s \<Longrightarrow> tx_closed (snd (s tx)) = tx_closed tx"
  by (simp add: respects_abort_def)

lemma keeps_return [keeps_intros]: "keeps P (stmt_return a)"
  by (simp add: keeps_def stmt_return_def)

lemma keeps_lift [keeps_intros]: "keeps P (stmt_lift r)"
  by (simp add: keeps_def stmt_lift_def)

lemma keeps_bind [keeps_intros]: "keeps P s \<Longrightarrow> (\<And>a. keeps P (f a)) \<Longrightarrow> keeps P (stmt_bind s f)"
  by (auto simp: keeps_def stmt_bind_def split: prod.splits result.splits)

lemma keeps_try [keeps_intros]: "keeps P s \<Longrightarrow> (\<And>r. keeps P (f r)) \<Longrightarrow> keeps P (stmt_try s f)"
  by (auto simp: keeps_def stmt_try_def split: prod.splits)

lemma keeps_wrap [keeps_intros]: "keeps P s \<Longrightarrow> keeps P (stmt_wrap msg s)"
  by (auto simp: keeps_def stmt_wrap_def split: prod.splits)

lemma keeps_iter [keeps_intros]: "(\<And>x. x \<in> set xs \<Longrightarrow> keeps P (f x)) \<Longrightarrow> keeps P (stmt_iter f xs)"
  by (induction xs) (auto intro!: keeps_intros)

lemma keeps_exec [keeps_intros]:
  "(\<And>db db'. P db \<Longrightarrow> upd db = Some db' \<Longrightarrow> P db') \<Longrightarrow> keeps P (exec_stmt n upd)"
  by (auto simp: keeps_def exec_stmt_def split: option.splits)

lemma keeps_rows [keeps_intros]: "keeps P (rows_stmt n q)"
  by (simp add: keeps_def rows_stmt_def)

lemma keeps_row [keeps_intros]: "keeps P (row_stmt n q)"
  unfolding row_stmt_def by (intro keeps_intros)

lemma keeps_if [keeps_intros]: "keeps P s \<Longrightarrow> keeps P t \<Longrightarrow> keeps P (if b then s else t)"
  by simp

lemma abort_return [abort_intros]: "respects_abort (stmt_return a)"
  by (simp add: respects_abort_def stmt_return_def)

lemma abort_lift [abort_intros]: "respects_abort (stmt_lift r)"
  by (simp add: respects_abort_def stmt_lift_def)

lemma abort_bind [abort_intros]:
  "respects_abort s \<Longrightarrow> (\<And>a. respects_abort (f a)) \<Longrightarrow> respects_abort (stmt_bind s f)"
proof -
  assume s: "respects_abort s" and f: "\<And>a. respects_abort (f a)"
  have "(tx_aborted tx \<longrightarrow> snd (stmt_bind s f tx) = tx) \<and> tx_closed (snd (stmt_bind s f tx)) = tx_closed tx" for tx
  proof (cases "fst (s tx)")
    case (Ok a)
    then have "stmt_bind s f tx = f a (snd (s tx))" by (simp add: stmt_bind_def split_beta)
    with s f [of a] show ?thesis by (metis respects_abort_def)
  qed (use s in \<open>simp_all add: stmt_bind_def split_beta respects_abort_def\<close>)
  then show ?thesis by (simp add: respects_abort_def)
qed

lemma abort_try [abort_intros]:
  "respects_abort s \<Longrightarrow> (\<And>r. respects_abort (f r)) \<Longrightarrow> respects_abort (stmt_try s f)"
  unfolding respects_abort_def stmt_try_def split_beta by metis

lemma abort_wrap [abort_intros]: "respects_abort s \<Longrightarrow> respects_abort (stmt_wrap msg s)"
  by (simp add: respects_abort_def stmt_wrap_def split_beta)

lemma abort_iter [abort_intros]:
  "(\<And>x. x \<in> set xs \<Longrightarrow> respects_abort (f x)) \<Longrightarrow> respects_abort (stmt_iter f xs)"
  by (induction xs) (auto intro!: abort_intros)

lemma abort_exec [abort_intros]: "respects_abort (exec_stmt n upd)"
  by (auto simp: respects_abort_def exec_stmt_def split: option.splits)

lemma abort_rows [abort_intros]: "respects_abort (rows_stmt n q)"
  by (simp add: respects_abort_def rows_stmt_def)

lemma abort_row [abort_intros]: "respects_abort (row_stmt n q)"
  unfolding row_stmt_def by (intro abort_intros)

lemma abort_if [abort_intros]: "respects_abort s \<Longrightarrow> respects_abort t \<Longrightarrow> respects_abort (if b then s else t)"
  by simp

text \<open>A transaction that was never aborted runs each statement on its database.\<close>

lemma stmt_eval [go_simps]:
  "stmt_return a tx = (Ok a, tx)" "stmt_lift r tx = (r, tx)"
  "stmt_wrap msg s tx = (wrap_err msg (fst (s tx)), snd (s tx))"
  "stmt_try s f tx = f (fst (s tx)) (snd (s tx))"
  by (simp_all add: stmt_return_def stmt_lift_def stmt_wrap_def stmt_try_def split: prod.splits)

lemma stmt_bind_Ok [go_simps]: "s tx = (Ok a, tx') \<Longrightarrow> stmt_bind s f tx = f a tx'"
  by (simp add: stmt_bind_def)

lemma stmt_bind_eq_Ok:
  "stmt_bind s f tx = (Ok b, tx'') \<longleftrightarrow> (\<exists>a tx'. s tx = (Ok a, tx') \<and> f a tx' = (Ok b, tx''))"
  by (auto simp: stmt_bind_def split: prod.splits result.splits)

lemma exec_stmt_eq_Ok:
  "exec_stmt n upd tx = (Ok u, tx') \<longleftrightarrow>
     \<not> tx_aborted tx \<and> \<not> db_fault (tx_db tx) n \<and> (\<exists>db. upd (tx_db tx) = Some db \<and> tx' = tx\<lparr>tx_db := db\<rparr>)"
  by (auto simp: exec_stmt_def split: option.splits if_splits)

lemma insert_unique_Some:
  "insert_unique key r rows = Some rows' \<longleftrightarrow> key r \<notin> key ` set rows \<and> rows' = rows @ [r]"
  by (auto simp: insert_unique_def)

lemma insert_unique_distinct:
  "insert_unique key r rows = Some rows' \<Longrightarrow> distinct (map key rows) \<Longrightarrow> distinct (map key rows')"
  by (auto simp: insert_unique_Some)

section \<open>Further reads\<close>

definition GetSlaRollupWithTimestamp :: "int \<Rightarrow> core_db \<Rightarrow> sla_rollup_row option" where
  "GetSlaRollupWithTimestamp t db = find_row (\<lambda>r. sl_time r = t) (sla_rollups db)"

definition TotalValidators :: "core_db \<Rightarrow> int64" where
  "TotalValidators db = int (length (core_validators db))"

definition TotalBlocks :: "core_db \<Rightarrow> int64" where
  "TotalBlocks db = int (length (core_blocks db))"

definition TotalTransactions :: "core_db \<Rightarrow> int64" where
  "TotalTransactions db = int (length (core_tx_stats db))"

definition GetNodesByEndpoints :: "string list \<Rightarrow> core_db \<Rightarrow> validator_row list" where
  "GetNodesByEndpoints eps db = filter (\<lambda>r. v_endpoint r \<in> set eps) (core_validators db)"

lemma latest_by_max:
  assumes "latest_by key rows = Some r"
  shows "r \<in> set rows" and "\<forall>s \<in> set rows. key s \<le> key r"
proof -
  have best: "fold (\<lambda>y best. if key best < key y then y else best) rs r0 \<in> set (r0 # rs)
      \<and> (\<forall>s \<in> set (r0 # rs). key s \<le> key (fold (\<lambda>y best. if key best < key y then y else best) rs r0))" for r0 rs
  proof (induction rs arbitrary: r0)
    case (Cons y rs)
    show ?case
    proof (cases "key r0 < key y")
      case True
      with Cons [of y] show ?thesis by fastforce
    next
      case False
      with Cons [of r0] show ?thesis by fastforce
    qed
  qed simp
  obtain r0 rs where "rows = r0 # rs" "r = fold (\<lambda>y best. if key best < key y then y else best) rs r0"
    using assms by (auto simp: latest_by_def split: list.splits)
  with best show "r \<in> set rows" "\<forall>s \<in> set rows. key s \<le> key r" by blast+
qed

end
