(* ===== verification/Retention.thy ===== *)
theory Retention
  imports Core_Db "HOL-Library.Product_Lexorder" "HOL-Library.Multiset"
begin

text \<open>
  Which blocks a node keeps: the retain height the application returns when a block is
  committed (\<^verbatim>\<open>pkg/core/server/data_companion.go\<close>) and the cached list of snapshots it
  depends on (\<^verbatim>\<open>cacheSnapshots\<close> in \<^verbatim>\<open>state_sync.go\<close>).
\<close>

record stored_snapshot =
  ssn_Height :: int
  ssn_Hash :: bytes
  ssn_Chunks :: int

record snapshot_metadata =
  sm_Height :: int64
  sm_Hash :: string
  sm_ChunkCount :: int64
  sm_ChainId :: string

text \<open>The snapshots in descending order of height, ties broken by the hash.\<close>

definition cacheSnapshots :: "core_config \<Rightarrow> stored_snapshot list \<Rightarrow> snapshot_metadata list" where
  "cacheSnapshots cfg snapshots =
     rev (sort_key (\<lambda>s. (sm_Height s, sm_Hash s))
       (map (\<lambda>s. \<lparr>sm_Height = wrap64 (ssn_Height s), sm_Hash = hex_encode (ssn_Hash s),
                  sm_ChunkCount = ssn_Chunks s, sm_ChainId = cfg_ChainID cfg\<rparr>) snapshots))"

definition safetyBuffer :: int64 where
  "safetyBuffer = 100"

definition calculateLowestRetainHeight ::
    "core_config \<Rightarrow> core_db \<Rightarrow> int64 \<Rightarrow> snapshot_metadata list \<Rightarrow> int64" where
  "calculateLowestRetainHeight cfg db lastSetRetain snapshots =
     (if cfg_Archive cfg then 0
      else case db_row ''GetLatestBlock'' GetLatestBlock db of
        Ok latestBlock \<Rightarrow>
          let latestHeight = b_height latestBlock in
          if ss_ServeSnapshots (cfg_StateSync cfg) \<and> snapshots \<noteq> []
          then let oldestSnapshotHeight = sm_Height (last snapshots);
                   r = wrap64 (oldestSnapshotHeight - safetyBuffer);
                   retainFromSnapshots = (if r < 1 then 1 else r)
               in if retainFromSnapshots > lastSetRetain then retainFromSnapshots else 0
          else let retainWindow = cfg_RetainHeight cfg
               in if retainWindow \<le> 0 \<or> latestHeight \<le> retainWindow then 0
                  else let retainFromWindow = wrap64 (latestHeight - retainWindow)
                       in if retainFromWindow \<le> lastSetRetain then 0 else retainFromWindow
      | _ \<Rightarrow> 0)"

text \<open>One tick of \<^verbatim>\<open>startDataCompanion\<close>: the retain heights it sets, from the one CometBFT reports.\<close>

definition data_companion_tick :: "core_config \<Rightarrow> int64 result \<Rightarrow> (int64 \<times> int64) option" where
  "data_companion_tick cfg appRetainHeight =
     (if cfg_Archive cfg then None
      else case appRetainHeight of
        Ok h \<Rightarrow> if h \<le> 1 then None else Some (h, h)
      | _ \<Rightarrow> None)"

lemma last_cacheSnapshots_le:
  assumes "s \<in> set (cacheSnapshots cfg snaps)"
  shows "sm_Height (last (cacheSnapshots cfg snaps)) \<le> sm_Height s"
proof -
  define ss where "ss = sort_key (\<lambda>s. (sm_Height s, sm_Hash s))
       (map (\<lambda>s. \<lparr>sm_Height = wrap64 (ssn_Height s), sm_Hash = hex_encode (ssn_Hash s),
                  sm_ChunkCount = ssn_Chunks s, sm_ChainId = cfg_ChainID cfg\<rparr>) snaps)"
  have "sorted (map (\<lambda>s. (sm_Height s, sm_Hash s)) ss)" unfolding ss_def by (rule sorted_sort_key)
  moreover have "s \<in> set ss" using assms by (simp add: cacheSnapshots_def ss_def)
  ultimately have "(sm_Height (hd ss), sm_Hash (hd ss)) \<le> (sm_Height s, sm_Hash s)"
    by (cases ss) auto
  moreover have "last (cacheSnapshots cfg snaps) = hd ss"
    using \<open>s \<in> set ss\<close> by (simp add: cacheSnapshots_def ss_def [symmetric] last_rev)
  ultimately show ?thesis by auto
qed

text \<open>
  (C18) A retain height the node returns is positive and larger than the previous one, an
  archive node never returns one, and it never drops a block that is still needed: with
  snapshots served, every cached snapshot keeps its last hundred blocks (all of them when it
  is younger than that), and without, the configured window of blocks below the latest stays.
\<close>

theorem retain_height_safe:
  assumes "calculateLowestRetainHeight cfg db lastSetRetain (cacheSnapshots cfg snaps) = h" and "h \<noteq> 0"
    and "\<forall>s \<in> set snaps. 0 < ssn_Height s \<and> ssn_Height s < 2 ^ 63"
    and "\<forall>b \<in> set (core_blocks db). in_int64 (b_height b)"
  shows "\<not> cfg_Archive cfg \<and> 1 \<le> h \<and> lastSetRetain < h
    \<and> (if ss_ServeSnapshots (cfg_StateSync cfg) \<and> snaps \<noteq> []
       then \<forall>s \<in> set snaps. h \<le> max 1 (ssn_Height s - 100)
       else \<exists>b. GetLatestBlock db = Some b \<and> h = b_height b - cfg_RetainHeight cfg)"
proof -
  have latest: "in_int64 (b_height b)" if "GetLatestBlock db = Some b" for b
    using latest_by_max(1) [OF that [unfolded GetLatestBlock_def]] assms(4) by blast
  from assms(1,2) obtain b where b: "GetLatestBlock db = Some b" and arch: "\<not> cfg_Archive cfg"
    by (auto simp: calculateLowestRetainHeight_def db_row_def split: if_splits option.splits)
  have empty: "cacheSnapshots cfg snaps = [] \<longleftrightarrow> snaps = []"
    by (metis (no_types, lifting) cacheSnapshots_def length_0_conv length_map length_rev length_sort)
  have small: "wrap64 (ssn_Height s) = ssn_Height s" if "s \<in> set snaps" for s
    using assms(3) that by (intro wrap64_small) auto
  show ?thesis
  proof (cases "ss_ServeSnapshots (cfg_StateSync cfg) \<and> snaps \<noteq> []")
    case True
    let ?o = "sm_Height (last (cacheSnapshots cfg snaps))"
    have old: "?o \<le> ssn_Height s" if "s \<in> set snaps" for s
    proof -
      let ?m = "\<lparr>sm_Height = wrap64 (ssn_Height s), sm_Hash = hex_encode (ssn_Hash s),
           sm_ChunkCount = ssn_Chunks s, sm_ChainId = cfg_ChainID cfg\<rparr>"
      have "?m \<in> set (cacheSnapshots cfg snaps)" using that by (auto simp: cacheSnapshots_def)
      from last_cacheSnapshots_le [OF this] small [OF that] show ?thesis by simp
    qed
    have "last (cacheSnapshots cfg snaps) \<in> set (cacheSnapshots cfg snaps)" using True empty by simp
    then obtain s0 where "s0 \<in> set snaps" "?o = wrap64 (ssn_Height s0)" by (auto simp: cacheSnapshots_def)
    then have "0 < ?o" "?o < 2 ^ 63" using assms(3) small by auto
    then have "wrap64 (?o - 100) = ?o - 100" by (intro wrap64_small) simp_all
    with assms(1,2) True b arch empty have "h = max 1 (?o - 100)" "lastSetRetain < h"
      by (auto simp: calculateLowestRetainHeight_def db_row_def safetyBuffer_def Let_def split: if_splits)
    with True arch old show ?thesis by (force simp: max_def)
  next
    case False
    have "0 < cfg_RetainHeight cfg" "cfg_RetainHeight cfg < b_height b"
      using assms(1,2) False b arch empty
      by (auto simp: calculateLowestRetainHeight_def db_row_def Let_def split: if_splits)
    moreover from this have "wrap64 (b_height b - cfg_RetainHeight cfg) = b_height b - cfg_RetainHeight cfg"
      using latest [OF b] by (intro wrap64_small) (simp_all add: in_int64_def)
    ultimately show ?thesis using assms(1,2) False b arch empty
      by (auto simp: calculateLowestRetainHeight_def db_row_def Let_def split: if_splits)
  qed
qed

definition demo_chain :: core_db where
  "demo_chain = empty_db\<lparr>core_blocks := [\<lparr>b_height = 1000, b_chain_id = ''audius'', b_hash = '''',
     b_proposer = '''', b_created_at = 0\<rparr>]\<rparr>"

definition demo_snaps :: "stored_snapshot list" where
  "demo_snaps = [\<lparr>ssn_Height = 850, ssn_Hash = [1], ssn_Chunks = 3\<rparr>, \<lparr>ssn_Height = 950, ssn_Hash = [2], ssn_Chunks = 3\<rparr>]"

theorem retain_height_safe_witness:
  "calculateLowestRetainHeight demo_config demo_chain 200 (cacheSnapshots demo_config demo_snaps) = 750
   \<and> 750 \<le> max 1 (ssn_Height (hd demo_snaps) - 100) \<and> (200 :: int) < 750"
proof -
  have h: "calculateLowestRetainHeight demo_config demo_chain 200 (cacheSnapshots demo_config demo_snaps) = 750"
    by code_simp
  have "\<forall>s \<in> set demo_snaps. 0 < ssn_Height s \<and> ssn_Height s < 2 ^ 63"
    "\<forall>b \<in> set (core_blocks demo_chain). in_int64 (b_height b)"
    by (simp_all add: demo_snaps_def demo_chain_def in_int64_def)
  from retain_height_safe [OF h _ this] h show ?thesis by (simp add: demo_config_def demo_snaps_def)
qed

end
