(* ===== verification/Common.thy ===== *)
theory Common
  imports Chain_Types "HOL-Library.Product_Lexorder" "HOL-Library.Multiset"
begin

text \<open>
  The package \<^verbatim>\<open>pkg/common\<close>: signing and recovering with Ethereum keys, deterministic
  addresses, fixed-width strings, obfuscation, the rendezvous that selects attestors, and
  the data a reward message signs.
\<close>

section \<open>Keys and signatures (crypto.go, proto.go)\<close>

definition EthSign :: "ext \<Rightarrow> string \<Rightarrow> bytes \<Rightarrow> string result" where
  "EthSign x pkey data =
     (case x_Sign x (x_sha256 x data) pkey of
        None \<Rightarrow> Err (Errorf ''failed to signed data'')
      | Some sig \<Rightarrow> Ok (hex_encode sig))"

definition EthRecover :: "ext \<Rightarrow> string \<Rightarrow> bytes \<Rightarrow> (bytes \<times> string) result" where
  "EthRecover x signatureStr data =
     bind_result (wrap_err ''could not decode signature'' (hex_decode signatureStr)) (\<lambda>signature.
     case x_SigToPub x (x_sha256 x data) signature of
       None \<Rightarrow> Err (Errorf ''could not recover pubkey'')
     | Some pubKey \<Rightarrow> Ok (pubKey, x_PubkeyToAddress x pubKey))"

definition SerializePublicKeyHex :: "ext \<Rightarrow> bytes \<Rightarrow> string" where
  "SerializePublicKeyHex x pubKey = hex_encode (x_CompressPubkey x pubKey)"

definition ToTxHashFromBytes :: "ext \<Rightarrow> bytes \<Rightarrow> string" where
  "ToTxHashFromBytes x txBytes = x_tx_hash x txBytes"

text \<open>The check of a transaction hash that \<^verbatim>\<open>TxHashSign\<close> and \<^verbatim>\<open>TxHashRecover\<close> share.\<close>

definition txhash_bytes :: "string \<Rightarrow> bytes result" where
  "txhash_bytes txHash =
     (if \<not> has_prefix txHash ''0x'' \<and> length txHash \<noteq> 64
      then Err (Errorf ''invalid txHash format: expected 64-character hex string'')
      else bind_result (wrap_err ''invalid txHash: not valid hex'' (hex_decode (trim_prefix txHash ''0x'')))
        (\<lambda>hashBytes. if length hashBytes \<noteq> 32 then Err (Errorf ''invalid txHash: expected 32 bytes'')
                     else Ok hashBytes))"

definition TxHashSign :: "ext \<Rightarrow> string \<Rightarrow> string \<Rightarrow> string result" where
  "TxHashSign x pkey txHash = bind_result (txhash_bytes txHash) (EthSign x pkey)"

definition TxHashRecover :: "ext \<Rightarrow> string \<Rightarrow> string \<Rightarrow> (bytes \<times> string) result" where
  "TxHashRecover x txHash signature = bind_result (txhash_bytes txHash) (EthRecover x signature)"

lemma EthRecover_no_panic: "EthRecover x s d \<noteq> Panic p"
  by (auto simp: EthRecover_def go_simps hex_decode_no_panic split: option.splits)

lemma EthRecover_address: "EthRecover x s d = Ok (k, a) \<Longrightarrow> a = x_PubkeyToAddress x k"
  by (auto simp: EthRecover_def go_simps split: option.splits)

lemma EthRecover_EthSign:
  assumes "EthSign x pkey data = Ok sig"
    and "\<And>h s. x_Sign x h pkey = Some s \<Longrightarrow> x_SigToPub x h s = Some pub"
  shows "EthRecover x sig data = Ok (pub, x_PubkeyToAddress x pub)"
  using assms by (auto simp: EthSign_def EthRecover_def split: option.splits)

section \<open>Fixed-width strings (crypto.go)\<close>

text \<open>A \<^verbatim>\<open>[32]byte\<close> filled from a string, and the text up to its first zero byte.\<close>

definition Utf8ToHex :: "string \<Rightarrow> bytes" where
  "Utf8ToHex s = pad32 (bytes_of s)"

text \<open>
  \<^verbatim>\<open>for end = range hex { if hex[end] == 0 { break } }\<close>: the index of the first zero byte, or the
  last index when there is none.
\<close>

fun first_zero :: "nat \<Rightarrow> bytes \<Rightarrow> nat" where
  "first_zero e [] = e"
| "first_zero e [b] = e"
| "first_zero e (b # c # bs) = (if b = 0 then e else first_zero (Suc e) (c # bs))"

definition HexToUtf8 :: "bytes \<Rightarrow> string" where
  "HexToUtf8 hex = string_of (take (first_zero 0 hex) hex)"

lemma first_zero_skip:
  "\<forall>b \<in> set bs. b \<noteq> 0 \<Longrightarrow> cs \<noteq> [] \<Longrightarrow> first_zero e (bs @ cs) = first_zero (e + length bs) cs"
proof (induction bs arbitrary: e)
  case Nil
  then show ?case by simp
next
  case (Cons b bs)
  then have "first_zero e (b # bs @ cs) = first_zero (Suc e) (bs @ cs)"
    by (cases "bs @ cs") auto
  with Cons show ?case by simp
qed

lemma first_zero_zero: "first_zero e (0 # bs) = e"
  by (cases bs) simp_all

lemma HexToUtf8_Utf8ToHex:
  assumes "length s < 32" and "\<forall>b \<in> set (bytes_of s). b \<noteq> 0"
  shows "HexToUtf8 (Utf8ToHex s) = s"
proof -
  obtain n where n: "32 - length s = Suc n" using assms(1) by (cases "32 - length s") auto
  then have "n \<le> 31" by simp
  then have "Utf8ToHex s = bytes_of s @ 0 # replicate n 0"
    using assms(1) n by (simp add: Utf8ToHex_def pad32_def min_def)
  moreover have "first_zero 0 (bytes_of s @ 0 # replicate n 0) = length s"
    using assms(2) by (simp add: first_zero_skip first_zero_zero)
  ultimately show ?thesis by (simp add: HexToUtf8_def)
qed

lemma HexToUtf8_full_width:
  assumes "length s = 32" and "\<forall>b \<in> set (bytes_of s). b \<noteq> 0"
  shows "HexToUtf8 (Utf8ToHex s) = butlast s"
proof -
  obtain t c where s: "s = t @ [c]" using assms(1) by (cases s rule: rev_cases) auto
  with assms have l: "length t = 31" and nz: "\<forall>b \<in> set (bytes_of t). b \<noteq> 0"
    by simp_all
  have "Utf8ToHex s = bytes_of t @ bytes_of [c]"
    using assms(1) s by (simp add: Utf8ToHex_def pad32_def)
  moreover have "first_zero 0 (bytes_of t @ bytes_of [c]) = 31"
    using nz l by (simp add: first_zero_skip bytes_of_def [of "[c]"])
  ultimately show ?thesis using l s by (simp add: HexToUtf8_def)
qed

section \<open>Obfuscation (obfus.go)\<close>

definition obfus_salt :: string where
  "obfus_salt = ''azowernasdfoia''"

definition Obfuscate :: "string \<Rightarrow> string" where
  "Obfuscate s = b64_encode (bytes_of (s @ obfus_salt))"

definition Deobfuscate :: "string \<Rightarrow> string result" where
  "Deobfuscate s = bind_result (b64_decode s) (\<lambda>decoded.
     let decodedStr = string_of decoded in
     if length decodedStr < length obfus_salt then Ok ''''
     else Ok (take (length decodedStr - length obfus_salt) decodedStr))"

lemma Deobfuscate_Obfuscate: "Deobfuscate (Obfuscate s) = Ok s"
  by (simp add: Deobfuscate_def Obfuscate_def Let_def del: bytes_of_append)

section \<open>Deterministic addresses (address.go)\<close>

definition CreateAddress :: "ext \<Rightarrow> bytes \<Rightarrow> string \<Rightarrow> int64 \<Rightarrow> int64 \<Rightarrow> string \<Rightarrow> string" where
  "CreateAddress x txhash chainId blockHeight txindex discriminator =
     (let contentHash = x_keccak256 x txhash;
          saltInput = bytes_of (discriminator @ '':'' @ chainId @ '':'' @ string_of_rune blockHeight
                                @ '':'' @ string_of_rune txindex);
          saltHash = x_sha256 x saltInput;
          preimage = [0xff] @ bytes_of chainId @ saltHash @ contentHash;
          addressBytes = x_keccak256 x preimage
      in ''0x'' @ hex_encode (drop 12 addressBytes))"

definition HexToBytes :: "string \<Rightarrow> bytes result" where
  "HexToBytes addr = hex_decode (trim_prefix addr ''0x'')"

definition BytesToHex :: "bytes \<Rightarrow> string" where
  "BytesToHex bs = ''0x'' @ hex_encode bs"

definition CreateERNAddress :: "ext \<Rightarrow> bytes \<Rightarrow> string \<Rightarrow> int64 \<Rightarrow> int64 \<Rightarrow> string \<Rightarrow> string" where
  "CreateERNAddress x txhash chainId blockHeight txindex messageID =
     CreateAddress x txhash chainId blockHeight txindex (''ern:'' @ messageID)"

definition CreatePartyAddress :: "ext \<Rightarrow> bytes \<Rightarrow> string \<Rightarrow> int64 \<Rightarrow> int64 \<Rightarrow> string \<Rightarrow> string" where
  "CreatePartyAddress x txhash chainId blockHeight txindex partyReference =
     CreateAddress x txhash chainId blockHeight txindex (''party:'' @ partyReference)"

definition CreateResourceAddress :: "ext \<Rightarrow> bytes \<Rightarrow> string \<Rightarrow> int64 \<Rightarrow> int64 \<Rightarrow> string \<Rightarrow> string" where
  "CreateResourceAddress x txhash chainId blockHeight txindex resourceReference =
     CreateAddress x txhash chainId blockHeight txindex (''resource:'' @ resourceReference)"

definition CreateReleaseAddress :: "ext \<Rightarrow> bytes \<Rightarrow> string \<Rightarrow> int64 \<Rightarrow> int64 \<Rightarrow> string \<Rightarrow> string" where
  "CreateReleaseAddress x txhash chainId blockHeight txindex releaseReference =
     CreateAddress x txhash chainId blockHeight txindex (''release:'' @ releaseReference)"

definition CreateDealAddress :: "ext \<Rightarrow> bytes \<Rightarrow> string \<Rightarrow> int64 \<Rightarrow> int64 \<Rightarrow> string \<Rightarrow> string" where
  "CreateDealAddress x txhash chainId blockHeight txindex dealReference =
     CreateAddress x txhash chainId blockHeight txindex (''deal:'' @ dealReference)"

lemma HexToBytes_BytesToHex: "HexToBytes (BytesToHex bs) = Ok bs"
  by (simp add: HexToBytes_def BytesToHex_def trim_prefix_def has_prefix_def)

lemma HexToBytes_no_panic: "HexToBytes s \<noteq> Panic p"
  by (simp add: HexToBytes_def hex_decode_no_panic)

lemma string_of_rune_out_of_range:
  "0x110000 \<le> v \<Longrightarrow> v < 2 ^ 31 \<Longrightarrow> string_of_rune v = string_of_rune 0x110000"
  by (simp add: string_of_rune_def wrap32_small valid_rune_def Let_def)

lemma CreateAddress_shape:
  assumes "\<And>b. length (x_keccak256 x b) = 32"
  shows "length (CreateAddress x h c n i d) = 42 \<and> has_prefix (CreateAddress x h c n i d) ''0x''"
  by (simp add: CreateAddress_def Let_def assms has_prefix_def)

section \<open>Attestor rendezvous (rendezvous.go)\<close>

definition node_score :: "ext \<Rightarrow> bytes \<Rightarrow> string \<Rightarrow> bytes" where
  "node_score x key addr = x_sha256 x (bytes_of addr @ key)"

text \<open>\<^verbatim>\<open>NodeTuples.Less\<close>: by the bytes of the score, then by the address.\<close>

definition node_tuple_less :: "string \<times> bytes \<Rightarrow> string \<times> bytes \<Rightarrow> bool" where
  "node_tuple_less s t \<longleftrightarrow> (if snd s = snd t then fst s < fst t else snd s < snd t)"

definition GetAttestorRendezvous :: "ext \<Rightarrow> string list \<Rightarrow> bytes \<Rightarrow> int64 \<Rightarrow> string set" where
  "GetAttestorRendezvous x validatorAddresses key sz =
     (let tuples = map (\<lambda>addr. (addr, node_score x key addr)) validatorAddresses;
          sorted_tuples = sort_key (\<lambda>t. (snd t, fst t)) tuples;
          bound = min (int (length tuples)) sz
      in set (map fst (take (nat bound) sorted_tuples)))"

lemma node_tuple_less_key: "node_tuple_less s t \<longleftrightarrow> (snd s, fst s) < (snd t, fst t)"
  by (auto simp: node_tuple_less_def)

text \<open>The addresses in the order of their scores.\<close>

definition ranked :: "ext \<Rightarrow> bytes \<Rightarrow> string list \<Rightarrow> string list" where
  "ranked x key addrs = sort_key (\<lambda>a. (node_score x key a, a)) addrs"

lemma sort_key_map_pair:
  "sort_key (\<lambda>t. (snd t, fst t)) (map (\<lambda>a. (a, f a)) xs) = map (\<lambda>a. (a, f a)) (sort_key (\<lambda>a. (f a, a)) xs)"
proof (induction xs)
  case Nil
  show ?case by simp
next
  case (Cons y ys)
  have "insort_key (\<lambda>t. (snd t, fst t)) (y, f y) (map (\<lambda>a. (a, f a)) zs)
        = map (\<lambda>a. (a, f a)) (insort_key (\<lambda>a. (f a, a)) y zs)" for zs
    by (induction zs) simp_all
  with Cons show ?case by simp
qed

lemma rendezvous_ranked:
  "GetAttestorRendezvous x addrs key sz = set (take (nat sz) (ranked x key addrs))"
proof -
  have "take (nat (min (int (length addrs)) sz)) (ranked x key addrs) = take (nat sz) (ranked x key addrs)"
  proof (cases "int (length addrs) \<le> sz")
    case True
    then have "length (ranked x key addrs) \<le> nat sz" by (simp add: ranked_def)
    with True show ?thesis by (simp add: ranked_def)
  qed (simp add: min_def)
  then show ?thesis
    by (simp add: GetAttestorRendezvous_def Let_def sort_key_map_pair take_map image_image
        ranked_def [symmetric])
qed

lemma set_ranked [simp]: "set (ranked x key addrs) = set addrs"
  by (simp add: ranked_def)

lemma length_ranked [simp]: "length (ranked x key addrs) = length addrs"
  by (simp add: ranked_def)

lemma distinct_ranked [simp]: "distinct (ranked x key addrs) = distinct addrs"
  by (simp add: ranked_def)

lemma sorted_ranked: "sorted (map (\<lambda>a. (node_score x key a, a)) (ranked x key addrs))"
  by (simp add: ranked_def)

lemma ranked_mset_cong:
  assumes "mset addrs = mset addrs'"
  shows "ranked x key addrs = ranked x key addrs'"
proof -
  let ?f = "\<lambda>a. (node_score x key a, a)"
  have "inj_on ?f A" for A by (rule inj_onI) simp
  moreover have "mset (ranked x key addrs) = mset (ranked x key addrs')"
    using assms by (simp add: ranked_def)
  ultimately show ?thesis
    using sorted_ranked [of x key addrs] sorted_ranked [of x key addrs']
    by (metis (no_types, lifting) map_inj_on map_sorted_distinct_set_unique mset_map
        properties_for_sort sorted_sort_id sort_key_id_if_sorted)
qed

section \<open>Data signed by reward messages (reward\_signing.go)\<close>

text \<open>
  A JSON string as \<^verbatim>\<open>json.Marshal\<close> writes it: control characters, the quote, the backslash and
  the HTML characters are escaped, and so are U+2028 and U+2029. Protobuf strings are valid
  UTF-8, whose other bytes are copied.
\<close>

definition json_escape :: "char \<Rightarrow> string" where
  "json_escape c = (let n = (of_char c :: nat); backslash = char_of (92 :: nat) in
     if n = 34 \<or> n = 92 then [backslash, c]
     else if n = 8 then backslash # ''b'' else if n = 12 then backslash # ''f''
     else if n = 10 then backslash # ''n'' else if n = 13 then backslash # ''r''
     else if n = 9 then backslash # ''t''
     else if n < 32 \<or> n = 60 \<or> n = 62 \<or> n = 38
     then backslash # ''u00'' @ [hex_digit (n div 16), hex_digit (n mod 16)]
     else [c])"

fun json_chars :: "string \<Rightarrow> string" where
  "json_chars (a # b # c # cs) =
     (if of_char a = (0xE2 :: nat) \<and> of_char b = (0x80 :: nat)
         \<and> (of_char c = (0xA8 :: nat) \<or> of_char c = (0xA9 :: nat))
      then char_of (92 :: nat) # ''u202'' @ (if of_char c = (0xA8 :: nat) then ''8'' else ''9'')
           @ json_chars cs
      else json_escape a @ json_chars (b # c # cs))"
| "json_chars [a, b] = json_escape a @ json_escape b"
| "json_chars [a] = json_escape a"
| "json_chars [] = []"

definition json_string :: "string \<Rightarrow> string" where
  "json_string s = [char_of (34 :: nat)] @ json_chars s @ [char_of (34 :: nat)]"

fun join_with :: "string \<Rightarrow> string list \<Rightarrow> string" where
  "join_with sep [] = []"
| "join_with sep [s] = s"
| "join_with sep (s # t # ss) = s @ sep @ join_with sep (t # ss)"

definition json_string_list :: "string list \<Rightarrow> string" where
  "json_string_list ss = ''['' @ join_with '','' (map json_string ss) @ '']''"

definition create_reward_preimage :: "create_reward \<Rightarrow> string" where
  "create_reward_preimage c =
     (let authorities = sort (map (\<lambda>a. ca_address a @ '':'' @ ca_name a) (cr_claim_authorities c))
      in cr_reward_id c @ ''|'' @ cr_name c @ ''|'' @ format_int (cr_amount c) @ ''|''
         @ json_string_list authorities @ ''|'' @ format_int (cr_deadline_block_height c))"

definition CreateDeterministicCreateRewardData :: "ext \<Rightarrow> create_reward \<Rightarrow> string" where
  "CreateDeterministicCreateRewardData x c = hex_encode (x_sha256 x (bytes_of (create_reward_preimage c)))"

definition delete_reward_preimage :: "delete_reward \<Rightarrow> string" where
  "delete_reward_preimage d = dr_address d @ ''|'' @ format_int (dr_deadline_block_height d)"

definition CreateDeterministicDeleteRewardData :: "ext \<Rightarrow> delete_reward \<Rightarrow> string" where
  "CreateDeterministicDeleteRewardData x d = hex_encode (x_sha256 x (bytes_of (delete_reward_preimage d)))"

definition SignCreateReward :: "ext \<Rightarrow> string \<Rightarrow> create_reward \<Rightarrow> string result" where
  "SignCreateReward x privateKey c =
     bind_result (wrap_err ''invalid hex data'' (hex_decode (CreateDeterministicCreateRewardData x c)))
       (EthSign x privateKey)"

definition SignDeleteReward :: "ext \<Rightarrow> string \<Rightarrow> delete_reward \<Rightarrow> string result" where
  "SignDeleteReward x privateKey d =
     bind_result (wrap_err ''invalid hex data'' (hex_decode (CreateDeterministicDeleteRewardData x d)))
       (EthSign x privateKey)"

lemma sort_mset_cong: "mset xs = mset ys \<Longrightarrow> sort xs = sort ys"
  by (metis sorted_list_of_multiset_mset)

lemma create_reward_preimage_perm:
  assumes "mset (cr_claim_authorities c) = mset auths"
  shows "create_reward_preimage (c\<lparr>cr_claim_authorities := auths\<rparr>) = create_reward_preimage c"
proof -
  let ?f = "\<lambda>a. ca_address a @ '':'' @ ca_name a"
  have "mset (map ?f auths) = mset (map ?f (cr_claim_authorities c))"
    using assms by simp
  then have "sort (map ?f auths) = sort (map ?f (cr_claim_authorities c))"
    by (rule sort_mset_cong)
  then show ?thesis by (simp add: create_reward_preimage_def)
qed

end
