(* ===== verification/Reward_Txs.thy ===== *)
theory Reward_Txs
  imports Common Core_Db
begin

text \<open>
  Rewards: the transactions that create and delete programmatic rewards
  (\<^verbatim>\<open>pkg/core/server/rewards.go\<close>) and the attester that checks, authenticates and signs claims
  against a list of rewards (\<^verbatim>\<open>pkg/rewards\<close>).
\<close>

section \<open>Reward transactions (rewards.go)\<close>

definition validateRewardSignature ::
    "ext \<Rightarrow> int64 \<Rightarrow> string \<Rightarrow> int64 \<Rightarrow> string \<Rightarrow> string result" where
  "validateRewardSignature x currentHeight signature deadlineHeight signatureData =
     (if currentHeight > deadlineHeight then Err (Errorf ''reward transaction expired'')
      else bind_result (wrap_err ''reward signature invalid: invalid hex data'' (hex_decode signatureData)) (\<lambda>dataBytes.
           bind_result (wrap_err ''reward signature invalid: failed to recover signer''
             (EthRecover x signature dataBytes)) (\<lambda>(k, signer). Ok signer)))"

definition validateCreateReward :: "ext \<Rightarrow> create_reward \<Rightarrow> int64 \<Rightarrow> unit result" where
  "validateCreateReward x createReward blockHeight =
     wrap_err ''create reward validation failed'' (map_result (\<lambda>_. ())
       (validateRewardSignature x blockHeight (cr_signature createReward)
          (cr_deadline_block_height createReward) (CreateDeterministicCreateRewardData x createReward)))"

fun is_authority :: "string list \<Rightarrow> string \<Rightarrow> bool" where
  "is_authority [] signer = False"
| "is_authority (auth # rest) signer = (equal_fold auth signer \<or> is_authority rest signer)"

definition validateDeleteReward :: "ext \<Rightarrow> core_db \<Rightarrow> delete_reward \<Rightarrow> int64 \<Rightarrow> unit result" where
  "validateDeleteReward x db deleteReward blockHeight =
     bind_result (wrap_err ''delete reward validation failed''
       (validateRewardSignature x blockHeight (dr_signature deleteReward)
          (dr_deadline_block_height deleteReward) (CreateDeterministicDeleteRewardData x deleteReward))) (\<lambda>signer.
     bind_result (wrap_err ''failed to get existing reward for validation''
       (db_row ''GetReward'' (GetReward (dr_address deleteReward)) db)) (\<lambda>existingReward.
     if \<not> is_authority (rw_claim_authorities existingReward) signer
     then Err (Errorf ''reward transaction unauthorized'') else Ok ()))"

definition isValidRewardTransaction :: "ext \<Rightarrow> core_db \<Rightarrow> signed_transaction \<Rightarrow> int64 \<Rightarrow> unit result" where
  "isValidRewardTransaction x db signedTx blockHeight =
     (case get_reward signedTx of
        None \<Rightarrow> Err (Errorf ''reward message validation failed: reward message is nil'')
      | Some None \<Rightarrow> Err (Errorf ''reward message validation failed: unsupported reward action type'')
      | Some (Some (RewardCreate c)) \<Rightarrow> validateCreateReward x c blockHeight
      | Some (Some (RewardDelete d)) \<Rightarrow> validateDeleteReward x db d blockHeight)"

definition finalizeCreateReward ::
    "ext \<Rightarrow> core_config \<Rightarrow> int64 \<Rightarrow> string \<Rightarrow> int64 \<Rightarrow> create_reward \<Rightarrow> unit stmt" where
  "finalizeCreateReward x cfg height txhash messageIndex createReward =
     stmt_bind (stmt_lift (wrap_err ''create reward signature validation failed''
       (validateRewardSignature x height (cr_signature createReward)
          (cr_deadline_block_height createReward) (CreateDeterministicCreateRewardData x createReward)))) (\<lambda>signer.
     stmt_bind (stmt_lift (wrap_err ''invalid txhash'' (HexToBytes txhash))) (\<lambda>txhashBytes.
     stmt_bind (stmt_lift (wrap_err ''failed to marshal create reward message''
       (marshal (x_marshal_create_reward x) createReward))) (\<lambda>rawMessage.
     stmt_wrap ''failed to insert reward'' (InsertCoreReward
       \<lparr>rw_address = CreateAddress x txhashBytes (cfg_ChainID cfg) height messageIndex '''',
        rw_tx_hash = txhash, rw_index = messageIndex, rw_sender = signer,
        rw_reward_id = cr_reward_id createReward, rw_name = cr_name createReward,
        rw_amount = wrap64 (cr_amount createReward),
        rw_claim_authorities = map ca_address (cr_claim_authorities createReward),
        rw_raw_message = rawMessage, rw_block_height = height\<rparr>))))"

definition finalizeDeleteReward :: "ext \<Rightarrow> int64 \<Rightarrow> delete_reward \<Rightarrow> unit stmt" where
  "finalizeDeleteReward x height deleteReward =
     stmt_bind (stmt_lift (wrap_err ''delete reward signature validation failed''
       (validateRewardSignature x height (dr_signature deleteReward)
          (dr_deadline_block_height deleteReward) (CreateDeterministicDeleteRewardData x deleteReward)))) (\<lambda>signer.
     stmt_bind (stmt_wrap ''failed to get existing reward''
       (row_stmt ''GetReward'' (GetReward (dr_address deleteReward)))) (\<lambda>existingReward.
     if \<not> is_authority (rw_claim_authorities existingReward) signer
     then stmt_lift (Err (Errorf ''signer not authorized to delete reward''))
     else stmt_wrap ''failed to delete reward'' (DeleteCoreReward (dr_address deleteReward))))"

definition finalizeRewards ::
    "ext \<Rightarrow> core_config \<Rightarrow> int64 \<Rightarrow> string \<Rightarrow> int64 \<Rightarrow> reward_action option \<Rightarrow> unit stmt" where
  "finalizeRewards x cfg height txhash messageIndex action =
     (case action of
        Some (RewardCreate c) \<Rightarrow> stmt_wrap ''reward message finalization failed''
          (finalizeCreateReward x cfg height txhash messageIndex c)
      | Some (RewardDelete d) \<Rightarrow> stmt_wrap ''reward message finalization failed'' (finalizeDeleteReward x height d)
      | None \<Rightarrow> stmt_lift (Err (Errorf ''unsupported reward action type'')))"

definition finalizeRewardTransaction ::
    "ext \<Rightarrow> core_config \<Rightarrow> int64 \<Rightarrow> string \<Rightarrow> reward_action option \<Rightarrow> unit stmt" where
  "finalizeRewardTransaction x cfg height txhash action = finalizeRewards x cfg height txhash 0 action"

section \<open>The attester (pkg/rewards)\<close>

record reward_cfg =
  rc_ClaimAuthorities :: "claim_authority list"
  rc_Amount :: int
  rc_RewardId :: string
  rc_Name :: string

record reward_claim =
  cl_RecipientEthAddress :: string
  cl_Amount :: int
  cl_RewardID :: string
  cl_RewardAddress :: string
  cl_Specifier :: string
  cl_AntiAbuseOracleEthAddress :: string

definition combined_id :: "reward_claim \<Rightarrow> string" where
  "combined_id claim =
     (if cl_RewardAddress claim \<noteq> ''''
      then cl_RewardAddress claim @ '':'' @ cl_RewardID claim @ '':'' @ cl_Specifier claim
      else cl_RewardID claim @ '':'' @ cl_Specifier claim)"

fun join_bytes :: "bytes \<Rightarrow> bytes list \<Rightarrow> bytes" where
  "join_bytes sep [] = []"
| "join_bytes sep [b] = b"
| "join_bytes sep (b # c # bs) = b @ sep @ join_bytes sep (c # bs)"

definition Compile :: "reward_claim \<Rightarrow> bytes result" where
  "Compile claim =
     (let combinedIDBytes = bytes_of (combined_id claim);
          encodedAmount = uwrap64 (cl_Amount claim * 100000000);
          amountBytes = put_uint64_le encodedAmount
      in bind_result (wrap_err ''failed to decode user wallet''
           (hex_decode (trim_prefix (cl_RecipientEthAddress claim) ''0x''))) (\<lambda>userBytes.
         let items = [userBytes, amountBytes, combinedIDBytes] in
         if cl_AntiAbuseOracleEthAddress claim \<noteq> ''''
         then bind_result (wrap_err ''failed to decode oracle address''
                (hex_decode (trim_prefix (cl_AntiAbuseOracleEthAddress claim) ''0x''))) (\<lambda>oracleBytes.
              Ok (join_bytes (bytes_of ''_'') (items @ [oracleBytes])))
         else Ok (join_bytes (bytes_of ''_'') items)))"

definition getRewardById :: "reward_cfg list \<Rightarrow> string \<Rightarrow> reward_cfg result" where
  "getRewardById rewards rewardID =
     (case find_row (\<lambda>r. rc_RewardId r = rewardID) rewards of
        Some r \<Rightarrow> Ok r | None \<Rightarrow> Err (Errorf ''reward not found''))"

definition Validate :: "reward_cfg list \<Rightarrow> reward_claim \<Rightarrow> unit result" where
  "Validate rewards claim =
     bind_result (getRewardById rewards (cl_RewardID claim)) (\<lambda>reward.
     if cl_RecipientEthAddress claim = '''' then Err (Errorf ''missing recipient eth address'')
     else if cl_Specifier claim = '''' then Err (Errorf ''missing specifier'')
     else if cl_Amount claim \<noteq> rc_Amount reward then Err (Errorf ''amount does not match reward amount'')
     else Ok ())"

definition recoverSigner :: "ext \<Rightarrow> reward_claim \<Rightarrow> string \<Rightarrow> string result" where
  "recoverSigner x claim signature =
     bind_result (wrap_err ''failed to get attestation bytes'' (Compile claim)) (\<lambda>claimData.
     bind_result (wrap_err ''failed to decode signature'' (hex_decode (trim_prefix signature ''0x''))) (\<lambda>sigBytes.
     case x_SigToPub x (x_keccak256 x claimData) sigBytes of
       None \<Rightarrow> Err (Errorf ''failed to recover wallet from signature'')
     | Some wallet \<Rightarrow> Ok (x_PubkeyToAddress x wallet)))"

fun validClaimAuthority :: "claim_authority list \<Rightarrow> string \<Rightarrow> bool" where
  "validClaimAuthority [] address = False"
| "validClaimAuthority (authority # rest) address = (ca_address authority = address \<or> validClaimAuthority rest address)"

definition Authenticate :: "ext \<Rightarrow> reward_cfg list \<Rightarrow> reward_claim \<Rightarrow> string \<Rightarrow> unit result" where
  "Authenticate x rewards claim signature =
     bind_result (getRewardById rewards (cl_RewardID claim)) (\<lambda>reward.
     bind_result (recoverSigner x claim signature) (\<lambda>recoveredSigner.
     if \<not> validClaimAuthority (rc_ClaimAuthorities reward) recoveredSigner
     then Err (Errorf ''address is not a claim authority for reward'') else Ok ()))"

definition Attest :: "ext \<Rightarrow> string \<Rightarrow> reward_claim \<Rightarrow> (bytes \<times> string) result" where
  "Attest x key claim =
     bind_result (wrap_err ''failed to get attestation bytes'' (Compile claim)) (\<lambda>claimData.
     case x_Sign x (x_keccak256 x claimData) key of
       None \<Rightarrow> Err (Errorf ''failed to sign hash'')
     | Some signatureBytes \<Rightarrow> Ok (claimData, ''0x'' @ hex_encode signatureBytes))"

text \<open>The HTTP handler behind \<^verbatim>\<open>getRewardAttestation\<close>: the status code and the attestation.\<close>

definition getRewardAttestation ::
    "ext \<Rightarrow> string \<Rightarrow> reward_cfg list \<Rightarrow> string \<Rightarrow> string \<Rightarrow> string \<Rightarrow> string \<Rightarrow> string \<Rightarrow> string \<Rightarrow> nat \<times> string" where
  "getRewardAttestation x key rewards ethRecipientAddress rewardID specifier oracleAddress signature amount =
     (if ethRecipientAddress = '''' then (400, '''') else if rewardID = '''' then (400, '''')
      else if specifier = '''' then (400, '''') else if oracleAddress = '''' then (400, '''')
      else if signature = '''' then (400, '''') else if amount = '''' then (400, '''')
      else case parse_uint 64 amount of
        Ok amountUint \<Rightarrow>
          let claim = \<lparr>cl_RecipientEthAddress = ethRecipientAddress, cl_Amount = amountUint, cl_RewardID = rewardID,
                cl_RewardAddress = '''', cl_Specifier = specifier, cl_AntiAbuseOracleEthAddress = oracleAddress\<rparr>
          in if \<not> is_ok (Validate rewards claim) then (400, '''')
             else if \<not> is_ok (Authenticate x rewards claim signature) then (401, '''')
             else (case Attest x key claim of Ok (m, attestation) \<Rightarrow> (200, attestation) | _ \<Rightarrow> (500, ''''))
      | _ \<Rightarrow> (400, ''''))"

section \<open>Life cycle of a reward\<close>

lemma is_authority_iff: "is_authority auths signer \<longleftrightarrow> (\<exists>a \<in> set auths. equal_fold a signer)"
  by (induction auths) auto

lemma validClaimAuthority_iff: "validClaimAuthority auths a \<longleftrightarrow> a \<in> ca_address ` set auths"
  by (induction auths) auto

lemma signed_reward_accepted:
  assumes sign: "\<And>h s. x_Sign x h key = Some s \<Longrightarrow> x_SigToPub x h s = Some pub"
    and sig: "EthSign x key (x_sha256 x (bytes_of preimage)) = Ok sg" and "height \<le> deadline"
  shows "validateRewardSignature x height sg deadline (hex_encode (x_sha256 x (bytes_of preimage)))
    = Ok (x_PubkeyToAddress x pub)"
  using EthRecover_EthSign [OF sig sign] assms(3) by (simp add: validateRewardSignature_def)

text \<open>
  (C15) A create-reward message signed by \<^verbatim>\<open>SignCreateReward\<close> is valid up to its deadline, and
  finalizing it in an open transaction stores one reward whose sender is the address of the
  signing key, with the authorities and the amount of the message. The hypothesis on the
  signature scheme is that a signature recovers the public key that made it.
\<close>

theorem create_reward_roundtrip:
  assumes scheme: "\<And>h s. x_Sign x h key = Some s \<Longrightarrow> x_SigToPub x h s = Some pub"
    and signed: "SignCreateReward x key c = Ok (cr_signature c)"
    and height: "height \<le> cr_deadline_block_height c"
    and raw: "HexToBytes txhash = Ok hashBytes" "x_marshal_create_reward x c = Some rawMessage"
    and live: "\<not> tx_aborted ptx" "\<not> db_fault (tx_db ptx) ''InsertCoreReward''"
  shows "validateCreateReward x c height = Ok ()
    \<and> (\<exists>row. finalizeRewardTransaction x cfg height txhash (Some (RewardCreate c)) ptx =
         (Ok (), ptx\<lparr>tx_db := (tx_db ptx)\<lparr>core_rewards := core_rewards (tx_db ptx) @ [row]\<rparr>\<rparr>)
       \<and> rw_sender row = x_PubkeyToAddress x pub \<and> rw_amount row = wrap64 (cr_amount c)
       \<and> rw_claim_authorities row = map ca_address (cr_claim_authorities c)
       \<and> rw_address row = CreateAddress x hashBytes (cfg_ChainID cfg) height 0 '''')"
proof -
  have "EthSign x key (x_sha256 x (bytes_of (create_reward_preimage c))) = Ok (cr_signature c)"
    using signed by (simp add: SignCreateReward_def CreateDeterministicCreateRewardData_def)
  from signed_reward_accepted [OF scheme this height]
  have ok: "validateRewardSignature x height (cr_signature c) (cr_deadline_block_height c)
      (CreateDeterministicCreateRewardData x c) = Ok (x_PubkeyToAddress x pub)"
    by (simp add: CreateDeterministicCreateRewardData_def)
  with raw live show ?thesis
    by (simp add: validateCreateReward_def finalizeRewardTransaction_def finalizeRewards_def
        finalizeCreateReward_def stmt_bind_def stmt_lift_def stmt_wrap_def marshal_def InsertCoreReward_def
        exec_stmt_def) (rule exI, rule conjI, rule refl, simp)
qed

definition demo_create_reward :: create_reward where
  "demo_create_reward = \<lparr>cr_reward_id = ''c'', cr_name = ''n'', cr_amount = 5,
     cr_claim_authorities = [\<lparr>ca_address = ''key'', ca_name = ''me''\<rparr>], cr_deadline_block_height = 100,
     cr_signature = ''6b6579''\<rparr>"

lemma demo_signing:
  "EthSign demo_ext ''key'' d = Ok ''6b6579''"
  "x_Sign demo_ext h ''key'' = Some s \<Longrightarrow> x_SigToPub demo_ext h s = Some (bytes_of ''key'')"
proof -
  have "hex_encode (bytes_of ''key'') = ''6b6579''" by code_simp
  then show "EthSign demo_ext ''key'' d = Ok ''6b6579''" by (simp add: EthSign_def demo_ext_def)
  show "x_SigToPub demo_ext h s = Some (bytes_of ''key'')" if "x_Sign demo_ext h ''key'' = Some s"
    using that by (auto simp: demo_ext_def bytes_of_def)
qed

theorem create_reward_roundtrip_witness:
  "\<exists>row. finalizeRewardTransaction demo_ext demo_config 7 ''00'' (Some (RewardCreate demo_create_reward)) (begin_tx empty_db) =
      (Ok (), begin_tx (empty_db\<lparr>core_rewards := [row]\<rparr>)) \<and> rw_sender row = ''key'' \<and> rw_amount row = 5"
proof -
  have signed: "SignCreateReward demo_ext ''key'' demo_create_reward = Ok (cr_signature demo_create_reward)"
    by (simp add: SignCreateReward_def CreateDeterministicCreateRewardData_def demo_signing demo_create_reward_def)
  have "x_PubkeyToAddress demo_ext (bytes_of ''key'') = ''key''" by (simp add: demo_ext_def)
  moreover have "HexToBytes ''00'' = Ok [0]" by code_simp
  ultimately show ?thesis
    using create_reward_roundtrip [OF demo_signing(2) signed, of 7 "''00''" "[0]" "[]" "begin_tx empty_db" demo_config]
    by (auto simp: demo_create_reward_def begin_tx_def empty_db_def demo_ext_def wrap64_def)
qed

text \<open>
  (C16) A delete-reward message that is not expired, signed by some address, for a stored
  reward: when the address is a claim authority of the latest reward there, up to case, no
  reward with that address is left and all others stay; when it is not, the message is refused
  and the transaction is left as it was.
\<close>

theorem delete_reward_authorization:
  assumes signer: "validateRewardSignature x height (dr_signature d) (dr_deadline_block_height d)
      (CreateDeterministicDeleteRewardData x d) = Ok signer"
    and stored: "GetReward (dr_address d) (tx_db ptx) = Some reward"
    and live: "\<not> tx_aborted ptx" "\<not> db_fault (tx_db ptx) ''GetReward''" "\<not> db_fault (tx_db ptx) ''DeleteCoreReward''"
  shows "if \<exists>a \<in> set (rw_claim_authorities reward). equal_fold a signer
    then \<exists>ptx'. finalizeRewardTransaction x cfg height txhash (Some (RewardDelete d)) ptx = (Ok (), ptx')
       \<and> GetReward (dr_address d) (tx_db ptx') = None
       \<and> (\<forall>a. a \<noteq> dr_address d \<longrightarrow> GetReward a (tx_db ptx') = GetReward a (tx_db ptx))
    else \<exists>e. finalizeRewardTransaction x cfg height txhash (Some (RewardDelete d)) ptx = (Err e, ptx)"
proof -
  have step: "row_stmt ''GetReward'' (GetReward (dr_address d)) ptx = (Ok reward, ptx)"
    using live stored by (simp add: row_stmt_def rows_stmt_def stmt_bind_def stmt_lift_def)
  let ?rows = "filter (\<lambda>r. rw_address r \<noteq> dr_address d) (core_rewards (tx_db ptx))"
  have del: "filter (\<lambda>r. rw_address r = dr_address d) ?rows = []"
    and keep: "a \<noteq> dr_address d \<Longrightarrow> filter (\<lambda>r. rw_address r = a) ?rows =
      filter (\<lambda>r. rw_address r = a) (core_rewards (tx_db ptx))" for a
    by (auto simp: filter_empty_conv intro: filter_cong)
  show ?thesis
  proof (cases "is_authority (rw_claim_authorities reward) signer")
    case True
    with signer step live have "finalizeRewardTransaction x cfg height txhash (Some (RewardDelete d)) ptx =
        (Ok (), ptx\<lparr>tx_db := (tx_db ptx)\<lparr>core_rewards := ?rows\<rparr>\<rparr>)"
      by (simp add: finalizeRewardTransaction_def finalizeRewards_def finalizeDeleteReward_def stmt_bind_def
          stmt_lift_def stmt_wrap_def DeleteCoreReward_def exec_stmt_def)
    with True del keep show ?thesis
      by (auto simp: is_authority_iff GetReward_def latest_by_def simp del: filter_filter)
  next
    case False
    with signer step show ?thesis
      by (auto simp: is_authority_iff [symmetric] finalizeRewardTransaction_def finalizeRewards_def
          finalizeDeleteReward_def stmt_bind_def stmt_lift_def stmt_wrap_def)
  qed
qed

definition demo_delete_reward :: delete_reward where
  "demo_delete_reward = \<lparr>dr_address = ''0xr'', dr_deadline_block_height = 100, dr_signature = ''6b6579''\<rparr>"

definition demo_rewards_db :: core_db where
  "demo_rewards_db = empty_db\<lparr>core_rewards := [\<lparr>rw_address = ''0xr'', rw_tx_hash = '''', rw_index = 0,
     rw_sender = '''', rw_reward_id = ''c'', rw_name = '''', rw_amount = 5, rw_claim_authorities = [''KEY''],
     rw_raw_message = [], rw_block_height = 3\<rparr>]\<rparr>"

lemma demo_delete_signer:
  "validateRewardSignature demo_ext 7 (dr_signature demo_delete_reward)
     (dr_deadline_block_height demo_delete_reward) (CreateDeterministicDeleteRewardData demo_ext demo_delete_reward) = Ok ''key''"
proof -
  have "EthSign demo_ext ''key'' (x_sha256 demo_ext (bytes_of (delete_reward_preimage demo_delete_reward)))
      = Ok (dr_signature demo_delete_reward)"
    by (simp add: demo_signing demo_delete_reward_def)
  from signed_reward_accepted [OF demo_signing(2) this, of 7 100] show ?thesis
    by (simp add: CreateDeterministicDeleteRewardData_def demo_delete_reward_def) (simp add: demo_ext_def)
qed

theorem delete_reward_authorization_witness:
  "\<exists>ptx. finalizeRewardTransaction demo_ext demo_config 7 ''00'' (Some (RewardDelete demo_delete_reward))
       (begin_tx demo_rewards_db) = (Ok (), ptx) \<and> GetReward ''0xr'' (tx_db ptx) = None"
proof -
  have fold: "equal_fold ''KEY'' ''key''" by code_simp
  have stored: "GetReward (dr_address demo_delete_reward) (tx_db (begin_tx demo_rewards_db))
      = Some (hd (core_rewards demo_rewards_db))"
    by (simp add: GetReward_def latest_by_def begin_tx_def demo_rewards_db_def demo_delete_reward_def)
  show ?thesis
    using delete_reward_authorization [OF demo_delete_signer stored, of demo_config "''00''"] fold
    by (auto simp: begin_tx_def demo_rewards_db_def empty_db_def demo_delete_reward_def)
qed

text \<open>
  The text a create-reward signature covers does not separate its fields unambiguously:
  moving a part that ends in a bar from the name into the identifier leaves it unchanged, so
  one signature is valid for both rewards. The order of the authorities does not matter either.
\<close>

theorem create_reward_signature_ambiguous:
  "validateCreateReward x (c\<lparr>cr_reward_id := a @ ''|'' @ b, cr_name := n\<rparr>) height
     = validateCreateReward x (c\<lparr>cr_reward_id := a, cr_name := b @ ''|'' @ n\<rparr>) height
   \<and> (mset auths = mset (cr_claim_authorities c) \<longrightarrow>
        validateCreateReward x (c\<lparr>cr_claim_authorities := auths\<rparr>) height = validateCreateReward x c height)"
proof -
  have "create_reward_preimage (c\<lparr>cr_reward_id := a @ ''|'' @ b, cr_name := n\<rparr>)
      = create_reward_preimage (c\<lparr>cr_reward_id := a, cr_name := b @ ''|'' @ n\<rparr>)"
    by (simp add: create_reward_preimage_def Let_def)
  then show ?thesis
    by (simp add: validateCreateReward_def CreateDeterministicCreateRewardData_def create_reward_preimage_perm)
qed

theorem create_reward_signature_ambiguous_witness:
  "validateCreateReward demo_ext (demo_create_reward\<lparr>cr_claim_authorities := cr_claim_authorities demo_create_reward\<rparr>) 7
     = validateCreateReward demo_ext demo_create_reward 7"
  using create_reward_signature_ambiguous [where x = demo_ext and c = demo_create_reward and height = 7
      and auths = "cr_claim_authorities demo_create_reward"] by blast

section \<open>The encoding of a claim\<close>

text \<open>
  The amount of a claim is multiplied by a hundred million in 64 bits and wraps: a claim
  and one whose amount is larger by two to the 56 have the same attestation bytes.
\<close>

theorem claim_amount_wraps:
  "Compile (claim\<lparr>cl_Amount := a + 2 ^ 56\<rparr>) = Compile (claim\<lparr>cl_Amount := a\<rparr>)"
proof -
  have "(a + 2 ^ 56) * 100000000 = a * 100000000 + 390625 * 2 ^ 64" by simp
  then have "uwrap64 ((a + 2 ^ 56) * 100000000) = uwrap64 (a * 100000000)"
    unfolding uwrap64_def by (metis mod_mult_self1)
  then show ?thesis by (simp add: Compile_def combined_id_def Let_def cong: if_cong)
qed

lemma Compile_eq_Ok:
  "Compile claim = Ok bs \<longleftrightarrow> (\<exists>user. hex_decode (trim_prefix (cl_RecipientEthAddress claim) ''0x'') = Ok user
     \<and> (if cl_AntiAbuseOracleEthAddress claim = ''''
        then bs = user @ bytes_of ''_'' @ put_uint64_le (uwrap64 (cl_Amount claim * 100000000)) @ bytes_of ''_''
                  @ bytes_of (combined_id claim)
        else \<exists>oracle. hex_decode (trim_prefix (cl_AntiAbuseOracleEthAddress claim) ''0x'') = Ok oracle
          \<and> bs = user @ bytes_of ''_'' @ put_uint64_le (uwrap64 (cl_Amount claim * 100000000)) @ bytes_of ''_''
                  @ bytes_of (combined_id claim) @ bytes_of ''_'' @ oracle))"
  by (auto simp: Compile_def Let_def go_simps)

text \<open>A claim with 20-byte addresses, an amount that fits and identifiers without a colon.\<close>

definition claim_wf :: "reward_claim \<Rightarrow> bool" where
  "claim_wf c \<longleftrightarrow> 0 \<le> cl_Amount c \<and> cl_Amount c * 100000000 < 2 ^ 64
     \<and> CHR '':'' \<notin> set (cl_RewardID c) \<and> CHR '':'' \<notin> set (cl_RewardAddress c)
     \<and> (\<forall>bs. hex_decode (trim_prefix (cl_RecipientEthAddress c) ''0x'') = Ok bs \<longrightarrow> length bs = 20)
     \<and> (cl_AntiAbuseOracleEthAddress c \<noteq> '''' \<longrightarrow>
          (\<forall>bs. hex_decode (trim_prefix (cl_AntiAbuseOracleEthAddress c) ''0x'') = Ok bs \<longrightarrow> length bs = 20))"

lemma combined_id_inject:
  assumes "claim_wf c" "claim_wf c'" and "cl_RewardAddress c = '''' \<longleftrightarrow> cl_RewardAddress c' = ''''"
    and "combined_id c = combined_id c'"
  shows "cl_RewardAddress c = cl_RewardAddress c' \<and> cl_RewardID c = cl_RewardID c' \<and> cl_Specifier c = cl_Specifier c'"
proof (cases "cl_RewardAddress c = ''''")
  case True
  with assms have "cl_RewardID c @ CHR '':'' # cl_Specifier c = cl_RewardID c' @ CHR '':'' # cl_Specifier c'"
    by (simp add: combined_id_def)
  moreover have "CHR '':'' \<notin> set (cl_RewardID c)" "CHR '':'' \<notin> set (cl_RewardID c')"
    using assms(1,2) by (simp_all add: claim_wf_def)
  ultimately have "cl_RewardID c = cl_RewardID c' \<and> cl_Specifier c = cl_Specifier c'"
    by (intro split_first_inject)
  with True assms(3) show ?thesis by metis
next
  case False
  with assms have eq: "cl_RewardAddress c @ CHR '':'' # cl_RewardID c @ CHR '':'' # cl_Specifier c
      = cl_RewardAddress c' @ CHR '':'' # cl_RewardID c' @ CHR '':'' # cl_Specifier c'"
    by (simp add: combined_id_def)
  have adr: "cl_RewardAddress c = cl_RewardAddress c'
      \<and> cl_RewardID c @ CHR '':'' # cl_Specifier c = cl_RewardID c' @ CHR '':'' # cl_Specifier c'"
    by (rule split_first_inject [OF _ _ eq]) (use assms in \<open>simp_all add: claim_wf_def\<close>)
  have "cl_RewardID c = cl_RewardID c' \<and> cl_Specifier c = cl_Specifier c'"
    by (rule split_first_inject [OF _ _ adr [THEN conjunct2]]) (use assms in \<open>simp_all add: claim_wf_def\<close>)
  with adr show ?thesis by blast
qed

text \<open>
  (C17) On well-formed claims the attestation bytes determine the claim: two claims of the
  same kind (both or neither with a reward address, both or neither with an oracle) that
  compile to the same bytes have the same recipient, amount, identifiers, specifier and oracle.
\<close>

theorem claim_encoding_injective:
  assumes wf: "claim_wf c" "claim_wf c'"
    and kind: "cl_RewardAddress c = '''' \<longleftrightarrow> cl_RewardAddress c' = ''''"
      "cl_AntiAbuseOracleEthAddress c = '''' \<longleftrightarrow> cl_AntiAbuseOracleEthAddress c' = ''''"
    and same: "Compile c = Ok bs" "Compile c' = Ok bs"
  shows "cl_Amount c = cl_Amount c' \<and> cl_RewardAddress c = cl_RewardAddress c' \<and> cl_RewardID c = cl_RewardID c'
    \<and> cl_Specifier c = cl_Specifier c'
    \<and> hex_decode (trim_prefix (cl_RecipientEthAddress c) ''0x'') = hex_decode (trim_prefix (cl_RecipientEthAddress c') ''0x'')
    \<and> (cl_AntiAbuseOracleEthAddress c \<noteq> '''' \<longrightarrow>
         hex_decode (trim_prefix (cl_AntiAbuseOracleEthAddress c) ''0x'')
         = hex_decode (trim_prefix (cl_AntiAbuseOracleEthAddress c') ''0x''))"
proof -
  let ?amt = "\<lambda>c. put_uint64_le (uwrap64 (cl_Amount c * 100000000))"
  let ?o = "\<lambda>c. hex_decode (trim_prefix (cl_AntiAbuseOracleEthAddress c) ''0x'')"
  obtain u u' t t' where u: "hex_decode (trim_prefix (cl_RecipientEthAddress c) ''0x'') = Ok u"
      "hex_decode (trim_prefix (cl_RecipientEthAddress c') ''0x'') = Ok u'"
    and bs: "bs = u @ bytes_of ''_'' @ ?amt c @ bytes_of ''_'' @ bytes_of (combined_id c) @ t"
      "bs = u' @ bytes_of ''_'' @ ?amt c' @ bytes_of ''_'' @ bytes_of (combined_id c') @ t'"
    and t: "if cl_AntiAbuseOracleEthAddress c = '''' then t = [] \<and> t' = []
      else \<exists>oc oc'. ?o c = Ok oc \<and> ?o c' = Ok oc' \<and> t = bytes_of ''_'' @ oc \<and> t' = bytes_of ''_'' @ oc'"
    using same kind(2) unfolding Compile_eq_Ok by (auto split: if_splits)
  have len: "length u = length u'" using wf u unfolding claim_wf_def by auto
  then have "u = u'" and rest: "?amt c @ bytes_of ''_'' @ bytes_of (combined_id c) @ t
      = ?amt c' @ bytes_of ''_'' @ bytes_of (combined_id c') @ t'" using bs by auto
  then have amt: "?amt c = ?amt c'" and tail: "bytes_of (combined_id c) @ t = bytes_of (combined_id c') @ t'"
    by (auto simp: append_eq_append_conv)
  have lt: "length t = length t'" using t wf kind(2) unfolding claim_wf_def by (auto split: if_splits)
  with tail have "combined_id c = combined_id c'" and tt: "t = t'" by auto
  with combined_id_inject [OF wf kind(1)] have ids: "cl_RewardAddress c = cl_RewardAddress c'
      \<and> cl_RewardID c = cl_RewardID c' \<and> cl_Specifier c = cl_Specifier c'" by blast
  have "uwrap64 (cl_Amount c * 100000000) = uwrap64 (cl_Amount c' * 100000000)"
    by (rule put_uint64_le_inject [OF _ _ _ _ amt]) (simp_all add: uwrap64_def)
  then have "cl_Amount c = cl_Amount c'" using wf by (simp add: uwrap64_def claim_wf_def)
  with ids u \<open>u = u'\<close> t tt show ?thesis by (auto split: if_splits)
qed

definition demo_claim :: reward_claim where
  "demo_claim = \<lparr>cl_RecipientEthAddress = replicate 40 (CHR ''0''), cl_Amount = 5, cl_RewardID = ''c'',
     cl_RewardAddress = '''', cl_Specifier = ''s:1'', cl_AntiAbuseOracleEthAddress = ''''\<rparr>"

theorem claim_encoding_injective_witness:
  "\<exists>bs. Compile demo_claim = Ok bs
     \<and> Compile (demo_claim\<lparr>cl_RecipientEthAddress := ''0x'' @ replicate 40 (CHR ''0'')\<rparr>) = Ok bs
     \<and> hex_decode (trim_prefix (cl_RecipientEthAddress demo_claim) ''0x'')
       = hex_decode (trim_prefix (''0x'' @ replicate 40 (CHR ''0'')) ''0x'')"
proof -
  let ?c = "demo_claim\<lparr>cl_RecipientEthAddress := ''0x'' @ replicate 40 (CHR ''0'')\<rparr>"
  have dec: "hex_decode (trim_prefix (replicate 40 (CHR ''0'')) ''0x'') = Ok (replicate 20 0)"
    "hex_decode (trim_prefix (''0x'' @ replicate 40 (CHR ''0'')) ''0x'') = Ok (replicate 20 0)"
    by code_simp+
  let ?bs = "replicate 20 0 @ bytes_of ''_'' @ put_uint64_le 500000000 @ bytes_of ''_'' @ bytes_of ''c:s:1''"
  have comp: "Compile demo_claim = Ok ?bs" "Compile ?c = Ok ?bs"
    unfolding Compile_eq_Ok using dec by (auto simp: demo_claim_def combined_id_def uwrap64_def)
  have wf: "claim_wf demo_claim" "claim_wf ?c"
    using dec unfolding claim_wf_def by (auto simp: demo_claim_def)
  show ?thesis
    using claim_encoding_injective [OF wf _ _ comp] comp by (auto simp: demo_claim_def)
qed

text \<open>
  Across kinds the bytes do not determine the claim: a reward address and an identifier read like an
  identifier and the start of a specifier.
\<close>

theorem claim_kinds_collide:
  assumes "a \<noteq> ''''"
  shows "Compile (claim\<lparr>cl_RewardAddress := a, cl_RewardID := i, cl_Specifier := s\<rparr>)
    = Compile (claim\<lparr>cl_RewardAddress := '''', cl_RewardID := a, cl_Specifier := i @ '':'' @ s\<rparr>)"
  using assms by (simp add: Compile_def combined_id_def Let_def cong: if_cong)

lemma abort_rewards [abort_intros]: "respects_abort (finalizeRewardTransaction x cfg h txhash action)"
  unfolding finalizeRewardTransaction_def finalizeRewards_def finalizeCreateReward_def finalizeDeleteReward_def
    InsertCoreReward_def DeleteCoreReward_def
  by (auto split: option.splits reward_action.splits intro!: abort_intros)

end
