(* ===== verification/State_Sync.thy ===== *)
theory State_Sync
  imports Retention Reward_Txs "HOL-Library.AList"
begin

text \<open>
  State sync (\<^verbatim>\<open>pkg/core/server/state_sync.go\<close> and the snapshot callbacks of \<^verbatim>\<open>abci.go\<close>): a serving node
  dumps its database, cuts the dump into compressed chunks and serves them; a joining node
  stores the chunks it is given in any order, puts them together and restores its database.
  The disk is a list of files and directories; gzip, JSON and the PostgreSQL programs are
  arguments of the definitions.
\<close>

section \<open>The disk\<close>

type_synonym path = "string list"

text \<open>\<open>dk_fault\<close> names the paths at which operations fail.\<close>

record disk =
  dk_files :: "(path \<times> bytes) list"
  dk_dirs :: "path list"
  dk_fault :: "path \<Rightarrow> bool"

definition io_error :: "'a result" where
  "io_error = Err (Errorf ''input/output error'')"

definition MkdirAll :: "path \<Rightarrow> disk \<Rightarrow> unit result \<times> disk" where
  "MkdirAll p d = (if dk_fault d p then (io_error, d) else (Ok (), d\<lparr>dk_dirs := List.union (dk_dirs d) (map (\<lambda>n. take n p) [0..<Suc (length p)])\<rparr>))"

definition WriteFile :: "path \<Rightarrow> bytes \<Rightarrow> disk \<Rightarrow> unit result \<times> disk" where
  "WriteFile p b d =
     (if dk_fault d p \<or> butlast p \<notin> set (dk_dirs d) then (io_error, d)
      else (Ok (), d\<lparr>dk_files := AList.update p b (dk_files d)\<rparr>))"

definition ReadFile :: "path \<Rightarrow> disk \<Rightarrow> bytes result" where
  "ReadFile p d = (if dk_fault d p then io_error else case map_of (dk_files d) p of None \<Rightarrow> io_error | Some b \<Rightarrow> Ok b)"

definition Remove :: "path \<Rightarrow> disk \<Rightarrow> unit result \<times> disk" where
  "Remove p d =
     (if dk_fault d p \<or> p \<notin> fst ` set (dk_files d) then (io_error, d)
      else (Ok (), d\<lparr>dk_files := AList.delete p (dk_files d)\<rparr>))"

text \<open>The names of the entries of a directory, sorted.\<close>

definition entry_names :: "path \<Rightarrow> disk \<Rightarrow> string list" where
  "entry_names p d = sort (remdups (map last (filter (\<lambda>q. q \<noteq> [] \<and> butlast q = p) (map fst (dk_files d) @ dk_dirs d))))"

definition ReadDir :: "path \<Rightarrow> disk \<Rightarrow> string list result" where
  "ReadDir p d = (if dk_fault d p \<or> p \<notin> set (dk_dirs d) then io_error else Ok (entry_names p d))"

definition below :: "path \<Rightarrow> path \<Rightarrow> bool" where
  "below p q \<longleftrightarrow> take (length p) q = p"

definition RemoveAll :: "path \<Rightarrow> disk \<Rightarrow> unit result \<times> disk" where
  "RemoveAll p d =
     (if dk_fault d p then (io_error, d)
      else (Ok (), d\<lparr>dk_files := filter (\<lambda>f. \<not> below p (fst f)) (dk_files d), dk_dirs := filter (\<lambda>q. \<not> below p q) (dk_dirs d)\<rparr>))"

section \<open>Names\<close>

text \<open>The verb \<^verbatim>\<open>%0wd\<close>.\<close>

definition pad_int :: "nat \<Rightarrow> int \<Rightarrow> string" where
  "pad_int w i =
     (if i < 0 then ''-'' @ replicate (w - 1 - length (format_nat (nat (- i)))) (CHR ''0'') @ format_nat (nat (- i))
      else replicate (w - length (format_nat (nat i))) (CHR ''0'') @ format_nat (nat i))"

definition getSnapshotDir :: "path \<Rightarrow> string \<Rightarrow> path" where
  "getSnapshotDir rootDir chainID = rootDir @ [''snapshots_'' @ chainID]"

definition getHeightDir :: "path \<Rightarrow> int64 \<Rightarrow> path" where
  "getHeightDir baseDir height = baseDir @ [''height_'' @ pad_int 10 height]"

definition chunk_name :: "int \<Rightarrow> string" where
  "chunk_name chunkIndex = ''chunk_'' @ pad_int 6 chunkIndex @ ''.gz''"

definition getChunkPath :: "path \<Rightarrow> int \<Rightarrow> path" where
  "getChunkPath baseDir chunkIndex = baseDir @ [chunk_name chunkIndex]"

definition getMetadataPath :: "path \<Rightarrow> path" where
  "getMetadataPath baseDir = baseDir @ [''metadata.json'']"

definition getPgDumpPath :: "path \<Rightarrow> path" where
  "getPgDumpPath baseDir = baseDir @ [''data.dump'']"

definition reconstruction_dir :: "path \<Rightarrow> path" where
  "reconstruction_dir rootDir = rootDir @ [''tmp_reconstruction'']"

text \<open>\<^verbatim>\<open>fmt.Sscanf(name, "chunk_%d.gz", &chunkNum)\<close>.\<close>

definition scan_chunk :: "string \<Rightarrow> int option" where
  "scan_chunk name =
     (if \<not> has_prefix name ''chunk_'' then None
      else let rest = dropWhile (\<lambda>c. c = CHR '' '') (drop 6 name);
               neg = has_prefix rest ''-'';
               body = (if neg \<or> has_prefix rest ''+'' then tl rest else rest);
               digits = takeWhile (\<lambda>c. digit_val c \<noteq> None) body
           in if digits = [] \<or> \<not> has_prefix (drop (length digits) body) ''.gz'' then None
              else case parse_digits 0 digits of
                None \<Rightarrow> None
              | Some n \<Rightarrow> if neg then (if int n \<le> 2 ^ 63 then Some (- int n) else None)
                          else if int n < 2 ^ 63 then Some (int n) else None)"

section \<open>Programs and encodings outside the repository\<close>

record snapshot = stored_snapshot +
  ssn_Format :: int
  ssn_Metadata :: bytes

text \<open>The \<^verbatim>\<open>Metadata\<close> of a snapshot: the proposer address of its sender and the chain.\<close>

record metadata =
  md_Sender :: string
  md_ChainID :: string

record sync_ext =
  y_gzip :: "bytes \<Rightarrow> bytes"
  y_gunzip :: "bytes \<Rightarrow> bytes option"
  y_json_snapshot :: "snapshot \<Rightarrow> bytes"
  y_unjson_snapshot :: "bytes \<Rightarrow> snapshot option"
  y_json_metadata :: "metadata \<Rightarrow> bytes"
  y_unjson_metadata :: "bytes \<Rightarrow> metadata option"
  y_pg_dump :: "core_db \<Rightarrow> bytes result"
  y_pg_restore :: "bytes \<Rightarrow> core_db \<Rightarrow> core_db result"

section \<open>Serving snapshots\<close>

text \<open>The tables that \<^verbatim>\<open>createPgDump\<close> names, over a database that has all of them.\<close>

definition dumped_tables :: "core_db \<Rightarrow> core_db \<Rightarrow> core_db" where
  "dumped_tables src db = db\<lparr>core_app_state := core_app_state src, core_blocks := core_blocks src,
     core_transactions := core_transactions src, core_tx_stats := core_tx_stats src,
     core_validators := core_validators src, sla_node_reports := sla_node_reports src,
     sla_rollups := sla_rollups src, seq_sla_rollups := seq_sla_rollups src,
     storage_proof_peers := storage_proof_peers src, storage_proofs := storage_proofs src\<rparr>"

definition createPgDump :: "sync_ext \<Rightarrow> core_db \<Rightarrow> path \<Rightarrow> disk \<Rightarrow> unit result \<times> disk" where
  "createPgDump y db dir d =
     (case y_pg_dump y (dumped_tables db empty_db) of
        Ok b \<Rightarrow> WriteFile (getPgDumpPath dir) b d
      | Err e \<Rightarrow> (Err (Wrapf ''pg_dump failed'' e), d)
      | Panic p \<Rightarrow> (Panic p, d))"

definition chunkSize :: nat where
  "chunkSize = 12 * 1024 * 1024"

text \<open>The loop over the dump: full reads until the rest is short.\<close>

function chunk_loop :: "sync_ext \<Rightarrow> path \<Rightarrow> int \<Rightarrow> bytes \<Rightarrow> disk \<Rightarrow> int result \<times> disk" where
  "chunk_loop y dir chunkIndex rest d =
     (if rest = [] then (Ok chunkIndex, d)
      else case WriteFile (getChunkPath dir chunkIndex) (y_gzip y (take chunkSize rest)) d of
        (Ok _, d1) \<Rightarrow> if length rest < chunkSize then (Ok (chunkIndex + 1), d1)
                       else chunk_loop y dir (chunkIndex + 1) (drop chunkSize rest) d1
      | (Err e, d1) \<Rightarrow> (Err (Wrapf ''failed to create chunk'' e), d1)
      | (Panic p, d1) \<Rightarrow> (Panic p, d1))"
  by pat_completeness auto

termination chunk_loop
  by (relation "measure (\<lambda>(y, dir, i, rest, d). length rest)") (auto simp: chunkSize_def)

declare chunk_loop.simps [simp del]

definition chunkPgDump :: "sync_ext \<Rightarrow> path \<Rightarrow> disk \<Rightarrow> int result \<times> disk" where
  "chunkPgDump y dir d =
     (case ReadFile (getPgDumpPath dir) d of
        Ok b \<Rightarrow> chunk_loop y dir 0 b d
      | Err e \<Rightarrow> (Err (Wrapf ''failed to open pg_dump'' e), d)
      | Panic p \<Rightarrow> (Panic p, d))"

definition deletePgDump :: "path \<Rightarrow> disk \<Rightarrow> unit result \<times> disk" where
  "deletePgDump dir d = (case Remove (getPgDumpPath dir) d of (r, d1) \<Rightarrow> (wrap_err ''error deleting pg_dump'' r, d1))"

text \<open>Operations on the disk in sequence.\<close>

definition then_disk :: "(disk \<Rightarrow> 'a result \<times> disk) \<Rightarrow> ('a \<Rightarrow> disk \<Rightarrow> 'b result \<times> disk) \<Rightarrow> disk \<Rightarrow> 'b result \<times> disk" where
  "then_disk f g d = (case f d of (Ok a, d1) \<Rightarrow> g a d1 | (Err e, d1) \<Rightarrow> (Err e, d1) | (Panic p, d1) \<Rightarrow> (Panic p, d1))"

text \<open>
  \<open>status\<close> is whether the node is catching up and \<open>block\<close> the hash of the block at the height, as
  the local RPC client answers; the snapshot is skipped without an error when it cannot.
\<close>

definition createSnapshot ::
    "sync_ext \<Rightarrow> core_config \<Rightarrow> path \<Rightarrow> core_db \<Rightarrow> bool result \<Rightarrow> bytes result \<Rightarrow> int64 \<Rightarrow> disk \<Rightarrow> unit result \<times> disk" where
  "createSnapshot y cfg rootDir db status block height =
     (let snapshotDir = getSnapshotDir rootDir (cfg_ChainID cfg); dir = getHeightDir snapshotDir height in
      then_disk (MkdirAll snapshotDir) (\<lambda>_.
      case (status, block) of
        (Ok False, Ok blockHash) \<Rightarrow>
          then_disk (MkdirAll dir) (\<lambda>_.
          then_disk (createPgDump y db dir) (\<lambda>_.
          then_disk (chunkPgDump y dir) (\<lambda>chunkCount.
          then_disk (deletePgDump dir) (\<lambda>_.
          WriteFile (getMetadataPath dir) (y_json_snapshot y
            \<lparr>ssn_Height = uwrap64 height, ssn_Hash = blockHash, ssn_Chunks = chunkCount mod 2 ^ 32, ssn_Format = 1,
             ssn_Metadata = y_json_metadata y \<lparr>md_Sender = cfg_ProposerAddress cfg, md_ChainID = cfg_ChainID cfg\<rparr>\<rparr>)))))
      | _ \<Rightarrow> (\<lambda>d. (Ok (), d))))"

text \<open>The oldest directories by name, all but \<open>keep\<close>; errors of the deletion are dropped.\<close>

definition pruneSnapshots :: "core_config \<Rightarrow> path \<Rightarrow> disk \<Rightarrow> unit result \<times> disk" where
  "pruneSnapshots cfg rootDir d =
     (let snapshotDir = getSnapshotDir rootDir (cfg_ChainID cfg) in
      case ReadDir snapshotDir d of
        Ok files \<Rightarrow> (Ok (), fold (\<lambda>f d. snd (RemoveAll (snapshotDir @ [f]) d))
                              (take (nat (int (length files) - ss_Keep (cfg_StateSync cfg))) files) d)
      | Err e \<Rightarrow> (Err (Wrapf ''error reading snapshot directory'' e), d)
      | Panic p \<Rightarrow> (Panic p, d))"

text \<open>
  A new block as \<^verbatim>\<open>startStateSync\<close> handles it: a snapshot at every interval, then pruning. Errors
  are logged; an interval of zero panics.
\<close>

definition on_new_block ::
    "sync_ext \<Rightarrow> core_config \<Rightarrow> path \<Rightarrow> core_db \<Rightarrow> bool result \<Rightarrow> bytes result \<Rightarrow> int64 \<Rightarrow> disk \<Rightarrow> unit result \<times> disk" where
  "on_new_block y cfg rootDir db status block blockHeight d =
     (let interval = ss_BlockInterval (cfg_StateSync cfg) in
      if \<not> ss_ServeSnapshots (cfg_StateSync cfg) then (Ok (), d)
      else if interval = 0 then (Panic ''integer divide by zero'', d)
      else if go_mod blockHeight interval \<noteq> 0 then (Ok (), d)
      else (Ok (), snd (pruneSnapshots cfg rootDir (snd (createSnapshot y cfg rootDir db status block blockHeight d)))))"

definition is_dir :: "path \<Rightarrow> disk \<Rightarrow> bool" where
  "is_dir p d \<longleftrightarrow> p \<in> set (dk_dirs d)"

fun read_snapshots :: "sync_ext \<Rightarrow> path \<Rightarrow> string list \<Rightarrow> disk \<Rightarrow> snapshot list result" where
  "read_snapshots y snapshotDir [] d = Ok []"
| "read_snapshots y snapshotDir (n # ns) d =
     (let metadataPath = getMetadataPath (snapshotDir @ [n]) in
      if \<not> is_dir (snapshotDir @ [n]) d \<or> is_dir metadataPath d \<or> metadataPath \<notin> fst ` set (dk_files d)
      then read_snapshots y snapshotDir ns d
      else bind_result (wrap_err ''error reading metadata file'' (ReadFile metadataPath d)) (\<lambda>data.
           case y_unjson_snapshot y data of
             None \<Rightarrow> Err (Errorf ''error unmarshalling metadata'')
           | Some meta \<Rightarrow> if ssn_Height meta = 0 then read_snapshots y snapshotDir ns d
                          else map_result ((#) meta) (read_snapshots y snapshotDir ns d)))"

definition getStoredSnapshots :: "sync_ext \<Rightarrow> core_config \<Rightarrow> path \<Rightarrow> disk \<Rightarrow> snapshot list result" where
  "getStoredSnapshots y cfg rootDir d =
     (if \<not> ss_ServeSnapshots (cfg_StateSync cfg) then Ok []
      else let snapshotDir = getSnapshotDir rootDir (cfg_ChainID cfg) in
        bind_result (wrap_err ''error reading snapshot directory'' (ReadDir snapshotDir d)) (\<lambda>dirs.
        map_result (sort_key ssn_Height) (read_snapshots y snapshotDir dirs d)))"

definition GetChunkByHeight :: "sync_ext \<Rightarrow> core_config \<Rightarrow> path \<Rightarrow> int64 \<Rightarrow> int \<Rightarrow> disk \<Rightarrow> bytes result" where
  "GetChunkByHeight y cfg rootDir height chunk d =
     (let dir = getHeightDir (getSnapshotDir rootDir (cfg_ChainID cfg)) height in
      if \<not> is_dir dir d then Err (Errorf ''no snapshot found for height'')
      else bind_result (wrap_err ''error reading metadata file'' (ReadFile (getMetadataPath dir) d)) (\<lambda>metadataBytes.
           if y_unjson_snapshot y metadataBytes = None then Err (Errorf ''error unmarshalling metadata'')
           else wrap_err ''error reading chunk file'' (ReadFile (getChunkPath dir chunk) d)))"

definition LoadSnapshotChunk :: "sync_ext \<Rightarrow> core_config \<Rightarrow> path \<Rightarrow> int \<Rightarrow> int \<Rightarrow> disk \<Rightarrow> bytes result" where
  "LoadSnapshotChunk y cfg rootDir height chunk d = GetChunkByHeight y cfg rootDir (wrap64 height) chunk d"

definition ListSnapshots :: "sync_ext \<Rightarrow> core_config \<Rightarrow> path \<Rightarrow> disk \<Rightarrow> snapshot list result" where
  "ListSnapshots y cfg rootDir d = getStoredSnapshots y cfg rootDir d"

text \<open>The answer of the API: a node that cannot list its snapshots answers that it has none.\<close>

definition GetStoredSnapshots :: "sync_ext \<Rightarrow> core_config \<Rightarrow> path \<Rightarrow> disk \<Rightarrow> snapshot_metadata list" where
  "GetStoredSnapshots y cfg rootDir d =
     (case getStoredSnapshots y cfg rootDir d of
        Ok snapshots \<Rightarrow> map (\<lambda>s. \<lparr>sm_Height = wrap64 (ssn_Height s), sm_Hash = hex_encode (ssn_Hash s),
                  sm_ChunkCount = ssn_Chunks s, sm_ChainId = string_of (ssn_Metadata s)\<rparr>) snapshots
      | _ \<Rightarrow> [])"

section \<open>Joining from a snapshot\<close>

definition StoreOfferedSnapshot :: "sync_ext \<Rightarrow> path \<Rightarrow> snapshot \<Rightarrow> disk \<Rightarrow> unit result \<times> disk" where
  "StoreOfferedSnapshot y rootDir snap =
     then_disk (MkdirAll (reconstruction_dir rootDir)) (\<lambda>_.
     WriteFile (getMetadataPath (reconstruction_dir rootDir)) (y_json_snapshot y snap))"

definition GetOfferedSnapshot :: "sync_ext \<Rightarrow> path \<Rightarrow> disk \<Rightarrow> snapshot result" where
  "GetOfferedSnapshot y rootDir d =
     bind_result (wrap_err ''failed to read metadata file'' (ReadFile (getMetadataPath (reconstruction_dir rootDir)) d)) (\<lambda>b.
     case y_unjson_snapshot y b of None \<Rightarrow> Err (Errorf ''error unmarshalling metadata'') | Some meta \<Rightarrow> Ok meta)"

definition StoreChunkForReconstruction :: "path \<Rightarrow> int64 \<Rightarrow> int \<Rightarrow> bytes \<Rightarrow> disk \<Rightarrow> unit result \<times> disk" where
  "StoreChunkForReconstruction rootDir height chunkIndex chunkData =
     (let heightDir = getHeightDir (reconstruction_dir rootDir) height in
      then_disk (MkdirAll (reconstruction_dir rootDir)) (\<lambda>_.
      then_disk (MkdirAll heightDir) (\<lambda>_.
      WriteFile (getChunkPath heightDir chunkIndex) chunkData)))"

definition chunk_files :: "string list \<Rightarrow> string list" where
  "chunk_files files = filter (\<lambda>n. has_suffix n ''.gz'') files"

definition haveAllChunks :: "path \<Rightarrow> int \<Rightarrow> int \<Rightarrow> disk \<Rightarrow> bool" where
  "haveAllChunks rootDir height totalChunks d =
     (case ReadDir (getHeightDir (reconstruction_dir rootDir) (wrap64 height)) d of
        Ok files \<Rightarrow> int (card (set (filter (\<lambda>n. 0 \<le> n \<and> n < totalChunks)
                      (List.map_filter scan_chunk (chunk_files files))))) = totalChunks
      | _ \<Rightarrow> False)"

text \<open>The loop over the chunk files; what was written before an error stays in the output.\<close>

fun append_chunks :: "sync_ext \<Rightarrow> path \<Rightarrow> path \<Rightarrow> string list \<Rightarrow> disk \<Rightarrow> unit result \<times> disk" where
  "append_chunks y outputPath heightDir [] d = (Ok (), d)"
| "append_chunks y outputPath heightDir (n # ns) d =
     (case ReadFile (heightDir @ [n]) d of
        Ok chunkData \<Rightarrow> (case y_gunzip y chunkData of
            None \<Rightarrow> (Err (Errorf ''failed to write decompressed data''), d)
          | Some b \<Rightarrow> (case ReadFile outputPath d of
              Ok written \<Rightarrow> (case WriteFile outputPath (written @ b) d of
                  (Ok _, d1) \<Rightarrow> append_chunks y outputPath heightDir ns d1
                | (Err e, d1) \<Rightarrow> (Err e, d1)
                | (Panic p, d1) \<Rightarrow> (Panic p, d1))
            | Err e \<Rightarrow> (Err e, d)
            | Panic p \<Rightarrow> (Panic p, d)))
      | Err e \<Rightarrow> (Err (Wrapf ''failed to read chunk file'' e), d)
      | Panic p \<Rightarrow> (Panic p, d))"

definition ReassemblePgDump :: "sync_ext \<Rightarrow> path \<Rightarrow> int64 \<Rightarrow> disk \<Rightarrow> unit result \<times> disk" where
  "ReassemblePgDump y rootDir height =
     (let heightDir = getHeightDir (reconstruction_dir rootDir) height; outputPath = getPgDumpPath heightDir in
      then_disk (WriteFile outputPath []) (\<lambda>_ d.
      case ReadDir heightDir d of
        Ok files \<Rightarrow> append_chunks y outputPath heightDir (chunk_files files) d
      | Err e \<Rightarrow> (Err (Wrapf ''failed to read directory'' e), d)
      | Panic p \<Rightarrow> (Panic p, d)))"

definition RestoreDatabase :: "sync_ext \<Rightarrow> path \<Rightarrow> int64 \<Rightarrow> disk \<Rightarrow> core_db \<Rightarrow> core_db result" where
  "RestoreDatabase y rootDir height d db =
     bind_result (ReadFile (getPgDumpPath (getHeightDir (reconstruction_dir rootDir) height)) d) (\<lambda>b.
     wrap_err ''error restoring database'' (y_pg_restore y b db))"

definition CleanupStateSync :: "path \<Rightarrow> disk \<Rightarrow> unit result \<times> disk" where
  "CleanupStateSync rootDir d = RemoveAll (reconstruction_dir rootDir) d"

datatype offer_result = OfferAccept | OfferReject
datatype apply_result = ApplyAccept | ApplyRetry | ApplyRejectSnapshot | ApplyRetryRejectSender

definition OfferSnapshot :: "sync_ext \<Rightarrow> path \<Rightarrow> snapshot \<Rightarrow> disk \<Rightarrow> offer_result \<times> disk" where
  "OfferSnapshot y rootDir snap d =
     (case StoreOfferedSnapshot y rootDir snap d of (r, d1) \<Rightarrow> (if is_ok r then OfferAccept else OfferReject, d1))"

definition ApplySnapshotChunk ::
    "sync_ext \<Rightarrow> core_config \<Rightarrow> path \<Rightarrow> int \<Rightarrow> bytes \<Rightarrow> string \<Rightarrow> disk \<times> core_db \<Rightarrow> apply_result \<times> disk \<times> core_db" where
  "ApplySnapshotChunk y cfg rootDir index chunk sender st =
     (let d = fst st; db = snd st in
      case GetOfferedSnapshot y rootDir d of
        Ok offered \<Rightarrow> (case y_unjson_metadata y (ssn_Metadata offered) of
            None \<Rightarrow> (ApplyRejectSnapshot, d, db)
          | Some meta \<Rightarrow>
              if md_ChainID meta \<noteq> cfg_ChainID cfg then (ApplyRejectSnapshot, d, db)
              else if \<not> equal_fold (md_Sender meta) sender then (ApplyRetryRejectSender, d, db)
              else let height = wrap64 (ssn_Height offered) in
                case StoreChunkForReconstruction rootDir height index chunk d of
                  (r1, d1) \<Rightarrow>
                    if \<not> is_ok r1 then (ApplyRetry, d1, db)
                    else if haveAllChunks rootDir (uwrap64 height) (ssn_Chunks offered) d1
                    then (case ReassemblePgDump y rootDir height d1 of
                        (r2, d2) \<Rightarrow>
                          if \<not> is_ok r2 then (ApplyRetry, d2, db)
                          else (case RestoreDatabase y rootDir height d2 db of
                              Ok db' \<Rightarrow> (ApplyAccept, snd (CleanupStateSync rootDir d2), db')
                            | _ \<Rightarrow> (ApplyRetry, d2, db)))
                    else (ApplyAccept, d1, db))
      | _ \<Rightarrow> (ApplyRetry, d, db))"

text \<open>
  The block to trust: the first server that answers; each server is its list of snapshot
  heights and its answer to a request for a block (its height and hash).
\<close>

fun stateSyncLatestBlock :: "(int64 list result \<times> (int64 \<Rightarrow> (int64 \<times> string) result)) list \<Rightarrow> (int64 \<times> string) result" where
  "stateSyncLatestBlock [] = Err (Errorf ''no usable block found for state sync'')"
| "stateSyncLatestBlock ((snapshots, block) # servers) =
     (case snapshots of
        Ok hs \<Rightarrow> if hs = [] then Panic ''index out of range''
                 else (case block (wrap64 (last hs - 10)) of Ok b \<Rightarrow> Ok b | _ \<Rightarrow> stateSyncLatestBlock servers)
      | _ \<Rightarrow> stateSyncLatestBlock servers)"

section \<open>Names of chunks\<close>

lemma chunk_name_digits: "n < 10 ^ 6 \<Longrightarrow> chunk_name (int n) = ''chunk_'' @ digits 6 n @ ''.gz''"
  using pad_digits [of n 6] by (simp add: chunk_name_def pad_int_def)

lemma chunk_name_less: "a < b \<Longrightarrow> b < 10 ^ 6 \<Longrightarrow> chunk_name (int a) < chunk_name (int b)"
  using digits_less [of a b 6]
  by (simp add: chunk_name_digits list_less_same_prefix del: append.simps digits.simps) (simp add: list_less_append)

lemma chunk_name_suffix: "has_suffix (chunk_name i) ''.gz''" "\<not> has_suffix ''data.dump'' ''.gz''"
  by (simp_all add: has_suffix_def chunk_name_def has_prefix_def)

lemma digits_are_digits: "c \<in> set (digits w n) \<Longrightarrow> digit_val c \<noteq> None"
  by (induction w arbitrary: n) (auto simp: digit_val_char)

lemma parse_digits_digits: "n < 10 ^ w \<Longrightarrow> parse_digits 0 (digits w n) = Some n"
proof (induction w arbitrary: n)
  case (Suc w)
  then have "n div 10 < 10 ^ w" by (auto simp: less_mult_imp_div_less mult.commute)
  from Suc.IH [OF this] show ?case by (simp add: parse_digits_append digit_val_char)
qed simp

lemma scan_chunk_digits:
  assumes ds: "ds \<noteq> []" "\<forall>c \<in> set ds. digit_val c \<noteq> None" and n: "parse_digits 0 ds = Some n" "int n < 2 ^ 63"
  shows "scan_chunk (''chunk_'' @ ds @ ''.gz'') = Some (int n)"
proof -
  obtain c cs where c: "ds = c # cs" using ds(1) by (cases ds) auto
  have sep: "c \<noteq> CHR '' ''" "c \<noteq> CHR ''-''" "c \<noteq> CHR ''+''" using ds(2) c by (auto simp: digit_val_def)
  have "digit_val (CHR ''.'') = None" by (simp add: digit_val_def)
  with ds(2) have tw: "takeWhile (\<lambda>c. digit_val c \<noteq> None) (ds @ ''.gz'') = ds"
    by (subst takeWhile_append2) auto
  show ?thesis
    using sep n tw unfolding scan_chunk_def by (simp add: has_prefix_def Let_def c)
qed

lemma scan_chunk_name:
  assumes "n < 10 ^ 6"
  shows "scan_chunk (chunk_name (int n)) = Some (int n)"
proof -
  have "digits 6 n \<noteq> []" using length_digits [of 6 n] by (metis list.size(3) zero_neq_numeral)
  moreover have "int n < 2 ^ 63" using assms by simp
  ultimately show ?thesis
    unfolding chunk_name_digits [OF assms]
    by (intro scan_chunk_digits ballI digits_are_digits parse_digits_digits assms)
qed

lemma chunk_name_inj: "a < 10 ^ 6 \<Longrightarrow> b < 10 ^ 6 \<Longrightarrow> chunk_name (int a) = chunk_name (int b) \<Longrightarrow> a = b"
  by (metis scan_chunk_name of_nat_eq_iff option.inject)

lemma dump_name_not_chunk: "chunk_name i \<noteq> ''data.dump''"
  using chunk_name_suffix by metis

section \<open>Directories\<close>

lemma entry_names_iff: "n \<in> set (entry_names p d) \<longleftrightarrow> p @ [n] \<in> fst ` set (dk_files d) \<or> p @ [n] \<in> set (dk_dirs d)"
proof -
  have "n \<in> set (entry_names p d) \<longleftrightarrow> (\<exists>q \<in> fst ` set (dk_files d) \<union> set (dk_dirs d). q \<noteq> [] \<and> butlast q = p \<and> last q = n)"
    by (auto simp: entry_names_def)
  also have "\<dots> \<longleftrightarrow> p @ [n] \<in> fst ` set (dk_files d) \<union> set (dk_dirs d)"
    by (metis append_butlast_last_id last_snoc butlast_snoc snoc_eq_iff_butlast)
  finally show ?thesis by simp
qed

lemma entry_names_sorted: "sorted (entry_names p d)" "distinct (entry_names p d)"
  by (simp_all add: entry_names_def)

text \<open>A directory that holds the chunks up to \<open>k\<close> and perhaps the dump lists the chunks in order.\<close>

lemma chunk_files_in_order:
  assumes "\<And>n. n \<in> set names \<longleftrightarrow> (\<exists>j < k. n = chunk_name (int j)) \<or> (dump \<and> n = ''data.dump'')"
    and "sorted names" "distinct names" and "k \<le> 10 ^ 6"
  shows "chunk_files names = map (chunk_name \<circ> int) [0..<k]"
proof (rule sorted_distinct_set_unique)
  show "sorted (chunk_files names)" "distinct (chunk_files names)"
    using assms by (simp_all add: chunk_files_def sorted_wrt_filter)
  show "set (chunk_files names) = set (map (chunk_name \<circ> int) [0..<k])"
    using assms(1) chunk_name_suffix by (auto simp: chunk_files_def)
  have inj: "inj_on (chunk_name \<circ> int) {0..<k}"
    using chunk_name_inj assms(4) by (intro inj_onI) auto
  then show "distinct (map (chunk_name \<circ> int) [0..<k])" by (simp add: distinct_map)
  show "sorted (map (chunk_name \<circ> int) [0..<k])"
    using assms(4) by (auto simp: sorted_iff_nth_mono_less intro!: less_imp_le chunk_name_less)
qed

section \<open>Cutting the dump\<close>

definition quiet :: "disk \<Rightarrow> bool" where
  "quiet d \<longleftrightarrow> (\<forall>p. \<not> dk_fault d p)"

function pieces :: "bytes \<Rightarrow> bytes list" where
  "pieces b = (if b = [] then [] else take chunkSize b # pieces (drop chunkSize b))"
  by pat_completeness auto

termination pieces
  by (relation "measure length") (auto simp: chunkSize_def)

declare pieces.simps [simp del]

lemma pieces_Nil [simp]: "pieces [] = []"
  by (simp add: pieces.simps)

lemma concat_pieces: "concat (pieces b) = b"
  by (induction b rule: pieces.induct) (simp add: pieces.simps)

text \<open>The files of a directory with the pieces added from number \<open>i\<close> on.\<close>

fun with_chunks :: "sync_ext \<Rightarrow> path \<Rightarrow> nat \<Rightarrow> bytes list \<Rightarrow> (path \<times> bytes) list \<Rightarrow> (path \<times> bytes) list" where
  "with_chunks y dir i [] fs = fs"
| "with_chunks y dir i (b # bs) fs = with_chunks y dir (Suc i) bs (AList.update (getChunkPath dir (int i)) (y_gzip y b) fs)"

lemma chunk_loop_spec:
  assumes "quiet d" and "dir \<in> set (dk_dirs d)"
  shows "chunk_loop y dir (int i) b d =
    (Ok (int (i + length (pieces b))), d\<lparr>dk_files := with_chunks y dir i (pieces b) (dk_files d)\<rparr>)"
  using assms
proof (induction b arbitrary: i d rule: pieces.induct)
  case (1 b)
  show ?case
  proof (cases "b = []")
    case False
    let ?d = "d\<lparr>dk_files := AList.update (getChunkPath dir (int i)) (y_gzip y (take chunkSize b)) (dk_files d)\<rparr>"
    have wr: "WriteFile (getChunkPath dir (int i)) (y_gzip y (take chunkSize b)) d = (Ok (), ?d)"
      using 1(2,3) by (simp add: WriteFile_def quiet_def getChunkPath_def)
    have "chunk_loop y dir (int (Suc i)) (drop chunkSize b) ?d = (Ok (int (Suc i + length (pieces (drop chunkSize b)))),
        ?d\<lparr>dk_files := with_chunks y dir (Suc i) (pieces (drop chunkSize b)) (dk_files ?d)\<rparr>)"
      using 1(2,3) by (intro "1.IH" [OF False]) (simp_all add: quiet_def)
    moreover have "pieces b = take chunkSize b # pieces (drop chunkSize b)"
      using False by (simp add: pieces.simps [of b])
    ultimately show ?thesis
      using False wr by (subst chunk_loop.simps) (auto simp: add.commute)
  qed (simp add: chunk_loop.simps)
qed

lemma with_chunks_other:
  "(\<And>j. j < length bs \<Longrightarrow> q \<noteq> getChunkPath dir (int (i + j))) \<Longrightarrow> map_of (with_chunks y dir i bs fs) q = map_of fs q"
proof (induction bs arbitrary: i fs)
  case (Cons b bs)
  have "q \<noteq> getChunkPath dir (int i)" using Cons.prems [of 0] by simp
  moreover have "q \<noteq> getChunkPath dir (int (Suc i + j))" if "j < length bs" for j
    using Cons.prems [of "Suc j"] that by simp
  ultimately show ?case using Cons.IH [of "Suc i"] by (simp add: update_conv')
qed simp

lemma with_chunks_hit:
  "j < length bs \<Longrightarrow> i + length bs \<le> 10 ^ 6 \<Longrightarrow>
     map_of (with_chunks y dir i bs fs) (getChunkPath dir (int (i + j))) = Some (y_gzip y (bs ! j))"
proof (induction bs arbitrary: i j fs)
  case (Cons b bs)
  show ?case
  proof (cases j)
    case 0
    have "chunk_name (int i) \<noteq> chunk_name (int (Suc i + j'))" if "j' < length bs" for j'
      using Cons.prems(2) that chunk_name_inj [of i "Suc i + j'"] by auto
    then have "map_of (with_chunks y dir (Suc i) bs fs') (getChunkPath dir (int i)) = map_of fs' (getChunkPath dir (int i))" for fs'
      by (intro with_chunks_other) (auto simp: getChunkPath_def)
    with 0 show ?thesis by (simp add: update_conv')
  next
    case (Suc j')
    with Cons show ?thesis using Cons.IH [of j' "Suc i"] by simp
  qed
qed simp

section \<open>Serving\<close>

lemma MkdirAll_quiet:
  assumes "quiet d"
  shows "\<exists>d'. MkdirAll p d = (Ok (), d') \<and> dk_files d' = dk_files d \<and> quiet d' \<and> p \<in> set (dk_dirs d')
    \<and> set (dk_dirs d') = set (dk_dirs d) \<union> {take n p |n. n \<le> length p}"
proof -
  let ?d = "d\<lparr>dk_dirs := List.union (dk_dirs d) (map (\<lambda>n. take n p) [0..<Suc (length p)])\<rparr>"
  have dirs: "set (map (\<lambda>n. take n p) [0..<Suc (length p)]) = {take n p |n. n \<le> length p}"
    unfolding set_map set_upt by (force simp: less_Suc_eq_le)
  have self: "p \<in> {take n p |n. n \<le> length p}" by (metis (mono_tags, lifting) mem_Collect_eq order_refl take_all)
  have "MkdirAll p d = (Ok (), ?d)" "quiet ?d" using assms by (simp_all add: MkdirAll_def quiet_def)
  moreover have "set (dk_dirs ?d) = set (dk_dirs d) \<union> {take n p |n. n \<le> length p}"
    using dirs by (simp del: set_map set_upt upt_Suc)
  ultimately show ?thesis using self by (intro exI [of _ ?d]) (simp del: set_union)
qed

lemma WriteFile_quiet:
  "quiet d \<Longrightarrow> butlast p \<in> set (dk_dirs d) \<Longrightarrow> WriteFile p b d = (Ok (), d\<lparr>dk_files := AList.update p b (dk_files d)\<rparr>)"
  by (simp add: WriteFile_def quiet_def)

definition served_snapshot :: "sync_ext \<Rightarrow> core_config \<Rightarrow> int64 \<Rightarrow> bytes \<Rightarrow> bytes \<Rightarrow> snapshot" where
  "served_snapshot y cfg height blockHash dump =
     \<lparr>ssn_Height = uwrap64 height, ssn_Hash = blockHash, ssn_Chunks = int (length (pieces dump)) mod 2 ^ 32, ssn_Format = 1,
      ssn_Metadata = y_json_metadata y \<lparr>md_Sender = cfg_ProposerAddress cfg, md_ChainID = cfg_ChainID cfg\<rparr>\<rparr>"

lemma json_name_not_chunk: "chunk_name i \<noteq> ''metadata.json''"
proof -
  have "\<not> has_suffix ''metadata.json'' ''.gz''" by (simp add: has_suffix_def has_prefix_def)
  then show ?thesis using chunk_name_suffix(1) by metis
qed

lemma createSnapshot_serves:
  assumes quiet: "quiet d" and dump: "y_pg_dump y (dumped_tables db empty_db) = Ok dump"
    and small: "length (pieces dump) \<le> 10 ^ 6" and height: "in_int64 height"
    and json: "y_unjson_snapshot y (y_json_snapshot y (served_snapshot y cfg height blockHash dump)) \<noteq> None"
  shows "\<exists>d'. createSnapshot y cfg rootDir db (Ok False) (Ok blockHash) height d = (Ok (), d')
    \<and> (\<forall>j < length (pieces dump). LoadSnapshotChunk y cfg rootDir (uwrap64 height) (int j) d' = Ok (y_gzip y (pieces dump ! j)))"
proof -
  let ?sdir = "getSnapshotDir rootDir (cfg_ChainID cfg)"
  let ?dir = "getHeightDir ?sdir height"
  obtain d1 where d1: "MkdirAll ?sdir d = (Ok (), d1)" "quiet d1" using MkdirAll_quiet [OF quiet] by blast
  obtain d2 where d2: "MkdirAll ?dir d1 = (Ok (), d2)" "quiet d2" "?dir \<in> set (dk_dirs d2)"
    using MkdirAll_quiet [OF d1(2)] by blast
  define d3 where "d3 = d2\<lparr>dk_files := AList.update (getPgDumpPath ?dir) dump (dk_files d2)\<rparr>"
  have d3: "createPgDump y db ?dir d2 = (Ok (), d3)" "quiet d3" "?dir \<in> set (dk_dirs d3)"
    using d2 dump WriteFile_quiet [of d2 "getPgDumpPath ?dir"]
    by (simp_all add: createPgDump_def d3_def getPgDumpPath_def quiet_def)
  define d4 where "d4 = d3\<lparr>dk_files := with_chunks y ?dir 0 (pieces dump) (dk_files d3)\<rparr>"
  have "ReadFile (getPgDumpPath ?dir) d3 = Ok dump"
    using d3(2) by (simp add: ReadFile_def quiet_def d3_def update_conv')
  then have d4: "chunkPgDump y ?dir d3 = (Ok (int (length (pieces dump))), d4)" "quiet d4" "?dir \<in> set (dk_dirs d4)"
    using chunk_loop_spec [OF d3(2,3), of y 0 dump] d3 by (simp_all add: chunkPgDump_def d4_def quiet_def)
  have dumped: "map_of (dk_files d4) (getPgDumpPath ?dir) = Some dump"
    unfolding d4_def by (simp, subst with_chunks_other)
      (use dump_name_not_chunk in \<open>auto simp: getPgDumpPath_def getChunkPath_def d3_def update_conv' dest: sym\<close>)
  define d5 where "d5 = d4\<lparr>dk_files := AList.delete (getPgDumpPath ?dir) (dk_files d4)\<rparr>"
  have d5: "deletePgDump ?dir d4 = (Ok (), d5)" "quiet d5" "?dir \<in> set (dk_dirs d5)"
    using d4 dumped by (auto simp: deletePgDump_def Remove_def d5_def quiet_def image_iff dest!: map_of_SomeD)
  define d6 where "d6 = d5\<lparr>dk_files := AList.update (getMetadataPath ?dir)
      (y_json_snapshot y (served_snapshot y cfg height blockHash dump)) (dk_files d5)\<rparr>"
  have d6: "WriteFile (getMetadataPath ?dir) (y_json_snapshot y (served_snapshot y cfg height blockHash dump)) d5 = (Ok (), d6)"
    "quiet d6" "?dir \<in> set (dk_dirs d6)"
    using d5 WriteFile_quiet [of d5 "getMetadataPath ?dir"] by (simp_all add: d6_def getMetadataPath_def quiet_def)
  have run: "createSnapshot y cfg rootDir db (Ok False) (Ok blockHash) height d = (Ok (), d6)"
    using d1 d2 d3 d4 d5 d6 by (simp add: createSnapshot_def then_disk_def Let_def served_snapshot_def)
  have chunk: "map_of (dk_files d6) (getChunkPath ?dir (int j)) = Some (y_gzip y (pieces dump ! j))" if "j < length (pieces dump)" for j
    using with_chunks_hit [of j "pieces dump" 0 y ?dir "dk_files d3"] that small dump_name_not_chunk json_name_not_chunk
    by (simp add: d6_def d5_def d4_def update_conv' delete_conv' getChunkPath_def getMetadataPath_def getPgDumpPath_def)
  have meta: "ReadFile (getMetadataPath ?dir) d6 = Ok (y_json_snapshot y (served_snapshot y cfg height blockHash dump))"
    using d6(2) by (simp add: ReadFile_def quiet_def d6_def update_conv')
  have "wrap64 (uwrap64 height) = height" using height by (simp add: wrap64_def uwrap64_def in_int64_def mod_simps)
  then have "LoadSnapshotChunk y cfg rootDir (uwrap64 height) (int j) d6 = Ok (y_gzip y (pieces dump ! j))" if "j < length (pieces dump)" for j
    using chunk [OF that] meta d6(2,3) json
    by (simp add: LoadSnapshotChunk_def GetChunkByHeight_def is_dir_def Let_def go_simps ReadFile_def quiet_def)
  with run show ?thesis by blast
qed

section \<open>Receiving\<close>

text \<open>A disk that holds the offered snapshot and the chunks numbered by \<open>J\<close>, and nothing else for its height.\<close>

abbreviation height_dir_of :: "path \<Rightarrow> snapshot \<Rightarrow> path" where
  "height_dir_of rootDir snap \<equiv> getHeightDir (reconstruction_dir rootDir) (wrap64 (ssn_Height snap))"

definition receiving :: "sync_ext \<Rightarrow> path \<Rightarrow> snapshot \<Rightarrow> bytes list \<Rightarrow> nat set \<Rightarrow> disk \<Rightarrow> bool" where
  "receiving y rootDir snap bs J d \<longleftrightarrow> quiet d
     \<and> map_of (dk_files d) (getMetadataPath (reconstruction_dir rootDir)) = Some (y_json_snapshot y snap)
     \<and> (\<forall>n. height_dir_of rootDir snap @ [n] \<notin> set (dk_dirs d))
     \<and> (\<forall>n b. map_of (dk_files d) (height_dir_of rootDir snap @ [n]) = Some b \<longleftrightarrow>
          (\<exists>j \<in> J. n = chunk_name (int j) \<and> b = y_gzip y (bs ! j)))"

lemma take_not_longer: "length p \<le> length q \<Longrightarrow> q @ [x] \<noteq> take n p"
proof
  assume "length p \<le> length q" "q @ [x] = take n p"
  then have "length (q @ [x]) \<le> length p" by (metis length_take min.cobounded1)
  with \<open>length p \<le> length q\<close> show False by simp
qed

lemma store_chunk_receives:
  assumes rx: "receiving y rootDir snap bs J d" and J: "J \<subseteq> {..<k}" "j < k" "j \<notin> J" "k \<le> 10 ^ 6"
  shows "\<exists>d'. StoreChunkForReconstruction rootDir (wrap64 (ssn_Height snap)) (int j) (y_gzip y (bs ! j)) d = (Ok (), d')
    \<and> receiving y rootDir snap bs (insert j J) d' \<and> height_dir_of rootDir snap \<in> set (dk_dirs d')"
proof -
  let ?h = "height_dir_of rootDir snap" and ?r = "reconstruction_dir rootDir"
  have q: "quiet d" using rx by (simp add: receiving_def)
  obtain d1 where d1: "MkdirAll ?r d = (Ok (), d1)" "dk_files d1 = dk_files d" "quiet d1"
    "set (dk_dirs d1) = set (dk_dirs d) \<union> {take n ?r |n. n \<le> length ?r}"
    using MkdirAll_quiet [OF q, of ?r] by blast
  obtain d2 where d2: "MkdirAll ?h d1 = (Ok (), d2)" "dk_files d2 = dk_files d" "quiet d2" "?h \<in> set (dk_dirs d2)"
    "set (dk_dirs d2) = set (dk_dirs d1) \<union> {take n ?h |n. n \<le> length ?h}"
    using MkdirAll_quiet [OF d1(3), of ?h] d1(2) by auto
  let ?d = "d2\<lparr>dk_files := AList.update (getChunkPath ?h (int j)) (y_gzip y (bs ! j)) (dk_files d)\<rparr>"
  have run: "StoreChunkForReconstruction rootDir (wrap64 (ssn_Height snap)) (int j) (y_gzip y (bs ! j)) d = (Ok (), ?d)"
    using d1(1) d2 WriteFile_quiet [of d2 "getChunkPath ?h (int j)"]
    by (simp add: StoreChunkForReconstruction_def then_disk_def Let_def getChunkPath_def)
  have nodir: "?h @ [n] \<notin> set (dk_dirs d2)" for n
  proof -
    have "?h @ [n] \<noteq> take m ?r" "?h @ [n] \<noteq> take m ?h" for m
      by (rule take_not_longer, simp add: getHeightDir_def)+
    moreover have "?h @ [n] \<notin> set (dk_dirs d)" using rx by (simp add: receiving_def)
    ultimately show ?thesis by (auto simp: d2(5) d1(4))
  qed
  have fresh: "\<not> (\<exists>i \<in> J. chunk_name (int j) = chunk_name (int i))"
  proof
    assume "\<exists>i \<in> J. chunk_name (int j) = chunk_name (int i)"
    then obtain i where i: "i \<in> J" "chunk_name (int j) = chunk_name (int i)" by blast
    have "i < 10 ^ 6" "j < 10 ^ 6" using i J by auto
    with i chunk_name_inj J(3) show False by blast
  qed
  have "map_of (dk_files ?d) (?h @ [n]) = Some b \<longleftrightarrow> (\<exists>i \<in> insert j J. n = chunk_name (int i) \<and> b = y_gzip y (bs ! i))" for n b
    using rx fresh by (auto simp: receiving_def update_conv' getChunkPath_def)
  moreover have "map_of (dk_files ?d) (getMetadataPath ?r) = Some (y_json_snapshot y snap)"
    using rx by (simp add: receiving_def update_conv' getMetadataPath_def getChunkPath_def getHeightDir_def)
  ultimately have "receiving y rootDir snap bs (insert j J) ?d"
    using d2 nodir by (simp add: receiving_def quiet_def)
  with run d2(4) show ?thesis by (intro exI [of _ ?d]) simp
qed

lemma receiving_names:
  assumes "receiving y rootDir snap bs J d"
  shows "n \<in> set (entry_names (height_dir_of rootDir snap) d) \<longleftrightarrow> (\<exists>j \<in> J. n = chunk_name (int j))"
proof -
  have "height_dir_of rootDir snap @ [n] \<in> fst ` set (dk_files d)
      \<longleftrightarrow> (\<exists>b. map_of (dk_files d) (height_dir_of rootDir snap @ [n]) = Some b)"
    by (metis map_of_eq_None_iff not_None_eq)
  with assms show ?thesis by (auto simp: receiving_def entry_names_iff)
qed

lemma have_all_chunks:
  assumes rx: "receiving y rootDir snap bs J d" and dir: "height_dir_of rootDir snap \<in> set (dk_dirs d)"
    and J: "J \<subseteq> {..<k}" "k \<le> 10 ^ 6"
  shows "haveAllChunks rootDir (uwrap64 (wrap64 (ssn_Height snap))) (int k) d \<longleftrightarrow> J = {..<k}"
proof -
  let ?names = "entry_names (height_dir_of rootDir snap) d"
  have w: "wrap64 (uwrap64 (wrap64 h)) = wrap64 h" for h by (simp add: wrap64_def uwrap64_def mod_simps)
  have read: "ReadDir (height_dir_of rootDir snap) d = Ok ?names"
    using rx dir by (simp add: ReadDir_def receiving_def quiet_def)
  have "set (chunk_files ?names) = (chunk_name \<circ> int) ` J"
    using receiving_names [OF rx] chunk_name_suffix by (auto simp: chunk_files_def)
  moreover have "scan_chunk (chunk_name (int j)) = Some (int j)" if "j \<in> J" for j
    using J that by (intro scan_chunk_name) auto
  ultimately have "set (List.map_filter scan_chunk (chunk_files ?names)) = int ` J"
    by (force simp: List.map_filter_def)
  then have "set (filter (\<lambda>n. 0 \<le> n \<and> n < int k) (List.map_filter scan_chunk (chunk_files ?names))) = int ` J"
    using J by auto
  moreover have "card J = k \<longleftrightarrow> J = {..<k}"
    using J(1) by (metis card_lessThan card_subset_eq finite_lessThan)
  ultimately show ?thesis
    using read by (simp add: haveAllChunks_def w card_image del: filter_set)
qed

lemma append_chunks_spec:
  assumes gz: "\<forall>b. y_gunzip y (y_gzip y b) = Some b" and dir: "dir \<in> set (dk_dirs d)" and q: "quiet d"
    and out: "map_of (dk_files d) (dir @ [''data.dump'']) = Some acc"
    and chunks: "\<forall>j \<in> set js. map_of (dk_files d) (dir @ [chunk_name (int j)]) = Some (y_gzip y (bs ! j))"
  shows "append_chunks y (dir @ [''data.dump'']) dir (map (chunk_name \<circ> int) js) d =
    (Ok (), d\<lparr>dk_files := AList.update (dir @ [''data.dump'']) (acc @ concat (map ((!) bs) js)) (dk_files d)\<rparr>)"
  using dir q out chunks
proof (induction js arbitrary: d acc)
  case Nil
  then show ?case by (simp add: update_triv)
next
  case (Cons j js)
  let ?out = "dir @ [''data.dump'']"
  let ?d = "d\<lparr>dk_files := AList.update ?out (acc @ bs ! j) (dk_files d)\<rparr>"
  have "append_chunks y ?out dir (map (chunk_name \<circ> int) js) ?d =
    (Ok (), ?d\<lparr>dk_files := AList.update ?out ((acc @ bs ! j) @ concat (map ((!) bs) js)) (dk_files ?d)\<rparr>)"
    using Cons.prems dump_name_not_chunk by (intro Cons.IH) (auto simp: quiet_def update_conv')
  moreover have "ReadFile (dir @ [chunk_name (int j)]) d = Ok (y_gzip y (bs ! j))" "ReadFile ?out d = Ok acc"
    using Cons.prems by (simp_all add: ReadFile_def quiet_def)
  moreover have "WriteFile ?out (acc @ bs ! j) d = (Ok (), ?d)"
    using Cons.prems by (intro WriteFile_quiet) simp_all
  ultimately show ?case using gz by (simp add: comp_def)
qed

lemma reassembled:
  assumes rx: "receiving y rootDir snap bs {..<k} d" and dir: "height_dir_of rootDir snap \<in> set (dk_dirs d)"
    and gz: "\<forall>b. y_gunzip y (y_gzip y b) = Some b" and k: "k = length bs" "k \<le> 10 ^ 6"
  shows "\<exists>d'. ReassemblePgDump y rootDir (wrap64 (ssn_Height snap)) d = (Ok (), d')
    \<and> ReadFile (getPgDumpPath (height_dir_of rootDir snap)) d' = Ok (concat bs) \<and> quiet d'"
proof -
  let ?h = "height_dir_of rootDir snap"
  let ?out = "?h @ [''data.dump'']"
  let ?d = "d\<lparr>dk_files := AList.update ?out [] (dk_files d)\<rparr>"
  have q: "quiet d" using rx by (simp add: receiving_def)
  have chunk: "map_of (dk_files d) (?h @ [chunk_name (int j)]) = Some (y_gzip y (bs ! j))" if "j < k" for j
    using rx that unfolding receiving_def by (metis lessThan_iff)
  have names: "n \<in> set (entry_names ?h ?d) \<longleftrightarrow> (\<exists>j < k. n = chunk_name (int j)) \<or> (True \<and> n = ''data.dump'')" for n
  proof -
    have "n \<in> set (entry_names ?h ?d) \<longleftrightarrow> n = ''data.dump'' \<or> n \<in> set (entry_names ?h d)"
      by (auto simp: entry_names_iff update_conv' simp flip: dom_map_of_conv_image_fst)
    with receiving_names [OF rx, of n] show ?thesis by auto
  qed
  have "chunk_files (entry_names ?h ?d) = map (chunk_name \<circ> int) [0..<k]"
    by (rule chunk_files_in_order [OF names entry_names_sorted k(2)])
  moreover have "append_chunks y ?out ?h (map (chunk_name \<circ> int) [0..<k]) ?d =
      (Ok (), ?d\<lparr>dk_files := AList.update ?out ([] @ concat (map ((!) bs) [0..<k])) (dk_files ?d)\<rparr>)"
    using dir q chunk dump_name_not_chunk by (intro append_chunks_spec gz) (auto simp: quiet_def update_conv')
  moreover have "ReadDir ?h ?d = Ok (entry_names ?h ?d)" using dir q by (simp add: ReadDir_def quiet_def)
  ultimately have "ReassemblePgDump y rootDir (wrap64 (ssn_Height snap)) d
      = (Ok (), ?d\<lparr>dk_files := AList.update ?out (concat bs) (dk_files ?d)\<rparr>)"
    using WriteFile_quiet [OF q, of ?out "[]"] dir k(1)
    by (simp add: ReassemblePgDump_def then_disk_def Let_def getPgDumpPath_def map_nth)
  then show ?thesis using q by (auto simp: ReadFile_def quiet_def getPgDumpPath_def update_conv')
qed

text \<open>A list of chunks handed to the node one after the other.\<close>

fun apply_chunks ::
    "sync_ext \<Rightarrow> core_config \<Rightarrow> path \<Rightarrow> string \<Rightarrow> (int \<times> bytes) list \<Rightarrow> disk \<times> core_db \<Rightarrow> apply_result list \<times> disk \<times> core_db" where
  "apply_chunks y cfg rootDir sender [] st = ([], st)"
| "apply_chunks y cfg rootDir sender ((i, b) # cs) st =
     (case ApplySnapshotChunk y cfg rootDir i b sender st of
        (r, st1) \<Rightarrow> case apply_chunks y cfg rootDir sender cs st1 of (rs, st2) \<Rightarrow> (r # rs, st2))"

lemma ApplySnapshotChunk_step:
  assumes rx: "receiving y rootDir snap bs J d" and J: "J \<subseteq> {..<k}" "j < k" "j \<notin> J"
    and k: "k = length bs" "k \<le> 10 ^ 6" "ssn_Chunks snap = int k"
    and codec: "\<forall>b. y_gunzip y (y_gzip y b) = Some b" "y_unjson_snapshot y (y_json_snapshot y snap) = Some snap"
    and meta: "y_unjson_metadata y (ssn_Metadata snap) = Some \<lparr>md_Sender = sender, md_ChainID = cfg_ChainID cfg\<rparr>"
    and restore: "y_pg_restore y (concat bs) db = Ok db'"
  shows "\<exists>d'. ApplySnapshotChunk y cfg rootDir (int j) (y_gzip y (bs ! j)) sender (d, db) =
      (ApplyAccept, d', if insert j J = {..<k} then db' else db)
    \<and> (insert j J = {..<k} \<or> receiving y rootDir snap bs (insert j J) d')"
proof -
  have offered: "GetOfferedSnapshot y rootDir d = Ok snap"
    using rx codec(2) by (simp add: GetOfferedSnapshot_def ReadFile_def receiving_def quiet_def)
  obtain d1 where d1: "StoreChunkForReconstruction rootDir (wrap64 (ssn_Height snap)) (int j) (y_gzip y (bs ! j)) d = (Ok (), d1)"
    "receiving y rootDir snap bs (insert j J) d1" "height_dir_of rootDir snap \<in> set (dk_dirs d1)"
    using store_chunk_receives [OF rx J k(2)] by blast
  have sub: "insert j J \<subseteq> {..<k}" using J by auto
  note all = have_all_chunks [OF d1(2,3) sub k(2)]
  have fold: "equal_fold sender sender" by (simp add: equal_fold_def)
  show ?thesis
  proof (cases "insert j J = {..<k}")
    case True
    with d1(2) have "receiving y rootDir snap bs {..<k} d1" by simp
    then obtain d2 where "ReassemblePgDump y rootDir (wrap64 (ssn_Height snap)) d1 = (Ok (), d2)"
      "ReadFile (getPgDumpPath (height_dir_of rootDir snap)) d2 = Ok (concat bs)"
      using reassembled [OF _ d1(3) codec(1) k(1,2)] by blast
    with True offered meta fold d1(1) all k(3) restore show ?thesis
      by (simp add: ApplySnapshotChunk_def Let_def is_ok_def RestoreDatabase_def)
  next
    case False
    with offered meta fold d1 all k(3) show ?thesis
      by (simp add: ApplySnapshotChunk_def Let_def is_ok_def)
  qed
qed

lemma apply_chunks_restores:
  assumes rx: "receiving y rootDir snap bs J d" and parts: "J \<inter> set js = {}" "J \<union> set js = {..<k}" "distinct js" "js \<noteq> []"
    and k: "k = length bs" "k \<le> 10 ^ 6" "ssn_Chunks snap = int k"
    and codec: "\<forall>b. y_gunzip y (y_gzip y b) = Some b" "y_unjson_snapshot y (y_json_snapshot y snap) = Some snap"
    and meta: "y_unjson_metadata y (ssn_Metadata snap) = Some \<lparr>md_Sender = sender, md_ChainID = cfg_ChainID cfg\<rparr>"
    and restore: "y_pg_restore y (concat bs) db = Ok db'"
  shows "\<exists>d'. apply_chunks y cfg rootDir sender (map (\<lambda>j. (int j, y_gzip y (bs ! j))) js) (d, db) =
    (replicate (length js) ApplyAccept, d', db')"
  using rx parts
proof (induction js arbitrary: J d)
  case (Cons j js)
  have "J \<subseteq> {..<k}" "j < k" "j \<notin> J" using Cons.prems by auto
  from ApplySnapshotChunk_step [OF Cons.prems(1) this k codec meta restore]
  obtain d1 where d1: "ApplySnapshotChunk y cfg rootDir (int j) (y_gzip y (bs ! j)) sender (d, db) =
      (ApplyAccept, d1, if insert j J = {..<k} then db' else db)"
    "insert j J = {..<k} \<or> receiving y rootDir snap bs (insert j J) d1" by blast
  show ?case
  proof (cases "js = []")
    case True
    with Cons.prems have "insert j J = {..<k}" by auto
    with True d1 show ?thesis by simp
  next
    case False
    with Cons.prems have more: "insert j J \<noteq> {..<k}" by (metis Un_iff disjoint_iff distinct.simps(2) insert_iff last_in_set list.set_intros(2))
    with d1 have "receiving y rootDir snap bs (insert j J) d1" by blast
    from Cons.IH [OF this] Cons.prems False
    obtain d2 where "apply_chunks y cfg rootDir sender (map (\<lambda>j. (int j, y_gzip y (bs ! j))) js) (d1, db) =
      (replicate (length js) ApplyAccept, d2, db')" by auto
    with d1 more show ?thesis by simp
  qed
qed simp

section \<open>From a database to a dump and back\<close>

definition no_reconstruction :: "path \<Rightarrow> disk \<Rightarrow> bool" where
  "no_reconstruction rootDir d \<longleftrightarrow>
     (\<forall>p \<in> fst ` set (dk_files d) \<union> set (dk_dirs d). \<not> below (reconstruction_dir rootDir) p)"

lemma offer_receives:
  assumes q: "quiet d" and fresh: "no_reconstruction rootDir d"
  shows "\<exists>d'. OfferSnapshot y rootDir snap d = (OfferAccept, d') \<and> receiving y rootDir snap bs {} d'"
proof -
  let ?r = "reconstruction_dir rootDir" and ?h = "height_dir_of rootDir snap"
  obtain d1 where d1: "MkdirAll ?r d = (Ok (), d1)" "dk_files d1 = dk_files d" "quiet d1" "?r \<in> set (dk_dirs d1)"
    "set (dk_dirs d1) = set (dk_dirs d) \<union> {take n ?r |n. n \<le> length ?r}"
    using MkdirAll_quiet [OF q, of ?r] by blast
  let ?d = "d1\<lparr>dk_files := AList.update (getMetadataPath ?r) (y_json_snapshot y snap) (dk_files d)\<rparr>"
  have run: "OfferSnapshot y rootDir snap d = (OfferAccept, ?d)"
    using d1 WriteFile_quiet [of d1 "getMetadataPath ?r"]
    by (simp add: OfferSnapshot_def StoreOfferedSnapshot_def then_disk_def getMetadataPath_def is_ok_def)
  have inside: "below ?r (?h @ [n])" for n by (simp add: below_def getHeightDir_def)
  then have "?h @ [n] \<notin> fst ` set (dk_files d)" "?h @ [n] \<notin> set (dk_dirs d)" for n
    using fresh by (auto simp: no_reconstruction_def)
  moreover have "?h @ [n] \<noteq> take m ?r" for m n by (rule take_not_longer) (simp add: getHeightDir_def)
  ultimately have "receiving y rootDir snap bs {} ?d"
    using d1 by (auto simp: receiving_def quiet_def update_conv' getMetadataPath_def getHeightDir_def map_of_eq_None_iff)
  with run show ?thesis by blast
qed

text \<open>
  (C21) State sync gives a joining node the dump the serving node made: after a snapshot was
  created on a working disk, offering it to a node of the same chain and handing over the chunks
  it serves, each once and in any order, is accepted at every step, and with the last chunk the
  node restores its database from exactly the bytes of the dump. The dump must have at most a
  million chunks, as many as the names of the chunks keep in order.
\<close>

theorem snapshot_roundtrip:
  assumes disks: "quiet d" "quiet e" "no_reconstruction rootDir' e"
    and dump: "y_pg_dump y (dumped_tables db empty_db) = Ok dump" "dump \<noteq> []" "length (pieces dump) \<le> 10 ^ 6"
    and height: "in_int64 height"
    and codec: "\<forall>b. y_gunzip y (y_gzip y b) = Some b"
      "y_unjson_snapshot y (y_json_snapshot y (served_snapshot y cfg height blockHash dump)) = Some (served_snapshot y cfg height blockHash dump)"
      "y_unjson_metadata y (y_json_metadata y \<lparr>md_Sender = cfg_ProposerAddress cfg, md_ChainID = cfg_ChainID cfg\<rparr>)
        = Some \<lparr>md_Sender = cfg_ProposerAddress cfg, md_ChainID = cfg_ChainID cfg\<rparr>"
    and chain: "cfg_ChainID cfg' = cfg_ChainID cfg"
    and order: "distinct js" "set js = {..<length (pieces dump)}"
    and restore: "y_pg_restore y dump db' = Ok db''"
  shows "\<exists>d' e1 e2. createSnapshot y cfg rootDir db (Ok False) (Ok blockHash) height d = (Ok (), d')
    \<and> OfferSnapshot y rootDir' (served_snapshot y cfg height blockHash dump) e = (OfferAccept, e1)
    \<and> apply_chunks y cfg' rootDir' (cfg_ProposerAddress cfg)
        (map (\<lambda>j. (int j, case LoadSnapshotChunk y cfg rootDir (uwrap64 height) (int j) d' of Ok b \<Rightarrow> b | _ \<Rightarrow> [])) js) (e1, db')
      = (replicate (length js) ApplyAccept, e2, db'')"
proof -
  let ?bs = "pieces dump" and ?snap = "served_snapshot y cfg height blockHash dump"
  obtain d' where d': "createSnapshot y cfg rootDir db (Ok False) (Ok blockHash) height d = (Ok (), d')"
    and load: "\<And>j. j < length ?bs \<Longrightarrow> LoadSnapshotChunk y cfg rootDir (uwrap64 height) (int j) d' = Ok (y_gzip y (?bs ! j))"
    using createSnapshot_serves [OF disks(1) dump(1,3) height] codec(2) by (metis option.distinct(1))
  obtain e1 where e1: "OfferSnapshot y rootDir' ?snap e = (OfferAccept, e1)" "receiving y rootDir' ?snap ?bs {} e1"
    using offer_receives [OF disks(2,3)] by blast
  have chunks: "map (\<lambda>j. (int j, case LoadSnapshotChunk y cfg rootDir (uwrap64 height) (int j) d' of Ok b \<Rightarrow> b | _ \<Rightarrow> [])) js
      = map (\<lambda>j. (int j, y_gzip y (?bs ! j))) js"
    using order(2) load by (intro map_cong) auto
  have "?bs \<noteq> []" using dump(2) concat_pieces [of dump] by (metis concat.simps(1))
  then have "0 \<in> set js" unfolding order(2) by simp
  then have ne: "js \<noteq> []" by (metis empty_iff empty_set)
  have "ssn_Chunks ?snap = int (length ?bs)" using dump(3) by (simp add: served_snapshot_def)
  moreover have "y_unjson_metadata y (ssn_Metadata ?snap) = Some \<lparr>md_Sender = cfg_ProposerAddress cfg, md_ChainID = cfg_ChainID cfg'\<rparr>"
    using codec(3) chain by (simp add: served_snapshot_def)
  moreover have "y_pg_restore y (concat ?bs) db' = Ok db''" using restore by (simp add: concat_pieces)
  moreover have "{} \<union> set js = {..<length ?bs}" using order(2) by simp
  ultimately obtain e2 where "apply_chunks y cfg' rootDir' (cfg_ProposerAddress cfg) (map (\<lambda>j. (int j, y_gzip y (?bs ! j))) js) (e1, db')
      = (replicate (length js) ApplyAccept, e2, db'')"
    using apply_chunks_restores [OF e1(2) Int_empty_left _ order(1) ne refl dump(3) _ codec(1,2)] by blast
  with d' e1(1) chunks show ?thesis by (intro exI [of _ d'] exI [of _ e1] exI [of _ e2] conjI) (simp_all only:)
qed

definition demo_snapshot :: snapshot where
  "demo_snapshot = \<lparr>ssn_Height = 100, ssn_Hash = [3], ssn_Chunks = 1, ssn_Format = 1, ssn_Metadata = [2]\<rparr>"

definition demo_sync :: sync_ext where
  "demo_sync = \<lparr>y_gzip = Cons 0, y_gunzip = (\<lambda>b. if b = [] then None else Some (tl b)),
     y_json_snapshot = (\<lambda>_. [1]), y_unjson_snapshot = (\<lambda>_. Some demo_snapshot),
     y_json_metadata = (\<lambda>_. [2]), y_unjson_metadata = (\<lambda>_. Some \<lparr>md_Sender = ''AA'', md_ChainID = ''audius''\<rparr>),
     y_pg_dump = (\<lambda>_. Ok [5, 6]), y_pg_restore = (\<lambda>b db. if b = [5, 6] then Ok (db\<lparr>seq_sla_rollups := 9\<rparr>) else io_error)\<rparr>"

definition demo_disk :: disk where
  "demo_disk = \<lparr>dk_files = [], dk_dirs = [[]], dk_fault = (\<lambda>_. False)\<rparr>"

theorem snapshot_roundtrip_witness:
  "\<exists>d' e1 e2. createSnapshot demo_sync demo_config [''data''] empty_db (Ok False) (Ok [3]) 100 demo_disk = (Ok (), d')
    \<and> OfferSnapshot demo_sync [''data''] demo_snapshot demo_disk = (OfferAccept, e1)
    \<and> apply_chunks demo_sync demo_config [''data''] ''AA''
        [(0, case LoadSnapshotChunk demo_sync demo_config [''data''] 100 0 d' of Ok b \<Rightarrow> b | _ \<Rightarrow> [])] (e1, empty_db)
      = ([ApplyAccept], e2, empty_db\<lparr>seq_sla_rollups := 9\<rparr>)"
proof -
  have bs: "pieces [5, 6] = [[5, 6 :: byte]]" by (simp add: pieces.simps [of "[5, 6]"] chunkSize_def)
  have snap: "served_snapshot demo_sync demo_config 100 [3] [5, 6] = demo_snapshot"
    by (simp add: served_snapshot_def bs demo_snapshot_def demo_sync_def uwrap64_def)
  have disk: "quiet demo_disk" "no_reconstruction [''data''] demo_disk"
    by (simp_all add: demo_disk_def quiet_def no_reconstruction_def below_def reconstruction_dir_def)
  have w: "uwrap64 100 = 100" by (simp add: uwrap64_def)
  have "\<exists>d' e1 e2. createSnapshot demo_sync demo_config [''data''] empty_db (Ok False) (Ok [3]) 100 demo_disk = (Ok (), d')
    \<and> OfferSnapshot demo_sync [''data''] (served_snapshot demo_sync demo_config 100 [3] [5, 6]) demo_disk = (OfferAccept, e1)
    \<and> apply_chunks demo_sync demo_config [''data''] (cfg_ProposerAddress demo_config)
        (map (\<lambda>j. (int j, case LoadSnapshotChunk demo_sync demo_config [''data''] (uwrap64 100) (int j) d' of Ok b \<Rightarrow> b | _ \<Rightarrow> [])) [0]) (e1, empty_db)
      = (replicate (length [0 :: nat]) ApplyAccept, e2, empty_db\<lparr>seq_sla_rollups := 9\<rparr>)"
    by (rule snapshot_roundtrip [OF disk(1) disk(1,2)])
      (simp_all only: bs snap, simp_all add: demo_sync_def demo_config_def in_int64_def lessThan_Suc)
  then show ?thesis unfolding w snap by (simp add: demo_config_def)
qed

section \<open>Pruning\<close>

lemma RemoveAll_quiet:
  assumes "quiet d"
  shows "quiet (snd (RemoveAll p d))"
    and "entry_names dir (snd (RemoveAll (dir @ [f]) d)) = filter (\<lambda>n. n \<noteq> f) (entry_names dir d)"
    and "\<not> below p q \<Longrightarrow> map_of (dk_files (snd (RemoveAll p d))) q = map_of (dk_files d) q"
proof -
  show "quiet (snd (RemoveAll p d))" using assms by (simp add: RemoveAll_def quiet_def)
  show "map_of (dk_files (snd (RemoveAll p d))) q = map_of (dk_files d) q" if "\<not> below p q"
  proof -
    have "map_of (filter (\<lambda>f. \<not> below p (fst f)) fs) q = map_of fs q" for fs :: "(path \<times> bytes) list"
      using that by (induction fs) auto
    then show ?thesis using assms by (simp add: RemoveAll_def quiet_def)
  qed
  have here: "below (dir @ [f]) (dir @ [n]) \<longleftrightarrow> n = f" for n by (auto simp: below_def)
  show "entry_names dir (snd (RemoveAll (dir @ [f]) d)) = filter (\<lambda>n. n \<noteq> f) (entry_names dir d)"
  proof (rule sorted_distinct_set_unique)
    show "set (entry_names dir (snd (RemoveAll (dir @ [f]) d))) = set (filter (\<lambda>n. n \<noteq> f) (entry_names dir d))"
    proof (rule set_eqI)
      fix n
      have files: "dir @ [n] \<in> fst ` {x \<in> set (dk_files d). \<not> below (dir @ [f]) (fst x)} \<longleftrightarrow> dir @ [n] \<in> fst ` set (dk_files d) \<and> n \<noteq> f"
        using here by force
      show "n \<in> set (entry_names dir (snd (RemoveAll (dir @ [f]) d))) \<longleftrightarrow> n \<in> set (filter (\<lambda>n. n \<noteq> f) (entry_names dir d))"
        using assms here files by (auto simp: entry_names_iff RemoveAll_def quiet_def)
    qed
  qed (use entry_names_sorted in \<open>simp_all add: sorted_wrt_filter\<close>)
qed

lemma prune_loop:
  assumes "quiet d"
  shows "let d' = fold (\<lambda>f d. snd (RemoveAll (dir @ [f]) d)) fs d in
    quiet d' \<and> entry_names dir d' = filter (\<lambda>n. n \<notin> set fs) (entry_names dir d)
    \<and> (\<forall>q. (\<forall>f \<in> set fs. \<not> below (dir @ [f]) q) \<longrightarrow> map_of (dk_files d') q = map_of (dk_files d) q)"
  using assms
proof (induction fs arbitrary: d)
  case (Cons f fs)
  let ?d = "snd (RemoveAll (dir @ [f]) d)"
  have "quiet ?d" using Cons.prems by (rule RemoveAll_quiet)
  from Cons.IH [OF this] RemoveAll_quiet(2,3) [OF Cons.prems] show ?case
    by (auto simp: Let_def intro!: filter_cong)
qed simp

definition height_name :: "nat \<Rightarrow> string" where
  "height_name h = ''height_'' @ pad_int 10 (int h)"

lemma height_name_less: "a < b \<Longrightarrow> b < 10 ^ 10 \<Longrightarrow> height_name a < height_name b"
  using digits_less [of a b 10] pad_digits [of a 10] pad_digits [of b 10]
  by (simp add: height_name_def pad_int_def del: digits.simps)

lemma sorted_height_names:
  assumes "sorted hs" "distinct hs" "\<forall>h \<in> set hs. h < 10 ^ 10"
  shows "sorted (map height_name hs)" "distinct (map height_name hs)"
proof -
  have "sorted_wrt (<) (map height_name hs)"
    unfolding sorted_wrt_map
  proof (rule sorted_wrt_mono_rel)
    show "sorted_wrt (<) hs" using assms by (simp add: strict_sorted_iff)
  qed (use assms height_name_less in blast)
  then show "sorted (map height_name hs)" "distinct (map height_name hs)"
    by (auto simp: strict_sorted_iff)
qed

text \<open>
  (C22) Pruning on a working disk leaves exactly the snapshots of the highest heights, as many
  as the configuration keeps, and leaves their files as they were; the names order the heights
  correctly below ten billion.
\<close>

theorem prune_keeps_newest:
  assumes "quiet d" and "getSnapshotDir rootDir (cfg_ChainID cfg) \<in> set (dk_dirs d)"
    and names: "set (entry_names (getSnapshotDir rootDir (cfg_ChainID cfg)) d) = height_name ` set hs"
    and hs: "sorted hs" "distinct hs" "\<forall>h \<in> set hs. h < 10 ^ 10"
    and keep: "ss_Keep (cfg_StateSync cfg) = int k"
  shows "\<exists>d'. pruneSnapshots cfg rootDir d = (Ok (), d')
    \<and> entry_names (getSnapshotDir rootDir (cfg_ChainID cfg)) d' = map height_name (drop (length hs - k) hs)
    \<and> (\<forall>h \<in> set (drop (length hs - k) hs). \<forall>q. below (getSnapshotDir rootDir (cfg_ChainID cfg) @ [height_name h]) q \<longrightarrow>
         map_of (dk_files d') q = map_of (dk_files d) q)"
proof -
  let ?dir = "getSnapshotDir rootDir (cfg_ChainID cfg)"
  let ?m = "length hs - k"
  have all: "entry_names ?dir d = map height_name hs"
    by (rule sorted_distinct_set_unique) (use names entry_names_sorted sorted_height_names [OF hs] in simp_all)
  let ?d = "fold (\<lambda>f d. snd (RemoveAll (?dir @ [f]) d)) (take ?m (map height_name hs)) d"
  have run: "pruneSnapshots cfg rootDir d = (Ok (), ?d)"
    using assms(1,2) all keep by (simp add: pruneSnapshots_def Let_def ReadDir_def quiet_def nat_diff_distrib')
  note loop = prune_loop [OF assms(1), of ?dir "take ?m (map height_name hs)", unfolded Let_def]
  have dist: "distinct (take ?m (map height_name hs) @ drop ?m (map height_name hs))"
    unfolding append_take_drop_id by (rule sorted_height_names(2) [OF hs])
  have disj: "set (take ?m (map height_name hs)) \<inter> set (drop ?m (map height_name hs)) = {}"
    using dist by (simp only: distinct_append)
  have "filter (\<lambda>n. n \<notin> set (take ?m (map height_name hs))) (take ?m (map height_name hs) @ drop ?m (map height_name hs))
      = drop ?m (map height_name hs)"
    unfolding filter_append using disj by (simp add: filter_id_conv) blast
  from this [unfolded append_take_drop_id] have left: "entry_names ?dir ?d = map height_name (drop ?m hs)"
    using loop all by (simp add: drop_map)
  have "map_of (dk_files ?d) q = map_of (dk_files d) q" if "h \<in> set (drop ?m hs)" "below (?dir @ [height_name h]) q" for h q
  proof -
    have "height_name h \<notin> set (take ?m (map height_name hs))"
      using disj that(1) unfolding drop_map by (metis disjoint_iff imageI list.set_map)
    moreover have "below (?dir @ [f]) q \<Longrightarrow> f = height_name h" for f
      using that(2) by (auto simp: below_def)
    ultimately show ?thesis using loop by blast
  qed
  with run left show ?thesis by blast
qed


definition demo_snapshots_disk :: disk where
  "demo_snapshots_disk =
     \<lparr>dk_files = map (\<lambda>h. (getMetadataPath (getHeightDir (getSnapshotDir [''data''] ''audius'') h), [1])) [900, 1000, 1100],
      dk_dirs = [''data''] # getSnapshotDir [''data''] ''audius'' #
        map (getHeightDir (getSnapshotDir [''data''] ''audius'')) [900, 1000, 1100],
      dk_fault = (\<lambda>_. False)\<rparr>"

theorem prune_keeps_newest_witness:
  "\<exists>d'. pruneSnapshots demo_config [''data''] demo_snapshots_disk = (Ok (), d')
    \<and> entry_names (getSnapshotDir [''data''] ''audius'') d' = [''height_0000001000'', ''height_0000001100'']"
proof -
  let ?dir = "getSnapshotDir [''data''] (cfg_ChainID demo_config)"
  have names: "set (entry_names ?dir demo_snapshots_disk) = height_name ` set [900, 1000, 1100]"
    by (auto simp: entry_names_iff demo_snapshots_disk_def demo_config_def getHeightDir_def
        getSnapshotDir_def getMetadataPath_def height_name_def)
  have "\<exists>d'. pruneSnapshots demo_config [''data''] demo_snapshots_disk = (Ok (), d')
    \<and> entry_names ?dir d' = map height_name (drop (length [900, 1000, 1100 :: nat] - 2) [900, 1000, 1100])"
    using prune_keeps_newest [OF _ _ names, of 2]
    by (auto simp: demo_snapshots_disk_def demo_config_def quiet_def)
  moreover have "height_name 1000 = ''height_0000001000''" "height_name 1100 = ''height_0000001100''" by code_simp+
  ultimately show ?thesis by (simp add: demo_config_def)
qed

section \<open>What a snapshot leaves out\<close>

lemma dumped_twice: "dumped_tables (dumped_tables src other) db = dumped_tables src db"
  by (simp add: dumped_tables_def)

text \<open>
  The dump leaves out the rewards: a delete-reward transaction that the serving node
  accepts is refused by a node that had no rewards and restored its database from that dump,
  where restoring a dump replaces the tables that were dumped.
\<close>

theorem restored_node_lacks_rewards:
  assumes dump: "y_pg_dump y (dumped_tables src empty_db) = Ok b"
    and restore: "\<And>s db. y_pg_dump y s = Ok b \<Longrightarrow> y_pg_restore y b db = Ok (dumped_tables s db)"
    and stored: "ReadFile (getPgDumpPath (getHeightDir (reconstruction_dir rootDir) height)) d = Ok b"
    and fresh: "core_rewards db = []"
    and tx: "get_reward tx = Some (Some (RewardDelete m))"
    and accepted: "isValidRewardTransaction x src tx blockHeight = Ok ()"
  shows "\<exists>db' e. RestoreDatabase y rootDir height d db = Ok db' \<and> isValidRewardTransaction x db' tx blockHeight = Err e"
proof -
  let ?db = "dumped_tables src db"
  have "RestoreDatabase y rootDir height d db = Ok ?db"
    using restore [OF dump] stored by (simp add: RestoreDatabase_def dumped_twice)
  moreover have "GetReward a ?db = None" for a using fresh by (simp add: GetReward_def latest_by_def dumped_tables_def)
  then obtain e where "db_row ''GetReward'' (GetReward (dr_address m)) ?db = Err e" by (fastforce simp: db_row_def)
  then have "\<exists>e. isValidRewardTransaction x ?db tx blockHeight = Err e"
    using tx accepted
    by (cases "validateRewardSignature x blockHeight (dr_signature m) (dr_deadline_block_height m)
      (CreateDeterministicDeleteRewardData x m)") (auto simp: isValidRewardTransaction_def validateDeleteReward_def)
  ultimately show ?thesis by blast
qed


definition demo_restore :: sync_ext where
  "demo_restore = demo_sync\<lparr>y_pg_dump := (\<lambda>s. if s = dumped_tables demo_rewards_db empty_db then Ok [5, 6] else io_error),
     y_pg_restore := (\<lambda>_ db. Ok (dumped_tables demo_rewards_db db))\<rparr>"

definition demo_restore_disk :: disk where
  "demo_restore_disk = demo_disk\<lparr>dk_files := [(getPgDumpPath (getHeightDir (reconstruction_dir [''data'']) 100), [5, 6])]\<rparr>"

theorem restored_node_lacks_rewards_witness:
  "\<exists>db' e. RestoreDatabase demo_restore [''data''] 100 demo_restore_disk empty_db = Ok db'
    \<and> isValidRewardTransaction demo_ext db'
        \<lparr>st_signature = '''', st_request_id = '''', st_transaction = Some (TxReward (Some (RewardDelete demo_delete_reward)))\<rparr> 7 = Err e"
proof (rule restored_node_lacks_rewards)
  show "y_pg_dump demo_restore (dumped_tables demo_rewards_db empty_db) = Ok [5, 6]"
    by (simp add: demo_restore_def)
  show "y_pg_restore demo_restore [5, 6] db = Ok (dumped_tables s db)" if "y_pg_dump demo_restore s = Ok [5, 6]" for s db
    using that by (auto simp: demo_restore_def dumped_twice io_error_def split: if_splits)
  have fold: "equal_fold ''KEY'' ''key''" by code_simp
  show "isValidRewardTransaction demo_ext demo_rewards_db
      \<lparr>st_signature = '''', st_request_id = '''', st_transaction = Some (TxReward (Some (RewardDelete demo_delete_reward)))\<rparr> 7 = Ok ()"
    using demo_delete_signer fold
    by (simp add: isValidRewardTransaction_def get_reward_def validateDeleteReward_def db_row_def GetReward_def latest_by_def
        demo_rewards_db_def empty_db_def demo_delete_reward_def)
qed (simp_all add: demo_restore_disk_def demo_disk_def ReadFile_def empty_db_def get_reward_def)

end
