(* ===== verification/Mempool.thy ===== *)
theory Mempool
  imports Chain_Types
begin

text \<open>
  The mempool of \<^verbatim>\<open>pkg/core/server/mempool.go\<close>: a doubly linked list of transactions with an
  index from transaction hash to list element. The locale \<open>tx_pool\<close> is the contract the
  consensus handlers rely on (an ordered, keyed, bounded queue), and the interpretation at
  the end of the theory shows that the code's two structures implement it.
\<close>

section \<open>The contract of a transaction pool\<close>

text \<open>
  A pool is seen as the list of its keyed transactions in order of arrival. \<open>deadline\<close> is
  the last height a transaction may be included below.
\<close>

locale tx_pool =
  fixes view :: "'m \<Rightarrow> ('k \<times> 't) list"
    and inv :: "'m \<Rightarrow> bool"
    and full :: "'m \<Rightarrow> bool"
    and deadline :: "'t \<Rightarrow> int"
    and add :: "'k \<Rightarrow> 't \<Rightarrow> 'm \<Rightarrow> 'm"
    and remove :: "'k list \<Rightarrow> 'm \<Rightarrow> 'm"
    and expire :: "int \<Rightarrow> 'm \<Rightarrow> 'm"
    and batch :: "int \<Rightarrow> int \<Rightarrow> 'm \<Rightarrow> 't list"
  assumes inv_add: "inv m \<Longrightarrow> inv (add k t m)"
    and inv_remove: "inv m \<Longrightarrow> inv (remove ks m)"
    and inv_expire: "inv m \<Longrightarrow> inv (expire h m)"
    and distinct_view: "inv m \<Longrightarrow> distinct (map fst (view m))"
    and view_add: "inv m \<Longrightarrow> view (add k t m) =
          (if full m \<or> k \<in> fst ` set (view m) then view m else view m @ [(k, t)])"
    and view_remove: "inv m \<Longrightarrow> view (remove ks m) = filter (\<lambda>kt. fst kt \<notin> set ks) (view m)"
    and view_expire: "inv m \<Longrightarrow> view (expire h m) = filter (\<lambda>kt. h < deadline (snd kt)) (view m)"
    and batch_view: "inv m \<Longrightarrow>
          batch n h m = take (nat n) (filter (\<lambda>t. h < deadline t) (map snd (view m)))"
begin

lemma batch_bounds:
  assumes "inv m"
  shows "int (length (batch n h m)) \<le> max 0 n"
    and "\<forall>t \<in> set (batch n h m). h < deadline t \<and> t \<in> snd ` set (view m)"
  using assms by (auto simp: batch_view dest: in_set_takeD)

lemma batch_expire:
  assumes "inv m" and "h \<le> h'"
  shows "batch n h' (expire h m) = batch n h' m"
  using assms by (simp add: batch_view view_expire inv_expire filter_map comp_def)
    (metis (mono_tags, lifting) filter_cong order_le_less_trans)

lemma batch_remove:
  assumes "inv m"
  shows "batch n h (remove ks m) =
    take (nat n) (map snd (filter (\<lambda>kt. h < deadline (snd kt) \<and> fst kt \<notin> set ks) (view m)))"
  using assms by (simp add: batch_view view_remove inv_remove filter_map comp_def conj_commute)

lemma add_eventually_batched:
  assumes "inv m" and "\<not> full m" and "k \<notin> fst ` set (view m)" and "h < deadline t"
    and "int (length (view m)) < n"
  shows "batch n h (add k t m) = batch n h m @ [t]"
proof -
  have "length (filter (\<lambda>t. h < deadline t) (map snd (view m))) < nat n"
    using assms(5) by (intro le_less_trans [OF length_filter_le]) simp
  with assms show ?thesis
    by (simp add: batch_view view_add inv_add)
qed

lemma add_preserves_order:
  assumes "inv m"
  shows "\<exists>ys. view (add k t m) = view m @ ys"
  using assms by (simp add: view_add)

end

section \<open>The mempool of the server\<close>

record mempool_tx =
  mt_Deadline :: int64
  mt_Tx :: "signed_transaction option"
  mt_Txv2 :: "v2_transaction option"

text \<open>
  The list elements of \<^verbatim>\<open>container/list\<close> are numbered in order of creation; \<open>mp_txMap\<close> maps a
  transaction hash to the number of its element, which stands for the pointer.
\<close>

record mempool =
  mp_deque :: "(nat \<times> mempool_tx) list"
  mp_txMap :: "(string \<times> nat) list"
  mp_next :: nat
  mp_max :: int

definition NewMempool :: "int \<Rightarrow> mempool" where
  "NewMempool maxTransactions =
     \<lparr>mp_deque = [], mp_txMap = [], mp_next = 0, mp_max = maxTransactions\<rparr>"

fun get_batch_loop :: "int \<Rightarrow> int64 \<Rightarrow> (nat \<times> mempool_tx) list \<Rightarrow> int \<Rightarrow> mempool_tx list \<Rightarrow> mempool_tx list" where
  "get_batch_loop batchSize currentBlock [] count batch = batch"
| "get_batch_loop batchSize currentBlock ((e, tx) # es) count batch =
     (if \<not> count < batchSize then batch
      else if mt_Deadline tx \<le> currentBlock then get_batch_loop batchSize currentBlock es count batch
      else get_batch_loop batchSize currentBlock es (count + 1) (batch @ [tx]))"

definition GetBatch :: "int \<Rightarrow> int64 \<Rightarrow> mempool \<Rightarrow> mempool_tx list" where
  "GetBatch batchSize currentBlock m = get_batch_loop batchSize currentBlock (mp_deque m) 0 []"

text \<open>
  \<^verbatim>\<open>GetAll\<close> looks at the front of the list on every turn of its loop. The first argument
  bounds the number of turns and None means that the bound was reached.
\<close>

fun GetAll_loop :: "nat \<Rightarrow> (nat \<times> mempool_tx) list \<Rightarrow> mempool_tx list \<Rightarrow> mempool_tx list result option" where
  "GetAll_loop 0 deque batch = None"
| "GetAll_loop (Suc turns) deque batch =
     (case deque of
        [] \<Rightarrow> Some (Panic ''nil pointer dereference'')
      | [e] \<Rightarrow> Some (Ok batch)
      | e # e' # es \<Rightarrow> GetAll_loop turns deque (batch @ [snd e]))"

definition GetAll :: "nat \<Rightarrow> mempool \<Rightarrow> mempool_tx list result option" where
  "GetAll turns m = GetAll_loop turns (mp_deque m) []"

definition deque_remove :: "nat \<Rightarrow> (nat \<times> mempool_tx) list \<Rightarrow> (nat \<times> mempool_tx) list" where
  "deque_remove e d = filter (\<lambda>x. fst x \<noteq> e) d"

definition drop_tx :: "string \<Rightarrow> nat \<Rightarrow> mempool \<Rightarrow> mempool" where
  "drop_tx k e m = m\<lparr>mp_deque := deque_remove e (mp_deque m),
                     mp_txMap := filter (\<lambda>kv. fst kv \<noteq> k) (mp_txMap m)\<rparr>"

fun RemoveBatch :: "string list \<Rightarrow> mempool \<Rightarrow> mempool" where
  "RemoveBatch [] m = m"
| "RemoveBatch (k # ks) m =
     (case map_of (mp_txMap m) k of
        Some element \<Rightarrow> RemoveBatch ks (drop_tx k element m)
      | None \<Rightarrow> RemoveBatch ks m)"

fun remove_expired_loop :: "int64 \<Rightarrow> (string \<times> nat) list \<Rightarrow> mempool \<Rightarrow> mempool" where
  "remove_expired_loop blockNum [] m = m"
| "remove_expired_loop blockNum ((k, element) # rest) m =
     (case map_of (mp_deque m) element of
        None \<Rightarrow> remove_expired_loop blockNum rest m
      | Some mptx \<Rightarrow>
          remove_expired_loop blockNum rest
            (if mt_Deadline mptx \<le> blockNum then drop_tx k element m else m))"

definition RemoveExpiredTransactions :: "int64 \<Rightarrow> mempool \<Rightarrow> mempool" where
  "RemoveExpiredTransactions blockNum m = remove_expired_loop blockNum (mp_txMap m) m"

definition MempoolSize :: "mempool \<Rightarrow> nat \<times> nat" where
  "MempoolSize m = (length (mp_txMap m), length (mp_deque m))"

text \<open>The requests sent to the peers, in the order the peer map is walked.\<close>

datatype forward_request = ForwardV1 signed_transaction | ForwardV2 v2_transaction

definition broadcastMempoolTransaction ::
    "mempool_tx \<Rightarrow> (string \<times> 'c) list \<Rightarrow> (string \<times> forward_request) list" where
  "broadcastMempoolTransaction tx peers =
     (case mt_Tx tx of
        Some t \<Rightarrow> (case st_transaction t of
            Some (TxSlaRollup _) \<Rightarrow> []
          | _ \<Rightarrow> map (\<lambda>(a, p). (a, ForwardV1 t)) peers)
      | None \<Rightarrow> (case mt_Txv2 tx of
            Some t \<Rightarrow> map (\<lambda>(a, p). (a, ForwardV2 t)) peers
          | None \<Rightarrow> []))"

definition pool_insert :: "string \<Rightarrow> mempool_tx \<Rightarrow> mempool \<Rightarrow> unit result \<times> mempool" where
  "pool_insert k tx m =
     (if int (length (mp_txMap m)) \<ge> mp_max m then (Err (Errorf ''mempool full''), m)
      else if k \<in> fst ` set (mp_txMap m) then (Ok (), m)
      else (Ok (), m\<lparr>mp_deque := mp_deque m @ [(mp_next m, tx)],
                     mp_txMap := mp_txMap m @ [(k, mp_next m)],
                     mp_next := Suc (mp_next m)\<rparr>))"

definition addMempoolTransaction ::
    "string \<Rightarrow> mempool_tx \<Rightarrow> bool \<Rightarrow> (string \<times> 'c) list \<Rightarrow> mempool
     \<Rightarrow> unit result \<times> (string \<times> forward_request) list \<times> mempool" where
  "addMempoolTransaction k tx broadcast peers m =
     (let sent = (if broadcast then broadcastMempoolTransaction tx peers else []);
          (r, m') = pool_insert k tx m
      in (r, sent, m'))"

text \<open>
  One tick of \<^verbatim>\<open>startMempoolCache\<close>; the sizes of the messages and the maximal size of a
  transaction come from protobuf and from CometBFT's configuration.
\<close>

record mempool_info =
  mi_TxCount :: int64
  mi_MaxTxCount :: int64
  mi_TxSize :: int64
  mi_MaxTxSize :: int64

definition mempool_tick ::
    "(signed_transaction \<Rightarrow> int) \<Rightarrow> (v2_transaction \<Rightarrow> int) \<Rightarrow> int \<Rightarrow> mempool \<Rightarrow> mempool_info" where
  "mempool_tick size1 size2 maxTxBytes m =
     \<lparr>mi_TxCount = int (length (mp_deque m)), mi_MaxTxCount = mp_max m,
      mi_TxSize = fold (\<lambda>(e, tx) acc.
          case mt_Tx tx of
            Some t \<Rightarrow> wrap64 (acc + size1 t)
          | None \<Rightarrow> (case mt_Txv2 tx of Some t \<Rightarrow> wrap64 (acc + size2 t) | None \<Rightarrow> acc)) (mp_deque m) 0,
      mi_MaxTxSize = wrap64 (mp_max m * maxTxBytes)\<rparr>"

section \<open>Consistency of the list and its index\<close>

definition mp_inv :: "mempool \<Rightarrow> bool" where
  "mp_inv m \<longleftrightarrow> distinct (map fst (mp_deque m)) \<and> distinct (map fst (mp_txMap m))
     \<and> distinct (map snd (mp_txMap m)) \<and> snd ` set (mp_txMap m) = fst ` set (mp_deque m)
     \<and> (\<forall>e \<in> fst ` set (mp_deque m). e < mp_next m)"

definition key_of :: "(string \<times> nat) list \<Rightarrow> nat \<Rightarrow> string" where
  "key_of txMap e = the (map_of (map prod.swap txMap) e)"

definition mp_view :: "mempool \<Rightarrow> (string \<times> mempool_tx) list" where
  "mp_view m = map (\<lambda>(e, tx). (key_of (mp_txMap m) e, tx)) (mp_deque m)"

definition mp_full :: "mempool \<Rightarrow> bool" where
  "mp_full m \<longleftrightarrow> mp_max m \<le> int (length (mp_txMap m))"

lemma mp_inv_New [simp]: "mp_inv (NewMempool n)" "mp_view (NewMempool n) = []"
  by (simp_all add: mp_inv_def mp_view_def NewMempool_def)

lemma key_of_eq:
  assumes "distinct (map snd txMap)" and "(k, e) \<in> set txMap"
  shows "key_of txMap e = k"
proof -
  have "map_of (map prod.swap txMap) e = Some k"
    using assms by (intro map_of_is_SomeI) (auto simp: comp_def intro: rev_image_eqI)
  then show ?thesis by (simp add: key_of_def)
qed

lemma key_of_mem:
  assumes "mp_inv m" and "(e, tx) \<in> set (mp_deque m)"
  shows "(key_of (mp_txMap m) e, e) \<in> set (mp_txMap m)"
proof -
  have "e \<in> snd ` set (mp_txMap m)" using assms by (force simp: mp_inv_def)
  then obtain k where "(k, e) \<in> set (mp_txMap m)" by auto
  with assms show ?thesis by (auto simp: mp_inv_def key_of_eq)
qed

lemma keys_mp_view:
  assumes "mp_inv m"
  shows "fst ` set (mp_view m) = fst ` set (mp_txMap m)"
proof
  show "fst ` set (mp_view m) \<subseteq> fst ` set (mp_txMap m)"
    using key_of_mem [OF assms] by (force simp: mp_view_def)
  show "fst ` set (mp_txMap m) \<subseteq> fst ` set (mp_view m)"
  proof
    fix k assume "k \<in> fst ` set (mp_txMap m)"
    then obtain e where ke: "(k, e) \<in> set (mp_txMap m)" by auto
    then have "e \<in> fst ` set (mp_deque m)" using assms by (force simp: mp_inv_def)
    then obtain tx where "(e, tx) \<in> set (mp_deque m)" by auto
    moreover have "key_of (mp_txMap m) e = k" using assms ke by (simp add: mp_inv_def key_of_eq)
    ultimately show "k \<in> fst ` set (mp_view m)" by (force simp: mp_view_def)
  qed
qed

lemma distinct_mp_view:
  assumes "mp_inv m"
  shows "distinct (map fst (mp_view m))"
proof -
  have "inj_on (\<lambda>x. key_of (mp_txMap m) (fst x)) (set (mp_deque m))"
  proof (rule inj_onI)
    fix x y
    assume xy: "x \<in> set (mp_deque m)" "y \<in> set (mp_deque m)"
      and eq: "key_of (mp_txMap m) (fst x) = key_of (mp_txMap m) (fst y)"
    have "(key_of (mp_txMap m) (fst x), fst x) \<in> set (mp_txMap m)"
      "(key_of (mp_txMap m) (fst x), fst y) \<in> set (mp_txMap m)"
      using key_of_mem [OF assms, of "fst x" "snd x"] key_of_mem [OF assms, of "fst y" "snd y"] xy eq
      by simp_all
    then have "fst x = fst y" using assms by (auto simp: mp_inv_def eq_key_imp_eq_value)
    then show "x = y" using assms xy by (auto simp: mp_inv_def distinct_map inj_on_def)
  qed
  moreover have "distinct (mp_deque m)" using assms by (auto simp: mp_inv_def distinct_map)
  moreover have "map fst (mp_view m) = map (\<lambda>x. key_of (mp_txMap m) (fst x)) (mp_deque m)"
    by (simp add: mp_view_def comp_def split_beta)
  ultimately show ?thesis by (simp add: distinct_map)
qed

lemma mp_inv_drop_tx:
  assumes "mp_inv m" and "(k, e) \<in> set (mp_txMap m)"
  shows "mp_inv (drop_tx k e m)"
proof -
  have iff: "fst kv = k \<longleftrightarrow> snd kv = e" if "kv \<in> set (mp_txMap m)" for kv
    using assms that unfolding mp_inv_def distinct_map inj_on_def by (metis fst_conv snd_conv)
  then have "snd ` {kv \<in> set (mp_txMap m). fst kv \<noteq> k} = snd ` set (mp_txMap m) - {e}"
    by force
  with assms(1) show ?thesis
    by (auto simp: mp_inv_def drop_tx_def deque_remove_def distinct_map_filter)
qed

lemma mp_view_drop_tx:
  assumes "mp_inv m" and "(k, e) \<in> set (mp_txMap m)"
  shows "mp_view (drop_tx k e m) = filter (\<lambda>kt. fst kt \<noteq> k) (mp_view m)"
proof -
  have iff: "key_of (mp_txMap m) (fst x) \<noteq> k \<longleftrightarrow> fst x \<noteq> e" if "x \<in> set (mp_deque m)" for x
  proof -
    have "(key_of (mp_txMap m) (fst x), fst x) \<in> set (mp_txMap m)"
      using key_of_mem [OF assms(1), of "fst x" "snd x"] that by simp
    moreover have "key_of (mp_txMap m) e = k" using assms by (simp add: mp_inv_def key_of_eq)
    ultimately show ?thesis using assms
      by (metis (no_types, lifting) eq_key_imp_eq_value mp_inv_def)
  qed
  have key: "key_of (filter (\<lambda>kv. fst kv \<noteq> k) (mp_txMap m)) (fst x) = key_of (mp_txMap m) (fst x)"
    if "x \<in> set (mp_deque m)" "fst x \<noteq> e" for x
  proof (rule key_of_eq)
    show "distinct (map snd (filter (\<lambda>kv. fst kv \<noteq> k) (mp_txMap m)))"
      using assms by (simp add: mp_inv_def distinct_map_filter)
    show "(key_of (mp_txMap m) (fst x), fst x) \<in> set (filter (\<lambda>kv. fst kv \<noteq> k) (mp_txMap m))"
      using key_of_mem [OF assms(1), of "fst x" "snd x"] that iff by simp
  qed
  have "filter (\<lambda>kt. fst kt \<noteq> k) (mp_view m)
      = map (\<lambda>(e, tx). (key_of (mp_txMap m) e, tx)) (filter (\<lambda>x. fst x \<noteq> e) (mp_deque m))"
    using iff by (simp add: mp_view_def filter_map comp_def split_beta cong: filter_cong)
  also have "\<dots> = mp_view (drop_tx k e m)"
    using key by (auto simp: mp_view_def drop_tx_def deque_remove_def)
  finally show ?thesis by simp
qed

lemma RemoveBatch_spec:
  assumes "mp_inv m"
  shows "mp_inv (RemoveBatch ks m)
    \<and> mp_view (RemoveBatch ks m) = filter (\<lambda>kt. fst kt \<notin> set ks) (mp_view m)"
  using assms
proof (induction ks arbitrary: m)
  case Nil
  then show ?case by simp
next
  case (Cons k ks)
  show ?case
  proof (cases "map_of (mp_txMap m) k")
    case None
    then have "k \<notin> fst ` set (mp_view m)"
      using Cons.prems by (simp add: keys_mp_view map_of_eq_None_iff)
    then have "filter (\<lambda>kt. fst kt \<notin> set (k # ks)) (mp_view m)
        = filter (\<lambda>kt. fst kt \<notin> set ks) (mp_view m)"
      by (intro filter_cong) auto
    with None Cons show ?thesis by simp
  next
    case (Some e)
    then have e: "(k, e) \<in> set (mp_txMap m)" by (rule map_of_SomeD)
    from Cons.IH [OF mp_inv_drop_tx [OF Cons.prems e]] Some Cons.prems e show ?thesis
      by (simp add: mp_view_drop_tx conj_commute)
  qed
qed

text \<open>
  The walk over the index while entries are deleted: every pair still to come is a pair of
  the current index, and after the walk the pairs seen are there only when they live on.
\<close>

lemma remove_expired_loop_spec:
  assumes "mp_inv m" and "set rest \<subseteq> set (mp_txMap m)" and "distinct (map fst rest)"
  shows "mp_inv (remove_expired_loop h rest m)
    \<and> mp_view (remove_expired_loop h rest m)
        = filter (\<lambda>kt. fst kt \<in> fst ` set rest \<longrightarrow> h < mt_Deadline (snd kt)) (mp_view m)"
  using assms
proof (induction rest arbitrary: m)
  case Nil
  then show ?case by simp
next
  case (Cons ke rest)
  obtain k e where ke: "ke = (k, e)" by (cases ke)
  then have mem: "(k, e) \<in> set (mp_txMap m)" using Cons.prems by simp
  then have "e \<in> fst ` set (mp_deque m)" using Cons.prems(1) by (force simp: mp_inv_def)
  then obtain tx where tx: "(e, tx) \<in> set (mp_deque m)" by auto
  then have look: "map_of (mp_deque m) e = Some tx"
    using Cons.prems(1) by (simp add: mp_inv_def)
  have kview: "(k, tx) \<in> set (mp_view m)"
    using tx mem Cons.prems(1) by (force simp: mp_view_def mp_inv_def key_of_eq)
  have fst_k: "fst kt = k \<longleftrightarrow> kt = (k, tx)" if "kt \<in> set (mp_view m)" for kt
    using distinct_mp_view [OF Cons.prems(1)] kview that
    by (metis eq_key_imp_eq_value fst_conv prod.collapse)
  have k_new: "k \<notin> fst ` set rest" using Cons.prems(3) ke by simp
  show ?case
  proof (cases "mt_Deadline tx \<le> h")
    case False
    have "filter (\<lambda>kt. fst kt \<in> fst ` set rest \<longrightarrow> h < mt_Deadline (snd kt)) (mp_view m)
        = filter (\<lambda>kt. fst kt \<in> fst ` set (ke # rest) \<longrightarrow> h < mt_Deadline (snd kt)) (mp_view m)"
      using False fst_k ke by (intro filter_cong) auto
    with False Cons.IH [of m] Cons.prems ke look show ?thesis by simp
  next
    case True
    have sub: "set rest \<subseteq> set (mp_txMap (drop_tx k e m))"
      using Cons.prems(2) k_new by (force simp: drop_tx_def)
    have "filter (\<lambda>kt. fst kt \<in> fst ` set rest \<longrightarrow> h < mt_Deadline (snd kt))
          (filter (\<lambda>kt. fst kt \<noteq> k) (mp_view m))
        = filter (\<lambda>kt. fst kt \<in> fst ` set (ke # rest) \<longrightarrow> h < mt_Deadline (snd kt)) (mp_view m)"
      unfolding filter_filter using True fst_k ke by (intro filter_cong) auto
    with True Cons.IH [of "drop_tx k e m"] Cons.prems ke look sub mem show ?thesis
      by (simp add: mp_inv_drop_tx mp_view_drop_tx)
  qed
qed

lemma RemoveExpired_spec:
  assumes "mp_inv m"
  shows "mp_inv (RemoveExpiredTransactions h m)"
    and "mp_view (RemoveExpiredTransactions h m) = filter (\<lambda>kt. h < mt_Deadline (snd kt)) (mp_view m)"
proof -
  note spec = remove_expired_loop_spec [OF assms order_refl, of h]
  have dist: "distinct (map fst (mp_txMap m))" using assms by (simp add: mp_inv_def)
  show "mp_inv (RemoveExpiredTransactions h m)"
    using spec dist by (simp add: RemoveExpiredTransactions_def)
  show "mp_view (RemoveExpiredTransactions h m) = filter (\<lambda>kt. h < mt_Deadline (snd kt)) (mp_view m)"
    using spec dist unfolding RemoveExpiredTransactions_def keys_mp_view [OF assms, symmetric]
    by (auto intro!: filter_cong)
qed

lemma pool_insert_spec:
  assumes "mp_inv m"
  shows "mp_inv (snd (pool_insert k tx m))"
    and "mp_view (snd (pool_insert k tx m)) =
      (if mp_full m \<or> k \<in> fst ` set (mp_view m) then mp_view m else mp_view m @ [(k, tx)])"
proof -
  let ?m = "m\<lparr>mp_deque := mp_deque m @ [(mp_next m, tx)], mp_txMap := mp_txMap m @ [(k, mp_next m)],
              mp_next := Suc (mp_next m)\<rparr>"
  have fresh: "mp_next m \<notin> fst ` set (mp_deque m)" "mp_next m \<notin> snd ` set (mp_txMap m)"
    using assms by (auto simp: mp_inv_def)
  have inv': "mp_inv ?m" if "k \<notin> fst ` set (mp_txMap m)"
    using assms that fresh unfolding mp_inv_def by (auto simp: less_Suc_eq)
  have "mp_view ?m = mp_view m @ [(k, tx)]" if "k \<notin> fst ` set (mp_txMap m)"
  proof -
    have dist: "distinct (map snd (mp_txMap ?m))" using inv' [OF that] by (simp add: mp_inv_def)
    have old: "key_of (mp_txMap ?m) (fst x) = key_of (mp_txMap m) (fst x)"
      if "x \<in> set (mp_deque m)" for x
      using key_of_mem [OF assms, of "fst x" "snd x"] that by (intro key_of_eq [OF dist]) simp
    have new: "key_of (mp_txMap ?m) (mp_next m) = k" by (rule key_of_eq [OF dist]) simp
    show ?thesis using old new by (auto simp: mp_view_def)
  qed
  with inv' assms show "mp_inv (snd (pool_insert k tx m))"
    "mp_view (snd (pool_insert k tx m)) =
      (if mp_full m \<or> k \<in> fst ` set (mp_view m) then mp_view m else mp_view m @ [(k, tx)])"
    by (auto simp: pool_insert_def mp_full_def keys_mp_view)
qed

lemma get_batch_loop_take:
  assumes "0 \<le> c"
  shows "get_batch_loop n h es c b =
    b @ take (nat (n - c)) (filter (\<lambda>t. h < mt_Deadline t) (map snd es))"
  using assms
proof (induction es arbitrary: c b)
  case Nil
  then show ?case by simp
next
  case (Cons x es)
  obtain e tx where x: "x = (e, tx)" by (cases x)
  have "nat (n - c) = Suc (nat (n - (c + 1)))" if "c < n" using that by simp
  with Cons x show ?case by (auto simp: not_le)
qed

lemma GetBatch_view:
  "GetBatch n h m = take (nat n) (filter (\<lambda>t. h < mt_Deadline t) (map snd (mp_view m)))"
proof -
  have "map snd (mp_view m) = map snd (mp_deque m)" by (auto simp: mp_view_def)
  then show ?thesis by (simp add: GetBatch_def get_batch_loop_take)
qed

interpretation mempool: tx_pool mp_view mp_inv mp_full mt_Deadline
    "\<lambda>k tx m. snd (pool_insert k tx m)" RemoveBatch RemoveExpiredTransactions GetBatch
  by unfold_locales
    (simp_all add: pool_insert_spec RemoveBatch_spec RemoveExpired_spec distinct_mp_view GetBatch_view)

section \<open>Runs of the mempool\<close>

text \<open>
  The operations the server issues under the mempool's mutex, in any order, and what they
  mean on the list of keyed transactions.
\<close>

datatype mp_op = OpAdd string mempool_tx | OpRemoveBatch "string list" | OpRemoveExpired int64

fun mp_step :: "mp_op \<Rightarrow> mempool \<Rightarrow> mempool" where
  "mp_step (OpAdd k tx) m = snd (pool_insert k tx m)"
| "mp_step (OpRemoveBatch ks) m = RemoveBatch ks m"
| "mp_step (OpRemoveExpired h) m = RemoveExpiredTransactions h m"

fun queue_step :: "int \<Rightarrow> mp_op \<Rightarrow> (string \<times> mempool_tx) list \<Rightarrow> (string \<times> mempool_tx) list" where
  "queue_step limit (OpAdd k tx) q =
     (if limit \<le> int (length q) \<or> k \<in> fst ` set q then q else q @ [(k, tx)])"
| "queue_step limit (OpRemoveBatch ks) q = filter (\<lambda>kt. fst kt \<notin> set ks) q"
| "queue_step limit (OpRemoveExpired h) q = filter (\<lambda>kt. h < mt_Deadline (snd kt)) q"

lemma length_mp_view:
  assumes "mp_inv m"
  shows "length (mp_view m) = length (mp_txMap m)" and "length (mp_deque m) = length (mp_txMap m)"
proof -
  have "length (mp_deque m) = card (fst ` set (mp_deque m))"
    using assms by (metis distinct_card length_map list.set_map mp_inv_def)
  also have "\<dots> = card (snd ` set (mp_txMap m))" using assms by (simp add: mp_inv_def)
  also have "\<dots> = length (mp_txMap m)"
    using assms by (metis distinct_card length_map list.set_map mp_inv_def)
  finally show "length (mp_deque m) = length (mp_txMap m)" .
  then show "length (mp_view m) = length (mp_txMap m)" by (simp add: mp_view_def)
qed

lemma mp_max_step: "mp_max (mp_step op m) = mp_max m"
proof -
  have "mp_max (RemoveBatch ks m) = mp_max m" for ks m
    by (induction ks m rule: RemoveBatch.induct) (auto simp: drop_tx_def split: option.splits)
  moreover have "mp_max (remove_expired_loop h rest m) = mp_max m" for h rest
    by (induction h rest m rule: remove_expired_loop.induct) (auto simp: drop_tx_def split: option.splits)
  ultimately show ?thesis
    by (cases op) (auto simp: pool_insert_def RemoveExpiredTransactions_def)
qed

lemma mp_step_refines:
  assumes "mp_inv m"
  shows "mp_inv (mp_step op m) \<and> mp_view (mp_step op m) = queue_step (mp_max m) op (mp_view m)"
  using assms by (cases op)
    (auto simp: mempool.inv_add mempool.inv_remove mempool.inv_expire mempool.view_add
      mempool.view_remove mempool.view_expire mp_full_def length_mp_view)

lemma mp_run_refines:
  assumes "mp_inv m"
  shows "mp_inv (fold mp_step ops m) \<and> mp_max (fold mp_step ops m) = mp_max m
    \<and> mp_view (fold mp_step ops m) = fold (queue_step (mp_max m)) ops (mp_view m)"
  using assms by (induction ops arbitrary: m) (simp_all add: mp_step_refines mp_max_step)

lemma queue_step_bounded:
  "int (length q) \<le> max 0 limit \<Longrightarrow> int (length (queue_step limit op q)) \<le> max 0 limit"
  by (cases op) (auto intro: order_trans [OF of_nat_mono [OF length_filter_le]])

lemma queue_run_bounded:
  "int (length q) \<le> max 0 limit \<Longrightarrow> int (length (fold (queue_step limit) ops q)) \<le> max 0 limit"
  by (induction ops arbitrary: q) (simp_all add: queue_step_bounded)

text \<open>
  (C5) From an empty mempool, every sequence of insertions, removals of finalized
  transactions and removals of expired ones leaves the list and its index consistent, holding
  exactly the keyed transactions that a bounded first-in first-out queue without duplicate
  keys would hold, in the same order, and never more than the configured maximum.
\<close>

theorem mempool_refines_queue:
  "let m = fold mp_step ops (NewMempool n) in
     mp_inv m \<and> mp_view m = fold (queue_step n) ops [] \<and> distinct (map fst (mp_view m))
     \<and> MempoolSize m = (length (mp_view m), length (mp_view m))
     \<and> int (length (mp_view m)) \<le> max 0 n"
proof -
  let ?m = "fold mp_step ops (NewMempool n)"
  have max: "mp_max (NewMempool n) = n" by (simp add: NewMempool_def)
  have run: "mp_inv ?m" "mp_view ?m = fold (queue_step n) ops []"
    using mp_run_refines [of "NewMempool n" ops] by (simp_all only: max mp_inv_New simp_thms)
  moreover have "int (length (mp_view ?m)) \<le> max 0 n"
    unfolding run by (rule queue_run_bounded) simp
  ultimately show ?thesis
    using mempool.distinct_view [OF run(1)] length_mp_view [OF run(1)]
    by (simp add: MempoolSize_def)
qed

text \<open>
  (C6) The batch a proposer takes from a consistent mempool has at most the requested size,
  holds only transactions whose deadline lies beyond the current block, oldest first, and is
  not changed by first dropping the transactions that have expired by that block.
\<close>

theorem mempool_batch:
  assumes "mp_inv m"
  shows "int (length (GetBatch n h m)) \<le> max 0 n
    \<and> (\<forall>t \<in> set (GetBatch n h m). h < mt_Deadline t \<and> t \<in> snd ` set (mp_view m))
    \<and> (\<exists>rest. filter (\<lambda>t. h < mt_Deadline t) (map snd (mp_view m)) = GetBatch n h m @ rest)
    \<and> GetBatch n h (RemoveExpiredTransactions h m) = GetBatch n h m"
proof (intro conjI)
  show "\<exists>rest. filter (\<lambda>t. h < mt_Deadline t) (map snd (mp_view m)) = GetBatch n h m @ rest"
    unfolding GetBatch_view by (metis append_take_drop_id)
qed (use mempool.batch_bounds [OF assms] mempool.batch_expire [OF assms order_refl] in blast)+

definition demo_mempool_tx :: "int64 \<Rightarrow> mempool_tx" where
  "demo_mempool_tx d = \<lparr>mt_Deadline = d, mt_Tx = None, mt_Txv2 = None\<rparr>"

definition demo_mempool :: mempool where
  "demo_mempool = fold mp_step [OpAdd ''a'' (demo_mempool_tx 5), OpAdd ''b'' (demo_mempool_tx 9)]
     (NewMempool 2)"

theorem mempool_batch_witness:
  "mp_inv demo_mempool \<and> GetBatch 10 6 demo_mempool = [demo_mempool_tx 9]
   \<and> GetBatch 10 6 (RemoveExpiredTransactions 6 demo_mempool) = [demo_mempool_tx 9]"
proof -
  have inv: "mp_inv demo_mempool"
    using mp_run_refines unfolding demo_mempool_def by (metis mp_inv_New(1))
  moreover have "GetBatch 10 6 demo_mempool = [demo_mempool_tx 9]"
    by (simp add: demo_mempool_def pool_insert_def NewMempool_def GetBatch_def demo_mempool_tx_def)
  ultimately show ?thesis using mempool_batch [OF inv, of 10 6] by simp
qed

text \<open>
  (C20) \<^verbatim>\<open>GetAll\<close> does not return the content of the mempool: it panics on an empty one, returns
  nothing when there is one transaction, and with two or more it never leaves its loop.
\<close>

theorem GetAll_behaviour:
  "(mp_deque m = [] \<longrightarrow> GetAll (Suc n) m = Some (Panic ''nil pointer dereference''))
   \<and> (length (mp_deque m) = 1 \<longrightarrow> GetAll (Suc n) m = Some (Ok []))
   \<and> (2 \<le> length (mp_deque m) \<longrightarrow> (\<forall>turns. GetAll turns m = None))"
proof -
  have diverges: "GetAll_loop turns (e # e' # es) b = None" for turns e e' es b
    by (induction turns arbitrary: b) simp_all
  show ?thesis
    by (cases "mp_deque m" rule: remdups_adj.cases) (simp_all add: GetAll_def diverges)
qed

theorem GetAll_behaviour_witness:
  "2 \<le> length (mp_deque demo_mempool) \<and> GetAll 100 demo_mempool = None"
proof -
  have "2 \<le> length (mp_deque demo_mempool)"
    by (simp add: demo_mempool_def pool_insert_def NewMempool_def)
  then show ?thesis using GetAll_behaviour [of demo_mempool 0] by simp
qed

end
