(* ===== verification/Registration.thy ===== *)
theory Registration
  imports Common Core_Db
begin

text \<open>
  Registering and deregistering validators: attestations signed by a rendezvous of the
  current validators (\<^verbatim>\<open>pkg/core/server/attestation.go\<close>, \<^verbatim>\<open>registration.go\<close>), the unattested legacy
  registration (\<^verbatim>\<open>registration_legacy.go\<close>) and deregistration on evidence of misbehaviour. A
  handler takes the committed database, which the validation reads, and runs in the
  transaction of the block.
\<close>

section \<open>Signers of an attestation (attestation.go)\<close>

definition getAttestationBodyBytes :: "ext \<Rightarrow> attestation \<Rightarrow> bytes result" where
  "getAttestationBodyBytes x att =
     (case att_body att of
        Some (AttRegistration r) \<Rightarrow> marshal (x_marshal_registration x) r
      | Some (AttDeregistration r) \<Rightarrow> marshal (x_marshal_deregistration x) r
      | None \<Rightarrow> Err (Errorf ''unhandled attestation''))"

text \<open>
  The signatures are recovered concurrently and collected by index; with several bad ones the
  error reported is the one of the first in order here.
\<close>

fun recoverSigners :: "ext \<Rightarrow> string list \<Rightarrow> bytes \<Rightarrow> string list result" where
  "recoverSigners x [] data = Ok []"
| "recoverSigners x (sig # sigs) data =
     bind_result (wrap_err ''invalid signature provided to attestation tx'' (EthRecover x sig data))
       (\<lambda>(k, address). map_result ((#) address) (recoverSigners x sigs data))"

text \<open>
  Deletes the first occurrence of an address by moving the last element into its place, as the
  loop over \<^verbatim>\<open>filteredAddrs\<close> does.
\<close>

fun index_of :: "'a \<Rightarrow> 'a list \<Rightarrow> nat option" where
  "index_of a [] = None"
| "index_of a (b # bs) = (if b = a then Some 0 else map_option Suc (index_of a bs))"

definition swap_remove :: "'a \<Rightarrow> 'a list \<Rightarrow> 'a list" where
  "swap_remove a as =
     (case index_of a as of None \<Rightarrow> as | Some i \<Rightarrow> butlast (as[i := last as]))"

fun count_signers :: "string list \<Rightarrow> string set \<Rightarrow> int \<Rightarrow> int" where
  "count_signers [] rendezvous needed = needed"
| "count_signers (address # signers) rendezvous needed =
     (if address \<in> rendezvous then count_signers signers (rendezvous - {address}) (needed - 1)
      else count_signers signers rendezvous needed)"

definition attestationHasEnoughSigners ::
    "ext \<Rightarrow> core_db \<Rightarrow> string list \<Rightarrow> bytes \<Rightarrow> int64 \<Rightarrow> int64 \<Rightarrow> string \<Rightarrow> bool result" where
  "attestationHasEnoughSigners x db signers rendezvousKey rendezvousSize signersNeeded excludeAddress =
     bind_result (wrap_err ''failed to get core validators while validating registration''
         (db_rows ''GetAllEthAddressesOfRegisteredNodes'' GetAllEthAddressesOfRegisteredNodes db)) (\<lambda>addrs.
     let filteredAddrs = swap_remove excludeAddress addrs;
         needed = min (int (length filteredAddrs)) signersNeeded;
         rendezvous = GetAttestorRendezvous x filteredAddrs rendezvousKey rendezvousSize
     in Ok (\<not> count_signers signers rendezvous needed > 0))"

section \<open>Validation (registration.go, attestation.go)\<close>

definition maxRegistrationAttestationValidity :: int64 where
  "maxRegistrationAttestationValidity = 24 * 60 * 60"

definition maxDeregistrationAttestationValidity :: int64 where
  "maxDeregistrationAttestationValidity = 24 * 60 * 60"

definition isValidRegisterNodeAttestation ::
    "ext \<Rightarrow> core_config \<Rightarrow> core_db \<Rightarrow> signed_transaction \<Rightarrow> string list \<Rightarrow> int64 \<Rightarrow> unit result" where
  "isValidRegisterNodeAttestation x cfg db tx signers blockHeight =
     (case Option.bind (get_attestation tx) (\<lambda>att. map_option (Pair att) (att_registration att)) of
        None \<Rightarrow> Err (Errorf ''unknown tx fell into isValidRegisterNodeAttestation'')
      | Some (att, vr) \<Rightarrow>
     if st_signature tx = '''' then Err (Errorf ''no signature provided for registration tx'')
     else bind_result (wrap_err ''could not marshal registration tx'' (marshal (x_marshal_attestation x) att)) (\<lambda>attBytes.
     bind_result (wrap_err ''could not recover msg sig'' (EthRecover x (st_signature tx) attBytes)) (\<lambda>(k, address).
     if address \<noteq> vr_delegate_wallet vr then Err (Errorf ''signature address does not match ethereum registration'')
     else if vr_power vr \<noteq> cfg_ValidatorVotingPower cfg then Err (Errorf ''invalid voting power'')
     else if vr_pub_key vr = [] then Err (Errorf ''public Key missing from registration tx'')
     else bind_result (ed25519_address x (vr_pub_key vr)) (\<lambda>pkAddress.
     if pkAddress \<noteq> vr_comet_address vr then Err (Errorf ''address does not match public key'')
     else if db_row ''GetRegisteredNodeByCometAddress'' (GetRegisteredNodeByCometAddress (vr_comet_address vr)) db
             \<noteq> Err (DbErr ErrNoRows)
       then Err (Errorf ''address is already registered on comet'')
     else if vr_deadline vr < blockHeight
             \<or> vr_deadline vr > wrap64 (blockHeight + maxRegistrationAttestationValidity)
       then Err (Errorf ''registration request is too new/old'')
     else bind_result (wrap_err ''error checking attestors against validators''
         (attestationHasEnoughSigners x db signers (put_uint64_be (uwrap64 (vr_eth_block vr)))
            (cfg_AttRegistrationRSize cfg) (cfg_AttRegistrationMin cfg) '''')) (\<lambda>enough.
     if \<not> enough then Err (Errorf ''not enough attestations provided to register validator'')
     else Ok ())))))"

definition ed25519_PubKeySize :: nat where
  "ed25519_PubKeySize = 32"

definition isValidDeregisterNodeAttestation ::
    "ext \<Rightarrow> core_config \<Rightarrow> core_db \<Rightarrow> signed_transaction \<Rightarrow> string list \<Rightarrow> int64 \<Rightarrow> unit result" where
  "isValidDeregisterNodeAttestation x cfg db tx signers blockHeight =
     (case Option.bind (get_attestation tx) att_deregistration of
        None \<Rightarrow> Err (Errorf ''unknown attestation fell into isValidDeregisterNodeAttestation'')
      | Some dereg \<Rightarrow>
     let addr = vd_comet_address dereg in
     if vd_pub_key dereg = [] then Err (Errorf ''public Key missing from deregistration attestation'')
     else if length (vd_pub_key dereg) \<noteq> ed25519_PubKeySize then Err (Errorf ''incorrect pubkey size'')
     else bind_result (ed25519_address x (vd_pub_key dereg)) (\<lambda>pkAddress.
     if pkAddress \<noteq> addr then Err (Errorf ''address does not match public key'')
     else if vd_deadline dereg < blockHeight
             \<or> vd_deadline dereg > wrap64 (blockHeight + maxDeregistrationAttestationValidity)
       then Err (Errorf ''registration request is too new/old'')
     else bind_result (wrap_err ''error getting eth address from node deregistration attestation''
         (db_row ''GetRegisteredNodeByCometAddress'' (GetRegisteredNodeByCometAddress addr) db)) (\<lambda>node.
     bind_result (wrap_err ''error checking attestors against validators''
         (attestationHasEnoughSigners x db signers (vd_pub_key dereg)
            (cfg_AttDeregistrationRSize cfg) (cfg_AttDeregistrationMin cfg) (v_eth_address node))) (\<lambda>enough.
     if \<not> enough then Err (Errorf ''not enough attestations provided to deregister validator'')
     else Ok ()))))"

definition isValidAttestation ::
    "ext \<Rightarrow> core_config \<Rightarrow> core_db \<Rightarrow> signed_transaction \<Rightarrow> int64 \<Rightarrow> unit result" where
  "isValidAttestation x cfg db tx blockHeight =
     (case get_attestation tx of
        None \<Rightarrow> Err (Errorf ''empty attestation tx'')
      | Some att \<Rightarrow>
     bind_result (wrap_err ''could not marshal attestation body into bytes'' (getAttestationBodyBytes x att)) (\<lambda>bodyBytes.
     bind_result (wrap_err ''could not recover signers'' (recoverSigners x (att_signatures att) bodyBytes)) (\<lambda>signerAddrs.
     case att_body att of
       Some (AttRegistration _) \<Rightarrow> isValidRegisterNodeAttestation x cfg db tx signerAddrs blockHeight
     | Some (AttDeregistration _) \<Rightarrow> isValidDeregisterNodeAttestation x cfg db tx signerAddrs blockHeight
     | None \<Rightarrow> Err (Errorf ''unhandled attestation''))))"

text \<open>The evidence of misbehaviour is the list of the validators' addresses.\<close>

fun misbehavior_matches :: "ext \<Rightarrow> bytes list \<Rightarrow> string \<Rightarrow> bool" where
  "misbehavior_matches x [] addr = False"
| "misbehavior_matches x (mb # mbs) addr = (addr = x_address_string x mb \<or> misbehavior_matches x mbs addr)"

definition isValidDeregisterMisbehavingNodeTx ::
    "ext \<Rightarrow> core_db \<Rightarrow> signed_transaction \<Rightarrow> bytes list \<Rightarrow> unit result" where
  "isValidDeregisterMisbehavingNodeTx x db tx misbehavior =
     (if st_signature tx = '''' then Err (Errorf ''no signature provided for deregistration tx'')
      else case get_misbehavior_deregistration tx of
        None \<Rightarrow> Err (Errorf ''unknown tx fell into isValidDeregisterMisbehavingNodeTx'')
      | Some vd \<Rightarrow>
     let addr = vmd_comet_address vd in
     bind_result (wrap_err ''not able to find registered node''
         (db_row ''GetRegisteredNodeByCometAddress'' (GetRegisteredNodeByCometAddress addr) db)) (\<lambda>_.
     if vmd_pub_key vd = [] then Err (Errorf ''public Key missing from deregistration tx'')
     else bind_result (ed25519_address x (vmd_pub_key vd)) (\<lambda>pkAddress.
     if pkAddress \<noteq> addr then Err (Errorf ''address does not match public key'')
     else if misbehavior_matches x misbehavior addr then Ok ()
     else Err (Errorf ''no misbehavior found matching deregistration tx''))))"

section \<open>Finalization\<close>

text \<open>
  The branch both registrations share: the node is inserted only when the block's
  transaction sees no node with that wallet; any other outcome of the query is ignored.
\<close>

definition insert_node_if_absent :: "string \<Rightarrow> validator_row \<Rightarrow> unit stmt" where
  "insert_node_if_absent wallet node =
     stmt_try (row_stmt ''GetRegisteredNodeByEthAddress'' (GetRegisteredNodeByEthAddress wallet)) (\<lambda>r.
     case r of
       Err e \<Rightarrow> if is_no_rows e then stmt_wrap ''error inserting registered node'' (InsertRegisteredNode node)
                else stmt_return ()
     | Panic p \<Rightarrow> stmt_lift (Panic p)
     | Ok _ \<Rightarrow> stmt_return ())"

text \<open>The getters of a nil message return zero values.\<close>

definition zero_registration :: validator_registration where
  "zero_registration = \<lparr>vr_delegate_wallet = '''', vr_endpoint = '''', vr_node_type = '''', vr_sp_id = '''',
     vr_eth_block = 0, vr_comet_address = '''', vr_pub_key = [], vr_power = 0, vr_deadline = 0\<rparr>"

definition zero_legacy_registration :: validator_registration_legacy where
  "zero_legacy_registration = \<lparr>vrl_endpoint = '''', vrl_comet_address = '''', vrl_eth_block = '''',
     vrl_node_type = '''', vrl_sp_id = '''', vrl_pub_key = [], vrl_power = 0\<rparr>"

definition finalizeRegisterNodeAttestation :: "ext \<Rightarrow> signed_transaction \<Rightarrow> unit stmt" where
  "finalizeRegisterNodeAttestation x tx =
     (let vr = (case Option.bind (get_attestation tx) att_registration of
                  None \<Rightarrow> zero_registration | Some vr \<Rightarrow> vr) in
     stmt_bind (stmt_lift (bind_result (wrap_err ''could not unmarshal tx bytes'' (marshal (x_marshal_signed x) tx)) (\<lambda>txBytes.
       wrap_err ''could not recover signer'' (EthRecover x (st_signature tx) txBytes)))) (\<lambda>(pubKey, a).
     insert_node_if_absent (vr_delegate_wallet vr)
       \<lparr>v_pub_key = SerializePublicKeyHex x pubKey, v_endpoint = vr_endpoint vr,
        v_eth_address = vr_delegate_wallet vr, v_comet_address = vr_comet_address vr,
        v_comet_pub_key = b64_encode (vr_pub_key vr), v_eth_block = format_int (vr_eth_block vr),
        v_node_type = vr_node_type vr, v_sp_id = vr_sp_id vr\<rparr>))"

definition finalizeDeregisterValidatorAttestation :: "signed_transaction \<Rightarrow> unit stmt" where
  "finalizeDeregisterValidatorAttestation tx =
     (case Option.bind (get_attestation tx) att_deregistration of
        None \<Rightarrow> stmt_lift (Err (Errorf ''unknown attestation fell into isValidDeregisterNodeAttestation''))
      | Some dereg \<Rightarrow> stmt_wrap ''error deleting registered node'' (DeleteRegisteredNode (vd_comet_address dereg)))"

definition finalizeAttestation ::
    "ext \<Rightarrow> core_config \<Rightarrow> core_db \<Rightarrow> signed_transaction \<Rightarrow> int64 \<Rightarrow> unit stmt" where
  "finalizeAttestation x cfg db tx blockHeight =
     stmt_bind (stmt_lift (wrap_err ''invalid attestation during finalize step''
         (isValidAttestation x cfg db tx blockHeight))) (\<lambda>_.
     case Option.bind (get_attestation tx) att_body of
       Some (AttRegistration _) \<Rightarrow> finalizeRegisterNodeAttestation x tx
     | Some (AttDeregistration _) \<Rightarrow> finalizeDeregisterValidatorAttestation tx
     | None \<Rightarrow> stmt_lift (Err (Errorf ''unhandled attestation'')))"

definition finalizeDeregisterMisbehavingNode ::
    "ext \<Rightarrow> core_db \<Rightarrow> signed_transaction \<Rightarrow> bytes list \<Rightarrow> unit stmt" where
  "finalizeDeregisterMisbehavingNode x db tx misbehavior =
     stmt_bind (stmt_lift (wrap_err ''invalid deregister node tx''
         (isValidDeregisterMisbehavingNodeTx x db tx misbehavior))) (\<lambda>_.
     stmt_wrap ''error deleting registered node''
       (DeleteRegisteredNode (case get_misbehavior_deregistration tx of None \<Rightarrow> '''' | Some vd \<Rightarrow> vmd_comet_address vd)))"

definition finalizeLegacyRegisterNode :: "ext \<Rightarrow> signed_transaction \<Rightarrow> unit stmt" where
  "finalizeLegacyRegisterNode x tx =
     (let vr = (case get_legacy_registration tx of None \<Rightarrow> zero_legacy_registration | Some vr \<Rightarrow> vr) in
     stmt_bind (stmt_lift (bind_result (wrap_err ''could not unmarshal tx bytes'' (marshal (x_marshal_legacy_registration x) vr)) (\<lambda>txBytes.
       wrap_err ''could not recover signer'' (EthRecover x (st_signature tx) txBytes)))) (\<lambda>(pubKey, address).
     insert_node_if_absent address
       \<lparr>v_pub_key = SerializePublicKeyHex x pubKey, v_endpoint = vrl_endpoint vr, v_eth_address = address,
        v_comet_address = vrl_comet_address vr, v_comet_pub_key = b64_encode (vrl_pub_key vr),
        v_eth_block = vrl_eth_block vr, v_node_type = vrl_node_type vr, v_sp_id = vrl_sp_id vr\<rparr>))"

text \<open>The request id of the transaction is a random uuid.\<close>

definition createDeregisterTransaction :: "ext \<Rightarrow> core_config \<Rightarrow> core_db \<Rightarrow> string \<Rightarrow> bytes \<Rightarrow> bytes result" where
  "createDeregisterTransaction x cfg db uuid address =
     bind_result (wrap_err ''not able to find registered node'' (db_row ''GetRegisteredNodeByCometAddress''
         (GetRegisteredNodeByCometAddress (x_address_string x address)) db)) (\<lambda>node.
     bind_result (wrap_err ''could not decode public key'' (b64_decode (v_comet_pub_key node))) (\<lambda>pubkeyEnc.
     let deregistrationTx = \<lparr>vmd_comet_address = x_address_string x address, vmd_pub_key = pubkeyEnc\<rparr> in
     bind_result (wrap_err ''failure to marshal deregister tx''
         (marshal (x_marshal_misbehavior x) deregistrationTx)) (\<lambda>txBytes.
     bind_result (wrap_err ''could not sign deregister tx'' (EthSign x (cfg_EthereumKey cfg) txBytes)) (\<lambda>sig.
     marshal (x_marshal_signed x)
       \<lparr>st_signature = sig, st_request_id = uuid,
        st_transaction = Some (TxMisbehaviorDeregistration deregistrationTx)\<rparr>))))"

definition appendDeregistrationToValidatorHistory ::
    "core_db \<Rightarrow> validator_deregistration \<Rightarrow> int \<Rightarrow> int64 \<Rightarrow> unit stmt" where
  "appendDeregistrationToValidatorHistory db dereg time block =
     stmt_bind (stmt_lift (bind_result (wrap_err ''could not get metadata for node being deregistered''
         (db_row ''GetRegisteredNodeByCometAddress'' (GetRegisteredNodeByCometAddress (vd_comet_address dereg)) db))
       (\<lambda>validator. map_result (Pair validator) (parse_int 64 (v_sp_id validator))))) (\<lambda>(validator, spId).
     AppendValidatorHistory
       \<lparr>vh_endpoint = v_endpoint validator, vh_eth_address = v_eth_address validator,
        vh_comet_address = vd_comet_address dereg, vh_sp_id = spId,
        vh_service_type = v_node_type validator, vh_event_type = EventDeregistered,
        vh_event_time = time, vh_event_block = block\<rparr>)"

definition appendRegistrationToValidatorHistory ::
    "validator_registration \<Rightarrow> int \<Rightarrow> int64 \<Rightarrow> unit stmt" where
  "appendRegistrationToValidatorHistory reg time block =
     stmt_bind (stmt_lift (parse_int 64 (vr_sp_id reg))) (\<lambda>spId.
     AppendValidatorHistory
       \<lparr>vh_endpoint = vr_endpoint reg, vh_eth_address = vr_delegate_wallet reg,
        vh_comet_address = vr_comet_address reg, vh_sp_id = spId,
        vh_service_type = vr_node_type reg, vh_event_type = EventRegistered,
        vh_event_time = time, vh_event_block = block\<rparr>)"

section \<open>Quorum of signers\<close>

lemma recoverSigners_length: "recoverSigners x sigs data = Ok addrs \<Longrightarrow> length addrs = length sigs"
  by (induction sigs arbitrary: addrs) (auto simp: go_simps)

lemma recoverSigners_no_panic: "recoverSigners x sigs data \<noteq> Panic p"
proof (induction sigs)
  case (Cons sig sigs)
  then have "map_result f (recoverSigners x sigs data) \<noteq> Panic p" for f :: "string list \<Rightarrow> string list"
    by (cases "recoverSigners x sigs data") auto
  then show ?case by (auto simp: go_simps EthRecover_no_panic)
qed simp

lemma index_of_Some:
  "index_of a as = Some i \<Longrightarrow> i < length as \<and> as ! i = a"
  by (induction as arbitrary: i) (auto split: if_splits)

lemma index_of_None: "index_of a as = None \<longleftrightarrow> a \<notin> set as"
  by (induction as) auto

lemma mset_swap_remove: "mset (swap_remove a as) = mset as - {#a#}"
proof (cases "index_of a as")
  case None
  moreover have "a \<notin> set as" using None by (simp add: index_of_None)
  ultimately show ?thesis by (simp add: swap_remove_def)
next
  case (Some i)
  then have i: "i < length as" "as ! i = a" by (simp_all add: index_of_Some)
  obtain bs b where as: "as = bs @ [b]" using i(1) by (cases as rule: rev_cases) auto
  show ?thesis
  proof (cases "i = length bs")
    case True
    with as i Some show ?thesis by (simp add: swap_remove_def)
  next
    case False
    with as i have ib: "i < length bs" "bs ! i = a" by (simp_all add: nth_append)
    then have "mset (bs[i := b]) = mset bs - {#a#} + {#b#}" by (simp add: mset_update)
    moreover have "a \<in># mset bs" using ib by (metis nth_mem set_mset_mset)
    ultimately show ?thesis using as ib Some by (simp add: swap_remove_def list_update_append)
  qed
qed

lemma length_swap_remove:
  "length (swap_remove a as) = (if a \<in> set as then length as - 1 else length as)"
proof -
  have "length (swap_remove a as) = size (mset as - {#a#})"
    by (metis mset_swap_remove size_mset)
  then show ?thesis by (simp add: size_Diff_singleton_if)
qed

lemma count_signers_card:
  "finite R \<Longrightarrow> count_signers signers R needed = needed - int (card (set signers \<inter> R))"
proof (induction signers arbitrary: R needed)
  case Nil
  then show ?case by simp
next
  case (Cons a signers)
  show ?case
  proof (cases "a \<in> R")
    case True
    have eq: "set (a # signers) \<inter> R = insert a (set signers \<inter> (R - {a}))" using True by auto
    have "card (insert a (set signers \<inter> (R - {a}))) = Suc (card (set signers \<inter> (R - {a})))"
      by (rule card_insert_disjoint) auto
    with Cons True show ?thesis unfolding eq by simp
  next
    case False
    with Cons show ?thesis by simp
  qed
qed

lemma finite_rendezvous [simp]: "finite (GetAttestorRendezvous x addrs key sz)"
  by (simp add: rendezvous_ranked)

lemma rendezvous_swap_remove:
  "GetAttestorRendezvous x (swap_remove a addrs) key sz = GetAttestorRendezvous x (remove1 a addrs) key sz"
  unfolding rendezvous_ranked
  by (subst ranked_mset_cong [of "swap_remove a addrs" "remove1 a addrs"]) (simp_all add: mset_swap_remove)

text \<open>
  (C9) The signers of an attestation are enough exactly when the number of different
  addresses among them that the rendezvous selects from the registered validators, without
  the excluded one, reaches the configured minimum, or the number of validators left when
  there are fewer. Repeating a signature never helps.
\<close>

theorem attestation_quorum:
  assumes "\<not> db_fault db ''GetAllEthAddressesOfRegisteredNodes''"
  shows "attestationHasEnoughSigners x db signers key sz needed excluded =
    Ok (let addrs = remove1 excluded (map v_eth_address (core_validators db));
            chosen = GetAttestorRendezvous x addrs key sz
        in min (int (length addrs)) needed \<le> int (card (set signers \<inter> chosen)))"
proof -
  have len: "length (swap_remove excluded as) = length (remove1 excluded as)" for as :: "string list"
    by (simp add: length_swap_remove length_remove1)
  show ?thesis
    by (simp add: attestationHasEnoughSigners_def db_rows_def assms Let_def count_signers_card
        rendezvous_swap_remove len GetAllEthAddressesOfRegisteredNodes_def not_less)
qed

definition demo_node :: "string \<Rightarrow> string \<Rightarrow> validator_row" where
  "demo_node wallet comet = \<lparr>v_pub_key = '''', v_endpoint = '''', v_eth_address = wallet,
     v_comet_address = comet, v_comet_pub_key = '''', v_eth_block = '''', v_node_type = '''', v_sp_id = ''1''\<rparr>"

definition demo_validators :: core_db where
  "demo_validators = empty_db\<lparr>core_validators := [demo_node ''0xa'' ''C1'', demo_node ''0xb'' ''C2'']\<rparr>"

theorem attestation_quorum_witness:
  "attestationHasEnoughSigners demo_ext demo_validators [''0xa'', ''0xa''] [1] 2 2 '''' = Ok False
   \<and> attestationHasEnoughSigners demo_ext demo_validators [''0xb'', ''0xa''] [1] 2 2 '''' = Ok True"
proof -
  have ok: "\<not> db_fault demo_validators ''GetAllEthAddressesOfRegisteredNodes''"
    by (simp add: demo_validators_def empty_db_def)
  have nodes: "map v_eth_address (core_validators demo_validators) = [''0xa'', ''0xb'']"
    by (simp add: demo_validators_def demo_node_def)
  have "GetAttestorRendezvous demo_ext [''0xa'', ''0xb''] [1] 2 = {''0xa'', ''0xb''}"
    unfolding rendezvous_ranked using set_ranked [of demo_ext "[1]" "[''0xa'', ''0xb'']"] by simp
  then show ?thesis by (simp add: attestation_quorum [OF ok] nodes Let_def)
qed

section \<open>Registrations\<close>

lemma ok_no_rows_iff: "db_row n q db = Err (DbErr ErrNoRows) \<longleftrightarrow> \<not> db_fault db n \<and> q db = None"
  by (auto simp: db_row_def split: option.splits)

text \<open>What a registration attestation has to satisfy to be accepted at a height.\<close>

definition registration_acceptable ::
    "ext \<Rightarrow> core_config \<Rightarrow> core_db \<Rightarrow> signed_transaction \<Rightarrow> string list \<Rightarrow> int64 \<Rightarrow> bool" where
  "registration_acceptable x cfg db tx signers height \<longleftrightarrow>
     (\<exists>att vr attBytes k.
        get_attestation tx = Some att \<and> att_registration att = Some vr \<and> st_signature tx \<noteq> ''''
      \<and> x_marshal_attestation x att = Some attBytes
      \<and> EthRecover x (st_signature tx) attBytes = Ok (k, vr_delegate_wallet vr)
      \<and> vr_power vr = cfg_ValidatorVotingPower cfg
      \<and> vr_pub_key vr \<noteq> [] \<and> x_ed25519_address x (vr_pub_key vr) = Some (vr_comet_address vr)
      \<and> \<not> db_fault db ''GetRegisteredNodeByCometAddress''
      \<and> (\<forall>r \<in> set (core_validators db). v_comet_address r \<noteq> vr_comet_address vr)
      \<and> height \<le> vr_deadline vr \<and> vr_deadline vr \<le> wrap64 (height + 86400)
      \<and> attestationHasEnoughSigners x db signers (put_uint64_be (uwrap64 (vr_eth_block vr)))
            (cfg_AttRegistrationRSize cfg) (cfg_AttRegistrationMin cfg) '''' = Ok True)"

lemma register_attestation_iff:
  "isValidRegisterNodeAttestation x cfg db tx signers height = Ok ()
     \<longleftrightarrow> registration_acceptable x cfg db tx signers height"
proof (cases "\<exists>att vr. get_attestation tx = Some att \<and> att_registration att = Some vr")
  case False
  then have "isValidRegisterNodeAttestation x cfg db tx signers height \<noteq> Ok ()"
    by (auto simp: isValidRegisterNodeAttestation_def split: option.splits bind_splits)
  with False show ?thesis by (auto simp: registration_acceptable_def)
next
  case True
  then obtain att vr where att: "get_attestation tx = Some att" "att_registration att = Some vr" by blast
  show ?thesis
    unfolding isValidRegisterNodeAttestation_def registration_acceptable_def
    by (auto simp: att go_simps ok_no_rows_iff maxRegistrationAttestationValidity_def
        GetRegisteredNodeByCometAddress_def find_row_None_iff split: if_splits)
qed

text \<open>No two registered nodes share an Ethereum wallet; the table has no constraint for it.\<close>

definition wallets_unique :: "core_db \<Rightarrow> bool" where
  "wallets_unique db \<longleftrightarrow> distinct (map v_eth_address (core_validators db))"

lemma keeps_wallets_insert_if_absent:
  assumes "v_eth_address node = wallet"
  shows "keeps wallets_unique (insert_node_if_absent wallet node)"
  unfolding keeps_def
proof (intro allI impI)
  fix tx :: pgtx
  assume inv: "wallets_unique (tx_db tx)"
  show "wallets_unique (tx_db (snd (insert_node_if_absent wallet node tx)))"
  proof (cases "tx_aborted tx \<or> db_fault (tx_db tx) ''GetRegisteredNodeByEthAddress''")
    case True
    with inv show ?thesis
      by (auto simp: insert_node_if_absent_def row_stmt_def stmt_bind_def rows_stmt_def go_simps is_no_rows_def)
  next
    case False
    then show ?thesis
    proof (cases "GetRegisteredNodeByEthAddress wallet (tx_db tx)")
      case None
      then have "wallet \<notin> v_eth_address ` set (core_validators (tx_db tx))"
        by (auto simp: GetRegisteredNodeByEthAddress_def find_row_None_iff)
      with None False inv assms show ?thesis
        by (auto simp: insert_node_if_absent_def row_stmt_def stmt_bind_def rows_stmt_def go_simps
            is_no_rows_def InsertRegisteredNode_def exec_stmt_def wallets_unique_def)
    next
      case (Some r)
      with False inv show ?thesis
        by (auto simp: insert_node_if_absent_def row_stmt_def stmt_bind_def rows_stmt_def go_simps)
    qed
  qed
qed

lemma wallets_unique_delete: "wallets_unique db \<Longrightarrow>
   wallets_unique (db\<lparr>core_validators := filter p (core_validators db)\<rparr>)"
  by (simp add: wallets_unique_def distinct_map_filter)

lemma keeps_wallets_handlers [keeps_intros]:
  "keeps wallets_unique (finalizeAttestation x cfg db tx h)"
  "keeps wallets_unique (finalizeLegacyRegisterNode x tx)"
  "keeps wallets_unique (finalizeDeregisterMisbehavingNode x db tx mbs)"
proof -
  have del: "keeps wallets_unique (DeleteRegisteredNode a)" for a
    unfolding DeleteRegisteredNode_def by (intro keeps_intros) (auto simp: wallets_unique_delete)
  have reg: "keeps wallets_unique (finalizeRegisterNodeAttestation x tx)"
    unfolding finalizeRegisterNodeAttestation_def Let_def
    by (intro keeps_intros) (auto split: prod.splits intro!: keeps_wallets_insert_if_absent)
  have dereg: "keeps wallets_unique (finalizeDeregisterValidatorAttestation tx)"
    unfolding finalizeDeregisterValidatorAttestation_def
    by (auto split: option.splits intro!: keeps_intros del)
  show "keeps wallets_unique (finalizeAttestation x cfg db tx h)"
    unfolding finalizeAttestation_def using reg dereg
    by (auto split: option.splits attestation_body.splits intro!: keeps_intros)
  show "keeps wallets_unique (finalizeLegacyRegisterNode x tx)"
    unfolding finalizeLegacyRegisterNode_def Let_def
    by (intro keeps_intros) (auto split: prod.splits intro!: keeps_wallets_insert_if_absent)
  show "keeps wallets_unique (finalizeDeregisterMisbehavingNode x db tx mbs)"
    unfolding finalizeDeregisterMisbehavingNode_def by (intro keeps_intros del)
qed

lemma abort_insert_node [abort_intros]: "respects_abort (insert_node_if_absent wallet node)"
  unfolding insert_node_if_absent_def InsertRegisteredNode_def
  by (intro abort_intros) (auto split: result.splits intro!: abort_intros)

lemma abort_registration_handlers [abort_intros]:
  "respects_abort (finalizeAttestation x cfg db tx h)"
  "respects_abort (finalizeLegacyRegisterNode x tx)"
  "respects_abort (finalizeDeregisterMisbehavingNode x db tx mbs)"
  "respects_abort (appendRegistrationToValidatorHistory reg t h)"
  "respects_abort (appendDeregistrationToValidatorHistory db dereg t h)"
  unfolding finalizeAttestation_def finalizeLegacyRegisterNode_def finalizeDeregisterMisbehavingNode_def
    finalizeRegisterNodeAttestation_def finalizeDeregisterValidatorAttestation_def Let_def
    appendRegistrationToValidatorHistory_def appendDeregistrationToValidatorHistory_def
    DeleteRegisteredNode_def AppendValidatorHistory_def
  by (auto split: prod.splits option.splits attestation_body.splits intro!: abort_intros)

text \<open>
  Finalizing an accepted registration attestation in an open transaction that has no node
  with the same wallet appends exactly one row, with the registered wallet, endpoint and
  CometBFT address and the key that decodes to the registered public key; when the wallet is
  there already nothing changes.
\<close>

theorem finalize_registration_effect:
  assumes valid: "isValidAttestation x cfg db tx height = Ok ()"
    and att: "get_attestation tx = Some att" "att_body att = Some (AttRegistration vr)"
    and bytes: "x_marshal_signed x tx = Some txBytes" "EthRecover x (st_signature tx) txBytes = Ok (pub, a)"
    and live: "\<not> tx_aborted ptx" "\<not> db_fault (tx_db ptx) ''GetRegisteredNodeByEthAddress''"
      "\<not> db_fault (tx_db ptx) ''InsertRegisteredNode''"
  shows "\<exists>node. finalizeAttestation x cfg db tx height ptx =
      (Ok (), if vr_delegate_wallet vr \<in> v_eth_address ` set (core_validators (tx_db ptx)) then ptx
              else ptx\<lparr>tx_db := (tx_db ptx)\<lparr>core_validators := core_validators (tx_db ptx) @ [node]\<rparr>\<rparr>)
    \<and> v_eth_address node = vr_delegate_wallet vr \<and> v_comet_address node = vr_comet_address vr
    \<and> v_endpoint node = vr_endpoint vr \<and> b64_decode (v_comet_pub_key node) = Ok (vr_pub_key vr)"
proof -
  let ?node = "\<lparr>v_pub_key = SerializePublicKeyHex x pub, v_endpoint = vr_endpoint vr,
        v_eth_address = vr_delegate_wallet vr, v_comet_address = vr_comet_address vr,
        v_comet_pub_key = b64_encode (vr_pub_key vr), v_eth_block = format_int (vr_eth_block vr),
        v_node_type = vr_node_type vr, v_sp_id = vr_sp_id vr\<rparr>"
  have reg: "att_registration att = Some vr" using att by (simp add: att_registration_def)
  have "finalizeAttestation x cfg db tx height ptx = insert_node_if_absent (vr_delegate_wallet vr) ?node ptx"
    using valid att reg bytes
    by (simp add: finalizeAttestation_def finalizeRegisterNodeAttestation_def stmt_bind_def stmt_lift_def
        marshal_def Let_def)
  also have "\<dots> = (Ok (), if vr_delegate_wallet vr \<in> v_eth_address ` set (core_validators (tx_db ptx)) then ptx
              else ptx\<lparr>tx_db := (tx_db ptx)\<lparr>core_validators := core_validators (tx_db ptx) @ [?node]\<rparr>\<rparr>)"
  proof (cases "GetRegisteredNodeByEthAddress (vr_delegate_wallet vr) (tx_db ptx)")
    case None
    then have "vr_delegate_wallet vr \<notin> v_eth_address ` set (core_validators (tx_db ptx))"
      by (auto simp: GetRegisteredNodeByEthAddress_def find_row_None_iff)
    with None live show ?thesis
      by (simp add: insert_node_if_absent_def row_stmt_def stmt_bind_def rows_stmt_def go_simps
            is_no_rows_def InsertRegisteredNode_def exec_stmt_def)
  next
    case (Some r)
    then have "vr_delegate_wallet vr \<in> v_eth_address ` set (core_validators (tx_db ptx))"
      by (force simp: GetRegisteredNodeByEthAddress_def dest: find_row_SomeD)
    with Some live show ?thesis
      by (simp add: insert_node_if_absent_def row_stmt_def stmt_bind_def rows_stmt_def go_simps)
  qed
  finally show ?thesis by (intro exI [of _ ?node]) simp
qed

definition demo_registration :: validator_registration where
  "demo_registration = \<lparr>vr_delegate_wallet = ''abc'', vr_endpoint = ''https://n'', vr_node_type = ''validator'',
     vr_sp_id = ''7'', vr_eth_block = 1, vr_comet_address = ''0000'', vr_pub_key = replicate 32 0,
     vr_power = 10, vr_deadline = 50\<rparr>"

definition demo_registration_tx :: signed_transaction where
  "demo_registration_tx = \<lparr>st_signature = ''616263'', st_request_id = '''',
     st_transaction = Some (TxAttestation \<lparr>att_signatures = [], att_body = Some (AttRegistration demo_registration)\<rparr>)\<rparr>"

lemma demo_registration_valid:
  "isValidAttestation demo_ext demo_config empty_db demo_registration_tx 10 = Ok ()"
proof -
  have pub: "EthRecover demo_ext ''616263'' [] = Ok (bytes_of ''abc'', ''abc'')"
    by code_simp
  have key: "x_ed25519_address demo_ext (replicate 32 0) = Some ''0000''" by code_simp
  have "attestationHasEnoughSigners demo_ext empty_db [] k 2 1 '''' = Ok True" for k
    by (simp add: attestationHasEnoughSigners_def db_rows_def empty_db_def
        GetAllEthAddressesOfRegisteredNodes_def swap_remove_def)
  then have "registration_acceptable demo_ext demo_config empty_db demo_registration_tx [] 10"
    using pub key unfolding registration_acceptable_def
    by (simp add: demo_registration_tx_def demo_registration_def getter_defs demo_config_def
        empty_db_def wrap64_def) (simp add: demo_ext_def)
  then have "isValidRegisterNodeAttestation demo_ext demo_config empty_db demo_registration_tx [] 10 = Ok ()"
    by (simp add: register_attestation_iff)
  then show ?thesis
    by (simp add: isValidAttestation_def demo_registration_tx_def getter_defs getAttestationBodyBytes_def
        marshal_def demo_ext_def)
qed

text \<open>
  A registration attestation is accepted exactly when the transaction is signed by the
  wallet it registers, asks for the configured voting power, carries the ed25519 key of
  the address it claims, that address is not registered yet, its deadline lies within a day of
  blocks from now, and enough of the selected validators have signed its body.
\<close>

theorem register_attestation_accepts_iff:
  assumes "get_attestation tx = Some att" and "att_body att = Some (AttRegistration vr)"
  shows "isValidAttestation x cfg db tx height = Ok () \<longleftrightarrow>
    (\<exists>body signers. x_marshal_registration x vr = Some body
       \<and> recoverSigners x (att_signatures att) body = Ok signers
       \<and> registration_acceptable x cfg db tx signers height)"
  using assms by (simp add: isValidAttestation_def getAttestationBodyBytes_def go_simps
      register_attestation_iff)

theorem register_attestation_accepts_iff_witness:
  "\<exists>body signers. x_marshal_registration demo_ext demo_registration = Some body
     \<and> registration_acceptable demo_ext demo_config empty_db demo_registration_tx signers 10"
  using demo_registration_valid
    register_attestation_accepts_iff [of demo_registration_tx _ demo_registration demo_ext demo_config empty_db 10]
  by (fastforce simp: demo_registration_tx_def getter_defs)

theorem finalize_registration_effect_witness:
  "\<exists>node. finalizeAttestation demo_ext demo_config empty_db demo_registration_tx 10 (begin_tx empty_db) =
      (Ok (), begin_tx (empty_db\<lparr>core_validators := [node]\<rparr>)) \<and> v_eth_address node = ''abc''"
proof -
  have "EthRecover demo_ext ''616263'' [] = Ok (bytes_of ''abc'', ''abc'')" by code_simp
  moreover have "x_marshal_signed demo_ext demo_registration_tx = Some []" by (simp add: demo_ext_def)
  ultimately show ?thesis
    using finalize_registration_effect [OF demo_registration_valid, of _ demo_registration "[]" _ _ "begin_tx empty_db"]
    by (fastforce simp: demo_registration_tx_def getter_defs begin_tx_def empty_db_def demo_registration_def)
qed

section \<open>Unchecked paths\<close>

text \<open>
  The legacy registration is finalized for any signature an Ethereum key can be recovered
  from: whatever voting power, CometBFT address and endpoint it names, and with no attestation
  by any validator, the recovered wallet becomes a registered node when it was not one.
\<close>

theorem legacy_registration_unattested:
  assumes "st_transaction tx = Some (TxLegacyRegistration vr)"
    and "x_marshal_legacy_registration x vr = Some body" and "EthRecover x (st_signature tx) body = Ok (pub, wallet)"
    and "\<not> tx_aborted ptx" and "\<not> db_fault (tx_db ptx) ''GetRegisteredNodeByEthAddress''"
    and "\<not> db_fault (tx_db ptx) ''InsertRegisteredNode''"
    and "wallet \<notin> v_eth_address ` set (core_validators (tx_db ptx))"
  shows "\<exists>node. finalizeLegacyRegisterNode x tx ptx =
      (Ok (), ptx\<lparr>tx_db := (tx_db ptx)\<lparr>core_validators := core_validators (tx_db ptx) @ [node]\<rparr>\<rparr>)
    \<and> v_eth_address node = wallet \<and> v_comet_address node = vrl_comet_address vr
    \<and> v_endpoint node = vrl_endpoint vr"
proof -
  have "GetRegisteredNodeByEthAddress wallet (tx_db ptx) = None"
    using assms(7) by (auto simp: GetRegisteredNodeByEthAddress_def find_row_None_iff)
  with assms show ?thesis
    by (intro exI [of _ "\<lparr>v_pub_key = SerializePublicKeyHex x pub, v_endpoint = vrl_endpoint vr,
        v_eth_address = wallet, v_comet_address = vrl_comet_address vr,
        v_comet_pub_key = b64_encode (vrl_pub_key vr), v_eth_block = vrl_eth_block vr,
        v_node_type = vrl_node_type vr, v_sp_id = vrl_sp_id vr\<rparr>"])
      (simp add: finalizeLegacyRegisterNode_def getter_defs stmt_bind_def stmt_lift_def marshal_def
        insert_node_if_absent_def row_stmt_def rows_stmt_def go_simps is_no_rows_def
        InsertRegisteredNode_def exec_stmt_def)
qed

definition demo_legacy_tx :: signed_transaction where
  "demo_legacy_tx = \<lparr>st_signature = ''616263'', st_request_id = '''',
     st_transaction = Some (TxLegacyRegistration (zero_legacy_registration\<lparr>vrl_power := 1000000\<rparr>))\<rparr>"

theorem legacy_registration_unattested_witness:
  "\<exists>node. finalizeLegacyRegisterNode demo_ext demo_legacy_tx (begin_tx demo_validators) =
      (Ok (), begin_tx (demo_validators\<lparr>core_validators := core_validators demo_validators @ [node]\<rparr>))
    \<and> v_eth_address node = ''abc''"
proof -
  have "EthRecover demo_ext ''616263'' [] = Ok (bytes_of ''abc'', ''abc'')" by code_simp
  then show ?thesis
    using legacy_registration_unattested [of demo_legacy_tx "zero_legacy_registration\<lparr>vrl_power := 1000000\<rparr>"
        demo_ext "[]" "bytes_of ''abc''" "''abc''" "begin_tx demo_validators"]
    by (auto simp: demo_legacy_tx_def begin_tx_def demo_validators_def demo_node_def empty_db_def demo_ext_def)
qed

text \<open>
  A deregistration attestation is validated without panicking whatever its key is,
  because its size is checked first; a registration attestation signed by its wallet with the
  right power panics the node when its key is neither empty nor 32 bytes long. The hypothesis
  on CometBFT is that its address function panics exactly on keys of another size.
\<close>

theorem pubkey_size_checks:
  assumes size: "\<And>k. x_ed25519_address x k = None \<longleftrightarrow> length k \<noteq> 32"
  shows "isValidDeregisterNodeAttestation x cfg db dtx signers height \<noteq> Panic p
    \<and> (get_attestation tx = Some att \<and> att_registration att = Some vr \<and> st_signature tx \<noteq> ''''
      \<and> x_marshal_attestation x att = Some attBytes
      \<and> EthRecover x (st_signature tx) attBytes = Ok (k, vr_delegate_wallet vr)
      \<and> vr_power vr = cfg_ValidatorVotingPower cfg \<and> vr_pub_key vr \<noteq> [] \<and> length (vr_pub_key vr) \<noteq> 32
      \<longrightarrow> isValidRegisterNodeAttestation x cfg db tx signers height = Panic ''pubkey is incorrect size'')"
proof (intro conjI impI)
  have att: "attestationHasEnoughSigners x db s key sz n ex \<noteq> Panic p" for s key sz n ex
    by (auto simp: attestationHasEnoughSigners_def go_simps db_rows_def Let_def)
  have node: "db_row n q db \<noteq> Panic p" for n and q :: "core_db \<Rightarrow> validator_row option"
    by (auto simp: db_row_def split: option.splits)
  have key: "ed25519_address x k \<noteq> Panic p" if "length k = 32" for k
    using size that by (auto simp: ed25519_address_def split: option.splits)
  show "isValidDeregisterNodeAttestation x cfg db dtx signers height \<noteq> Panic p"
    by (auto simp: isValidDeregisterNodeAttestation_def ed25519_PubKeySize_def Let_def go_simps att node key
        split: option.splits)
qed (simp add: isValidRegisterNodeAttestation_def marshal_def ed25519_address_def size [THEN iffD2])

definition demo_short_key_tx :: signed_transaction where
  "demo_short_key_tx = demo_registration_tx\<lparr>st_transaction := Some (TxAttestation
     \<lparr>att_signatures = [], att_body = Some (AttRegistration (demo_registration\<lparr>vr_pub_key := [1]\<rparr>))\<rparr>)\<rparr>"

theorem pubkey_size_checks_witness:
  "isValidRegisterNodeAttestation demo_ext demo_config empty_db demo_short_key_tx [] 10
     = Panic ''pubkey is incorrect size''"
proof -
  have size: "x_ed25519_address demo_ext k = None \<longleftrightarrow> length k \<noteq> 32" for k by (simp add: demo_ext_def)
  have "EthRecover demo_ext ''616263'' [] = Ok (bytes_of ''abc'', ''abc'')" by code_simp
  then show ?thesis
    using pubkey_size_checks [OF size, of demo_config empty_db demo_registration_tx "[]" 10 "''''"
        demo_short_key_tx _ "demo_registration\<lparr>vr_pub_key := [1]\<rparr>" "[]" "bytes_of ''abc''"]
    by (auto simp: demo_short_key_tx_def demo_registration_tx_def demo_registration_def getter_defs
        demo_config_def demo_ext_def)
qed

section \<open>Deregistration on evidence\<close>

text \<open>A validator row whose stored key is the encoding of a key with the stored address.\<close>

definition key_readable :: "ext \<Rightarrow> validator_row \<Rightarrow> bool" where
  "key_readable x node \<longleftrightarrow> (\<exists>key. v_comet_pub_key node = b64_encode key \<and> key \<noteq> []
     \<and> x_ed25519_address x key = Some (v_comet_address node))"

lemma created_deregistration_tx:
  assumes created: "createDeregisterTransaction x cfg db uuid address = Ok txBytes"
    and keys: "\<forall>node \<in> set (core_validators db). key_readable x node"
    and roundtrip: "\<And>m b. x_marshal_signed x m = Some b \<Longrightarrow> x_unmarshal_signed x b = Some m"
    and sig: "\<And>h s. x_Sign x h (cfg_EthereumKey cfg) = Some s \<Longrightarrow> s \<noteq> []"
    and evidence: "address \<in> set misbehavior"
  shows "\<exists>tx d. x_unmarshal_signed x txBytes = Some tx \<and> st_transaction tx = Some (TxMisbehaviorDeregistration d)
    \<and> isValidDeregisterMisbehavingNodeTx x db tx misbehavior = Ok ()"
proof -
  let ?a = "x_address_string x address"
  have matches: "misbehavior_matches x misbehavior ?a"
    using evidence by (induction misbehavior) auto
  from created obtain node where node: "GetRegisteredNodeByCometAddress ?a db = Some node"
    by (auto simp: createDeregisterTransaction_def go_simps db_row_def split: if_splits option.splits)
  then have "node \<in> set (core_validators db)" "v_comet_address node = ?a"
    by (auto simp: GetRegisteredNodeByCometAddress_def dest: find_row_SomeD)
  with keys obtain key where key: "v_comet_pub_key node = b64_encode key" "key \<noteq> []"
    "x_ed25519_address x key = Some ?a" by (auto simp: key_readable_def)
  let ?d = "\<lparr>vmd_comet_address = ?a, vmd_pub_key = key\<rparr>"
  from created node key obtain body s where s: "EthSign x (cfg_EthereumKey cfg) body = Ok s"
    and tx: "x_marshal_signed x \<lparr>st_signature = s, st_request_id = uuid,
        st_transaction = Some (TxMisbehaviorDeregistration ?d)\<rparr> = Some txBytes"
    and live: "\<not> db_fault db ''GetRegisteredNodeByCometAddress''"
    by (auto simp: createDeregisterTransaction_def go_simps Let_def db_row_def split: if_splits)
  have "s \<noteq> ''''" using s sig by (auto simp: EthSign_def split: option.splits) (metis hex_encode.elims list.distinct(1))
  with roundtrip [OF tx] matches key live node show ?thesis
    by (simp add: isValidDeregisterMisbehavingNodeTx_def getter_defs db_row_def ed25519_address_def Let_def)
qed

text \<open>
  The deregistration transaction a node creates for a misbehaving validator passes the
  check every node makes of it, provided the stored keys are encodings of keys with the stored
  addresses, signing yields a non-empty signature, and the block's evidence names the validator.
\<close>

theorem created_deregistration_valid:
  assumes "createDeregisterTransaction x cfg db uuid address = Ok txBytes"
    and "\<forall>node \<in> set (core_validators db). key_readable x node"
    and "\<And>m b. x_marshal_signed x m = Some b \<Longrightarrow> x_unmarshal_signed x b = Some m"
    and "\<And>h s. x_Sign x h (cfg_EthereumKey cfg) = Some s \<Longrightarrow> s \<noteq> []"
    and "address \<in> set misbehavior"
  shows "\<exists>tx. x_unmarshal_signed x txBytes = Some tx
    \<and> isValidDeregisterMisbehavingNodeTx x db tx misbehavior = Ok ()"
  using created_deregistration_tx [OF assms(1,2) _ _ assms(5)] assms(3,4) by blast

definition demo_dereg_tx :: signed_transaction where
  "demo_dereg_tx = \<lparr>st_signature = ''6b6579'', st_request_id = ''id'',
     st_transaction = Some (TxMisbehaviorDeregistration
       \<lparr>vmd_comet_address = ''0000'', vmd_pub_key = replicate 32 0\<rparr>)\<rparr>"

text \<open>A codec that knows one transaction.\<close>

definition one_tx_ext :: "signed_transaction \<Rightarrow> ext" where
  "one_tx_ext m = demo_ext\<lparr>x_marshal_signed := (\<lambda>t. if t = m then Some [1] else None),
     x_unmarshal_signed := (\<lambda>b. if b = [1] then Some m else None)\<rparr>"

definition demo_dereg_db :: core_db where
  "demo_dereg_db = empty_db\<lparr>core_validators :=
     [(demo_node ''0xa'' ''0000'')\<lparr>v_comet_pub_key := b64_encode (replicate 32 0)\<rparr>]\<rparr>"

theorem created_deregistration_valid_witness:
  "createDeregisterTransaction (one_tx_ext demo_dereg_tx) demo_config demo_dereg_db ''id'' [0, 0] = Ok [1]
   \<and> (\<exists>tx. x_unmarshal_signed (one_tx_ext demo_dereg_tx) [1] = Some tx
        \<and> isValidDeregisterMisbehavingNodeTx (one_tx_ext demo_dereg_tx) demo_dereg_db tx [[0, 0]] = Ok ())"
proof -
  let ?x = "one_tx_ext demo_dereg_tx"
  let ?n = "(demo_node ''0xa'' ''0000'')\<lparr>v_comet_pub_key := b64_encode (replicate 32 0)\<rparr>"
  have addr: "x_address_string ?x [0, 0] = ''0000''" "x_ed25519_address ?x (replicate 32 0) = Some ''0000''"
    by code_simp+
  have sig: "EthSign ?x (cfg_EthereumKey demo_config) b = Ok ''6b6579''" for b
  proof -
    have "hex_encode (bytes_of ''key'') = ''6b6579''" by code_simp
    then show ?thesis by (simp add: EthSign_def one_tx_ext_def demo_ext_def demo_config_def)
  qed
  have node: "GetRegisteredNodeByCometAddress (x_address_string ?x [0, 0]) demo_dereg_db = Some ?n"
    by (simp add: addr GetRegisteredNodeByCometAddress_def demo_dereg_db_def demo_node_def)
  have created: "createDeregisterTransaction ?x demo_config demo_dereg_db ''id'' [0, 0] = Ok [1]"
    using node sig by (simp add: createDeregisterTransaction_def db_row_def addr Let_def marshal_def)
      (simp add: demo_dereg_db_def empty_db_def one_tx_ext_def demo_ext_def demo_dereg_tx_def)
  have keys: "\<forall>n \<in> set (core_validators demo_dereg_db). key_readable ?x n"
    using addr by (auto simp: demo_dereg_db_def key_readable_def demo_node_def intro!: exI [of _ "replicate 32 0"])
  have "\<exists>tx. x_unmarshal_signed ?x [1] = Some tx
      \<and> isValidDeregisterMisbehavingNodeTx ?x demo_dereg_db tx [[0, 0]] = Ok ()"
    by (rule created_deregistration_valid [OF created keys])
      (auto simp: one_tx_ext_def demo_ext_def demo_config_def bytes_of_def split: if_splits)
  with created show ?thesis by blast
qed

end
