(* ===== verification/Auditor.thy ===== *)
theory Auditor
  imports Core_Db "HOL-Library.Multiset"
begin

text \<open>
  The SLA auditor of \<^verbatim>\<open>pkg/core/server/auditor.go\<close>: rollups of the blocks each validator has
  proposed, created by a proposer, recomputed by every other validator and persisted when
  the block is finalized, and the decision to purge a validator that proposes nothing.
\<close>

section \<open>Creating and validating rollups\<close>

definition validatorPurgeSLAInterval :: int where
  "validatorPurgeSLAInterval = 8"

definition validatorPurgeMinValidators :: int where
  "validatorPurgeMinValidators = 50"

text \<open>The report of a validator: its tally if there is one (the last in a map), else zero.\<close>

definition node_report :: "sla_node_report_row list \<Rightarrow> validator_row \<Rightarrow> sla_node_report_msg" where
  "node_report reports v =
     (case map_of (rev (map (\<lambda>r. (nr_address r, r)) reports)) (v_comet_address v) of
        Some r \<Rightarrow> \<lparr>snr_address = nr_address r, snr_num_blocks_proposed = nr_blocks_proposed r\<rparr>
      | None \<Rightarrow> \<lparr>snr_address = v_comet_address v, snr_num_blocks_proposed = 0\<rparr>)"

definition rollup_start :: "core_db \<Rightarrow> int64" where
  "rollup_start db = (case db_row ''GetLatestSlaRollup'' GetLatestSlaRollup db of
     Ok r \<Rightarrow> wrap64 (sl_block_end r + 1) | _ \<Rightarrow> 0)"

definition createRollup :: "core_db \<Rightarrow> timestamp \<Rightarrow> int64 \<Rightarrow> sla_rollup_msg result" where
  "createRollup db time height =
     bind_result (db_rows ''GetInProgressRollupReports'' GetInProgressRollupReports db) (\<lambda>reports.
     bind_result (db_rows ''GetAllRegisteredNodesSorted'' GetAllRegisteredNodesSorted db) (\<lambda>validators.
     Ok \<lparr>sr_timestamp = Some time, sr_block_start = rollup_start db,
         sr_block_end = wrap64 (height - 1), sr_reports = map (node_report reports) validators\<rparr>))"

definition createRollupTx :: "ext \<Rightarrow> core_db \<Rightarrow> timestamp \<Rightarrow> int64 \<Rightarrow> bytes result" where
  "createRollupTx x db time height =
     bind_result (createRollup db time height) (\<lambda>rollup.
     marshal (x_marshal_signed x)
       \<lparr>st_signature = '''', st_request_id = '''', st_transaction = Some (TxSlaRollup rollup)\<rparr>)"

definition shouldProposeNewRollup :: "core_config \<Rightarrow> core_db \<Rightarrow> int64 \<Rightarrow> bool" where
  "shouldProposeNewRollup cfg db height =
     (case db_row ''GetLatestSlaRollup'' GetLatestSlaRollup db of
        Ok latestRollup \<Rightarrow> wrap64 (wrap64 (height - 1) - sl_block_end latestRollup) \<ge> cfg_SlaRollupInterval cfg
      | Err e \<Rightarrow> is_no_rows e \<and> wrap64 (height - 1) \<ge> cfg_SlaRollupInterval cfg
      | Panic p \<Rightarrow> False)"

text \<open>\<^verbatim>\<open>GetSeconds\<close> and \<^verbatim>\<open>GetNanos\<close> of a timestamp that may be nil.\<close>

definition ts_pair :: "timestamp option \<Rightarrow> int64 \<times> int" where
  "ts_pair t = (case t of None \<Rightarrow> (0, 0) | Some ts \<Rightarrow> (ts_seconds ts, ts_nanos ts))"

text \<open>
  The reports are compared by \<^verbatim>\<open>reflect.DeepEqual\<close>: the slice the node makes is never nil, and that of a rollup
  read from a transaction is nil when it has no report, so that empty ones differ.
\<close>

definition isValidRollup ::
    "core_config \<Rightarrow> core_db \<Rightarrow> timestamp \<Rightarrow> int64 \<Rightarrow> sla_rollup_msg \<Rightarrow> bool result" where
  "isValidRollup cfg db time height rollup =
     (if \<not> shouldProposeNewRollup cfg db (wrap64 (height + 1)) then Ok False
      else if sr_block_start rollup > sr_block_end rollup then Ok False
      else bind_result (createRollup db time height) (\<lambda>myRollup.
        if ts_pair (sr_timestamp myRollup) \<noteq> ts_pair (sr_timestamp rollup) then Ok False
        else if sr_block_start myRollup \<noteq> sr_block_start rollup then Ok False
        else if sr_block_end myRollup \<noteq> sr_block_end rollup then Ok False
        else if sr_reports myRollup \<noteq> sr_reports rollup \<or> sr_reports rollup = [] then Ok False
        else Ok True))"

section \<open>Persisting rollups\<close>

definition finalizeSlaRollup :: "sla_rollup_msg \<Rightarrow> string \<Rightarrow> unit stmt" where
  "finalizeSlaRollup rollup txHash =
     stmt_try (row_stmt ''GetSlaRollupWithTimestamp''
         (GetSlaRollupWithTimestamp (pg_time (sr_timestamp rollup)))) (\<lambda>r.
     case r of
       Ok _ \<Rightarrow> stmt_return ()
     | Panic p \<Rightarrow> stmt_lift (Panic p)
     | Err e \<Rightarrow>
         if \<not> is_no_rows e then stmt_lift (Err (Wrapf ''failed to check for existing rollup'' e))
         else stmt_bind (CommitSlaRollup (pg_time (sr_timestamp rollup)) txHash
                (sr_block_start rollup) (sr_block_end rollup)) (\<lambda>rollupId.
              stmt_bind ClearUncommittedSlaNodeReports (\<lambda>_.
              stmt_iter (\<lambda>r. CommitSlaNodeReport rollupId (snr_address r) (snr_num_blocks_proposed r))
                (sr_reports rollup))))"

section \<open>Purging validators\<close>

definition ShouldPurgeValidatorForUnderperformance :: "core_db \<Rightarrow> string \<Rightarrow> bool result" where
  "ShouldPurgeValidatorForUnderperformance db validatorAddress =
     bind_result (wrap_err ''could not get total validators'' (db_rows ''TotalValidators'' TotalValidators db)) (\<lambda>totalValidators.
     if totalValidators \<le> validatorPurgeMinValidators then Ok False
     else bind_result (wrap_err ''could not get recent rollups for node''
         (db_rows ''GetRecentRollupsForNode''
            (GetRecentRollupsForNode validatorPurgeSLAInterval validatorAddress) db)) (\<lambda>rollups.
       if list_all (\<lambda>r. snd r = None) rollups then Ok False
       else Ok (list_all (\<lambda>r. \<not> (case snd r of None \<Rightarrow> 0 | Some nr \<Rightarrow> nr_blocks_proposed nr) > 0) rollups)))"

section \<open>Lemmas\<close>

lemma createRollup_eq_Ok:
  "createRollup db time height = Ok r \<longleftrightarrow>
     \<not> db_fault db ''GetInProgressRollupReports'' \<and> \<not> db_fault db ''GetAllRegisteredNodesSorted''
   \<and> r = \<lparr>sr_timestamp = Some time, sr_block_start = rollup_start db, sr_block_end = wrap64 (height - 1),
          sr_reports = map (node_report (GetInProgressRollupReports db)) (GetAllRegisteredNodesSorted db)\<rparr>"
  by (auto simp: createRollup_def go_simps db_rows_def split: if_splits)

lemma snr_address_node_report: "snr_address (node_report reports v) = v_comet_address v"
  by (auto simp: node_report_def map_of_eq_Some_iff split: option.splits dest!: map_of_SomeD)

text \<open>The report of a validator says what is tallied for it in the open rollup, or 0.\<close>

definition tallied :: "core_db \<Rightarrow> sla_node_report_msg \<Rightarrow> bool" where
  "tallied db m \<longleftrightarrow>
     (let counts = map nr_blocks_proposed (filter (\<lambda>r. nr_sla_rollup_id r = None \<and> nr_address r = snr_address m) (sla_node_reports db))
      in if counts = [] then snr_num_blocks_proposed m = 0 else snr_num_blocks_proposed m \<in> set counts)"

lemma tallied_node_report: "tallied db (node_report (GetInProgressRollupReports db) v)"
proof (cases "map_of (rev (map (\<lambda>r. (nr_address r, r)) (GetInProgressRollupReports db))) (v_comet_address v)")
  case None
  then have "v_comet_address v \<notin> nr_address ` set (GetInProgressRollupReports db)"
    by (force simp: map_of_eq_None_iff image_image)
  then have "filter (\<lambda>r. nr_sla_rollup_id r = None \<and> nr_address r = v_comet_address v) (sla_node_reports db) = []"
    by (auto simp: GetInProgressRollupReports_def filter_empty_conv image_iff)
  with None show ?thesis by (simp add: tallied_def node_report_def)
next
  case (Some r)
  then have "r \<in> set (GetInProgressRollupReports db)" "nr_address r = v_comet_address v" by (auto dest!: map_of_SomeD)
  with Some show ?thesis
    by (auto simp: tallied_def node_report_def GetInProgressRollupReports_def filter_empty_conv)
qed

lemma valid_rollup_reports:
  assumes "isValidRollup cfg db time height rollup = Ok True"
  shows "sr_reports rollup = map (node_report (GetInProgressRollupReports db)) (GetAllRegisteredNodesSorted db)"
    and "sr_reports rollup \<noteq> []"
  using assms by (auto simp: isValidRollup_def go_simps createRollup_eq_Ok split: if_splits)

lemma created_rollup_accepted:
  assumes "createRollup db time height = Ok mine" and "shouldProposeNewRollup cfg db (wrap64 (height + 1))"
    and "rollup_start db \<le> wrap64 (height - 1)" and "core_validators db \<noteq> []"
  shows "isValidRollup cfg db time height mine = Ok True"
proof -
  have "GetAllRegisteredNodesSorted db \<noteq> []"
    using assms(4) by (metis GetAllRegisteredNodesSorted_def set_empty set_sort)
  with assms show ?thesis by (simp add: isValidRollup_def) (auto simp: createRollup_eq_Ok)
qed

text \<open>
  (C14) A rollup created from a node's tallies is accepted by every node with the same committed
  database at the same height and block time, once the interval has passed, there are
  blocks to report and validators to report on; and whatever rollup is accepted there agrees with that one in its
  time, its range of blocks and all of its reports, which list every registered validator once per row
  in the order of the addresses, each with the blocks tallied for it in the open rollup.
\<close>

theorem rollup_roundtrip_and_agreement:
  "(createRollup db time height = Ok mine \<and> shouldProposeNewRollup cfg db (wrap64 (height + 1))
      \<and> rollup_start db \<le> wrap64 (height - 1) \<and> core_validators db \<noteq> []
      \<longrightarrow> isValidRollup cfg db time height mine = Ok True)
   \<and> (isValidRollup cfg db time height rollup = Ok True \<longrightarrow>
        ts_pair (sr_timestamp rollup) = (ts_seconds time, ts_nanos time)
      \<and> sr_block_start rollup = rollup_start db \<and> sr_block_end rollup = wrap64 (height - 1)
      \<and> map snr_address (sr_reports rollup) = sort (map v_comet_address (core_validators db))
      \<and> (\<forall>m \<in> set (sr_reports rollup). tallied db m)
      \<and> (\<exists>own. createRollup db time height = Ok own \<and> sr_reports own = sr_reports rollup))"
proof (intro conjI impI; (elim conjE)?)
  assume "createRollup db time height = Ok mine" "shouldProposeNewRollup cfg db (wrap64 (height + 1))"
    "rollup_start db \<le> wrap64 (height - 1)" "core_validators db \<noteq> []"
  then show "isValidRollup cfg db time height mine = Ok True" by (rule created_rollup_accepted)
next
  assume valid: "isValidRollup cfg db time height rollup = Ok True"
  then show "ts_pair (sr_timestamp rollup) = (ts_seconds time, ts_nanos time)"
    "sr_block_start rollup = rollup_start db" "sr_block_end rollup = wrap64 (height - 1)"
    "\<exists>own. createRollup db time height = Ok own \<and> sr_reports own = sr_reports rollup"
    by (auto simp: isValidRollup_def go_simps createRollup_eq_Ok ts_pair_def split: if_splits)
  have sorted: "sort (map v_comet_address vs) = map v_comet_address (sort_key v_comet_address vs)" for vs
    by (rule properties_for_sort) simp_all
  show "map snr_address (sr_reports rollup) = sort (map v_comet_address (core_validators db))"
    "\<forall>m \<in> set (sr_reports rollup). tallied db m"
    by (auto simp: valid_rollup_reports(1) [OF valid] GetAllRegisteredNodesSorted_def snr_address_node_report sorted tallied_node_report)
qed

text \<open>Without a registered validator no rollup is valid, and the one a proposer makes is refused.\<close>

theorem empty_rollup_refused:
  assumes "core_validators db = []"
  shows "isValidRollup cfg db time height rollup \<noteq> Ok True"
  using valid_rollup_reports [of cfg db time height rollup] assms by (auto simp: GetAllRegisteredNodesSorted_def)

definition demo_time :: timestamp where
  "demo_time = \<lparr>ts_seconds = 1700000000, ts_nanos = 5000\<rparr>"

definition demo_validator :: "string \<Rightarrow> validator_row" where
  "demo_validator comet = \<lparr>v_pub_key = '''', v_endpoint = '''', v_eth_address = ''0x'' @ comet,
     v_comet_address = comet, v_comet_pub_key = '''', v_eth_block = '''', v_node_type = '''', v_sp_id = ''''\<rparr>"

definition demo_audit_db :: core_db where
  "demo_audit_db = empty_db\<lparr>core_validators := [demo_validator ''B'', demo_validator ''A''],
     sla_node_reports := [\<lparr>nr_address = ''B'', nr_blocks_proposed = 9, nr_sla_rollup_id = None\<rparr>]\<rparr>"

definition demo_rollup :: sla_rollup_msg where
  "demo_rollup = \<lparr>sr_timestamp = Some demo_time, sr_block_start = 0, sr_block_end = 10,
     sr_reports = [\<lparr>snr_address = ''A'', snr_num_blocks_proposed = 0\<rparr>,
                   \<lparr>snr_address = ''B'', snr_num_blocks_proposed = 9\<rparr>]\<rparr>"

theorem rollup_roundtrip_and_agreement_witness:
  "createRollup demo_audit_db demo_time 11 = Ok demo_rollup
   \<and> isValidRollup demo_config demo_audit_db demo_time 11 demo_rollup = Ok True"
proof -
  have "GetAllRegisteredNodesSorted demo_audit_db = [demo_validator ''A'', demo_validator ''B'']"
    by code_simp
  moreover have "GetInProgressRollupReports demo_audit_db
      = [\<lparr>nr_address = ''B'', nr_blocks_proposed = 9, nr_sla_rollup_id = None\<rparr>]" by code_simp
  moreover have start: "rollup_start demo_audit_db = 0"
    by (simp add: rollup_start_def demo_audit_db_def empty_db_def db_row_def GetLatestSlaRollup_def latest_by_def)
  ultimately have made: "createRollup demo_audit_db demo_time 11 = Ok demo_rollup"
    by (simp add: createRollup_eq_Ok demo_rollup_def node_report_def demo_validator_def wrap64_def)
      (simp add: demo_audit_db_def empty_db_def)
  moreover have "shouldProposeNewRollup demo_config demo_audit_db (wrap64 (11 + 1))"
    by (simp add: shouldProposeNewRollup_def demo_audit_db_def empty_db_def db_row_def
        GetLatestSlaRollup_def latest_by_def is_no_rows_def demo_config_def wrap64_def)
  ultimately show ?thesis
    using rollup_roundtrip_and_agreement [of demo_audit_db demo_time 11 demo_rollup demo_config]
    by (simp add: start wrap64_def) (simp add: demo_audit_db_def)
qed

section \<open>Persisting the reports of a rollup\<close>

definition committed_report :: "int \<Rightarrow> sla_node_report_msg \<Rightarrow> sla_node_report_row" where
  "committed_report i r = \<lparr>nr_address = snr_address r, nr_blocks_proposed = snr_num_blocks_proposed r,
                           nr_sla_rollup_id = Some i\<rparr>"

abbreviation commit_reports :: "int \<Rightarrow> sla_node_report_msg list \<Rightarrow> unit stmt" where
  "commit_reports i rs \<equiv> stmt_iter (\<lambda>r. CommitSlaNodeReport i (snr_address r) (snr_num_blocks_proposed r)) rs"

abbreviation report_keys :: "sla_node_report_row list \<Rightarrow> (string \<times> int option) set" where
  "report_keys rows \<equiv> (\<lambda>r. (nr_address r, nr_sla_rollup_id r)) ` set rows"

lemma CommitSlaNodeReport_eval:
  assumes "\<not> tx_aborted tx" and "\<not> db_fault (tx_db tx) ''CommitSlaNodeReport''"
  shows "CommitSlaNodeReport i a n tx =
    (if (a, Some i) \<in> report_keys (sla_node_reports (tx_db tx))
     then (Err (DbErr ErrConstraint), tx\<lparr>tx_aborted := True\<rparr>)
     else (Ok (), tx\<lparr>tx_db := (tx_db tx)\<lparr>sla_node_reports := sla_node_reports (tx_db tx)
             @ [\<lparr>nr_address = a, nr_blocks_proposed = n, nr_sla_rollup_id = Some i\<rparr>]\<rparr>\<rparr>))"
  using assms by (simp add: CommitSlaNodeReport_def exec_stmt_def insert_unique_def)

lemma commit_reports_distinct:
  assumes "\<not> tx_aborted tx" and "\<not> db_fault (tx_db tx) ''CommitSlaNodeReport''"
    and "distinct (map snr_address rs)"
    and "\<forall>r \<in> set rs. (snr_address r, Some i) \<notin> report_keys (sla_node_reports (tx_db tx))"
  shows "commit_reports i rs tx = (Ok (), tx\<lparr>tx_db := (tx_db tx)\<lparr>sla_node_reports :=
      sla_node_reports (tx_db tx) @ map (committed_report i) rs\<rparr>\<rparr>)"
  using assms
proof (induction rs arbitrary: tx)
  case Nil
  then show ?case by (simp add: stmt_return_def)
next
  case (Cons r rs)
  let ?tx = "tx\<lparr>tx_db := (tx_db tx)\<lparr>sla_node_reports := sla_node_reports (tx_db tx) @ [committed_report i r]\<rparr>\<rparr>"
  have step: "CommitSlaNodeReport i (snr_address r) (snr_num_blocks_proposed r) tx = (Ok (), ?tx)"
    using Cons.prems by (simp add: CommitSlaNodeReport_eval committed_report_def)
  have "commit_reports i rs ?tx = (Ok (), ?tx\<lparr>tx_db := (tx_db ?tx)\<lparr>sla_node_reports :=
      sla_node_reports (tx_db ?tx) @ map (committed_report i) rs\<rparr>\<rparr>)"
    using Cons.prems by (intro Cons.IH) (auto simp: committed_report_def, metis imageI)
  with step show ?case by (simp add: stmt_bind_def)
qed

lemma commit_reports_duplicate:
  assumes "\<not> tx_aborted tx" and "\<not> db_fault (tx_db tx) ''CommitSlaNodeReport''"
    and "\<not> distinct (map snr_address rs)
      \<or> (\<exists>r \<in> set rs. (snr_address r, Some i) \<in> report_keys (sla_node_reports (tx_db tx)))"
  shows "fst (commit_reports i rs tx) = Err (DbErr ErrConstraint) \<and> tx_aborted (snd (commit_reports i rs tx))"
  using assms
proof (induction rs arbitrary: tx)
  case Nil
  then show ?case by simp
next
  case (Cons r rs)
  show ?case
  proof (cases "(snr_address r, Some i) \<in> report_keys (sla_node_reports (tx_db tx))")
    case True
    with Cons.prems show ?thesis by (simp add: CommitSlaNodeReport_eval stmt_bind_def)
  next
    case False
    let ?tx = "tx\<lparr>tx_db := (tx_db tx)\<lparr>sla_node_reports := sla_node_reports (tx_db tx) @ [committed_report i r]\<rparr>\<rparr>"
    have step: "CommitSlaNodeReport i (snr_address r) (snr_num_blocks_proposed r) tx = (Ok (), ?tx)"
      using Cons.prems False by (simp add: CommitSlaNodeReport_eval committed_report_def)
    have "fst (commit_reports i rs ?tx) = Err (DbErr ErrConstraint) \<and> tx_aborted (snd (commit_reports i rs ?tx))"
      using Cons.prems False by (intro Cons.IH) (auto simp: committed_report_def)
    with step show ?thesis by (simp add: stmt_bind_def)
  qed
qed

text \<open>The identifiers in use lie below the sequence.\<close>

definition rollup_ids_fresh :: "core_db \<Rightarrow> bool" where
  "rollup_ids_fresh db \<longleftrightarrow> (\<forall>r \<in> set (sla_node_reports db). \<forall>i. nr_sla_rollup_id r = Some i \<longrightarrow> i < seq_sla_rollups db)
     \<and> (\<forall>r \<in> set (sla_rollups db). sl_id r < seq_sla_rollups db)"

definition sla_queries_ok :: "core_db \<Rightarrow> bool" where
  "sla_queries_ok db \<longleftrightarrow> (\<forall>n \<in> {''GetSlaRollupWithTimestamp'', ''CommitSlaRollup'',
     ''ClearUncommittedSlaNodeReports'', ''CommitSlaNodeReport''}. \<not> db_fault db n)"

lemma finalizeSlaRollup_commits:
  assumes live: "\<not> tx_aborted tx" "sla_queries_ok (tx_db tx)"
    and new: "\<forall>r \<in> set (sla_rollups (tx_db tx)). sl_time r \<noteq> pg_time (sr_timestamp rollup)"
  shows "finalizeSlaRollup rollup txHash tx =
    commit_reports (seq_sla_rollups (tx_db tx)) (sr_reports rollup)
      (tx\<lparr>tx_db := (tx_db tx)\<lparr>seq_sla_rollups := seq_sla_rollups (tx_db tx) + 1,
         sla_rollups := sla_rollups (tx_db tx) @ [\<lparr>sl_id = seq_sla_rollups (tx_db tx), sl_tx_hash = txHash,
            sl_block_start = sr_block_start rollup, sl_block_end = sr_block_end rollup,
            sl_time = pg_time (sr_timestamp rollup)\<rparr>],
         sla_node_reports := filter (\<lambda>r. nr_sla_rollup_id r \<noteq> None) (sla_node_reports (tx_db tx))\<rparr>\<rparr>)"
proof -
  have "GetSlaRollupWithTimestamp (pg_time (sr_timestamp rollup)) (tx_db tx) = None"
    using new by (simp add: GetSlaRollupWithTimestamp_def find_row_None_iff)
  with live show ?thesis
    by (simp add: finalizeSlaRollup_def go_simps row_stmt_def rows_stmt_def sla_queries_ok_def
        CommitSlaRollup_def ClearUncommittedSlaNodeReports_def exec_stmt_def is_no_rows_def stmt_bind_def
        stmt_lift_def)
qed

text \<open>
  Finalizing a rollup with a new timestamp in an open transaction: when its reports name
  different addresses, one rollup row is appended, the tallies in progress are dropped and
  one committed report per entry is stored under the new identifier; when two reports name
  the same address, the unique constraint fails, the error is returned and the transaction of
  the whole block is aborted.
\<close>

theorem finalize_rollup_effect:
  assumes "\<not> tx_aborted tx" and "sla_queries_ok (tx_db tx)" and "rollup_ids_fresh (tx_db tx)"
    and "\<forall>r \<in> set (sla_rollups (tx_db tx)). sl_time r \<noteq> pg_time (sr_timestamp rollup)"
  shows "let db = tx_db tx; i = seq_sla_rollups db; (res, tx') = finalizeSlaRollup rollup txHash tx in
    (if distinct (map snr_address (sr_reports rollup))
     then res = Ok () \<and> \<not> tx_aborted tx'
       \<and> map sl_id (sla_rollups (tx_db tx')) = map sl_id (sla_rollups db) @ [i]
       \<and> sla_node_reports (tx_db tx') =
           filter (\<lambda>r. nr_sla_rollup_id r \<noteq> None) (sla_node_reports db) @ map (committed_report i) (sr_reports rollup)
       \<and> GetInProgressRollupReports (tx_db tx') = [] \<and> rollup_ids_fresh (tx_db tx')
     else res = Err (DbErr ErrConstraint) \<and> tx_aborted tx')"
proof -
  let ?i = "seq_sla_rollups (tx_db tx)"
  let ?tx = "tx\<lparr>tx_db := (tx_db tx)\<lparr>seq_sla_rollups := ?i + 1,
         sla_rollups := sla_rollups (tx_db tx) @ [\<lparr>sl_id = ?i, sl_tx_hash = txHash,
            sl_block_start = sr_block_start rollup, sl_block_end = sr_block_end rollup,
            sl_time = pg_time (sr_timestamp rollup)\<rparr>],
         sla_node_reports := filter (\<lambda>r. nr_sla_rollup_id r \<noteq> None) (sla_node_reports (tx_db tx))\<rparr>\<rparr>"
  have run: "finalizeSlaRollup rollup txHash tx = commit_reports ?i (sr_reports rollup) ?tx"
    by (rule finalizeSlaRollup_commits) (use assms in auto)
  have live: "\<not> tx_aborted ?tx" "\<not> db_fault (tx_db ?tx) ''CommitSlaNodeReport''"
    using assms by (simp_all add: sla_queries_ok_def)
  show ?thesis
  proof (cases "distinct (map snr_address (sr_reports rollup))")
    case True
    have commit: "commit_reports ?i (sr_reports rollup) ?tx = (Ok (), ?tx\<lparr>tx_db := (tx_db ?tx)\<lparr>sla_node_reports :=
        sla_node_reports (tx_db ?tx) @ map (committed_report ?i) (sr_reports rollup)\<rparr>\<rparr>)"
      using True assms(3) by (intro commit_reports_distinct [OF live]) (auto simp: rollup_ids_fresh_def)
    have nil: "filter (\<lambda>r. nr_sla_rollup_id r = None \<and> (\<exists>y. nr_sla_rollup_id r = Some y)) rs = []"
      "filter (\<lambda>r. (\<exists>y. nr_sla_rollup_id r = Some y) \<and> nr_sla_rollup_id r = None) rs = []" for rs
      by (auto simp: filter_empty_conv)
    show ?thesis using commit True run assms(1,3)
      by (auto simp: nil Let_def GetInProgressRollupReports_def rollup_ids_fresh_def committed_report_def
          filter_empty_conv filter_False)
  next
    case False
    with commit_reports_duplicate [OF live, of "sr_reports rollup" ?i] run show ?thesis
      by (auto simp: Let_def split: prod.splits)
  qed
qed

theorem finalize_rollup_effect_witness:
  "fst (finalizeSlaRollup (demo_rollup\<lparr>sr_reports := sr_reports demo_rollup @ sr_reports demo_rollup\<rparr>)
      ''h'' (begin_tx demo_audit_db)) = Err (DbErr ErrConstraint)
   \<and> fst (finalizeSlaRollup demo_rollup ''h'' (begin_tx demo_audit_db)) = Ok ()"
proof -
  have pre: "\<not> tx_aborted (begin_tx demo_audit_db)" "sla_queries_ok (tx_db (begin_tx demo_audit_db))"
    "rollup_ids_fresh (tx_db (begin_tx demo_audit_db))"
    "\<forall>r \<in> set (sla_rollups (tx_db (begin_tx demo_audit_db))). sl_time r \<noteq> t" for t
    by (simp_all add: begin_tx_def demo_audit_db_def empty_db_def sla_queries_ok_def rollup_ids_fresh_def)
  show ?thesis
    using finalize_rollup_effect [OF pre, of demo_rollup "''h''"]
      finalize_rollup_effect [OF pre, of "demo_rollup\<lparr>sr_reports := sr_reports demo_rollup @ sr_reports demo_rollup\<rparr>" "''h''"]
    by (simp add: Let_def demo_rollup_def split_beta)
qed

section \<open>Tallies in progress\<close>

definition in_progress_addresses :: "core_db \<Rightarrow> string list" where
  "in_progress_addresses db = map nr_address (filter (\<lambda>r. nr_sla_rollup_id r = None) (sla_node_reports db))"

definition tallies_unique :: "core_db \<Rightarrow> bool" where
  "tallies_unique db \<longleftrightarrow> distinct (in_progress_addresses db)"

definition blocks_tallied :: "core_db \<Rightarrow> int" where
  "blocks_tallied db =
     sum_list (map nr_blocks_proposed (filter (\<lambda>r. nr_sla_rollup_id r = None) (sla_node_reports db)))"

lemma tally_bump:
  fixes rs :: "sla_node_report_row list" and a :: string
  defines "bump \<equiv> \<lambda>r :: sla_node_report_row.
    if in_progress_for a r then r\<lparr>nr_blocks_proposed := nr_blocks_proposed r + 1\<rparr> else r"
  defines "live \<equiv> \<lambda>rs :: sla_node_report_row list. filter (\<lambda>r. nr_sla_rollup_id r = None) rs"
  shows "map nr_address (live (map bump rs)) = map nr_address (live rs)"
    and "distinct (map nr_address (live rs)) \<Longrightarrow> sum_list (map nr_blocks_proposed (live (map bump rs))) =
      sum_list (map nr_blocks_proposed (live rs)) + (if a \<in> nr_address ` set (live rs) then 1 else 0)"
proof -
  have keep: "nr_sla_rollup_id (bump r) = nr_sla_rollup_id r" "nr_address (bump r) = nr_address r" for r
    by (simp_all add: bump_def)
  show "map nr_address (live (map bump rs)) = map nr_address (live rs)"
    by (induction rs) (simp_all add: live_def keep)
  show "sum_list (map nr_blocks_proposed (live (map bump rs))) =
      sum_list (map nr_blocks_proposed (live rs)) + (if a \<in> nr_address ` set (live rs) then 1 else 0)"
    if "distinct (map nr_address (live rs))"
    using that
  proof (induction rs)
    case Nil
    then show ?case by (simp add: live_def)
  next
    case (Cons r rs)
    show ?case
    proof (cases "nr_sla_rollup_id r = None")
      case True
      with Cons have ih: "sum_list (map nr_blocks_proposed (live (map bump rs))) =
          sum_list (map nr_blocks_proposed (live rs)) + (if a \<in> nr_address ` set (live rs) then 1 else 0)"
        and new: "nr_address r \<notin> nr_address ` set (live rs)" by (auto simp: live_def)
      have "live (map bump (r # rs)) = bump r # live (map bump rs)" "live (r # rs) = r # live rs"
        using True by (simp_all add: live_def keep)
      moreover have "nr_blocks_proposed (bump r) = nr_blocks_proposed r + (if nr_address r = a then 1 else 0)"
        using True by (simp add: bump_def in_progress_for_def)
      ultimately show ?thesis using ih new by auto
    next
      case False
      then have "live (map bump (r # rs)) = live (map bump rs)" "live (r # rs) = live rs"
        by (auto simp: live_def keep)
      with Cons show ?thesis by simp
    qed
  qed
qed

text \<open>
  Recording the proposer of a block in an open transaction keeps one tally in progress
  per address and raises the total of the tallies by one, below the bound of the counters, so that the blocks of a rollup
  period are counted exactly once.
\<close>

theorem proposer_tally:
  assumes "\<not> tx_aborted tx" and "\<not> db_fault (tx_db tx) ''UpsertSlaRollupReport''"
    and "tallies_unique (tx_db tx)" and "\<forall>r \<in> set (sla_node_reports (tx_db tx)). nr_blocks_proposed r < 2 ^ 31 - 1"
  shows "\<exists>db. UpsertSlaRollupReport a tx = (Ok (), tx\<lparr>tx_db := db\<rparr>) \<and> tallies_unique db
    \<and> blocks_tallied db = blocks_tallied (tx_db tx) + 1
    \<and> set (in_progress_addresses db) = insert a (set (in_progress_addresses (tx_db tx)))"
proof -
  let ?db = "tx_db tx"
  let ?rs = "sla_node_reports ?db"
  let ?bump = "\<lambda>r. if in_progress_for a r then r\<lparr>nr_blocks_proposed := nr_blocks_proposed r + 1\<rparr> else r"
  let ?new = "if \<exists>r \<in> set ?rs. in_progress_for a r then map ?bump ?rs
    else ?rs @ [\<lparr>nr_address = a, nr_blocks_proposed = 1, nr_sla_rollup_id = None\<rparr>]"
  have run: "UpsertSlaRollupReport a tx = (Ok (), tx\<lparr>tx_db := ?db\<lparr>sla_node_reports := ?new\<rparr>\<rparr>)"
    using assms by (auto simp: UpsertSlaRollupReport_def exec_stmt_def Let_def)
  have mem: "(\<exists>r \<in> set ?rs. in_progress_for a r) \<longleftrightarrow> a \<in> set (in_progress_addresses ?db)"
    by (auto simp: in_progress_for_def in_progress_addresses_def)
  show ?thesis
  proof (intro exI conjI, rule run)
    note bump = tally_bump [where rs = ?rs and a = a]
    show "tallies_unique (?db\<lparr>sla_node_reports := ?new\<rparr>)"
      using assms(3) mem bump(1) by (auto simp: tallies_unique_def in_progress_addresses_def)
    show "blocks_tallied (?db\<lparr>sla_node_reports := ?new\<rparr>) = blocks_tallied ?db + 1"
      using assms(3) mem bump(2) by (auto simp: tallies_unique_def blocks_tallied_def in_progress_addresses_def)
    show "set (in_progress_addresses (?db\<lparr>sla_node_reports := ?new\<rparr>)) = insert a (set (in_progress_addresses ?db))"
    proof (cases "\<exists>r \<in> set ?rs. in_progress_for a r")
      case True
      with mem have "a \<in> set (in_progress_addresses ?db)" by blast
      with True bump(1) show ?thesis by (simp add: in_progress_addresses_def insert_absorb)
    qed (auto simp: in_progress_addresses_def)
  qed
qed

theorem proposer_tally_witness:
  "\<exists>db. UpsertSlaRollupReport ''B'' (begin_tx demo_audit_db) = (Ok (), begin_tx db) \<and> blocks_tallied db = 10"
proof -
  have pre: "\<not> tx_aborted (begin_tx demo_audit_db)"
    "\<not> db_fault (tx_db (begin_tx demo_audit_db)) ''UpsertSlaRollupReport''"
    "tallies_unique (tx_db (begin_tx demo_audit_db))"
    "\<forall>r \<in> set (sla_node_reports (tx_db (begin_tx demo_audit_db))). nr_blocks_proposed r < 2 ^ 31 - 1"
    by (simp_all add: begin_tx_def demo_audit_db_def empty_db_def tallies_unique_def in_progress_addresses_def)
  have "blocks_tallied (tx_db (begin_tx demo_audit_db)) = 9"
    by (simp add: begin_tx_def demo_audit_db_def blocks_tallied_def)
  with proposer_tally [OF pre, of "''B''"] show ?thesis by (auto simp: begin_tx_def)
qed

section \<open>Purging\<close>

lemma left_join_row:
  "(rr, Some nr) \<in> set (case nrs of [] \<Rightarrow> [(r, None)] | y # ys \<Rightarrow> map (\<lambda>nr. (r, Some nr)) (y # ys))
     \<longleftrightarrow> rr = r \<and> nr \<in> set nrs"
  by (cases nrs) auto

lemma recent_rollups_reports:
  "(rr, Some nr) \<in> set (GetRecentRollupsForNode n a db) \<longleftrightarrow>
     nr \<in> set (sla_node_reports db) \<and> nr_address nr = a \<and> nr_sla_rollup_id nr = Some (sl_id rr)
   \<and> rr \<in> set (latest_n_by sl_time n (sla_rollups db))"
  unfolding GetRecentRollupsForNode_def set_concat set_map set_sort
  by (auto simp: left_join_row)

text \<open>
  A validator is purged for underperformance only when more than fifty validators are
  registered, it has at least one committed report in the last eight rollups, and each of its
  reports there counts no block; with a block in the window it is never purged.
\<close>

theorem purge_conditions:
  assumes "ShouldPurgeValidatorForUnderperformance db a = Ok True"
  shows "length (core_validators db) > 50
    \<and> (\<exists>rr \<in> set (latest_n_by sl_time 8 (sla_rollups db)). \<exists>nr \<in> set (sla_node_reports db).
          nr_address nr = a \<and> nr_sla_rollup_id nr = Some (sl_id rr))
    \<and> (\<forall>rr \<in> set (latest_n_by sl_time 8 (sla_rollups db)). \<forall>nr \<in> set (sla_node_reports db).
          nr_address nr = a \<and> nr_sla_rollup_id nr = Some (sl_id rr) \<longrightarrow> nr_blocks_proposed nr \<le> 0)"
proof -
  let ?rows = "GetRecentRollupsForNode 8 a db"
  from assms have total: "length (core_validators db) > 50"
    and some: "\<not> list_all (\<lambda>r. snd r = None) ?rows"
    and none: "list_all (\<lambda>r. \<not> (case snd r of None \<Rightarrow> 0 | Some nr \<Rightarrow> nr_blocks_proposed nr) > 0) ?rows"
    by (auto simp: ShouldPurgeValidatorForUnderperformance_def go_simps db_rows_def TotalValidators_def
        validatorPurgeMinValidators_def validatorPurgeSLAInterval_def split: if_splits)
  from some obtain rr nr where "(rr, Some nr) \<in> set ?rows" by (auto simp: list_all_iff)
  then have hist: "\<exists>rr \<in> set (latest_n_by sl_time 8 (sla_rollups db)). \<exists>nr \<in> set (sla_node_reports db).
          nr_address nr = a \<and> nr_sla_rollup_id nr = Some (sl_id rr)"
    by (auto simp: recent_rollups_reports)
  have "nr_blocks_proposed nr \<le> 0"
    if "rr \<in> set (latest_n_by sl_time 8 (sla_rollups db))" "nr \<in> set (sla_node_reports db)"
      "nr_address nr = a" "nr_sla_rollup_id nr = Some (sl_id rr)" for rr nr
  proof -
    from that have "(rr, Some nr) \<in> set ?rows" by (simp add: recent_rollups_reports)
    with none show ?thesis by (force simp: list_all_iff)
  qed
  with total hist show ?thesis by blast
qed

definition demo_purge_db :: core_db where
  "demo_purge_db = empty_db\<lparr>core_validators := replicate 51 (demo_validator ''A''),
     sla_rollups := [\<lparr>sl_id = 1, sl_tx_hash = '''', sl_block_start = 0, sl_block_end = 9, sl_time = 4\<rparr>],
     sla_node_reports := [\<lparr>nr_address = ''A'', nr_blocks_proposed = 0, nr_sla_rollup_id = Some 1\<rparr>]\<rparr>"

theorem purge_conditions_witness:
  "ShouldPurgeValidatorForUnderperformance demo_purge_db ''A'' = Ok True
   \<and> length (core_validators demo_purge_db) > 50"
proof -
  have "ShouldPurgeValidatorForUnderperformance demo_purge_db ''A'' = Ok True" by code_simp
  with purge_conditions [OF this] show ?thesis by blast
qed

lemma abort_rollup [abort_intros]: "respects_abort (finalizeSlaRollup rollup txHash)"
  unfolding finalizeSlaRollup_def CommitSlaRollup_def ClearUncommittedSlaNodeReports_def CommitSlaNodeReport_def
  by (intro abort_intros) (auto split: result.splits intro!: abort_intros)

end
