(* ===== verification/Storage_Proofs.thy ===== *)
theory Storage_Proofs
  imports Common Core_Db "HOL-Library.AList"
begin

text \<open>
  Proof of storage (\<^verbatim>\<open>pkg/core/server/pos.go\<close>): a block hash triggers a challenge, the replicas of
  the challenged file submit a signature of the proof within the deadline and reveal the
  proof after it, and a revealed proof that a majority of the signatures match resolves the
  challenge.
\<close>

section \<open>Challenges\<close>

definition posChallengeDeadline :: int64 where
  "posChallengeDeadline = 2"

definition blockShouldTriggerNewPoSChallenge :: "bytes \<Rightarrow> bool" where
  "blockShouldTriggerNewPoSChallenge blockHash \<longleftrightarrow> blockHash \<noteq> [] \<and> take_bit 4 (last blockHash) = 0"

text \<open>Whether \<^verbatim>\<open>syncPoS\<close> starts a challenge for the block.\<close>

definition syncPoS :: "bool \<Rightarrow> bytes \<Rightarrow> bool" where
  "syncPoS catchingUp latestBlockHash \<longleftrightarrow>
     \<not> catchingUp \<and> blockShouldTriggerNewPoSChallenge latestBlockHash"

record pos_response =
  pr_CID :: string
  pr_Replicas :: "string list"
  pr_Proof :: bytes

text \<open>
  The answer of the storage service to a challenge, None when it does not come in time: the
  provers are recorded and the proof, if the node holds the file, is to be submitted.
\<close>

definition sendPoSChallengeToStorage ::
    "core_db \<Rightarrow> int64 \<Rightarrow> pos_response option \<Rightarrow> (int64 \<times> string \<times> string list \<times> bytes) option \<times> core_db" where
  "sendPoSChallengeToStorage db blockHeight response =
     (case response of
        None \<Rightarrow> (None, db)
      | Some r \<Rightarrow>
          let nodes = (case db_rows ''GetNodesByEndpoints'' (GetNodesByEndpoints (pr_Replicas r)) db of
                         Ok ns \<Rightarrow> ns | _ \<Rightarrow> []);
              proverAddresses = map v_comet_address nodes;
              (res, db') = InsertStorageProofPeers blockHeight proverAddresses db
          in (if pr_Proof r = [] then None else Some (blockHeight, pr_CID r, proverAddresses, pr_Proof r), db'))"

text \<open>The transactions a prover sends; \<open>sign\<close> is the node's ed25519 key and \<open>uuid\<close> random.\<close>

definition submitStorageProofTx ::
    "ext \<Rightarrow> core_config \<Rightarrow> (bytes \<Rightarrow> bytes option) \<Rightarrow> string \<Rightarrow> int64 \<Rightarrow> string \<Rightarrow> string list \<Rightarrow> bytes
     \<Rightarrow> signed_transaction result" where
  "submitStorageProofTx x cfg sign uuid height cid replicaAddresses proof =
     (case sign proof of
        None \<Rightarrow> Err (Errorf ''could not sign storage proof'')
      | Some proofSig \<Rightarrow>
          let proofTx = \<lparr>sp_height = height, sp_address = cfg_ProposerAddress cfg,
                 sp_prover_addresses = replicaAddresses, sp_cid = cid, sp_proof_signature = proofSig\<rparr>
          in bind_result (wrap_err ''failure to marshal proof tx'' (marshal (x_marshal_storage_proof x) proofTx)) (\<lambda>txBytes.
             bind_result (wrap_err ''could not sign proof tx'' (EthSign x (cfg_EthereumKey cfg) txBytes)) (\<lambda>sig.
             Ok \<lparr>st_signature = sig, st_request_id = uuid, st_transaction = Some (TxStorageProof proofTx)\<rparr>)))"

definition submitStorageProofVerificationTx ::
    "ext \<Rightarrow> core_config \<Rightarrow> string \<Rightarrow> int64 \<Rightarrow> bytes \<Rightarrow> signed_transaction result" where
  "submitStorageProofVerificationTx x cfg uuid height proof =
     (let verificationTx = \<lparr>spv_height = height, spv_proof = proof\<rparr>
      in bind_result (wrap_err ''failure to marshal proof tx''
            (marshal (x_marshal_storage_proof_verification x) verificationTx)) (\<lambda>txBytes.
         bind_result (wrap_err ''could not sign proof tx'' (EthSign x (cfg_EthereumKey cfg) txBytes)) (\<lambda>sig.
         Ok \<lparr>st_signature = sig, st_request_id = uuid,
             st_transaction = Some (TxStorageProofVerification verificationTx)\<rparr>)))"

section \<open>Validation\<close>

text \<open>The check of a challenge height that both validations share.\<close>

definition challenge_block :: "core_db \<Rightarrow> int64 \<Rightarrow> unit result" where
  "challenge_block db height =
     bind_result (wrap_err ''failed to get block'' (db_row ''GetBlock'' (GetBlock height) db)) (\<lambda>block.
     bind_result (wrap_err ''failed to decode blockhash'' (hex_decode (b_hash block))) (\<lambda>blockHashBytes.
     if \<not> blockShouldTriggerNewPoSChallenge blockHashBytes
     then Err (Errorf ''block should not trigger a storage proof'') else Ok ()))"

definition isValidStorageProofTx ::
    "ext \<Rightarrow> core_db \<Rightarrow> signed_transaction \<Rightarrow> int64 \<Rightarrow> bool \<Rightarrow> unit result" where
  "isValidStorageProofTx x db tx currentBlockHeight enforceReplicas =
     (if st_signature tx = '''' then Err (Errorf ''no signature provided for storage proof tx'')
      else case get_storage_proof tx of
        None \<Rightarrow> Err (Errorf ''unknown tx fell into isValidStorageProofTx'')
      | Some sp \<Rightarrow>
     bind_result (wrap_err ''could not unmarshal tx bytes'' (marshal (x_marshal_storage_proof x) sp)) (\<lambda>txBytes.
     bind_result (wrap_err ''could not recover signer'' (EthRecover x (st_signature tx) txBytes)) (\<lambda>(k, address).
     bind_result (wrap_err ''could not get validator for address''
         (db_row ''GetRegisteredNodeByEthAddress'' (GetRegisteredNodeByEthAddress address) db)) (\<lambda>node.
     if \<not> equal_fold (v_comet_address node) (sp_address sp)
     then Err (Errorf ''proof is for another address than it was signed by'')
     else if sp_height sp = 0 then Err (Errorf ''invalid height for storage proof'')
     else if wrap64 (currentBlockHeight - sp_height sp) > posChallengeDeadline
     then Err (Errorf ''proof submitted past the deadline'')
     else bind_result (challenge_block db (sp_height sp)) (\<lambda>_.
     case db_row ''GetStorageProofPeers'' (GetStorageProofPeers (sp_height sp)) db of
       Ok peers \<Rightarrow> if enforceReplicas \<and> sp_address sp \<notin> set peers
                   then Err (Errorf ''prover does not belong to replicaset'') else Ok ()
     | _ \<Rightarrow> Ok ())))))"

definition isValidStorageProofVerificationTx ::
    "core_db \<Rightarrow> signed_transaction \<Rightarrow> int64 \<Rightarrow> unit result" where
  "isValidStorageProofVerificationTx db tx currentBlockHeight =
     (case get_storage_proof_verification tx of
        None \<Rightarrow> Err (Errorf ''unknown tx fell into isValidStorageProofVerficationTx'')
      | Some spv \<Rightarrow>
     if spv_height spv = 0 then Err (Errorf ''invalid height for storage proof'')
     else if wrap64 (currentBlockHeight - spv_height spv) \<le> posChallengeDeadline
     then Err (Errorf ''proof submitted before the deadline'')
     else challenge_block db (spv_height spv))"

section \<open>Finalization\<close>

definition finalizeStorageProof ::
    "ext \<Rightarrow> core_db \<Rightarrow> signed_transaction \<Rightarrow> int64 \<Rightarrow> unit stmt" where
  "finalizeStorageProof x db tx blockHeight =
     stmt_bind (stmt_lift (isValidStorageProofTx x db tx blockHeight False)) (\<lambda>_.
     case get_storage_proof tx of
       None \<Rightarrow> stmt_lift (Panic ''nil pointer dereference'')
     | Some sp \<Rightarrow>
         stmt_try (row_stmt ''GetStorageProof'' (GetStorageProof (sp_height sp) (sp_address sp))) (\<lambda>r.
         if r \<noteq> Err (DbErr ErrNoRows) then stmt_return ()
         else stmt_wrap ''could not persist storage proof in db''
                (InsertStorageProof (sp_height sp) (sp_address sp) (sp_cid sp)
                   (b64_encode (sp_proof_signature sp)) (sp_prover_addresses sp))))"

text \<open>
  The first loop of the verification: the provers whose signature matches the proof, in
  order, and how often the matching provers named each peer.
\<close>

definition bump_vote :: "string \<Rightarrow> (string \<times> nat) list \<Rightarrow> (string \<times> nat) list" where
  "bump_vote peer votes =
     AList.update peer (Suc (case map_of votes peer of None \<Rightarrow> 0 | Some n \<Rightarrow> n)) votes"

fun match_proofs ::
    "ext \<Rightarrow> bytes \<Rightarrow> storage_proof_row list \<Rightarrow> string list \<Rightarrow> (string \<times> nat) list
     \<Rightarrow> (string list \<times> (string \<times> nat) list) stmt" where
  "match_proofs x proof [] nodes votes = stmt_return (nodes, votes)"
| "match_proofs x proof (p # ps) nodes votes =
     stmt_bind (stmt_wrap ''could not fetch node''
       (row_stmt ''GetRegisteredNodeByCometAddress'' (GetRegisteredNodeByCometAddress (spr_address p)))) (\<lambda>node.
     stmt_bind (stmt_lift (wrap_err ''could not decode proof signature''
       (b64_decode (case spr_proof_signature p of None \<Rightarrow> '''' | Some s \<Rightarrow> s)))) (\<lambda>sigBytes.
     stmt_bind (stmt_lift (wrap_err ''could not decode public key'' (b64_decode (v_comet_pub_key node)))) (\<lambda>pubKey.
     if x_ed25519_verify x pubKey proof sigBytes
     then match_proofs x proof ps (nodes @ [spr_address p]) (fold bump_vote (spr_prover_addresses p) votes)
     else match_proofs x proof ps nodes votes)))"

fun mark_proofs :: "string \<Rightarrow> int64 \<Rightarrow> string list \<Rightarrow> storage_proof_row list \<Rightarrow> (string \<times> nat) list
     \<Rightarrow> (string \<times> nat) list stmt" where
  "mark_proofs proofStr height nodes [] votes = stmt_return votes"
| "mark_proofs proofStr height nodes (p # ps) votes =
     stmt_bind (stmt_wrap ''could not update storage proof''
       (UpdateStorageProof proofStr (if spr_address p \<in> set nodes then ProofPass else ProofFail)
          height (spr_address p))) (\<lambda>_.
     mark_proofs proofStr height nodes ps (AList.delete (spr_address p) votes))"

text \<open>The missing provers; the error of the insertion is dropped.\<close>

fun fail_missing :: "int64 \<Rightarrow> nat \<Rightarrow> (string \<times> nat) list \<Rightarrow> unit stmt" where
  "fail_missing height majority [] = stmt_return ()"
| "fail_missing height majority ((peer, vote) # rest) =
     (if vote > majority
      then stmt_try (InsertFailedStorageProof height peer) (\<lambda>_. fail_missing height majority rest)
      else fail_missing height majority rest)"

definition finalizeStorageProofVerification ::
    "ext \<Rightarrow> core_db \<Rightarrow> signed_transaction \<Rightarrow> int64 \<Rightarrow> unit stmt" where
  "finalizeStorageProofVerification x db tx currentBlockHeight =
     stmt_bind (stmt_lift (isValidStorageProofVerificationTx db tx currentBlockHeight)) (\<lambda>_.
     case get_storage_proof_verification tx of
       None \<Rightarrow> stmt_lift (Panic ''nil pointer dereference'')
     | Some spv \<Rightarrow>
         stmt_bind (stmt_wrap ''could not fetch storage proofs''
           (rows_stmt ''GetStorageProofs'' (GetStorageProofs (spv_height spv)))) (\<lambda>proofs.
         if proofs = [] \<or> spr_status (hd proofs) \<noteq> ProofUnresolved then stmt_return ()
         else stmt_bind (match_proofs x (spv_proof spv) proofs [] []) (\<lambda>(consensusNodes, consensusPeers).
           if length consensusNodes > length proofs div 2
           then stmt_bind (mark_proofs (hex_encode (spv_proof spv)) (spv_height spv) consensusNodes proofs consensusPeers)
                  (\<lambda>votes. fail_missing (spv_height spv) (length proofs div 2) votes)
           else stmt_return ())))"

section \<open>Counting votes\<close>

lemma bump_vote_lookup:
  "map_of (bump_vote peer votes) = (map_of votes)(peer \<mapsto> Suc (case map_of votes peer of None \<Rightarrow> 0 | Some n \<Rightarrow> n))"
  by (simp add: bump_vote_def fun_eq_iff update_conv')

definition votes_for :: "(string \<times> nat) list \<Rightarrow> string \<Rightarrow> nat" where
  "votes_for votes peer = (case map_of votes peer of None \<Rightarrow> 0 | Some n \<Rightarrow> n)"

lemma votes_for_fold_bump: "votes_for (fold bump_vote xs votes) peer = votes_for votes peer + count_list xs peer"
  by (induction xs arbitrary: votes) (auto simp: votes_for_def bump_vote_lookup)

lemma distinct_votes: "distinct (map fst votes) \<Longrightarrow> distinct (map fst (fold bump_vote xs votes))"
  by (induction xs arbitrary: votes) (auto simp: bump_vote_def intro!: distinct_update)

lemma map_of_fold_delete: "map_of (fold AList.delete ks votes) = (\<lambda>p. if p \<in> set ks then None else map_of votes p)"
  by (induction ks arbitrary: votes) (auto simp: fun_eq_iff delete_conv')

lemma distinct_fold_delete: "distinct (map fst votes) \<Longrightarrow> distinct (map fst (fold AList.delete ks votes))"
  by (induction ks arbitrary: votes) (auto intro: distinct_delete)

section \<open>The loops of the verification\<close>

text \<open>Whether the data the verification needs of a prover is there, and whether it matches.\<close>

definition prover_readable :: "core_db \<Rightarrow> storage_proof_row \<Rightarrow> bool" where
  "prover_readable db p \<longleftrightarrow> (\<exists>node. GetRegisteredNodeByCometAddress (spr_address p) db = Some node
     \<and> is_ok (b64_decode (case spr_proof_signature p of None \<Rightarrow> '''' | Some s \<Rightarrow> s))
     \<and> is_ok (b64_decode (v_comet_pub_key node)))"

definition prover_matches :: "ext \<Rightarrow> core_db \<Rightarrow> bytes \<Rightarrow> storage_proof_row \<Rightarrow> bool" where
  "prover_matches x db proof p \<longleftrightarrow> (\<exists>node sig pk. GetRegisteredNodeByCometAddress (spr_address p) db = Some node
     \<and> b64_decode (case spr_proof_signature p of None \<Rightarrow> '''' | Some s \<Rightarrow> s) = Ok sig
     \<and> b64_decode (v_comet_pub_key node) = Ok pk \<and> x_ed25519_verify x pk proof sig)"

definition pos_queries_ok :: "core_db \<Rightarrow> bool" where
  "pos_queries_ok db \<longleftrightarrow> (\<forall>n \<in> {''GetStorageProofs'', ''GetRegisteredNodeByCometAddress'',
     ''UpdateStorageProof'', ''InsertFailedStorageProof''}. \<not> db_fault db n)"

lemma match_proofs_spec:
  assumes "\<not> tx_aborted tx" and "pos_queries_ok (tx_db tx)" and "\<forall>p \<in> set ps. prover_readable (tx_db tx) p"
  shows "match_proofs x proof ps nodes votes tx =
    (let winners = filter (prover_matches x (tx_db tx) proof) ps in
     (Ok (nodes @ map spr_address winners, fold bump_vote (concat (map spr_prover_addresses winners)) votes), tx))"
  using assms
proof (induction ps arbitrary: nodes votes)
  case Nil
  then show ?case by (simp add: stmt_return_def)
next
  case (Cons p ps)
  then obtain node sig pk where node: "GetRegisteredNodeByCometAddress (spr_address p) (tx_db tx) = Some node"
    and sig: "b64_decode (case spr_proof_signature p of None \<Rightarrow> '''' | Some s \<Rightarrow> s) = Ok sig"
    and pk: "b64_decode (v_comet_pub_key node) = Ok pk"
    by (auto simp: prover_readable_def is_ok_iff)
  have "prover_matches x (tx_db tx) proof p \<longleftrightarrow> x_ed25519_verify x pk proof sig"
    using node sig pk by (auto simp: prover_matches_def)
  with Cons node sig pk show ?case
    by (simp add: stmt_bind_def stmt_wrap_def stmt_lift_def row_stmt_def rows_stmt_def pos_queries_ok_def Let_def)
qed

definition resolve_row :: "string \<Rightarrow> string list \<Rightarrow> storage_proof_row \<Rightarrow> storage_proof_row" where
  "resolve_row proofStr nodes r = r\<lparr>spr_proof := Some proofStr,
     spr_status := (if spr_address r \<in> set nodes then ProofPass else ProofFail)\<rparr>"

lemma mark_proofs_spec:
  assumes "\<not> tx_aborted tx" and "\<not> db_fault (tx_db tx) ''UpdateStorageProof''"
  shows "mark_proofs proofStr h nodes ps votes tx =
    (Ok (fold AList.delete (map spr_address ps) votes),
     tx\<lparr>tx_db := (tx_db tx)\<lparr>storage_proofs := map (\<lambda>r.
        if spr_block_height r = h \<and> spr_address r \<in> spr_address ` set ps
        then resolve_row proofStr nodes r else r) (storage_proofs (tx_db tx))\<rparr>\<rparr>)"
  using assms
proof (induction ps arbitrary: votes tx)
  case Nil
  then show ?case by (simp add: stmt_return_def)
next
  case (Cons p ps)
  let ?st = "if spr_address p \<in> set nodes then ProofPass else ProofFail"
  let ?tx = "tx\<lparr>tx_db := (tx_db tx)\<lparr>storage_proofs := map (\<lambda>r. if spr_block_height r = h \<and> spr_address r = spr_address p
       then r\<lparr>spr_proof := Some proofStr, spr_status := ?st\<rparr> else r) (storage_proofs (tx_db tx))\<rparr>\<rparr>"
  have "UpdateStorageProof proofStr ?st h (spr_address p) tx = (Ok (), ?tx)"
    using Cons.prems by (simp add: UpdateStorageProof_def exec_stmt_def)
  moreover have "mark_proofs proofStr h nodes ps (AList.delete (spr_address p) votes) ?tx =
    (Ok (fold AList.delete (map spr_address ps) (AList.delete (spr_address p) votes)),
     ?tx\<lparr>tx_db := (tx_db ?tx)\<lparr>storage_proofs := map (\<lambda>r.
        if spr_block_height r = h \<and> spr_address r \<in> spr_address ` set ps
        then resolve_row proofStr nodes r else r) (storage_proofs (tx_db ?tx))\<rparr>\<rparr>)"
    using Cons.prems by (intro Cons.IH) simp_all
  moreover have "map (\<lambda>r. if spr_block_height r = h \<and> spr_address r \<in> spr_address ` set ps
        then resolve_row proofStr nodes r else r)
      (map (\<lambda>r. if spr_block_height r = h \<and> spr_address r = spr_address p
        then r\<lparr>spr_proof := Some proofStr, spr_status := ?st\<rparr> else r) rows)
    = map (\<lambda>r. if spr_block_height r = h \<and> spr_address r \<in> spr_address ` set (p # ps)
        then resolve_row proofStr nodes r else r) rows" for rows
    by (auto simp: resolve_row_def)
  ultimately show ?case by (simp add: stmt_bind_def stmt_wrap_def del: map_map)
qed

definition failed_row :: "int64 \<Rightarrow> string \<Rightarrow> storage_proof_row" where
  "failed_row h peer = \<lparr>spr_block_height = h, spr_address = peer, spr_cid = None, spr_proof_signature = None,
     spr_proof = None, spr_prover_addresses = [], spr_status = ProofFail\<rparr>"

lemma fail_missing_spec:
  assumes "\<not> tx_aborted tx" and "\<not> db_fault (tx_db tx) ''InsertFailedStorageProof''"
    and "distinct (map fst votes)" and "\<forall>v \<in> set votes. (fst v, h) \<notin> proof_key ` set (storage_proofs (tx_db tx))"
  shows "fail_missing h n votes tx = (Ok (), tx\<lparr>tx_db := (tx_db tx)\<lparr>storage_proofs :=
      storage_proofs (tx_db tx) @ map (failed_row h \<circ> fst) (filter (\<lambda>v. snd v > n) votes)\<rparr>\<rparr>)"
  using assms
proof (induction votes arbitrary: tx)
  case Nil
  then show ?case by (simp add: stmt_return_def)
next
  case (Cons pv votes)
  obtain peer vote where pv: "pv = (peer, vote)" by (cases pv)
  show ?case
  proof (cases "vote > n")
    case False
    with Cons pv show ?thesis by simp
  next
    case True
    let ?tx = "tx\<lparr>tx_db := (tx_db tx)\<lparr>storage_proofs := storage_proofs (tx_db tx) @ [failed_row h peer]\<rparr>\<rparr>"
    have "InsertFailedStorageProof h peer tx = (Ok (), ?tx)"
      using Cons.prems pv
      by (simp add: InsertFailedStorageProof_def exec_stmt_def insert_unique_def failed_row_def proof_key_def)
    moreover have "fail_missing h n votes ?tx = (Ok (), ?tx\<lparr>tx_db := (tx_db ?tx)\<lparr>storage_proofs :=
      storage_proofs (tx_db ?tx) @ map (failed_row h \<circ> fst) (filter (\<lambda>v. snd v > n) votes)\<rparr>\<rparr>)"
      using Cons.prems pv by (intro Cons.IH) (auto simp: failed_row_def proof_key_def)
    ultimately show ?thesis using True pv by (simp add: stmt_try_def)
  qed
qed

section \<open>Resolution of a challenge\<close>

lemma verification_run:
  assumes valid: "isValidStorageProofVerificationTx db vtx height = Ok ()"
    and tx: "st_transaction vtx = Some (TxStorageProofVerification spv)"
    and live: "\<not> tx_aborted ptx" "pos_queries_ok (tx_db ptx)"
    and proofs: "proofs = GetStorageProofs (spv_height spv) (tx_db ptx)" "proofs \<noteq> []"
      "spr_status (hd proofs) = ProofUnresolved" "\<forall>p \<in> set proofs. prover_readable (tx_db ptx) p"
    and winners: "winners = filter (prover_matches x (tx_db ptx) (spv_proof spv)) proofs"
  shows "finalizeStorageProofVerification x db vtx height ptx =
    (if length winners > length proofs div 2
     then stmt_bind (mark_proofs (hex_encode (spv_proof spv)) (spv_height spv) (map spr_address winners) proofs
            (fold bump_vote (concat (map spr_prover_addresses winners)) []))
          (\<lambda>votes. fail_missing (spv_height spv) (length proofs div 2) votes) ptx
     else (Ok (), ptx))"
proof -
  have "rows_stmt ''GetStorageProofs'' (GetStorageProofs (spv_height spv)) ptx = (Ok proofs, ptx)"
    using live proofs(1) by (simp add: rows_stmt_def pos_queries_ok_def)
  moreover have "match_proofs x (spv_proof spv) proofs [] [] ptx =
      (Ok (map spr_address winners, fold bump_vote (concat (map spr_prover_addresses winners)) []), ptx)"
    using match_proofs_spec [OF live proofs(4)] winners by (simp add: Let_def)
  ultimately show ?thesis
    using valid tx proofs
    by (simp add: finalizeStorageProofVerification_def getter_defs stmt_bind_def stmt_lift_def stmt_wrap_def
        stmt_return_def)
qed

lemma resolved_table:
  assumes valid: "isValidStorageProofVerificationTx db vtx height = Ok ()"
    and tx: "st_transaction vtx = Some (TxStorageProofVerification spv)"
    and live: "\<not> tx_aborted ptx" "pos_queries_ok (tx_db ptx)"
    and proofs: "proofs = GetStorageProofs (spv_height spv) (tx_db ptx)" "proofs \<noteq> []"
      "spr_status (hd proofs) = ProofUnresolved" "\<forall>p \<in> set proofs. prover_readable (tx_db ptx) p"
    and winners: "winners = filter (prover_matches x (tx_db ptx) (spv_proof spv)) proofs"
      "length winners > length proofs div 2"
  shows "\<exists>missing ptx'. finalizeStorageProofVerification x db vtx height ptx = (Ok (), ptx')
    \<and> \<not> tx_aborted ptx' \<and> distinct missing
    \<and> set missing = {peer. peer \<notin> spr_address ` set proofs
         \<and> count_list (concat (map spr_prover_addresses winners)) peer > length proofs div 2}
    \<and> GetStorageProofs (spv_height spv) (tx_db ptx') =
        map (resolve_row (hex_encode (spv_proof spv)) (map spr_address winners)) proofs
        @ map (failed_row (spv_height spv)) missing"
proof -
  let ?h = "spv_height spv" and ?str = "hex_encode (spv_proof spv)" and ?nodes = "map spr_address winners"
  let ?upd = "\<lambda>r. if spr_block_height r = ?h \<and> spr_address r \<in> spr_address ` set proofs
        then resolve_row ?str ?nodes r else r"
  define names where "names = concat (map spr_prover_addresses winners)"
  define votes where "votes = fold AList.delete (map spr_address proofs) (fold bump_vote names [])"
  define rows where "rows = map ?upd (storage_proofs (tx_db ptx))"
  define tx where "tx = ptx\<lparr>tx_db := (tx_db ptx)\<lparr>storage_proofs := rows\<rparr>\<rparr>"
  define missing where "missing = map fst (filter (\<lambda>v. snd v > length proofs div 2) votes)"
  have dist: "distinct (map fst votes)" by (simp add: votes_def distinct_fold_delete distinct_votes)
  have "proof_key (?upd r) = proof_key r" for r by (simp add: resolve_row_def proof_key_def)
  then have keys: "proof_key ` set rows = proof_key ` set (storage_proofs (tx_db ptx))"
    unfolding rows_def by (simp only: set_map image_image)
  have mem: "(peer, v) \<in> set votes \<longleftrightarrow> peer \<notin> spr_address ` set proofs
      \<and> map_of (fold bump_vote names []) peer = Some v" for peer v
    unfolding map_of_eq_Some_iff [OF dist, symmetric] by (simp add: votes_def map_of_fold_delete)
  have fresh: "\<forall>v \<in> set votes. (fst v, ?h) \<notin> proof_key ` set (storage_proofs (tx_db tx))"
  proof
    fix v assume "v \<in> set votes"
    then have "fst v \<notin> spr_address ` set proofs" using mem [of "fst v" "snd v"] by simp
    then have "(fst v, ?h) \<notin> proof_key ` set (storage_proofs (tx_db ptx))"
      using proofs(1) by (auto simp: proof_key_def GetStorageProofs_def)
    then show "(fst v, ?h) \<notin> proof_key ` set (storage_proofs (tx_db tx))"
      by (simp add: tx_def keys)
  qed
  have "finalizeStorageProofVerification x db vtx height ptx = fail_missing ?h (length proofs div 2) votes tx"
    using verification_run [OF valid tx live proofs winners(1)] winners(2) live
    by (simp add: stmt_bind_def mark_proofs_spec pos_queries_ok_def votes_def names_def tx_def rows_def)
  also have "\<dots> = (Ok (), tx\<lparr>tx_db := (tx_db tx)\<lparr>storage_proofs := rows @ map (failed_row ?h) missing\<rparr>\<rparr>)"
    using fail_missing_spec [OF _ _ dist fresh, of "length proofs div 2"] live
    by (simp add: tx_def pos_queries_ok_def missing_def comp_def)
  finally have run: "finalizeStorageProofVerification x db vtx height ptx = \<dots>" .
  have missing: "peer \<in> set missing \<longleftrightarrow> peer \<notin> spr_address ` set proofs \<and> count_list names peer > length proofs div 2" for peer
  proof -
    have "peer \<in> set missing \<longleftrightarrow> (\<exists>v. (peer, v) \<in> set votes \<and> v > length proofs div 2)"
      by (force simp: missing_def)
    also have "\<dots> \<longleftrightarrow> peer \<notin> spr_address ` set proofs \<and> votes_for (fold bump_vote names []) peer > length proofs div 2"
      by (auto simp: mem votes_for_def split: option.splits)
    finally show ?thesis by (simp add: votes_for_fold_bump) (simp add: votes_for_def)
  qed
  have dist_missing: "distinct missing" unfolding missing_def using dist by (rule distinct_map_filter)
  have "filter (\<lambda>r. spr_block_height r = ?h) (map ?upd rs) = map (resolve_row ?str ?nodes) (filter (\<lambda>r. spr_block_height r = ?h) rs)"
    if "\<forall>r \<in> set rs. spr_block_height r = ?h \<longrightarrow> r \<in> set proofs" for rs
    using that by (induction rs) (auto simp: resolve_row_def)
  then have rows: "filter (\<lambda>r. spr_block_height r = ?h) rows = map (resolve_row ?str ?nodes) proofs"
    unfolding rows_def by (simp add: proofs(1) GetStorageProofs_def)
  have failed: "filter (\<lambda>r. spr_block_height r = ?h) (map (failed_row ?h) ps) = map (failed_row ?h) ps" for ps
    by (simp add: filter_id_conv failed_row_def)
  show ?thesis
  proof (intro exI conjI)
    show "GetStorageProofs ?h (tx_db (tx\<lparr>tx_db := (tx_db tx)\<lparr>storage_proofs := rows @ map (failed_row ?h) missing\<rparr>\<rparr>))
      = map (resolve_row ?str ?nodes) proofs @ map (failed_row ?h) missing"
      by (simp add: GetStorageProofs_def rows failed)
    show "set missing = {peer. peer \<notin> spr_address ` set proofs
         \<and> count_list (concat (map spr_prover_addresses winners)) peer > length proofs div 2}"
      using missing by (auto simp: names_def)
  qed (use run dist_missing live in \<open>simp_all add: tx_def\<close>)
qed

section \<open>Properties\<close>

text \<open>
  (C13) A revealed proof resolves an open challenge exactly when more than half of the stored
  signatures match it: then every prover of the challenge is marked, as passed if its signature
  matched and as failed if not, a failed row is added for each other peer that the matching
  provers named more than half as often as there are proofs, the transaction stays usable, and
  any later verification of that height is a no-op. Otherwise nothing changes.
\<close>

theorem verification_resolves:
  assumes valid: "isValidStorageProofVerificationTx db vtx height = Ok ()"
    and tx: "st_transaction vtx = Some (TxStorageProofVerification spv)"
    and live: "\<not> tx_aborted ptx" "pos_queries_ok (tx_db ptx)"
    and proofs: "GetStorageProofs (spv_height spv) (tx_db ptx) = p # ps"
      "spr_status p = ProofUnresolved" "\<forall>q \<in> set (p # ps). prover_readable (tx_db ptx) q"
  shows "\<exists>ptx'. finalizeStorageProofVerification x db vtx height ptx = (Ok (), ptx') \<and> \<not> tx_aborted ptx'
    \<and> (let winners = filter (prover_matches x (tx_db ptx) (spv_proof spv)) (p # ps) in
       if length winners > length (p # ps) div 2
       then (\<exists>missing. GetStorageProofs (spv_height spv) (tx_db ptx') =
               map (resolve_row (hex_encode (spv_proof spv)) (map spr_address winners)) (p # ps)
               @ map (failed_row (spv_height spv)) missing
             \<and> set missing = {peer. peer \<notin> spr_address ` set (p # ps)
                 \<and> count_list (concat (map spr_prover_addresses winners)) peer > length (p # ps) div 2})
           \<and> (\<forall>y \<in> set (GetStorageProofs (spv_height spv) (tx_db ptx')). spr_status y \<noteq> ProofUnresolved)
       else ptx' = ptx)"
proof -
  let ?winners = "filter (prover_matches x (tx_db ptx) (spv_proof spv)) (p # ps)"
  have hd: "spr_status (hd (p # ps)) = ProofUnresolved" using proofs by simp
  show ?thesis
  proof (cases "length ?winners > length (p # ps) div 2")
    case True
    from resolved_table [OF valid tx live proofs(1) [symmetric] list.distinct(2) hd proofs(3) refl True]
    obtain missing ptx' where run: "finalizeStorageProofVerification x db vtx height ptx = (Ok (), ptx')"
      "\<not> tx_aborted ptx'" and miss: "set missing = {peer. peer \<notin> spr_address ` set (p # ps)
         \<and> count_list (concat (map spr_prover_addresses ?winners)) peer > length (p # ps) div 2}"
      and rows: "GetStorageProofs (spv_height spv) (tx_db ptx') =
        map (resolve_row (hex_encode (spv_proof spv)) (map spr_address ?winners)) (p # ps)
        @ map (failed_row (spv_height spv)) missing" by blast
    have "\<forall>y \<in> set (GetStorageProofs (spv_height spv) (tx_db ptx')). spr_status y \<noteq> ProofUnresolved"
      unfolding rows by (auto simp: resolve_row_def failed_row_def split: if_splits)
    with run rows miss True show ?thesis
      unfolding Let_def if_P [OF True] by blast
  next
    case False
    have "finalizeStorageProofVerification x db vtx height ptx = (Ok (), ptx)"
      unfolding verification_run [OF valid tx live proofs(1) [symmetric] list.distinct(2) hd proofs(3) refl] if_not_P [OF False] ..
    with False live show ?thesis unfolding Let_def if_not_P [OF False] by blast
  qed
qed

lemma verification_noop_if_resolved:
  assumes "isValidStorageProofVerificationTx db vtx height = Ok ()"
    and "st_transaction vtx = Some (TxStorageProofVerification spv)"
    and "\<not> tx_aborted ptx" and "\<not> db_fault (tx_db ptx) ''GetStorageProofs''"
    and "\<forall>y \<in> set (GetStorageProofs (spv_height spv) (tx_db ptx)). spr_status y \<noteq> ProofUnresolved"
  shows "finalizeStorageProofVerification x db vtx height ptx = (Ok (), ptx)"
proof -
  have "rows_stmt ''GetStorageProofs'' (GetStorageProofs (spv_height spv)) ptx
      = (Ok (GetStorageProofs (spv_height spv) (tx_db ptx)), ptx)"
    using assms by (simp add: rows_stmt_def)
  with assms show ?thesis
    by (cases "GetStorageProofs (spv_height spv) (tx_db ptx)")
      (simp_all add: finalizeStorageProofVerification_def getter_defs stmt_bind_def stmt_lift_def stmt_wrap_def
        stmt_return_def)
qed

text \<open>
  The peers a prover names are counted with their repetitions: one matching prover that
  repeats an address often enough gets a failed proof recorded for it, even when no other
  prover names that address.
\<close>

theorem repeated_peer_outvotes_majority:
  assumes valid: "isValidStorageProofVerificationTx db vtx height = Ok ()"
    and tx: "st_transaction vtx = Some (TxStorageProofVerification spv)"
    and live: "\<not> tx_aborted ptx" "pos_queries_ok (tx_db ptx)"
    and proofs: "GetStorageProofs (spv_height spv) (tx_db ptx) = p # ps"
      "spr_status p = ProofUnresolved" "\<forall>q \<in> set (p # ps). prover_readable (tx_db ptx) q"
    and majority: "length (filter (prover_matches x (tx_db ptx) (spv_proof spv)) (p # ps)) > length (p # ps) div 2"
    and liar: "q \<in> set (p # ps)" "prover_matches x (tx_db ptx) (spv_proof spv) q"
      "count_list (spr_prover_addresses q) victim > length (p # ps) div 2"
    and victim: "victim \<notin> spr_address ` set (p # ps)"
  shows "failed_row (spv_height spv) victim
    \<in> set (GetStorageProofs (spv_height spv) (tx_db (snd (finalizeStorageProofVerification x db vtx height ptx))))"
proof -
  define winners where "winners = filter (prover_matches x (tx_db ptx) (spv_proof spv)) (p # ps)"
  have hd: "spr_status (hd (p # ps)) = ProofUnresolved" using proofs by simp
  have "count_list (concat (map f ws)) v \<ge> count_list (f q) v" if "q \<in> set ws"
    for ws :: "storage_proof_row list" and f :: "storage_proof_row \<Rightarrow> string list" and v
    using that by (induction ws) auto
  moreover have "q \<in> set winners" using liar unfolding winners_def set_filter by blast
  ultimately have "count_list (concat (map spr_prover_addresses winners)) victim > length (p # ps) div 2"
    using liar(3) by (meson less_le_trans)
  moreover from resolved_table [OF valid tx live proofs(1) [symmetric] list.distinct(2) hd proofs(3) winners_def]
    majority [folded winners_def]
  obtain missing ptx' where "finalizeStorageProofVerification x db vtx height ptx = (Ok (), ptx')"
    and "set missing = {peer. peer \<notin> spr_address ` set (p # ps)
         \<and> count_list (concat (map spr_prover_addresses winners)) peer > length (p # ps) div 2}"
    and "GetStorageProofs (spv_height spv) (tx_db ptx') =
        map (resolve_row (hex_encode (spv_proof spv)) (map spr_address winners)) (p # ps)
        @ map (failed_row (spv_height spv)) missing" by blast
  ultimately show ?thesis using victim by auto
qed

text \<open>
  One stored proof whose address is not exactly the CometBFT address of a registered node
  blocks its challenge: whatever proof is revealed, the verification returns an error before
  any prover is marked. Such a row can be stored, because the address of a proof is compared
  with the signer's only up to case.
\<close>

theorem unreadable_prover_blocks_challenge:
  assumes valid: "isValidStorageProofVerificationTx db vtx height = Ok ()"
    and tx: "st_transaction vtx = Some (TxStorageProofVerification spv)"
    and live: "\<not> tx_aborted ptx" "pos_queries_ok (tx_db ptx)"
    and first: "spr_status (hd (GetStorageProofs (spv_height spv) (tx_db ptx))) = ProofUnresolved"
    and q: "q \<in> set (GetStorageProofs (spv_height spv) (tx_db ptx))"
      "GetRegisteredNodeByCometAddress (spr_address q) (tx_db ptx) = None"
  shows "\<exists>e. finalizeStorageProofVerification x db vtx height ptx = (Err e, ptx)"
proof -
  have stuck: "\<exists>e. match_proofs x pf qs nodes votes ptx = (Err e, ptx)" if "q \<in> set qs" for qs pf nodes votes
    using that
  proof (induction qs arbitrary: nodes votes)
    case (Cons r rs)
    have step: "row_stmt ''GetRegisteredNodeByCometAddress'' (GetRegisteredNodeByCometAddress a) ptx =
        (case GetRegisteredNodeByCometAddress a (tx_db ptx) of None \<Rightarrow> Err (DbErr ErrNoRows) | Some n \<Rightarrow> Ok n, ptx)" for a
      using live by (simp add: row_stmt_def rows_stmt_def stmt_bind_def stmt_lift_def pos_queries_ok_def)
    have nopanic: "b64_decode s \<noteq> Panic pn" for s pn by (rule b64_decode_no_panic)
    show ?case
    proof (cases "r = q")
      case True
      then show ?thesis using q(2) by (simp add: stmt_bind_def stmt_wrap_def step)
    next
      case False
      with Cons show ?thesis
        by (auto simp: stmt_bind_def stmt_wrap_def stmt_lift_def step go_simps nopanic
            split: option.splits result.splits)
    qed
  qed simp
  let ?proofs = "GetStorageProofs (spv_height spv) (tx_db ptx)"
  have "rows_stmt ''GetStorageProofs'' (GetStorageProofs (spv_height spv)) ptx = (Ok ?proofs, ptx)"
    using live by (simp add: rows_stmt_def pos_queries_ok_def)
  moreover obtain e where "match_proofs x (spv_proof spv) ?proofs [] [] ptx = (Err e, ptx)"
    using stuck q(1) by blast
  moreover have "?proofs \<noteq> []" using q(1) by auto
  ultimately show ?thesis
    using valid tx first
    by (simp add: finalizeStorageProofVerification_def getter_defs stmt_bind_def stmt_lift_def stmt_wrap_def)
qed

section \<open>A concrete challenge\<close>

text \<open>
  Three provers of a challenge at height 16 with one-byte keys; in the demonstration scheme a
  signature is the key followed by the message. The first prover names the address \<open>V\<close> twice.
\<close>

definition demo_prover :: "string \<Rightarrow> byte \<Rightarrow> validator_row" where
  "demo_prover comet k = \<lparr>v_pub_key = '''', v_endpoint = '''', v_eth_address = string_of [k],
     v_comet_address = comet, v_comet_pub_key = b64_encode [k], v_eth_block = '''', v_node_type = '''', v_sp_id = ''''\<rparr>"

definition demo_proof_row :: "string \<Rightarrow> byte \<Rightarrow> byte \<Rightarrow> string list \<Rightarrow> storage_proof_row" where
  "demo_proof_row comet k m named = \<lparr>spr_block_height = 16, spr_address = comet, spr_cid = Some ''c'',
     spr_proof_signature = Some (b64_encode [k, m]), spr_proof = None, spr_prover_addresses = named,
     spr_status = ProofUnresolved\<rparr>"

definition demo_challenge_db :: core_db where
  "demo_challenge_db = empty_db\<lparr>
     core_validators := [demo_prover ''A'' 1, demo_prover ''B'' 2, demo_prover ''C'' 3],
     core_blocks := [\<lparr>b_height = 16, b_chain_id = ''audius'', b_hash = ''00'', b_proposer = ''A'', b_created_at = 0\<rparr>],
     storage_proofs := [demo_proof_row ''A'' 1 9 [''V'', ''V''], demo_proof_row ''B'' 2 9 [], demo_proof_row ''C'' 3 8 []]\<rparr>"

definition demo_verification :: storage_proof_verification_msg where
  "demo_verification = \<lparr>spv_height = 16, spv_proof = [9]\<rparr>"

definition demo_verification_tx :: signed_transaction where
  "demo_verification_tx = \<lparr>st_signature = '''', st_request_id = '''',
     st_transaction = Some (TxStorageProofVerification demo_verification)\<rparr>"

lemma demo_verification_valid: "isValidStorageProofVerificationTx demo_challenge_db demo_verification_tx 20 = Ok ()"
  by code_simp

lemma demo_challenge_facts:
  "\<not> tx_aborted (begin_tx demo_challenge_db)" "pos_queries_ok (tx_db (begin_tx demo_challenge_db))"
  "GetStorageProofs (spv_height demo_verification) (tx_db (begin_tx demo_challenge_db)) =
     [demo_proof_row ''A'' 1 9 [''V'', ''V''], demo_proof_row ''B'' 2 9 [], demo_proof_row ''C'' 3 8 []]"
  "spr_status (demo_proof_row a k m named) = ProofUnresolved"
  by (simp_all add: begin_tx_def demo_challenge_db_def empty_db_def pos_queries_ok_def GetStorageProofs_def
      demo_verification_def demo_proof_row_def)

lemma demo_provers:
  "GetRegisteredNodeByCometAddress ''A'' (tx_db (begin_tx demo_challenge_db)) = Some (demo_prover ''A'' 1)"
  "GetRegisteredNodeByCometAddress ''B'' (tx_db (begin_tx demo_challenge_db)) = Some (demo_prover ''B'' 2)"
  "GetRegisteredNodeByCometAddress ''C'' (tx_db (begin_tx demo_challenge_db)) = Some (demo_prover ''C'' 3)"
  by (simp_all add: GetRegisteredNodeByCometAddress_def begin_tx_def demo_challenge_db_def demo_prover_def)

lemma demo_prover_simps:
  "spr_address (demo_proof_row a k m named) = a" "spr_prover_addresses (demo_proof_row a k m named) = named"
  "spr_proof_signature (demo_proof_row a k m named) = Some (b64_encode [k, m])"
  "v_comet_pub_key (demo_prover a k) = b64_encode [k]"
  "x_ed25519_verify demo_ext pk msg sig \<longleftrightarrow> sig = pk @ msg"
  by (simp_all add: demo_proof_row_def demo_prover_def demo_ext_def)

lemma demo_provers_readable:
  "\<forall>q \<in> set [demo_proof_row ''A'' 1 9 [''V'', ''V''], demo_proof_row ''B'' 2 9 [], demo_proof_row ''C'' 3 8 []].
     prover_readable (tx_db (begin_tx demo_challenge_db)) q"
  by (simp add: prover_readable_def demo_provers demo_prover_simps del: b64_encode.simps)

lemma demo_winners:
  "filter (prover_matches demo_ext (tx_db (begin_tx demo_challenge_db)) (spv_proof demo_verification))
     [demo_proof_row ''A'' 1 9 [''V'', ''V''], demo_proof_row ''B'' 2 9 [], demo_proof_row ''C'' 3 8 []]
   = [demo_proof_row ''A'' 1 9 [''V'', ''V''], demo_proof_row ''B'' 2 9 []]"
  by (simp add: prover_matches_def demo_provers demo_prover_simps demo_verification_def
      del: b64_encode.simps)

theorem verification_resolves_witness:
  "\<exists>tx. finalizeStorageProofVerification demo_ext demo_challenge_db demo_verification_tx 20
          (begin_tx demo_challenge_db) = (Ok (), tx)
     \<and> (\<forall>y \<in> set (GetStorageProofs 16 (tx_db tx)). spr_status y \<noteq> ProofUnresolved)"
proof -
  have st: "st_transaction demo_verification_tx = Some (TxStorageProofVerification demo_verification)"
    by (simp add: demo_verification_tx_def)
  have h: "spv_height demo_verification = 16" by (simp add: demo_verification_def)
  from verification_resolves [OF demo_verification_valid st demo_challenge_facts(1-4) demo_provers_readable, of demo_ext]
  show ?thesis unfolding demo_winners Let_def h by auto
qed

theorem repeated_peer_outvotes_majority_witness:
  "failed_row 16 ''V'' \<in> set (GetStorageProofs 16 (tx_db (snd
     (finalizeStorageProofVerification demo_ext demo_challenge_db demo_verification_tx 20 (begin_tx demo_challenge_db)))))"
proof -
  have st: "st_transaction demo_verification_tx = Some (TxStorageProofVerification demo_verification)"
    by (simp add: demo_verification_tx_def)
  have "prover_matches demo_ext (tx_db (begin_tx demo_challenge_db)) (spv_proof demo_verification)
     (demo_proof_row ''A'' 1 9 [''V'', ''V''])"
    by (simp add: prover_matches_def demo_provers demo_prover_simps demo_verification_def
        del: b64_encode.simps)
  from repeated_peer_outvotes_majority [OF demo_verification_valid st demo_challenge_facts(1-4)
      demo_provers_readable _ _ this, of "''V''"]
  show ?thesis unfolding demo_winners by (simp add: demo_prover_simps) (simp add: demo_verification_def)
qed

text \<open>A proof under the lower-case form of an address is accepted and blocks its challenge.\<close>

definition demo_lower_tx :: signed_transaction where
  "demo_lower_tx = \<lparr>st_signature = ''01'', st_request_id = '''',
     st_transaction = Some (TxStorageProof \<lparr>sp_height = 16, sp_address = ''a'', sp_prover_addresses = [],
       sp_cid = ''c'', sp_proof_signature = [1, 9]\<rparr>)\<rparr>"

definition demo_blocked_db :: core_db where
  "demo_blocked_db = demo_challenge_db\<lparr>storage_proofs := [demo_proof_row ''a'' 1 9 []]\<rparr>"

theorem unreadable_prover_blocks_challenge_witness:
  "isValidStorageProofTx demo_ext demo_blocked_db demo_lower_tx 17 False = Ok ()
   \<and> (\<exists>e. finalizeStorageProofVerification demo_ext demo_blocked_db demo_verification_tx 20
            (begin_tx demo_blocked_db) = (Err e, begin_tx demo_blocked_db))"
proof
  show "isValidStorageProofTx demo_ext demo_blocked_db demo_lower_tx 17 False = Ok ()" by code_simp
  have valid: "isValidStorageProofVerificationTx demo_blocked_db demo_verification_tx 20 = Ok ()" by code_simp
  have st: "st_transaction demo_verification_tx = Some (TxStorageProofVerification demo_verification)"
    by (simp add: demo_verification_tx_def)
  show "\<exists>e. finalizeStorageProofVerification demo_ext demo_blocked_db demo_verification_tx 20
            (begin_tx demo_blocked_db) = (Err e, begin_tx demo_blocked_db)"
    by (rule unreadable_prover_blocks_challenge [OF valid st, where q = "demo_proof_row ''a'' 1 9 []"])
      (simp_all add: begin_tx_def demo_blocked_db_def demo_challenge_db_def empty_db_def pos_queries_ok_def
        GetStorageProofs_def demo_verification_def demo_proof_row_def GetRegisteredNodeByCometAddress_def demo_prover_def)
qed

lemma abort_proof_loops [abort_intros]:
  "respects_abort (match_proofs x pf ps nodes votes)"
  "respects_abort (mark_proofs s h nodes ps votes)"
  "respects_abort (fail_missing h n votes)"
proof -
  show "respects_abort (match_proofs x pf ps nodes votes)"
    by (induction ps arbitrary: nodes votes) (auto intro!: abort_intros)
  show "respects_abort (mark_proofs s h nodes ps votes)"
    by (induction s h nodes ps votes rule: mark_proofs.induct)
      (auto simp: UpdateStorageProof_def intro!: abort_intros)
  show "respects_abort (fail_missing h n votes)"
    by (induction h n votes rule: fail_missing.induct)
      (auto simp: InsertFailedStorageProof_def intro!: abort_intros)
qed

lemma abort_storage_handlers [abort_intros]:
  "respects_abort (finalizeStorageProof x db tx h)"
  "respects_abort (finalizeStorageProofVerification x db tx h)"
  unfolding finalizeStorageProof_def finalizeStorageProofVerification_def InsertStorageProof_def
  by (auto split: option.splits prod.splits intro!: abort_intros)

text \<open>
  A valid storage proof that names no prover fails on the column of the provers and aborts the transaction of
  its block. The check of storage proofs does not look at the provers, and a node whose query of the replicas
  failed sends such a proof.
\<close>

theorem proof_without_provers_aborts:
  assumes "isValidStorageProofTx x db tx h False = Ok ()" and "get_storage_proof tx = Some sp" and "sp_prover_addresses sp = []"
    and "\<not> tx_aborted t" and "fst (row_stmt ''GetStorageProof'' (GetStorageProof (sp_height sp) (sp_address sp)) t) = Err (DbErr ErrNoRows)"
  shows "\<exists>e t'. finalizeStorageProof x db tx h t = (Err e, t') \<and> tx_aborted t'"
proof -
  obtain t1 where row: "row_stmt ''GetStorageProof'' (GetStorageProof (sp_height sp) (sp_address sp)) t = (Err (DbErr ErrNoRows), t1)"
    using assms(5) by (metis prod.collapse)
  then have "\<not> tx_aborted t1" using assms(4) by (auto simp: row_stmt_def stmt_bind_def rows_stmt_def stmt_lift_def split: if_splits option.splits)
  then show ?thesis using assms(1-3) row
    by (auto simp: finalizeStorageProof_def stmt_bind_def stmt_lift_def stmt_try_def stmt_wrap_def InsertStorageProof_def exec_stmt_def)
qed

end
