(* ===== verification/Distribution.thy ===== *)
theory Distribution
  imports Common Core_Db
begin

text \<open>
  Content on the chain: plays, entity management and releases, which are only recorded
  (\<^verbatim>\<open>plays.go\<close>, \<^verbatim>\<open>manage_entity.go\<close>, \<^verbatim>\<open>release.go\<close>), file uploads (\<^verbatim>\<open>files.go\<close>) and the version 2
  transactions that carry DDEX messages (\<^verbatim>\<open>transaction_v2.go\<close>, \<^verbatim>\<open>ern.go\<close>, \<^verbatim>\<open>mead.go\<close>, \<^verbatim>\<open>pie.go\<close>).
\<close>

section \<open>Recorded transactions\<close>

definition isValidPlayTransaction :: "signed_transaction \<Rightarrow> unit result" where
  "isValidPlayTransaction stx = Ok ()"

definition finalizePlayTransaction :: "signed_transaction \<Rightarrow> track_play list result" where
  "finalizePlayTransaction stx =
     bind_result (wrap_err ''invalid play tx'' (isValidPlayTransaction stx)) (\<lambda>_.
     case get_plays stx of None \<Rightarrow> Err (Errorf ''invalid play tx'') | Some tx \<Rightarrow> Ok tx)"

definition validateManageEntity :: "signed_transaction \<Rightarrow> manage_entity_legacy result" where
  "validateManageEntity stx =
     (case get_manage_entity stx of None \<Rightarrow> Err (Errorf ''not manage entity'') | Some m \<Rightarrow> Ok m)"

definition finalizeManageEntity :: "signed_transaction \<Rightarrow> manage_entity_legacy result" where
  "finalizeManageEntity stx = wrap_err ''invalid manage entity'' (validateManageEntity stx)"

definition isValidReleaseTx :: "signed_transaction \<Rightarrow> unit result" where
  "isValidReleaseTx tx = Ok ()"

definition finalizeRelease :: "signed_transaction \<Rightarrow> unit result" where
  "finalizeRelease tx = Ok ()"

section \<open>File uploads (files.go)\<close>

definition isValidFileUpload :: "ext \<Rightarrow> core_config \<Rightarrow> core_db \<Rightarrow> signed_transaction \<Rightarrow> unit result" where
  "isValidFileUpload x cfg db tx =
     (if \<not> cfg_ProgrammableDistributionEnabled cfg
      then Err (Errorf ''programmable distribution is not enabled in this environment'')
      else case get_file_upload tx of
        None \<Rightarrow> Err (Errorf ''file upload not present'')
      | Some fu \<Rightarrow>
     if fu_upload_signature fu = '''' then Err (Errorf ''no signature in file upload'')
     else if fu_uploader_address fu = '''' then Err (Errorf ''not uploader address'')
     else if fu_cid fu = '''' then Err (Errorf ''no cid provided'')
     else bind_result (wrap_err ''could not marshal sig data'' (marshal (x_marshal_upload_signature x) (fu_cid fu))) (\<lambda>sigDataBytes.
     bind_result (wrap_err ''could not recover eth key'' (EthRecover x (fu_upload_signature fu) sigDataBytes)) (\<lambda>(k, address).
     if address \<noteq> fu_uploader_address fu then Err (Errorf ''uploader and signer mismatch'')
     else if fu_transcoded_cid fu = '''' then Err (Errorf ''no transcoded cid provided'')
     else if fu_validator_signature fu = '''' then Err (Errorf ''no validator signature provided'')
     else if fu_validator_address fu = '''' then Err (Errorf ''no validator address provided'')
     else bind_result (wrap_err ''could not marshal validator sig data''
         (marshal (x_marshal_upload_signature x) (fu_transcoded_cid fu))) (\<lambda>validatorSigDataBytes.
     bind_result (wrap_err ''could not recover validator eth key''
         (EthRecover x (fu_validator_signature fu) validatorSigDataBytes)) (\<lambda>(k', recoveredValidatorAddress).
     if \<not> equal_fold recoveredValidatorAddress (fu_validator_address fu)
     then Err (Errorf ''validator address and signer mismatch'')
     else bind_result (wrap_err ''could not get validators'' (db_rows ''GetAllRegisteredNodes'' GetAllRegisteredNodes db)) (\<lambda>validators.
     if \<not> list_ex (\<lambda>v. equal_fold (v_eth_address v) (fu_validator_address fu)) validators
     then Err (Errorf ''validator is not a registered content/storage node'')
     else Ok ()))))))"

definition finalizeFileUpload ::
    "ext \<Rightarrow> core_config \<Rightarrow> core_db \<Rightarrow> signed_transaction \<Rightarrow> string \<Rightarrow> int64 \<Rightarrow> unit stmt" where
  "finalizeFileUpload x cfg db tx txHash blockHeight =
     (if \<not> cfg_ProgrammableDistributionEnabled cfg
      then stmt_lift (Err (Errorf ''programmable distribution is not enabled in this environment''))
      else stmt_bind (stmt_lift (isValidFileUpload x cfg db tx)) (\<lambda>_.
        case get_file_upload tx of
          None \<Rightarrow> stmt_lift (Err (Errorf ''finalizeFileUpload called with invalid tx''))
        | Some fu \<Rightarrow> stmt_wrap ''could not store file upload tx'' (InsertFileUpload
            \<lparr>up_uploader_address = fu_uploader_address fu, up_cid = fu_cid fu,
             up_transcoded_cid = fu_transcoded_cid fu, up_upid = fu_upload_id fu,
             up_upload_signature = fu_upload_signature fu, up_validator_address = fu_validator_address fu,
             up_validator_signature = fu_validator_signature fu, up_tx_hash = txHash,
             up_block_height = blockHeight\<rparr>)))"

section \<open>ERN messages (ern.go)\<close>

definition OAPNamespace :: string where
  "OAPNamespace = ''OAP''"

text \<open>The last proprietary id in the namespace that is an Ethereum address.\<close>

definition getERNOAPMessageSender :: "ext \<Rightarrow> new_release_message \<Rightarrow> string" where
  "getERNOAPMessageSender x msg =
     (case Option.bind (Option.bind (nrm_header msg) mh_sender) ms_party_id of
        None \<Rightarrow> ''''
      | Some pi \<Rightarrow> fold (\<lambda>pri oapAddress.
            if pid_namespace pri = OAPNamespace \<and> x_IsHexAddress x (pid_id pri) then pid_id pri else oapAddress)
          (party_proprietary_ids pi) '''')"

text \<open>The URI of the file a sound recording names, when every part of the path is there.\<close>

definition resource_uri :: "ern_resource \<Rightarrow> string option" where
  "resource_uri r =
     (case r of
        ResSound sr \<Rightarrow> map_option f_uri (Option.bind (Option.bind (Option.bind (snd_edition sr)
            sre_technical_details) td_delivery_file) df_file)
      | _ \<Rightarrow> None)"

fun validate_resources :: "core_db \<Rightarrow> string \<Rightarrow> ern_resource list \<Rightarrow> unit result" where
  "validate_resources db ernSender [] = Ok ()"
| "validate_resources db ernSender (r # rs) =
     (case resource_uri r of
        None \<Rightarrow> validate_resources db ernSender rs
      | Some uri \<Rightarrow>
          bind_result (wrap_err ''file does not exist with cid'' (db_row ''GetCoreUpload'' (GetCoreUpload uri) db)) (\<lambda>upload.
          if up_uploader_address upload \<noteq> ernSender then Err (Errorf ''sender does not match uploader'')
          else validate_resources db ernSender rs))"

definition validateERNNewMessage :: "ext \<Rightarrow> core_config \<Rightarrow> core_db \<Rightarrow> new_release_message \<Rightarrow> unit result" where
  "validateERNNewMessage x cfg db msg =
     (if \<not> cfg_ProgrammableDistributionEnabled cfg
      then Err (Errorf ''programmable distribution is not enabled in this environment'')
      else if nrm_resource_list msg = [] then Ok ()
      else validate_resources db (getERNOAPMessageSender x msg) (nrm_resource_list msg))"

definition validateERNUpdateMessage :: "string \<Rightarrow> string \<Rightarrow> new_release_message \<Rightarrow> unit result" where
  "validateERNUpdateMessage to_addr from_addr ern = Ok ()"

definition validateERNTakedownMessage :: "new_release_message \<Rightarrow> unit result" where
  "validateERNTakedownMessage ern = Ok ()"

definition control_type_number :: "message_control_type \<Rightarrow> int" where
  "control_type_number t = (case t of ControlUnspecified \<Rightarrow> 0 | ControlNew \<Rightarrow> 1 | ControlUpdated \<Rightarrow> 2
     | ControlTakedown \<Rightarrow> 3 | ControlTest \<Rightarrow> 4 | ControlOther n \<Rightarrow> n)"

definition wrap16 :: "int \<Rightarrow> int" where
  "wrap16 v = (v + 2 ^ 15) mod 2 ^ 16 - 2 ^ 15"

definition resource_ref :: "ern_resource \<Rightarrow> string" where
  "resource_ref r = (case r of ResSound s \<Rightarrow> snd_reference s | ResImage ref \<Rightarrow> ref | ResNone \<Rightarrow> '''')"

definition release_ref :: "ern_release \<Rightarrow> string" where
  "release_ref r = (case r of RelMain ref \<Rightarrow> ref | RelTrack ref \<Rightarrow> ref | RelNone \<Rightarrow> '''')"

definition ern_message_id :: "string \<Rightarrow> int64 \<Rightarrow> new_release_message \<Rightarrow> string" where
  "ern_message_id txhash messageIndex ern =
     (case nrm_header ern of
        Some h \<Rightarrow> if mh_message_id h \<noteq> '''' then mh_message_id h else txhash @ '':'' @ format_int messageIndex
      | None \<Rightarrow> txhash @ '':'' @ format_int messageIndex)"

definition ern_addresses ::
    "ext \<Rightarrow> core_config \<Rightarrow> int64 \<Rightarrow> string \<Rightarrow> bytes \<Rightarrow> int64 \<Rightarrow> new_release_message \<Rightarrow> new_release_message_ack" where
  "ern_addresses x cfg height txhash txhashBytes messageIndex ern =
     \<lparr>ack_ern_address = CreateERNAddress x txhashBytes (cfg_ChainID cfg) height messageIndex
          (ern_message_id txhash messageIndex ern),
      ack_party_addresses = map (CreatePartyAddress x txhashBytes (cfg_ChainID cfg) height messageIndex) (nrm_party_list ern),
      ack_resource_addresses = map (\<lambda>r. CreateResourceAddress x txhashBytes (cfg_ChainID cfg) height messageIndex
          (resource_ref r)) (nrm_resource_list ern),
      ack_release_addresses = map (\<lambda>r. CreateReleaseAddress x txhashBytes (cfg_ChainID cfg) height messageIndex
          (release_ref r)) (nrm_release_list ern),
      ack_deal_addresses = map (\<lambda>d. CreateDealAddress x txhashBytes (cfg_ChainID cfg) height messageIndex
          (x_deal_string x d)) (nrm_deal_list ern)\<rparr>"

text \<open>The rows of one kind of entity, numbered from one.\<close>

definition entity_rows :: "string \<Rightarrow> string \<Rightarrow> string \<Rightarrow> int64 \<Rightarrow> string list \<Rightarrow> entity_row list" where
  "entity_rows kind ernAddress txhash height addrs =
     map (\<lambda>(i, a). \<lparr>e_address = a, e_ern_address = ernAddress, e_entity_type = kind,
        e_entity_index = wrap32 (int i + 1), e_tx_hash = txhash, e_block_height = height\<rparr>)
       (enumerate 0 addrs)"

definition finalizeERNNewMessage ::
    "ext \<Rightarrow> core_config \<Rightarrow> int64 \<Rightarrow> string \<Rightarrow> int64 \<Rightarrow> new_release_message \<Rightarrow> string \<Rightarrow> unit stmt" where
  "finalizeERNNewMessage x cfg height txhash messageIndex ern sender =
     stmt_bind (stmt_lift (wrap_err ''failed to decode txhash'' (HexToBytes txhash))) (\<lambda>txhashBytes.
     let ack = ern_addresses x cfg height txhash txhashBytes messageIndex ern;
         ernAddress = ack_ern_address ack
     in stmt_bind (stmt_lift (wrap_err ''failed to marshal ERN message'' (marshal (x_marshal_ern x) ern))) (\<lambda>rawMessage.
     stmt_bind (stmt_lift (wrap_err ''failed to marshal ERN acknowledgment'' (marshal (x_marshal_ern_ack x) ack))) (\<lambda>rawAcknowledgment.
     stmt_bind (stmt_lift (case Option.bind (nrm_header ern) mh_control_type of
         None \<Rightarrow> Panic ''nil pointer dereference'' | Some t \<Rightarrow> Ok (wrap16 (control_type_number t)))) (\<lambda>controlType.
     stmt_bind (stmt_wrap ''failed to insert ERN'' (InsertCoreERN
         \<lparr>er_address = ernAddress, er_tx_hash = txhash, er_index = messageIndex, er_sender = sender,
          er_message_control_type = controlType, er_raw_message = rawMessage,
          er_raw_acknowledgment = rawAcknowledgment, er_block_height = height\<rparr>)) (\<lambda>_.
     stmt_bind (stmt_iter (\<lambda>r. stmt_wrap ''failed to insert party'' (InsertCoreParty r))
         (entity_rows ''party'' ernAddress txhash height (ack_party_addresses ack))) (\<lambda>_.
     stmt_bind (stmt_iter (\<lambda>r. stmt_wrap ''failed to insert resource'' (InsertCoreResource r))
         (entity_rows ''resource'' ernAddress txhash height (ack_resource_addresses ack))) (\<lambda>_.
     stmt_bind (stmt_iter (\<lambda>r. stmt_wrap ''failed to insert release'' (InsertCoreRelease r))
         (entity_rows ''release'' ernAddress txhash height (ack_release_addresses ack))) (\<lambda>_.
     stmt_iter (\<lambda>r. stmt_wrap ''failed to insert deal'' (InsertCoreDeal r))
         (entity_rows ''deal'' ernAddress txhash height (ack_deal_addresses ack))))))))))"

definition finalizeERNUpdateMessage :: "string \<Rightarrow> string \<Rightarrow> new_release_message \<Rightarrow> unit result" where
  "finalizeERNUpdateMessage to_addr from_addr ern =
     wrap_err ''ERN message validation failed'' (validateERNUpdateMessage to_addr from_addr ern)"

definition finalizeERNTakedownMessage :: "new_release_message \<Rightarrow> unit result" where
  "finalizeERNTakedownMessage ern = wrap_err ''ERN message validation failed'' (validateERNTakedownMessage ern)"

text \<open>A nil envelope, header or message header is dereferenced by the code.\<close>

definition envelope_of :: "v2_transaction \<Rightarrow> envelope result" where
  "envelope_of tx = (case v2_envelope tx of None \<Rightarrow> Panic ''nil pointer dereference'' | Some e \<Rightarrow> Ok e)"

definition header_of :: "envelope \<Rightarrow> envelope_header result" where
  "header_of e = (case env_header e of None \<Rightarrow> Panic ''nil pointer dereference'' | Some h \<Rightarrow> Ok h)"

definition finalizeERN ::
    "ext \<Rightarrow> core_config \<Rightarrow> core_db \<Rightarrow> int64 \<Rightarrow> string \<Rightarrow> v2_transaction \<Rightarrow> nat \<Rightarrow> unit stmt" where
  "finalizeERN x cfg db height txhash tx messageIndex =
     stmt_bind (stmt_lift (envelope_of tx)) (\<lambda>env.
     if length (env_messages env) \<le> messageIndex then stmt_lift (Err (Errorf ''message index out of range''))
     else stmt_bind (stmt_lift (header_of env)) (\<lambda>h.
     let sender = eh_from h; receiver = eh_to h in
     case get_ern (env_messages env ! messageIndex) of
       None \<Rightarrow> stmt_lift (Err (Errorf ''ERN message not found''))
     | Some ern \<Rightarrow>
     case nrm_header ern of
       None \<Rightarrow> stmt_lift (Panic ''nil pointer dereference'')
     | Some mh \<Rightarrow>
     case mh_control_type mh of
       None \<Rightarrow> stmt_lift (Err (Errorf ''ERN message control type is nil''))
     | Some t \<Rightarrow>
     if t = ControlNew \<or> t = ControlTest
     then stmt_bind (stmt_lift (wrap_err ''ERN message validation failed'' (validateERNNewMessage x cfg db ern))) (\<lambda>_.
          stmt_wrap ''ERN message finalization failed''
            (finalizeERNNewMessage x cfg height txhash (int messageIndex) ern sender))
     else if t = ControlUpdated
     then stmt_lift (bind_result (wrap_err ''ERN message validation failed'' (validateERNUpdateMessage receiver sender ern))
            (\<lambda>_. wrap_err ''ERN message finalization failed'' (finalizeERNUpdateMessage receiver sender ern)))
     else if t = ControlTakedown
     then stmt_lift (bind_result (wrap_err ''ERN message validation failed'' (validateERNTakedownMessage ern))
            (\<lambda>_. wrap_err ''ERN message finalization failed'' (finalizeERNTakedownMessage ern)))
     else if t = ControlUnspecified then stmt_lift (Err (Errorf ''ERN message control type is unspecified''))
     else stmt_lift (Err (Errorf ''unsupported ERN message control type''))))"

section \<open>MEAD and PIE messages (mead.go, pie.go)\<close>

definition validateMEADNewMessage :: "mead_message \<Rightarrow> unit result" where
  "validateMEADNewMessage mead = Ok ()"

definition validatePIENewMessage :: "pie_message \<Rightarrow> unit result" where
  "validatePIENewMessage pie = Ok ()"

definition finalizeMEADNewMessage ::
    "ext \<Rightarrow> core_config \<Rightarrow> int64 \<Rightarrow> string \<Rightarrow> int64 \<Rightarrow> mead_message \<Rightarrow> string \<Rightarrow> unit stmt" where
  "finalizeMEADNewMessage x cfg height txhash messageIndex mead sender =
     stmt_bind (stmt_lift (wrap_err ''invalid txhash'' (HexToBytes txhash))) (\<lambda>txhashBytes.
     let meadAddress = CreateAddress x txhashBytes (cfg_ChainID cfg) height messageIndex '''' in
     stmt_bind (stmt_lift (wrap_err ''failed to marshal MEAD message'' (marshal (x_marshal_mead x) mead))) (\<lambda>rawMessage.
     stmt_bind (stmt_lift (wrap_err ''failed to marshal MEAD acknowledgment'' (marshal (x_marshal_mead_ack x) meadAddress))) (\<lambda>rawAck.
     stmt_wrap ''failed to insert MEAD'' (InsertCoreMEAD
       \<lparr>mq_address = meadAddress, mq_tx_hash = txhash, mq_index = messageIndex, mq_sender = sender,
        mq_raw_message = rawMessage, mq_raw_acknowledgment = rawAck, mq_block_height = height\<rparr>))))"

definition finalizePIENewMessage ::
    "ext \<Rightarrow> core_config \<Rightarrow> int64 \<Rightarrow> string \<Rightarrow> int64 \<Rightarrow> pie_message \<Rightarrow> string \<Rightarrow> unit stmt" where
  "finalizePIENewMessage x cfg height txhash messageIndex pie sender =
     stmt_bind (stmt_lift (wrap_err ''invalid txhash'' (HexToBytes txhash))) (\<lambda>txhashBytes.
     let pieAddress = CreateAddress x txhashBytes (cfg_ChainID cfg) height messageIndex '''' in
     stmt_bind (stmt_lift (wrap_err ''failed to marshal PIE message'' (marshal (x_marshal_pie x) pie))) (\<lambda>rawMessage.
     stmt_bind (stmt_lift (wrap_err ''failed to marshal PIE acknowledgment'' (marshal (x_marshal_pie_ack x) pieAddress))) (\<lambda>rawAck.
     stmt_wrap ''failed to insert PIE'' (InsertCorePIE
       \<lparr>mq_address = pieAddress, mq_tx_hash = txhash, mq_index = messageIndex, mq_sender = sender,
        mq_raw_message = rawMessage, mq_raw_acknowledgment = rawAck, mq_block_height = height\<rparr>))))"

definition finalizeMEAD ::
    "ext \<Rightarrow> core_config \<Rightarrow> int64 \<Rightarrow> string \<Rightarrow> v2_transaction \<Rightarrow> nat \<Rightarrow> unit stmt" where
  "finalizeMEAD x cfg height txhash tx messageIndex =
     stmt_bind (stmt_lift (envelope_of tx)) (\<lambda>env.
     if length (env_messages env) \<le> messageIndex then stmt_lift (Err (Errorf ''message index out of range''))
     else case get_mead (env_messages env ! messageIndex) of
       None \<Rightarrow> stmt_lift (Err (Errorf ''MEAD message not found''))
     | Some mead \<Rightarrow>
         stmt_bind (stmt_lift (header_of env)) (\<lambda>h.
         stmt_bind (stmt_lift (wrap_err ''MEAD message validation failed'' (validateMEADNewMessage mead))) (\<lambda>_.
         stmt_wrap ''MEAD message finalization failed''
           (finalizeMEADNewMessage x cfg height txhash (int messageIndex) mead (eh_from h)))))"

definition finalizePIE ::
    "ext \<Rightarrow> core_config \<Rightarrow> int64 \<Rightarrow> string \<Rightarrow> v2_transaction \<Rightarrow> nat \<Rightarrow> unit stmt" where
  "finalizePIE x cfg height txhash tx messageIndex =
     stmt_bind (stmt_lift (envelope_of tx)) (\<lambda>env.
     if length (env_messages env) \<le> messageIndex then stmt_lift (Err (Errorf ''message index out of range''))
     else case get_pie (env_messages env ! messageIndex) of
       None \<Rightarrow> stmt_lift (Err (Errorf ''PIE message not found''))
     | Some pie \<Rightarrow>
         stmt_bind (stmt_lift (header_of env)) (\<lambda>h.
         stmt_bind (stmt_lift (wrap_err ''PIE message validation failed'' (validatePIENewMessage pie))) (\<lambda>_.
         stmt_wrap ''PIE message finalization failed''
           (finalizePIENewMessage x cfg height txhash (int messageIndex) pie (eh_from h)))))"

section \<open>Version 2 transactions (transaction\_v2.go)\<close>

text \<open>
  The validation of one message. The switch over the control type compares the message's
  pointer with the fresh pointers that \<^verbatim>\<open>Enum()\<close> returns; two pointers to different variables
  are never equal, so no case is taken and an ERN message is accepted once its header is there.
\<close>

definition validate_v2_message :: "v2_message \<Rightarrow> unit result" where
  "validate_v2_message msg =
     (case msg of
        V2Ern ern \<Rightarrow> (case nrm_header ern of None \<Rightarrow> Panic ''nil pointer dereference'' | Some _ \<Rightarrow> Ok ())
      | V2Mead mead \<Rightarrow> validateMEADNewMessage mead
      | V2Pie pie \<Rightarrow> validatePIENewMessage pie
      | V2None \<Rightarrow> Ok ())"

fun validate_v2_messages :: "v2_message list \<Rightarrow> unit result" where
  "validate_v2_messages [] = Ok ()"
| "validate_v2_messages (m # ms) = bind_result (validate_v2_message m) (\<lambda>_. validate_v2_messages ms)"

definition validateV2Transaction :: "core_config \<Rightarrow> int64 \<Rightarrow> v2_transaction \<Rightarrow> unit result" where
  "validateV2Transaction cfg currentHeight tx =
     bind_result (envelope_of tx) (\<lambda>env. bind_result (header_of env) (\<lambda>header.
     if eh_chain_id header \<noteq> cfg_ChainID cfg then Err (Errorf ''invalid chain id'')
     else if eh_expiration header < currentHeight then Err (Errorf ''transaction expired'')
     else validate_v2_messages (env_messages env)))"

definition finalize_v2_message ::
    "ext \<Rightarrow> core_config \<Rightarrow> core_db \<Rightarrow> int64 \<Rightarrow> string \<Rightarrow> v2_transaction \<Rightarrow> nat \<times> v2_message \<Rightarrow> unit stmt" where
  "finalize_v2_message x cfg db height txhash tx im =
     (case snd im of
        V2Ern _ \<Rightarrow> stmt_wrap ''failed to finalize ERN message'' (finalizeERN x cfg db height txhash tx (fst im))
      | V2Mead _ \<Rightarrow> stmt_wrap ''failed to finalize MEAD message'' (finalizeMEAD x cfg height txhash tx (fst im))
      | V2Pie _ \<Rightarrow> stmt_wrap ''failed to finalize PIE message'' (finalizePIE x cfg height txhash tx (fst im))
      | V2None \<Rightarrow> stmt_return ())"

definition finalizeV2Transaction ::
    "ext \<Rightarrow> core_config \<Rightarrow> core_db \<Rightarrow> int64 \<Rightarrow> v2_transaction \<Rightarrow> string \<Rightarrow> unit stmt" where
  "finalizeV2Transaction x cfg db height tx txhash =
     stmt_bind (stmt_lift (envelope_of tx)) (\<lambda>env.
     stmt_bind (stmt_lift (header_of env)) (\<lambda>header.
     if eh_chain_id header \<noteq> cfg_ChainID cfg then stmt_lift (Err (Errorf ''invalid chain id''))
     else if eh_expiration header < height then stmt_lift (Err (Errorf ''transaction expired''))
     else stmt_iter (finalize_v2_message x cfg db height txhash tx) (enumerate 0 (env_messages env))))"

section \<open>Properties\<close>

text \<open>
  A file upload is accepted exactly when the feature is on and the upload carries the
  uploader's signature of the original cid and a signature of the transcoded cid by a wallet
  that belongs, up to case, to a registered node and to the validator address it names.
\<close>

theorem file_upload_accepts_iff:
  "isValidFileUpload x cfg db tx = Ok () \<longleftrightarrow>
     cfg_ProgrammableDistributionEnabled cfg \<and> (\<exists>fu data data' k k' v.
       get_file_upload tx = Some fu \<and> fu_upload_signature fu \<noteq> '''' \<and> fu_uploader_address fu \<noteq> '''' \<and> fu_cid fu \<noteq> ''''
     \<and> x_marshal_upload_signature x (fu_cid fu) = Some data
     \<and> EthRecover x (fu_upload_signature fu) data = Ok (k, fu_uploader_address fu)
     \<and> fu_transcoded_cid fu \<noteq> '''' \<and> fu_validator_signature fu \<noteq> '''' \<and> fu_validator_address fu \<noteq> ''''
     \<and> x_marshal_upload_signature x (fu_transcoded_cid fu) = Some data'
     \<and> EthRecover x (fu_validator_signature fu) data' = Ok (k', v) \<and> equal_fold v (fu_validator_address fu)
     \<and> \<not> db_fault db ''GetAllRegisteredNodes''
     \<and> (\<exists>node \<in> set (core_validators db). equal_fold (v_eth_address node) (fu_validator_address fu)))"
proof (cases "get_file_upload tx")
  case None
  then show ?thesis by (simp add: isValidFileUpload_def)
next
  case (Some fu)
  then show ?thesis
    unfolding isValidFileUpload_def
    by (simp add: go_simps db_rows_def GetAllRegisteredNodes_def list_ex_iff split_beta)
      (auto split: if_splits)
qed

text \<open>
  Validation of a version 2 transaction never looks at the content of its messages: it
  depends on the header and on the presence of each ERN message header only. A transaction that
  is refused when it is finalized because a file it names was never uploaded passes it.
\<close>

theorem v2_validation_ignores_content:
  assumes "v2_envelope tx = Some env" and "env_header env = Some h"
    and "eh_chain_id h = cfg_ChainID cfg" and "height \<le> eh_expiration h"
    and "\<forall>ern. V2Ern ern \<in> set (env_messages env) \<longrightarrow> nrm_header ern \<noteq> None"
  shows "validateV2Transaction cfg height tx = Ok ()"
proof -
  have "validate_v2_messages ms = Ok ()" if "\<forall>ern. V2Ern ern \<in> set ms \<longrightarrow> nrm_header ern \<noteq> None" for ms
    using that
  proof (induction ms)
    case (Cons m ms)
    have "validate_v2_message m = Ok ()"
      using Cons.prems by (cases m) (auto simp: validate_v2_message_def validateMEADNewMessage_def validatePIENewMessage_def)
    with Cons show ?case by simp
  qed simp
  with assms show ?thesis by (simp add: validateV2Transaction_def envelope_of_def header_of_def)
qed

definition demo_ern :: "string list \<Rightarrow> new_release_message" where
  "demo_ern parties = \<lparr>nrm_header = Some \<lparr>mh_message_id = ''m'', mh_sender = None, mh_control_type = Some ControlNew\<rparr>,
     nrm_party_list = parties,
     nrm_resource_list = [ResSound \<lparr>snd_reference = ''r'', snd_edition = Some \<lparr>sre_technical_details =
        Some \<lparr>td_delivery_file = Some \<lparr>df_file = Some \<lparr>f_uri = ''cid''\<rparr>\<rparr>\<rparr>\<rparr>\<rparr>],
     nrm_release_list = [], nrm_deal_list = []\<rparr>"

definition demo_v2 :: "new_release_message \<Rightarrow> v2_transaction" where
  "demo_v2 ern = \<lparr>v2_signature = [], v2_envelope = Some \<lparr>env_header = Some \<lparr>eh_chain_id = ''audius'',
     eh_expiration = 50, eh_nonce = '''', eh_from = ''0xf'', eh_to = ''''\<rparr>, env_messages = [V2Ern ern]\<rparr>\<rparr>"

theorem v2_validation_ignores_content_witness:
  "validateV2Transaction demo_config 7 (demo_v2 (demo_ern [])) = Ok ()
   \<and> (\<exists>e. finalizeV2Transaction demo_ext demo_config empty_db 7 (demo_v2 (demo_ern [])) ''00'' (begin_tx empty_db)
        = (Err e, begin_tx empty_db))"
proof
  show "validateV2Transaction demo_config 7 (demo_v2 (demo_ern [])) = Ok ()"
    by (rule v2_validation_ignores_content) (auto simp: demo_v2_def demo_ern_def demo_config_def)
  show "\<exists>e. finalizeV2Transaction demo_ext demo_config empty_db 7 (demo_v2 (demo_ern [])) ''00'' (begin_tx empty_db)
        = (Err e, begin_tx empty_db)"
    by (simp add: finalizeV2Transaction_def demo_v2_def envelope_of_def header_of_def demo_config_def
        stmt_bind_def stmt_lift_def stmt_wrap_def finalize_v2_message_def finalizeERN_def get_ern_def demo_ern_def
        validateERNNewMessage_def resource_uri_def db_row_def empty_db_def GetCoreUpload_def enumerate_eq_zip)
qed

section \<open>Entities of an ERN message\<close>

lemma map_e_address_entity_rows: "map e_address (entity_rows kind ern txhash h addrs) = addrs"
proof -
  have "map e_address (entity_rows kind ern txhash h addrs) = map snd (enumerate 0 addrs)"
    unfolding entity_rows_def map_map by (rule map_cong) auto
  then show ?thesis by simp
qed

text \<open>A loop of insertions under a primary key: all rows are added, or the transaction aborts.\<close>

lemma insert_loop:
  fixes rows_of :: "core_db \<Rightarrow> entity_row list" and set_rows :: "entity_row list \<Rightarrow> core_db \<Rightarrow> core_db"
    and msg n :: string
  defines "ins \<equiv> \<lambda>r. stmt_wrap msg (exec_stmt n (\<lambda>db.
    map_option (\<lambda>rs. set_rows rs db) (insert_unique e_address r (rows_of db))))"
  assumes get_set: "\<And>rs db. rows_of (set_rows rs db) = rs" and fault: "\<And>rs db. db_fault (set_rows rs db) = db_fault db"
    and set_set: "\<And>rs rs' db. set_rows rs' (set_rows rs db) = set_rows rs' db" and set_get: "\<And>db. set_rows (rows_of db) db = db"
    and live: "\<not> tx_aborted tx" "\<not> db_fault (tx_db tx) n"
  shows "if distinct (map e_address rs) \<and> e_address ` set rs \<inter> e_address ` set (rows_of (tx_db tx)) = {}
    then stmt_iter ins rs tx = (Ok (), tx\<lparr>tx_db := set_rows (rows_of (tx_db tx) @ rs) (tx_db tx)\<rparr>)
    else fst (stmt_iter ins rs tx) = Err (Wrapf msg (DbErr ErrConstraint)) \<and> tx_aborted (snd (stmt_iter ins rs tx))"
  using live
proof (induction rs arbitrary: tx)
  case Nil
  then show ?case by (simp add: stmt_return_def set_get)
next
  case (Cons r rs)
  show ?case
  proof (cases "e_address r \<in> e_address ` set (rows_of (tx_db tx))")
    case True
    with Cons.prems have "ins r tx = (Err (Wrapf msg (DbErr ErrConstraint)), tx\<lparr>tx_aborted := True\<rparr>)"
      by (simp add: ins_def stmt_wrap_def exec_stmt_def insert_unique_def)
    with True show ?thesis by (auto simp: stmt_bind_def)
  next
    case False
    let ?tx = "tx\<lparr>tx_db := set_rows (rows_of (tx_db tx) @ [r]) (tx_db tx)\<rparr>"
    have step: "ins r tx = (Ok (), ?tx)"
      using Cons.prems False by (simp add: ins_def stmt_wrap_def exec_stmt_def insert_unique_def)
    have cond: "distinct (map e_address (r # rs)) \<and> e_address ` set (r # rs) \<inter> e_address ` set (rows_of (tx_db tx)) = {}
      \<longleftrightarrow> distinct (map e_address rs) \<and> e_address ` set rs \<inter> e_address ` set (rows_of (tx_db ?tx)) = {}"
      using False by (auto simp: get_set)
    have "stmt_iter ins (r # rs) tx = stmt_iter ins rs ?tx" using step by (simp add: stmt_bind_def)
    with Cons.IH [of ?tx] Cons.prems show ?thesis unfolding cond by (simp add: fault get_set set_set)
  qed
qed

definition ern_queries_ok :: "core_db \<Rightarrow> bool" where
  "ern_queries_ok db \<longleftrightarrow> (\<forall>n \<in> {''InsertCoreERN'', ''InsertCoreParty'', ''InsertCoreResource'', ''InsertCoreRelease'',
     ''InsertCoreDeal''}. \<not> db_fault db n)"

lemmas party_loop = insert_loop [where rows_of = core_parties and set_rows = "\<lambda>rs db. db\<lparr>core_parties := rs\<rparr>"
    and n = "''InsertCoreParty''", folded InsertCoreParty_def]

text \<open>
  Two parties of a new ERN message with the same reference get the same address: the
  second insertion violates the primary key, the message fails and the transaction of the
  whole block is aborted, whatever the rest of the block does.
\<close>

theorem duplicate_party_reference_aborts_block:
  assumes "HexToBytes txhash = Ok hashBytes" and "x_marshal_ern x ern = Some raw"
    and "x_marshal_ern_ack x (ern_addresses x cfg height txhash hashBytes i ern) = Some rawAck"
    and "nrm_header ern = Some mh" and "mh_control_type mh = Some t"
    and "\<not> distinct (nrm_party_list ern)" and "\<not> tx_aborted ptx" and "ern_queries_ok (tx_db ptx)"
  shows "\<exists>e ptx'. finalizeERNNewMessage x cfg height txhash i ern sender ptx = (Err e, ptx') \<and> tx_aborted ptx'"
proof -
  define ack where "ack = ern_addresses x cfg height txhash hashBytes i ern"
  define rows where "rows = entity_rows ''party'' (ack_ern_address ack) txhash height (ack_party_addresses ack)"
  let ?row = "\<lparr>er_address = ack_ern_address ack, er_tx_hash = txhash, er_index = i, er_sender = sender,
          er_message_control_type = wrap16 (control_type_number t), er_raw_message = raw,
          er_raw_acknowledgment = rawAck, er_block_height = height\<rparr>"
  let ?tx = "ptx\<lparr>tx_db := (tx_db ptx)\<lparr>core_ern := core_ern (tx_db ptx) @ [?row]\<rparr>\<rparr>"
  have "\<not> distinct (map e_address rows)"
    using assms(6) by (simp add: rows_def map_e_address_entity_rows ack_def ern_addresses_def distinct_map)
  then have loop: "fst (stmt_iter (\<lambda>r. stmt_wrap ''failed to insert party'' (InsertCoreParty r)) rows ?tx)
      = Err (Wrapf ''failed to insert party'' (DbErr ErrConstraint))"
    "tx_aborted (snd (stmt_iter (\<lambda>r. stmt_wrap ''failed to insert party'' (InsertCoreParty r)) rows ?tx))"
    using party_loop [where tx = ?tx and msg = "''failed to insert party''" and rs = rows] assms(7,8) by (auto simp: ern_queries_ok_def)
  have ins: "InsertCoreERN ?row ptx = (Ok (), ?tx)"
    using assms(7,8) by (simp add: InsertCoreERN_def exec_stmt_def ern_queries_ok_def)
  have "finalizeERNNewMessage x cfg height txhash i ern sender ptx =
      (Err (Wrapf ''failed to insert party'' (DbErr ErrConstraint)),
       snd (stmt_iter (\<lambda>r. stmt_wrap ''failed to insert party'' (InsertCoreParty r)) rows ?tx))"
    using assms(1-5) loop ins
    by (simp add: finalizeERNNewMessage_def stmt_bind_def stmt_lift_def stmt_wrap_def marshal_def Let_def
        ack_def [symmetric] rows_def [symmetric] split: prod.splits) (auto split: prod.splits)
  with loop(2) show ?thesis by blast
qed

theorem duplicate_party_reference_aborts_block_witness:
  "\<exists>e ptx. finalizeERNNewMessage demo_ext demo_config 7 ''00'' 0 (demo_ern [''P'', ''P'']) ''0xf'' (begin_tx empty_db)
     = (Err e, ptx) \<and> tx_aborted ptx"
proof -
  have hash: "HexToBytes ''00'' = Ok [0]" by code_simp
  show ?thesis
    by (rule duplicate_party_reference_aborts_block [OF hash, where raw = "[]" and rawAck = "[]"])
      (auto simp: demo_ern_def demo_ext_def begin_tx_def empty_db_def ern_queries_ok_def)
qed

definition fresh_entities :: "string list \<Rightarrow> entity_row list \<Rightarrow> bool" where
  "fresh_entities addrs rows \<longleftrightarrow> distinct addrs \<and> set addrs \<inter> e_address ` set rows = {}"

lemma insert_loop_fresh:
  fixes rows_of :: "core_db \<Rightarrow> entity_row list" and set_rows :: "entity_row list \<Rightarrow> core_db \<Rightarrow> core_db"
    and msg n :: string
  assumes "\<And>rs db. rows_of (set_rows rs db) = rs" and "\<And>rs db. db_fault (set_rows rs db) = db_fault db"
    and "\<And>rs rs' db. set_rows rs' (set_rows rs db) = set_rows rs' db" and "\<And>db. set_rows (rows_of db) db = db"
    and "\<not> tx_aborted tx" "\<not> db_fault (tx_db tx) n" and "fresh_entities addrs (rows_of (tx_db tx))"
  shows "stmt_iter (\<lambda>r. stmt_wrap msg (exec_stmt n (\<lambda>db. map_option (\<lambda>rs. set_rows rs db)
        (insert_unique e_address r (rows_of db))))) (entity_rows kind ern txhash h addrs) tx
    = (Ok (), tx\<lparr>tx_db := set_rows (rows_of (tx_db tx) @ entity_rows kind ern txhash h addrs) (tx_db tx)\<rparr>)"
proof -
  have "e_address ` set (entity_rows kind ern txhash h addrs) = set addrs"
    by (metis list.set_map map_e_address_entity_rows)
  with assms(7) insert_loop [OF assms(1-6), of "entity_rows kind ern txhash h addrs" msg] show ?thesis
    by (simp add: fresh_entities_def map_e_address_entity_rows)
qed

lemmas entity_loops =
  insert_loop_fresh [where rows_of = core_parties and set_rows = "\<lambda>rs db. db\<lparr>core_parties := rs\<rparr>"
    and n = "''InsertCoreParty''", folded InsertCoreParty_def]
  insert_loop_fresh [where rows_of = core_resources and set_rows = "\<lambda>rs db. db\<lparr>core_resources := rs\<rparr>"
    and n = "''InsertCoreResource''", folded InsertCoreResource_def]
  insert_loop_fresh [where rows_of = core_releases and set_rows = "\<lambda>rs db. db\<lparr>core_releases := rs\<rparr>"
    and n = "''InsertCoreRelease''", folded InsertCoreRelease_def]
  insert_loop_fresh [where rows_of = core_deals and set_rows = "\<lambda>rs db. db\<lparr>core_deals := rs\<rparr>"
    and n = "''InsertCoreDeal''", folded InsertCoreDeal_def]

text \<open>
  A new ERN message whose entities get new and different addresses is stored completely:
  one ERN row with the acknowledgment of all addresses, and one row per party, resource,
  release and deal in the order of the message, each under the address the acknowledgment
  names and linked to the ERN.
\<close>

theorem ern_entities_stored:
  assumes hash: "HexToBytes txhash = Ok hashBytes" and raw: "x_marshal_ern x ern = Some raw"
    "x_marshal_ern_ack x ack = Some rawAck" and ack: "ack = ern_addresses x cfg height txhash hashBytes i ern"
    and ctl: "nrm_header ern = Some mh" "mh_control_type mh = Some t"
    and live: "\<not> tx_aborted ptx" "ern_queries_ok (tx_db ptx)"
    and fresh: "fresh_entities (ack_party_addresses ack) (core_parties (tx_db ptx))"
      "fresh_entities (ack_resource_addresses ack) (core_resources (tx_db ptx))"
      "fresh_entities (ack_release_addresses ack) (core_releases (tx_db ptx))"
      "fresh_entities (ack_deal_addresses ack) (core_deals (tx_db ptx))"
  shows "\<exists>row db. finalizeERNNewMessage x cfg height txhash i ern sender ptx = (Ok (), ptx\<lparr>tx_db := db\<rparr>)
    \<and> core_ern db = core_ern (tx_db ptx) @ [row] \<and> er_address row = ack_ern_address ack
    \<and> er_raw_acknowledgment row = rawAck \<and> er_sender row = sender
    \<and> core_parties db = core_parties (tx_db ptx)
        @ entity_rows ''party'' (ack_ern_address ack) txhash height (ack_party_addresses ack)
    \<and> core_resources db = core_resources (tx_db ptx)
        @ entity_rows ''resource'' (ack_ern_address ack) txhash height (ack_resource_addresses ack)
    \<and> core_releases db = core_releases (tx_db ptx)
        @ entity_rows ''release'' (ack_ern_address ack) txhash height (ack_release_addresses ack)
    \<and> core_deals db = core_deals (tx_db ptx)
        @ entity_rows ''deal'' (ack_ern_address ack) txhash height (ack_deal_addresses ack)"
proof -
  let ?rows = "\<lambda>kind addrs. entity_rows kind (ack_ern_address ack) txhash height addrs"
  let ?row = "\<lparr>er_address = ack_ern_address ack, er_tx_hash = txhash, er_index = i, er_sender = sender,
          er_message_control_type = wrap16 (control_type_number t), er_raw_message = raw,
          er_raw_acknowledgment = rawAck, er_block_height = height\<rparr>"
  let ?db = "(tx_db ptx)\<lparr>core_ern := core_ern (tx_db ptx) @ [?row],
     core_parties := core_parties (tx_db ptx) @ ?rows ''party'' (ack_party_addresses ack),
     core_resources := core_resources (tx_db ptx) @ ?rows ''resource'' (ack_resource_addresses ack),
     core_releases := core_releases (tx_db ptx) @ ?rows ''release'' (ack_release_addresses ack),
     core_deals := core_deals (tx_db ptx) @ ?rows ''deal'' (ack_deal_addresses ack)\<rparr>"
  have ins: "InsertCoreERN ?row ptx = (Ok (), ptx\<lparr>tx_db := (tx_db ptx)\<lparr>core_ern := core_ern (tx_db ptx) @ [?row]\<rparr>\<rparr>)"
    using live by (simp add: InsertCoreERN_def exec_stmt_def ern_queries_ok_def)
  have "finalizeERNNewMessage x cfg height txhash i ern sender ptx = (Ok (), ptx\<lparr>tx_db := ?db\<rparr>)"
    using hash raw ctl ins live fresh
    by (simp add: finalizeERNNewMessage_def stmt_bind_def stmt_lift_def stmt_wrap_def [of _ "InsertCoreERN _"]
        marshal_def Let_def ack [symmetric] entity_loops ern_queries_ok_def)
  then show ?thesis by (intro exI [of _ ?row] exI [of _ ?db]) simp
qed

theorem ern_entities_stored_witness:
  "\<exists>row db. finalizeERNNewMessage demo_ext demo_config 7 ''00'' 0 (demo_ern [''P'']) ''0xf'' (begin_tx empty_db)
      = (Ok (), begin_tx db) \<and> core_ern db = [row] \<and> length (core_parties db) = 1"
proof -
  have hash: "HexToBytes ''00'' = Ok [0]" by code_simp
  have "\<exists>row db. finalizeERNNewMessage demo_ext demo_config 7 ''00'' 0 (demo_ern [''P'']) ''0xf'' (begin_tx empty_db)
      = (Ok (), (begin_tx empty_db)\<lparr>tx_db := db\<rparr>) \<and> core_ern db = core_ern (tx_db (begin_tx empty_db)) @ [row]
    \<and> core_parties db = core_parties (tx_db (begin_tx empty_db)) @ entity_rows ''party''
        (ack_ern_address (ern_addresses demo_ext demo_config 7 ''00'' [0] 0 (demo_ern [''P''])))
        ''00'' 7 (ack_party_addresses (ern_addresses demo_ext demo_config 7 ''00'' [0] 0 (demo_ern [''P''])))"
    using ern_entities_stored [OF hash, of demo_ext "demo_ern [''P'']" "[]" _ "[]" demo_config 7 0 _ ControlNew
        "begin_tx empty_db" "''0xf''"]
    by (fastforce simp: demo_ern_def demo_ext_def begin_tx_def empty_db_def ern_queries_ok_def fresh_entities_def
        ern_addresses_def)
  then show ?thesis
    by (auto simp: begin_tx_def empty_db_def entity_rows_def ern_addresses_def demo_ern_def)
qed

section \<open>Behaviour in an aborted transaction\<close>

lemma abort_distribution_handlers [abort_intros]:
  "respects_abort (finalizeFileUpload x cfg db tx txHash h)"
  "respects_abort (finalizeERN x cfg db h txhash v2 i)"
  "respects_abort (finalizeMEAD x cfg h txhash v2 i)"
  "respects_abort (finalizePIE x cfg h txhash v2 i)"
  unfolding finalizeFileUpload_def finalizeERN_def finalizeMEAD_def finalizePIE_def finalizeERNNewMessage_def
    finalizeMEADNewMessage_def finalizePIENewMessage_def Let_def InsertFileUpload_def InsertCoreERN_def
    InsertCoreParty_def InsertCoreResource_def InsertCoreRelease_def InsertCoreDeal_def InsertCoreMEAD_def InsertCorePIE_def
  by (auto split: option.splits intro!: abort_intros)

lemma abort_v2 [abort_intros]: "respects_abort (finalizeV2Transaction x cfg db h tx txhash)"
  unfolding finalizeV2Transaction_def finalize_v2_message_def
  by (auto split: v2_message.splits intro!: abort_intros)

end
