(* ===== verification/Abci.thy ===== *)
theory Abci
  imports Mempool Registration Auditor Storage_Proofs Reward_Txs Distribution Retention
begin

text \<open>
  The consensus application of \<^verbatim>\<open>pkg/core/server/abci.go\<close>: checking and proposing transactions,
  validating a proposed block, finalizing it in one database transaction and committing it.
\<close>

section \<open>State and requests\<close>

record abci_state =
  onGoingBlock :: "pgtx option"
  finalizedTxs :: "string list"
  lastRetainHeight :: int64

definition NewABCIState :: "int64 \<Rightarrow> abci_state" where
  "NewABCIState initialRetainHeight =
     \<lparr>onGoingBlock = None, finalizedTxs = [], lastRetainHeight = initialRetainHeight\<rparr>"

text \<open>
  The parts of the server the application uses: the committed database, the mempool, the state
  of the application and the cached chain height, sync flag and snapshots.
\<close>

record server =
  srv_db :: core_db
  srv_mempl :: mempool
  srv_abci :: abci_state
  srv_currentHeight :: int64
  srv_catchingUp :: bool
  srv_snapshots :: "snapshot_metadata list"

record block_request =
  rq_Height :: int64
  rq_Time :: timestamp
  rq_Hash :: bytes
  rq_ProposerAddress :: bytes
  rq_Txs :: "bytes list"
  rq_Misbehavior :: "bytes list"

section \<open>Decoding transactions\<close>

definition isValidSignedTransaction :: "ext \<Rightarrow> bytes \<Rightarrow> signed_transaction result" where
  "isValidSignedTransaction x tx =
     (case x_unmarshal_signed x tx of None \<Rightarrow> Err (Errorf ''proto: unmarshal error'') | Some m \<Rightarrow> Ok m)"

definition isValidV2Transaction :: "ext \<Rightarrow> core_config \<Rightarrow> int64 \<Rightarrow> bytes \<Rightarrow> v2_transaction result" where
  "isValidV2Transaction x cfg currentHeight tx =
     (case x_unmarshal_v2 x tx of
        None \<Rightarrow> Err (Errorf ''proto: unmarshal error'')
      | Some msg \<Rightarrow>
          bind_result (envelope_of msg) (\<lambda>env. bind_result (header_of env) (\<lambda>header.
          if eh_chain_id header \<noteq> cfg_ChainID cfg then Err (Errorf ''invalid chain id'')
          else if eh_expiration header < currentHeight then Err (Errorf ''transaction expired'')
          else Ok msg)))"

definition CheckTx :: "ext \<Rightarrow> bytes \<Rightarrow> nat" where
  "CheckTx x tx = (if is_ok (isValidSignedTransaction x tx) then 0 else 1)"

section \<open>Validating blocks\<close>

text \<open>An error of a validation makes the transaction invalid; a panic is one.\<close>

definition rejects :: "unit result \<Rightarrow> bool result" where
  "rejects r = (case r of Ok _ \<Rightarrow> Ok True | Err _ \<Rightarrow> Ok False | Panic p \<Rightarrow> Panic p)"

definition validateBlockTx ::
    "ext \<Rightarrow> core_config \<Rightarrow> core_db \<Rightarrow> int64 \<Rightarrow> timestamp \<Rightarrow> int64 \<Rightarrow> bytes list \<Rightarrow> bytes \<Rightarrow> bool result" where
  "validateBlockTx x cfg db currentHeight blockTime blockHeight misbehavior tx =
     (case isValidSignedTransaction x tx of
        Ok signedTx \<Rightarrow> (case st_transaction signedTx of
            Some (TxPlays _) \<Rightarrow> Ok True
          | Some (TxAttestation _) \<Rightarrow> rejects (isValidAttestation x cfg db signedTx blockHeight)
          | Some (TxMisbehaviorDeregistration _) \<Rightarrow> rejects (isValidDeregisterMisbehavingNodeTx x db signedTx misbehavior)
          | Some (TxSlaRollup rollup) \<Rightarrow> isValidRollup cfg db blockTime blockHeight rollup
          | Some (TxStorageProof _) \<Rightarrow> rejects (isValidStorageProofTx x db signedTx blockHeight True)
          | Some (TxStorageProofVerification _) \<Rightarrow> rejects (isValidStorageProofVerificationTx db signedTx blockHeight)
          | Some (TxRelease _) \<Rightarrow> rejects (isValidReleaseTx signedTx)
          | Some (TxReward _) \<Rightarrow> rejects (isValidRewardTransaction x db signedTx blockHeight)
          | Some (TxFileUpload _) \<Rightarrow> rejects (isValidFileUpload x cfg db signedTx)
          | _ \<Rightarrow> Ok True)
      | _ \<Rightarrow> (case isValidV2Transaction x cfg currentHeight tx of
            Ok _ \<Rightarrow> Ok True | Err _ \<Rightarrow> Ok False | Panic p \<Rightarrow> Panic p))"

fun validateBlockTxs ::
    "ext \<Rightarrow> core_config \<Rightarrow> core_db \<Rightarrow> int64 \<Rightarrow> timestamp \<Rightarrow> int64 \<Rightarrow> bytes list \<Rightarrow> bytes list \<Rightarrow> bool result" where
  "validateBlockTxs x cfg db ch time height misbehavior [] = Ok True"
| "validateBlockTxs x cfg db ch time height misbehavior (tx # txs) =
     bind_result (validateBlockTx x cfg db ch time height misbehavior tx) (\<lambda>valid.
     if \<not> valid then Ok False else validateBlockTxs x cfg db ch time height misbehavior txs)"

definition validateV1Transaction :: "ext \<Rightarrow> core_db \<Rightarrow> int64 \<Rightarrow> signed_transaction \<Rightarrow> unit result" where
  "validateV1Transaction x db currentHeight signedTx =
     (case st_transaction signedTx of
        Some (TxReward _) \<Rightarrow> isValidRewardTransaction x db signedTx currentHeight
      | _ \<Rightarrow> Ok ())"

datatype proposal_status = StatusUnknown | StatusAccept | StatusReject

definition ProcessProposal :: "ext \<Rightarrow> core_config \<Rightarrow> server \<Rightarrow> block_request \<Rightarrow> proposal_status result" where
  "ProcessProposal x cfg s proposal =
     (case validateBlockTxs x cfg (srv_db s) (srv_currentHeight s) (rq_Time proposal) (rq_Height proposal)
             (rq_Misbehavior proposal) (rq_Txs proposal) of
        Ok valid \<Rightarrow> Ok (if valid then StatusAccept else StatusReject)
      | Err e \<Rightarrow> Err e
      | Panic p \<Rightarrow> Panic p)"

section \<open>Proposing blocks\<close>

definition mempool_tx_bytes :: "ext \<Rightarrow> mempool_tx \<Rightarrow> bytes result" where
  "mempool_tx_bytes x tx =
     (case mt_Txv2 tx of
        Some v2 \<Rightarrow> marshal (x_marshal_v2 x) v2
      | None \<Rightarrow> (case mt_Tx tx of Some v1 \<Rightarrow> marshal (x_marshal_signed x) v1 | None \<Rightarrow> Ok []))"

fun propose_batch :: "(bytes \<Rightarrow> bool result) \<Rightarrow> ext \<Rightarrow> mempool_tx list \<Rightarrow> bytes list result" where
  "propose_batch validate x [] = Ok []"
| "propose_batch validate x (tx # txs) =
     (case mempool_tx_bytes x tx of
        Ok txBytes \<Rightarrow> (case validate txBytes of
            Panic p \<Rightarrow> Panic p
          | Ok True \<Rightarrow> map_result ((#) txBytes) (propose_batch validate x txs)
          | _ \<Rightarrow> propose_batch validate x txs)
      | _ \<Rightarrow> propose_batch validate x txs)"

text \<open>Transactions created by the proposer; one that cannot be created is left out.\<close>

fun created_txs :: "bytes result list \<Rightarrow> bytes list result" where
  "created_txs [] = Ok []"
| "created_txs (Ok b # rs) = map_result ((#) b) (created_txs rs)"
| "created_txs (Err _ # rs) = created_txs rs"
| "created_txs (Panic p # rs) = Panic p"

definition proposal_batch_size :: "bool \<Rightarrow> int" where
  "proposal_batch_size withRollup = (if withRollup then 1000 - 1 else 1000)"

definition PrepareProposal ::
    "ext \<Rightarrow> core_config \<Rightarrow> (bytes \<Rightarrow> string) \<Rightarrow> server \<Rightarrow> block_request \<Rightarrow> bytes list result" where
  "PrepareProposal x cfg uuid s proposal =
     (let db = srv_db s;
          withRollup = shouldProposeNewRollup cfg db (rq_Height proposal);
          rollups = (if withRollup then [createRollupTx x db (rq_Time proposal) (rq_Height proposal)] else []);
          deregs = map (\<lambda>mb. createDeregisterTransaction x cfg db (uuid mb) mb) (rq_Misbehavior proposal);
          txMemBatch = GetBatch (proposal_batch_size withRollup) (rq_Height proposal) (srv_mempl s)
      in bind_result (created_txs (rollups @ deregs)) (\<lambda>own.
         map_result ((@) own)
           (propose_batch (validateBlockTx x cfg db (srv_currentHeight s) (rq_Time proposal) (rq_Height proposal)
              (rq_Misbehavior proposal)) x txMemBatch)))"

section \<open>Finalizing blocks\<close>

text \<open>
  The message \<^verbatim>\<open>finalizeTransaction\<close> returns decides the statistics: its type in snake case, or
  None for a nil interface. A handler that returns a typed pointer returns a non-nil interface
  even with an error; only the handlers of entity management, rewards and file uploads return a
  nil interface on error, and the one of file uploads always does.
\<close>

definition typed :: "string \<Rightarrow> 'a stmt \<Rightarrow> (string option \<times> unit result) stmt" where
  "typed name s = stmt_try s (\<lambda>r. case r of
     Ok _ \<Rightarrow> stmt_return (Some name, Ok ())
   | Err e \<Rightarrow> stmt_return (Some name, Err e)
   | Panic p \<Rightarrow> stmt_lift (Panic p))"

definition untyped :: "string option \<Rightarrow> 'a stmt \<Rightarrow> (string option \<times> unit result) stmt" where
  "untyped name s = stmt_try s (\<lambda>r. case r of
     Ok _ \<Rightarrow> stmt_return (name, Ok ())
   | Err e \<Rightarrow> stmt_return (None, Err e)
   | Panic p \<Rightarrow> stmt_lift (Panic p))"

definition finalizeTransaction ::
    "ext \<Rightarrow> core_config \<Rightarrow> core_db \<Rightarrow> block_request \<Rightarrow> signed_transaction \<Rightarrow> string \<Rightarrow> int64
     \<Rightarrow> (string option \<times> unit result) stmt" where
  "finalizeTransaction x cfg db req msg txHash blockHeight =
     (case st_transaction msg of
        Some (TxPlays _) \<Rightarrow> typed ''track_plays'' (stmt_lift (finalizePlayTransaction msg))
      | Some (TxManageEntity _) \<Rightarrow> untyped (Some ''manage_entity_legacy'') (stmt_lift (finalizeManageEntity msg))
      | Some (TxAttestation _) \<Rightarrow> typed ''signed_transaction'' (finalizeAttestation x cfg db msg (rq_Height req))
      | Some (TxLegacyRegistration _) \<Rightarrow> typed ''validator_registration_legacy'' (finalizeLegacyRegisterNode x msg)
      | Some (TxMisbehaviorDeregistration _) \<Rightarrow> typed ''validator_misbehavior_deregistration''
          (finalizeDeregisterMisbehavingNode x db msg (rq_Misbehavior req))
      | Some (TxSlaRollup rollup) \<Rightarrow> typed ''sla_rollup'' (finalizeSlaRollup rollup txHash)
      | Some (TxStorageProof _) \<Rightarrow> typed ''storage_proof'' (finalizeStorageProof x db msg blockHeight)
      | Some (TxStorageProofVerification _) \<Rightarrow> typed ''storage_proof_verification''
          (finalizeStorageProofVerification x db msg blockHeight)
      | Some (TxRelease _) \<Rightarrow> typed ''signed_transaction'' (stmt_lift (finalizeRelease msg))
      | Some (TxReward action) \<Rightarrow> untyped (Some ''reward_message'')
          (finalizeRewardTransaction x cfg (rq_Height req) txHash action)
      | Some (TxFileUpload _) \<Rightarrow> untyped None (finalizeFileUpload x cfg db msg txHash (rq_Height req))
      | None \<Rightarrow> stmt_return (None, Err (Errorf ''unhandled proto event'')))"

definition persistTxStat :: "string option \<Rightarrow> string \<Rightarrow> int64 \<Rightarrow> timestamp \<Rightarrow> unit stmt" where
  "persistTxStat tx txhash height blockTime =
     (case tx of
        None \<Rightarrow> stmt_return ()
      | Some name \<Rightarrow> stmt_try (InsertTxStat name txhash height (pg_time (Some blockTime))) (\<lambda>_. stmt_return ()))"

text \<open>The updates of the validator set, by address: power and public key.\<close>

type_synonym validator_updates = "(string \<times> int64 \<times> bytes) list"

definition add_update :: "string \<Rightarrow> int64 \<Rightarrow> bytes \<Rightarrow> validator_updates \<Rightarrow> validator_updates" where
  "add_update addr pw key ups = (if addr \<in> fst ` set ups then ups else ups @ [(addr, pw, key)])"

definition override_update :: "string \<Rightarrow> bytes \<Rightarrow> validator_updates \<Rightarrow> validator_updates" where
  "override_update addr key ups = AList.update addr (0, key) ups"

text \<open>A statement whose error is logged and dropped.\<close>

definition ignore_err :: "unit stmt \<Rightarrow> unit stmt" where
  "ignore_err s = stmt_try s (\<lambda>r. case r of Panic p \<Rightarrow> stmt_lift (Panic p) | _ \<Rightarrow> stmt_return ())"

text \<open>What a finalized transaction changes in the validator set and its history.\<close>

definition update_validators ::
    "ext \<Rightarrow> core_db \<Rightarrow> block_request \<Rightarrow> signed_transaction \<Rightarrow> validator_updates \<Rightarrow> validator_updates stmt" where
  "update_validators x db req signedTx ups =
     (case get_legacy_registration signedTx of
        Some vr \<Rightarrow> stmt_bind (stmt_lift (ed25519_address x (vrl_pub_key vr))) (\<lambda>vrAddr.
          stmt_return (add_update vrAddr (vrl_power vr) (vrl_pub_key vr) ups))
      | None \<Rightarrow> (case Option.bind (get_attestation signedTx) att_registration of
        Some vr \<Rightarrow> stmt_bind (stmt_lift (ed25519_address x (vr_pub_key vr))) (\<lambda>vrAddr.
          stmt_bind (ignore_err (appendRegistrationToValidatorHistory vr (pg_time (Some (rq_Time req))) (rq_Height req))) (\<lambda>_.
          stmt_return (add_update vrAddr (vr_power vr) (vr_pub_key vr) ups)))
      | None \<Rightarrow> (case Option.bind (get_attestation signedTx) att_deregistration of
        Some vd \<Rightarrow> stmt_bind (stmt_lift (ed25519_address x (vd_pub_key vd))) (\<lambda>vdAddr.
          stmt_bind (ignore_err (appendDeregistrationToValidatorHistory db vd (pg_time (Some (rq_Time req))) (rq_Height req))) (\<lambda>_.
          stmt_return (override_update vdAddr (vd_pub_key vd) ups)))
      | None \<Rightarrow> (case get_misbehavior_deregistration signedTx of
        Some vd \<Rightarrow> stmt_bind (stmt_lift (ed25519_address x (vmd_pub_key vd))) (\<lambda>vdAddr.
          stmt_return (override_update vdAddr (vmd_pub_key vd) ups))
      | None \<Rightarrow> stmt_return ups))))"

definition store_tx :: "block_request \<Rightarrow> nat \<Rightarrow> string \<Rightarrow> bytes \<Rightarrow> unit stmt" where
  "store_tx req i txhash tx = ignore_err (StoreTransaction
     \<lparr>t_block_id = rq_Height req, t_index = wrap32 (int i), t_tx_hash = txhash, t_transaction = tx,
      t_created_at = pg_time (Some (rq_Time req))\<rparr>)"

text \<open>The body of the loop over the block: the result code, the updates and the hash to drop from the mempool.\<close>

definition finalize_tx ::
    "ext \<Rightarrow> core_config \<Rightarrow> core_db \<Rightarrow> int64 \<Rightarrow> block_request \<Rightarrow> validator_updates \<Rightarrow> nat \<times> bytes
     \<Rightarrow> (nat \<times> validator_updates \<times> string list) stmt" where
  "finalize_tx x cfg db currentHeight req ups itx = (let i = fst itx; tx = snd itx; txhash = ToTxHashFromBytes x tx in
     case isValidSignedTransaction x tx of
       Ok signedTx \<Rightarrow>
         stmt_bind (finalizeTransaction x cfg db req signedTx txhash (rq_Height req)) (\<lambda>(name, r).
         stmt_bind (if is_ok r then update_validators x db req signedTx ups else stmt_return ups) (\<lambda>ups'.
         stmt_bind (store_tx req i txhash tx) (\<lambda>_.
         stmt_bind (persistTxStat name txhash (rq_Height req) (rq_Time req)) (\<lambda>_.
         stmt_return (if is_ok r then 0 else 2, ups', [txhash])))))
     | _ \<Rightarrow> (case isValidV2Transaction x cfg currentHeight tx of
         Ok v2Tx \<Rightarrow>
           stmt_try (finalizeV2Transaction x cfg db (rq_Height req) v2Tx txhash) (\<lambda>r.
           case r of
             Panic p \<Rightarrow> stmt_lift (Panic p)
           | _ \<Rightarrow> stmt_bind (store_tx req i txhash tx) (\<lambda>_.
                  stmt_return (if is_ok r then 0 else 2, ups, [txhash])))
       | Err _ \<Rightarrow> stmt_return (1, ups, [])
       | Panic p \<Rightarrow> stmt_lift (Panic p)))"

fun finalize_txs ::
    "ext \<Rightarrow> core_config \<Rightarrow> core_db \<Rightarrow> int64 \<Rightarrow> block_request \<Rightarrow> validator_updates \<Rightarrow> (nat \<times> bytes) list
     \<Rightarrow> (nat list \<times> validator_updates \<times> string list) stmt" where
  "finalize_txs x cfg db ch req ups [] = stmt_return ([], ups, [])"
| "finalize_txs x cfg db ch req ups (itx # itxs) =
     stmt_bind (finalize_tx x cfg db ch req ups itx) (\<lambda>(code, ups', hashes).
     stmt_bind (finalize_txs x cfg db ch req ups' itxs) (\<lambda>(codes, ups'', hashes').
     stmt_return (code # codes, ups'', hashes @ hashes')))"

definition serializeAppState :: "ext \<Rightarrow> bytes \<Rightarrow> bytes list \<Rightarrow> bytes" where
  "serializeAppState x prevHash txs = x_sha256 x (prevHash @ concat txs)"

record block_response =
  rs_TxResults :: "nat list"
  rs_AppHash :: bytes
  rs_ValidatorUpdates :: validator_updates
  rs_PoSTriggered :: bool

text \<open>Everything \<^verbatim>\<open>FinalizeBlock\<close> runs in the transaction of the block.\<close>

definition block_body ::
    "ext \<Rightarrow> core_config \<Rightarrow> core_db \<Rightarrow> int64 \<Rightarrow> bool \<Rightarrow> block_request \<Rightarrow> (block_response \<times> string list) stmt" where
  "block_body x cfg db currentHeight catchingUp req =
     stmt_bind (ignore_err (StoreBlock
       \<lparr>b_height = rq_Height req, b_chain_id = cfg_ChainID cfg, b_hash = hex_encode (rq_Hash req),
        b_proposer = hex_encode (rq_ProposerAddress req), b_created_at = pg_time (Some (rq_Time req))\<rparr>)) (\<lambda>_.
     stmt_bind (finalize_txs x cfg db currentHeight req [] (enumerate 0 (rq_Txs req))) (\<lambda>(codes, ups, hashes).
     let nextAppHash = serializeAppState x [] (rq_Txs req) in
     stmt_bind (ignore_err (UpsertAppState (rq_Height req) nextAppHash)) (\<lambda>_.
     stmt_bind (ignore_err (UpsertSlaRollupReport (x_address_string x (rq_ProposerAddress req)))) (\<lambda>_.
     stmt_return (\<lparr>rs_TxResults = codes, rs_AppHash = nextAppHash, rs_ValidatorUpdates = ups,
                   rs_PoSTriggered = syncPoS catchingUp (rq_Hash req)\<rparr>, hashes)))))"

text \<open>
  \<^verbatim>\<open>startInProgressTx\<close>: when no transaction can be opened its error is dropped and the one of an
  earlier block, if it was never committed, is used again; without one the first statement
  dereferences nil.
\<close>

definition FinalizeBlock :: "ext \<Rightarrow> core_config \<Rightarrow> block_request \<Rightarrow> server \<Rightarrow> block_response result \<times> server" where
  "FinalizeBlock x cfg req s =
     (case (if db_fault (srv_db s) ''Begin'' then onGoingBlock (srv_abci s) else Some (begin_tx (srv_db s))) of
        None \<Rightarrow> (Panic ''nil pointer dereference'', s)
      | Some tx \<Rightarrow> (case block_body x cfg (srv_db s) (srv_currentHeight s) (srv_catchingUp s) req tx of
          (Ok (resp, hashes), tx') \<Rightarrow>
            (Ok resp, s\<lparr>srv_abci := (srv_abci s)\<lparr>onGoingBlock := Some tx',
                finalizedTxs := finalizedTxs (srv_abci s) @ hashes\<rparr>,
              srv_mempl := (if go_mod (rq_Height req) 100 = 0
                then RemoveExpiredTransactions (rq_Height req) (srv_mempl s) else srv_mempl s)\<rparr>)
        | (Err e, tx') \<Rightarrow> (Err e, s\<lparr>srv_abci := (srv_abci s)\<lparr>onGoingBlock := Some tx'\<rparr>\<rparr>)
        | (Panic p, tx') \<Rightarrow> (Panic p, s\<lparr>srv_abci := (srv_abci s)\<lparr>onGoingBlock := Some tx'\<rparr>\<rparr>)))"

section \<open>Committing blocks\<close>

definition commitInProgressTx :: "server \<Rightarrow> unit result \<times> server" where
  "commitInProgressTx s =
     (case onGoingBlock (srv_abci s) of
        None \<Rightarrow> (Ok (), s)
      | Some tx \<Rightarrow> (case commit_tx (srv_db s) tx of
          (r, db, tx') \<Rightarrow>
            if is_ok r \<or> r = Err (DbErr ErrTxClosed)
            then (Ok (), s\<lparr>srv_db := db, srv_abci := (srv_abci s)\<lparr>onGoingBlock := None\<rparr>\<rparr>)
            else (r, s\<lparr>srv_db := db, srv_abci := (srv_abci s)\<lparr>onGoingBlock := Some tx'\<rparr>\<rparr>)))"

text \<open>The retain height of the response (0 for none) and the topics the hashes are published on.\<close>

definition Commit :: "core_config \<Rightarrow> server \<Rightarrow> (int64 \<times> string list) result \<times> server" where
  "Commit cfg s =
     (case commitInProgressTx s of
        (Ok _, s1) \<Rightarrow>
          let hashes = finalizedTxs (srv_abci s1);
              s2 = s1\<lparr>srv_mempl := RemoveBatch hashes (srv_mempl s1),
                      srv_abci := (srv_abci s1)\<lparr>finalizedTxs := []\<rparr>\<rparr>;
              h = calculateLowestRetainHeight cfg (srv_db s2) (lastRetainHeight (srv_abci s2)) (srv_snapshots s2)
          in if h > 0 then (Ok (h, hashes), s2\<lparr>srv_abci := (srv_abci s2)\<lparr>lastRetainHeight := h\<rparr>\<rparr>)
             else (Ok (0, hashes), s2)
      | (Err e, s1) \<Rightarrow> (Err e, s1)
      | (Panic p, s1) \<Rightarrow> (Panic p, s1))"

definition Info :: "server \<Rightarrow> int64 \<times> bytes" where
  "Info s = (case db_row ''GetLatestAppState'' GetLatestAppState (srv_db s) of
     Ok latest \<Rightarrow> (as_block_height latest, as_app_hash latest) | _ \<Rightarrow> (0, []))"

end
