(* ===== verification/Proposals.thy ===== *)
theory Proposals
  imports Abci
begin

text \<open>
  Proposals: what a proposer puts into a block is what the other validators accept. The
  transactions of the mempool are checked by the same function on both sides; the rollup and
  the deregistrations the proposer creates itself are not, and their acceptance rests on the
  lemmas of the auditor and of the registration of validators.
\<close>

section \<open>The batch from the mempool\<close>

lemma propose_batch_valid:
  "propose_batch validate x batch = Ok txs \<Longrightarrow>
     (\<forall>tx \<in> set txs. validate tx = Ok True) \<and> length txs \<le> length batch"
  by (induction batch arbitrary: txs)
    (fastforce simp: go_simps split: result.splits bool.splits)+

lemma validateBlockTxs_all:
  "\<forall>tx \<in> set txs. validateBlockTx x cfg db ch t h mbs tx = Ok True \<Longrightarrow> validateBlockTxs x cfg db ch t h mbs txs = Ok True"
  by (induction txs) (simp_all add: go_simps)

section \<open>The proposer's own transactions\<close>

lemma created_txs_Ok:
  "created_txs rs = Ok txs \<Longrightarrow> set txs = {b. Ok b \<in> set rs} \<and> length txs \<le> length rs"
  by (induction rs arbitrary: txs rule: created_txs.induct) (force simp: go_simps)+

text \<open>The heights of the rollups leave room for the arithmetic of the auditor.\<close>

definition rollups_in_range :: "core_db \<Rightarrow> bool" where
  "rollups_in_range db \<longleftrightarrow> (\<forall>r \<in> set (sla_rollups db). 0 \<le> sl_block_end r \<and> sl_block_end r < 2 ^ 62)"

lemma rollup_due_next:
  assumes due: "shouldProposeNewRollup cfg db h" and range: "0 < h" "h < 2 ^ 62" "rollups_in_range db"
    and interval: "0 < cfg_SlaRollupInterval cfg"
  shows "shouldProposeNewRollup cfg db (wrap64 (h + 1)) \<and> rollup_start db \<le> wrap64 (h - 1)"
proof (cases "db_row ''GetLatestSlaRollup'' GetLatestSlaRollup db")
  case (Ok r)
  then have "r \<in> set (sla_rollups db)"
    by (auto simp: db_row_def GetLatestSlaRollup_def latest_by_max split: if_splits option.splits)
  with range have "0 \<le> sl_block_end r" "sl_block_end r < 2 ^ 62" by (auto simp: rollups_in_range_def)
  with due range interval Ok show ?thesis
    by (simp add: shouldProposeNewRollup_def rollup_start_def wrap64_id in_int64_def)
next
  case (Err e)
  with due range interval show ?thesis
    by (simp add: shouldProposeNewRollup_def rollup_start_def wrap64_id in_int64_def)
qed (use due in \<open>simp add: shouldProposeNewRollup_def\<close>)

lemma created_rollup_valid:
  assumes made: "createRollupTx x db t h = Ok b"
    and codec: "\<forall>m b. x_marshal_signed x m = Some b \<longrightarrow> x_unmarshal_signed x b = Some m"
    and due: "shouldProposeNewRollup cfg db (wrap64 (h + 1))" "rollup_start db \<le> wrap64 (h - 1)" "core_validators db \<noteq> []"
  shows "validateBlockTx x cfg db ch t h mbs b = Ok True"
proof -
  from made obtain rollup where rollup: "createRollup db t h = Ok rollup"
    and "x_marshal_signed x \<lparr>st_signature = '''', st_request_id = '''', st_transaction = Some (TxSlaRollup rollup)\<rparr> = Some b"
    by (auto simp: createRollupTx_def marshal_def go_simps split: option.splits)
  moreover have "isValidRollup cfg db t h rollup = Ok True" using rollup due by (rule created_rollup_accepted)
  ultimately show ?thesis using codec by (simp add: validateBlockTx_def isValidSignedTransaction_def)
qed

lemma created_dereg_valid:
  assumes "createDeregisterTransaction x cfg db uuid mb = Ok b" "mb \<in> set mbs"
    and "\<forall>node \<in> set (core_validators db). key_readable x node"
    and codec: "\<forall>m b. x_marshal_signed x m = Some b \<longrightarrow> x_unmarshal_signed x b = Some m"
    and sig: "\<forall>h s. x_Sign x h (cfg_EthereumKey cfg) = Some s \<longrightarrow> s \<noteq> []"
  shows "validateBlockTx x cfg db ch t h mbs b = Ok True"
proof -
  obtain tx d where "x_unmarshal_signed x b = Some tx" "st_transaction tx = Some (TxMisbehaviorDeregistration d)"
    "isValidDeregisterMisbehavingNodeTx x db tx mbs = Ok ()"
    using created_deregistration_tx [OF assms(1) assms(3) _ _ assms(2)] codec sig by blast
  then show ?thesis by (simp add: validateBlockTx_def isValidSignedTransaction_def rejects_def)
qed

section \<open>Acceptance\<close>

text \<open>
  (C3) A proposal is accepted by every validator that has the same committed database and cached
  height as its proposer, under a codec that reads back what it wrote, with readable validator
  keys, heights below \<open>2\<^sup>6\<^sup>2\<close> and, when a rollup is due, at least one registered validator (without one the
  rollup is refused, \<open>empty_rollup_refused\<close>); it holds at most 1000 transactions beside the proposer's
  deregistrations.
\<close>

theorem prepared_proposal_accepted:
  assumes prepared: "PrepareProposal x cfg uuid s req = Ok txs"
    and codec: "\<forall>m b. x_marshal_signed x m = Some b \<longrightarrow> x_unmarshal_signed x b = Some m"
    and sig: "\<forall>h s. x_Sign x h (cfg_EthereumKey cfg) = Some s \<longrightarrow> s \<noteq> []"
    and keys: "\<forall>node \<in> set (core_validators (srv_db s)). key_readable x node"
    and range: "0 < rq_Height req" "rq_Height req < 2 ^ 62" "rollups_in_range (srv_db s)" "0 < cfg_SlaRollupInterval cfg"
    and validators: "shouldProposeNewRollup cfg (srv_db s) (rq_Height req) \<Longrightarrow> core_validators (srv_db s) \<noteq> []"
  shows "ProcessProposal x cfg s (req\<lparr>rq_Txs := txs\<rparr>) = Ok StatusAccept
    \<and> length txs \<le> 1000 + length (rq_Misbehavior req)"
proof -
  let ?db = "srv_db s" and ?h = "rq_Height req" and ?mbs = "rq_Misbehavior req"
  let ?due = "shouldProposeNewRollup cfg ?db ?h"
  let ?own = "(if ?due then [createRollupTx x ?db (rq_Time req) ?h] else [])
    @ map (\<lambda>mb. createDeregisterTransaction x cfg ?db (uuid mb) mb) ?mbs"
  let ?valid = "\<lambda>tx. validateBlockTx x cfg ?db (srv_currentHeight s) (rq_Time req) ?h ?mbs tx"
  let ?batch = "GetBatch (proposal_batch_size ?due) ?h (srv_mempl s)"
  from prepared obtain own batch where txs: "txs = own @ batch"
    and own: "created_txs ?own = Ok own" and batch: "propose_batch ?valid x ?batch = Ok batch"
    by (auto simp: PrepareProposal_def Let_def go_simps)
  have "?valid b = Ok True" if "Ok b \<in> set ?own" for b
    using that created_rollup_valid [OF _ codec] rollup_due_next [OF _ range] validators created_dereg_valid [OF _ _ keys codec sig]
    by (auto split: if_splits)
  with created_txs_Ok [OF own] propose_batch_valid [OF batch] have "\<forall>tx \<in> set txs. ?valid tx = Ok True"
    by (auto simp: txs)
  then have "ProcessProposal x cfg s (req\<lparr>rq_Txs := txs\<rparr>) = Ok StatusAccept"
    by (simp add: ProcessProposal_def validateBlockTxs_all)
  moreover have "length ?batch \<le> nat (proposal_batch_size ?due)" by (simp add: GetBatch_view)
  with created_txs_Ok [OF own] propose_batch_valid [OF batch] have "length txs \<le> 1000 + length ?mbs"
    by (auto simp: txs proposal_batch_size_def split: if_splits)
  ultimately show ?thesis by blast
qed

definition demo_proposal :: block_request where
  "demo_proposal = \<lparr>rq_Height = 5, rq_Time = demo_time, rq_Hash = [], rq_ProposerAddress = [], rq_Txs = [],
     rq_Misbehavior = [[0, 0]]\<rparr>"

definition demo_proposer :: server where
  "demo_proposer = \<lparr>srv_db = demo_dereg_db, srv_mempl = NewMempool 10, srv_abci = NewABCIState 0,
     srv_currentHeight = 4, srv_catchingUp = False, srv_snapshots = []\<rparr>"

theorem prepared_proposal_accepted_witness:
  "PrepareProposal (one_tx_ext demo_dereg_tx) demo_config (\<lambda>_. ''id'') demo_proposer demo_proposal = Ok [[1]]
   \<and> ProcessProposal (one_tx_ext demo_dereg_tx) demo_config demo_proposer (demo_proposal\<lparr>rq_Txs := [[1]]\<rparr>) = Ok StatusAccept"
proof -
  let ?x = "one_tx_ext demo_dereg_tx"
  have prepared: "PrepareProposal ?x demo_config (\<lambda>_. ''id'') demo_proposer demo_proposal = Ok [[1]]"
    by code_simp
  have addr: "x_ed25519_address ?x (replicate 32 0) = Some ''0000''" by code_simp
  have keys: "\<forall>n \<in> set (core_validators (srv_db demo_proposer)). key_readable ?x n"
    using addr by (auto simp: demo_proposer_def demo_dereg_db_def key_readable_def demo_node_def
        intro!: exI [of _ "replicate 32 0"])
  have "ProcessProposal ?x demo_config demo_proposer (demo_proposal\<lparr>rq_Txs := [[1]]\<rparr>) = Ok StatusAccept
    \<and> length [[1 :: byte]] \<le> 1000 + length (rq_Misbehavior demo_proposal)"
    by (rule prepared_proposal_accepted [OF prepared _ _ keys])
      (auto simp: one_tx_ext_def demo_ext_def demo_config_def bytes_of_def demo_proposal_def rollups_in_range_def
        demo_proposer_def demo_dereg_db_def empty_db_def split: if_splits)
  with prepared show ?thesis by blast
qed

end
