(* ===== verification/Block_Invariants.thy ===== *)
theory Block_Invariants
  imports Abci
begin

text \<open>
  What finalizing and committing blocks keeps. The locales \<open>tx_invariant\<close> and \<open>stmt_invariant\<close> are
  the contract between the statements of the database and the application: a property that
  every single write keeps is kept by every transaction handler and by the whole body of a
  block. They are interpreted on the invariants of the components: one
  registration per wallet, one open tally per proposer, fresh rollup numbers, and rows that stay
  once they are stored.
\<close>

section \<open>Properties kept by every write\<close>

locale tx_invariant =
  fixes Inv :: "core_db \<Rightarrow> bool"
  assumes keeps_insert_node: "v_eth_address node = wallet \<Longrightarrow> keeps Inv (insert_node_if_absent wallet node)"
    and keeps_delete_node: "keeps Inv (DeleteRegisteredNode addr)"
    and keeps_rollup: "keeps Inv (finalizeSlaRollup rollup txHash)"
    and keeps_tx_stat: "keeps Inv (InsertTxStat ty txhash h t)"
    and keeps_tx: "keeps Inv (StoreTransaction row)"
    and keeps_proof: "keeps Inv (InsertStorageProof h addr cid sig provers)"
    and keeps_proof_update: "keeps Inv (UpdateStorageProof str status h addr)"
    and keeps_failed_proof: "keeps Inv (InsertFailedStorageProof h addr)"
    and keeps_ern: "keeps Inv (InsertCoreERN e)"
    and keeps_resource: "keeps Inv (InsertCoreResource e1)"
    and keeps_release: "keeps Inv (InsertCoreRelease e1)"
    and keeps_party: "keeps Inv (InsertCoreParty e1)"
    and keeps_deal: "keeps Inv (InsertCoreDeal e1)"
    and keeps_mead: "keeps Inv (InsertCoreMEAD m)"
    and keeps_pie: "keeps Inv (InsertCorePIE m)"
    and keeps_history: "keeps Inv (AppendValidatorHistory v)"
    and keeps_reward: "keeps Inv (InsertCoreReward w)"
    and keeps_reward_delete: "keeps Inv (DeleteCoreReward addr)"
    and keeps_upload: "keeps Inv (InsertFileUpload u)"
begin

lemmas keeps_writes = keeps_insert_node keeps_delete_node keeps_rollup
  keeps_tx_stat keeps_tx keeps_proof keeps_proof_update keeps_failed_proof keeps_ern keeps_resource
  keeps_release keeps_party keeps_deal keeps_mead keeps_pie keeps_history keeps_reward keeps_reward_delete keeps_upload

lemma keeps_registration:
  "keeps Inv (finalizeAttestation x cfg db tx h)"
  "keeps Inv (finalizeLegacyRegisterNode x tx)"
  "keeps Inv (finalizeDeregisterMisbehavingNode x db tx mbs)"
  "keeps Inv (appendRegistrationToValidatorHistory reg t h)"
  "keeps Inv (appendDeregistrationToValidatorHistory db dereg t h)"
  unfolding finalizeAttestation_def finalizeLegacyRegisterNode_def finalizeDeregisterMisbehavingNode_def
    finalizeRegisterNodeAttestation_def finalizeDeregisterValidatorAttestation_def Let_def
    appendRegistrationToValidatorHistory_def appendDeregistrationToValidatorHistory_def
  by (auto split: prod.splits option.splits attestation_body.splits intro!: keeps_intros keeps_writes)

lemma keeps_proof_loops:
  "keeps Inv (match_proofs x pf ps nodes votes)"
  "keeps Inv (mark_proofs s h nodes ps votes)"
  "keeps Inv (fail_missing h n votes)"
proof -
  show "keeps Inv (match_proofs x pf ps nodes votes)"
    by (induction ps arbitrary: nodes votes) (auto intro!: keeps_intros)
  show "keeps Inv (mark_proofs s h nodes ps votes)"
    by (induction ps arbitrary: votes) (auto intro!: keeps_intros keeps_writes)
  show "keeps Inv (fail_missing h n votes)"
    by (induction h n votes rule: fail_missing.induct) (auto intro!: keeps_intros keeps_writes)
qed

lemma keeps_storage:
  "keeps Inv (finalizeStorageProof x db tx h)"
  "keeps Inv (finalizeStorageProofVerification x db tx h)"
  unfolding finalizeStorageProof_def finalizeStorageProofVerification_def
  by (auto split: option.splits prod.splits intro!: keeps_intros keeps_writes keeps_proof_loops)

lemma keeps_rewards: "keeps Inv (finalizeRewardTransaction x cfg h txhash action)"
  unfolding finalizeRewardTransaction_def finalizeRewards_def finalizeCreateReward_def finalizeDeleteReward_def
  by (auto split: option.splits reward_action.splits intro!: keeps_intros keeps_writes)

lemma keeps_distribution:
  "keeps Inv (finalizeFileUpload x cfg db tx txHash h)"
  "keeps Inv (finalizeERN x cfg db h txhash v2 i)"
  "keeps Inv (finalizeMEAD x cfg h txhash v2 i)"
  "keeps Inv (finalizePIE x cfg h txhash v2 i)"
  unfolding finalizeFileUpload_def finalizeERN_def finalizeMEAD_def finalizePIE_def finalizeERNNewMessage_def
    finalizeMEADNewMessage_def finalizePIENewMessage_def Let_def
  by (auto split: option.splits intro!: keeps_intros keeps_writes)

lemma keeps_v2: "keeps Inv (finalizeV2Transaction x cfg db h tx txhash)"
  unfolding finalizeV2Transaction_def finalize_v2_message_def
  by (auto split: v2_message.splits intro!: keeps_intros keeps_distribution)

lemma keeps_handlers: "keeps Inv (finalizeTransaction x cfg db req msg txHash h)"
  unfolding finalizeTransaction_def typed_def untyped_def
  by (auto split: option.splits tx_body.splits result.splits
      intro!: keeps_intros keeps_registration keeps_storage keeps_rewards keeps_distribution keeps_rollup)

lemma keeps_ignore_err: "keeps Inv s \<Longrightarrow> keeps Inv (ignore_err s)"
  unfolding ignore_err_def by (auto split: result.splits intro!: keeps_intros)

lemma keeps_update_validators: "keeps Inv (update_validators x db req signedTx ups)"
  unfolding update_validators_def
  by (auto split: option.splits intro!: keeps_intros keeps_ignore_err keeps_registration)

lemma keeps_finalize_tx: "keeps Inv (finalize_tx x cfg db ch req ups itx)"
  unfolding finalize_tx_def store_tx_def persistTxStat_def Let_def
  by (auto split: result.splits prod.splits option.splits
      intro!: keeps_intros keeps_ignore_err keeps_handlers keeps_update_validators keeps_v2 keeps_writes)

lemma keeps_finalize_txs: "keeps Inv (finalize_txs x cfg db ch req ups itxs)"
  by (induction itxs arbitrary: ups) (auto split: prod.splits intro!: keeps_intros keeps_finalize_tx)

end

locale stmt_invariant = tx_invariant Inv for Inv :: "core_db \<Rightarrow> bool" +
  assumes keeps_app_state: "keeps Inv (UpsertAppState h a)"
    and keeps_report: "keeps Inv (UpsertSlaRollupReport addr)"
    and keeps_block: "keeps Inv (StoreBlock b)"
begin

lemma keeps_block_body: "keeps Inv (block_body x cfg db ch cu req)"
  unfolding block_body_def Let_def
  by (auto split: prod.splits intro!: keeps_intros keeps_ignore_err keeps_finalize_txs
      keeps_app_state keeps_report keeps_block)

end

section \<open>A statement of an aborted block does nothing\<close>

lemma abort_ignore_err [abort_intros]: "respects_abort s \<Longrightarrow> respects_abort (ignore_err s)"
  unfolding ignore_err_def by (auto split: result.splits intro!: abort_intros)

lemma abort_handlers [abort_intros]: "respects_abort (finalizeTransaction x cfg db req msg txHash h)"
  unfolding finalizeTransaction_def typed_def untyped_def
  by (auto split: option.splits tx_body.splits result.splits intro!: abort_intros)

lemma abort_update_validators [abort_intros]: "respects_abort (update_validators x db req signedTx ups)"
  unfolding update_validators_def by (auto split: option.splits intro!: abort_intros)

lemma abort_finalize_tx [abort_intros]: "respects_abort (finalize_tx x cfg db ch req ups itx)"
  unfolding finalize_tx_def store_tx_def persistTxStat_def Let_def StoreTransaction_def InsertTxStat_def
  by (auto split: result.splits prod.splits option.splits intro!: abort_intros)

lemma abort_finalize_txs [abort_intros]: "respects_abort (finalize_txs x cfg db ch req ups itxs)"
  by (induction itxs arbitrary: ups) (auto split: prod.splits intro!: abort_intros)

lemma abort_block_body [abort_intros]: "respects_abort (block_body x cfg db ch cu req)"
  unfolding block_body_def Let_def StoreBlock_def UpsertAppState_def UpsertSlaRollupReport_def
  by (auto split: prod.splits intro!: abort_intros)

section \<open>The invariants of the components\<close>

lemma keeps_insert_node_other:
  "(\<And>db rs. P db \<Longrightarrow> P (db\<lparr>core_validators := rs\<rparr>)) \<Longrightarrow> keeps P (insert_node_if_absent wallet node)"
  unfolding insert_node_if_absent_def InsertRegisteredNode_def
  by (intro keeps_intros) (auto split: result.splits intro!: keeps_intros)

lemma keeps_rollup_reports:
  assumes "\<And>db rs n. P db \<Longrightarrow> P (db\<lparr>seq_sla_rollups := n, sla_rollups := rs\<rparr>)"
    and "\<And>db rs. P db \<Longrightarrow> P (db\<lparr>sla_node_reports := rs\<rparr>)"
  shows "keeps P (finalizeSlaRollup rollup txHash)"
  unfolding finalizeSlaRollup_def CommitSlaRollup_def ClearUncommittedSlaNodeReports_def CommitSlaNodeReport_def
  by (intro keeps_intros) (auto split: result.splits intro!: keeps_intros assms)

lemma CommitSlaRollup_run:
  "CommitSlaRollup time txhash b e tx =
     (let db = tx_db tx; i = seq_sla_rollups db in
      if tx_aborted tx then (Err (DbErr ErrTxAborted), tx)
      else if db_fault db ''CommitSlaRollup'' then (Err (DbErr ErrQuery), tx\<lparr>tx_aborted := True\<rparr>)
      else (Ok i, tx\<lparr>tx_db := db\<lparr>seq_sla_rollups := i + 1, sla_rollups := sla_rollups db @
        [\<lparr>sl_id = i, sl_tx_hash = txhash, sl_block_start = b, sl_block_end = e, sl_time = time\<rparr>]\<rparr>\<rparr>))"
  by (simp add: CommitSlaRollup_def stmt_bind_def rows_stmt_def exec_stmt_def stmt_return_def Let_def)

text \<open>A rollup takes the next number, and its reports carry that number.\<close>

lemma keeps_finalizeSlaRollup:
  assumes commit: "\<And>tx i tx' t b e. P (tx_db tx) \<Longrightarrow> CommitSlaRollup t txHash b e tx = (Ok i, tx') \<Longrightarrow> Q i (tx_db tx')"
    and clear: "\<And>i. keeps (Q i) ClearUncommittedSlaNodeReports"
    and report: "\<And>i a n. keeps (Q i) (CommitSlaNodeReport i a n)"
    and weaken: "\<And>i db. Q i db \<Longrightarrow> P db"
  shows "keeps P (finalizeSlaRollup rollup txHash)"
proof -
  let ?rest = "\<lambda>i. stmt_bind ClearUncommittedSlaNodeReports (\<lambda>_.
      stmt_iter (\<lambda>r. CommitSlaNodeReport i (snr_address r) (snr_num_blocks_proposed r)) (sr_reports rollup))"
  have rest: "keeps (Q i) (?rest i)" for i
    by (intro keeps_intros clear report)
  have "keeps P (stmt_bind (CommitSlaRollup t txHash b e) ?rest)" for t b e
    unfolding keeps_def
  proof (intro allI impI)
    fix tx :: pgtx assume P: "P (tx_db tx)"
    show "P (tx_db (snd (stmt_bind (CommitSlaRollup t txHash b e) ?rest tx)))"
    proof (cases "tx_aborted tx \<or> db_fault (tx_db tx) ''CommitSlaRollup''")
      case True
      with P show ?thesis by (auto simp: stmt_bind_def [of "CommitSlaRollup t txHash b e"] CommitSlaRollup_run Let_def)
    next
      case False
      then obtain i tx' where run: "CommitSlaRollup t txHash b e tx = (Ok i, tx')"
        by (simp add: CommitSlaRollup_run Let_def)
      from keepsD [OF rest commit [OF P this]] weaken show ?thesis
        by (simp add: stmt_bind_def [of "CommitSlaRollup t txHash b e"] run)
    qed
  qed
  then show ?thesis
    unfolding finalizeSlaRollup_def by (intro keeps_intros) (auto split: result.splits intro!: keeps_intros)
qed

text \<open>Registrations: no wallet is registered twice.\<close>

interpretation wallets: stmt_invariant wallets_unique
proof unfold_locales
  show "keeps wallets_unique (DeleteRegisteredNode addr)" for addr
    unfolding DeleteRegisteredNode_def by (intro keeps_intros) (auto simp: wallets_unique_delete)
qed (auto simp: write_defs wallets_unique_def Let_def split: option.splits
    intro!: keeps_intros keeps_rollup_reports keeps_wallets_insert_if_absent)

lemma no_tally: "filter (\<lambda>r. (\<exists>y. nr_sla_rollup_id r = Some y) \<and> nr_sla_rollup_id r = None) rs = []"
  by (auto simp: filter_empty_conv)

text \<open>The auditor: a proposer has at most one open tally.\<close>

interpretation tallies: stmt_invariant tallies_unique
proof unfold_locales
  show "keeps tallies_unique (UpsertSlaRollupReport addr)" for addr
    unfolding UpsertSlaRollupReport_def
  proof (intro keeps_intros)
    fix db db' assume inv: "tallies_unique db"
      and upd: "(let rs = sla_node_reports db in
       if \<exists>r \<in> set rs. in_progress_for addr r \<and> 2 ^ 31 \<le> nr_blocks_proposed r + 1 then None else Some (db\<lparr>sla_node_reports :=
       (if \<exists>r \<in> set rs. in_progress_for addr r
        then map (\<lambda>r. if in_progress_for addr r
                       then r\<lparr>nr_blocks_proposed := nr_blocks_proposed r + 1\<rparr> else r) rs
        else rs @ [\<lparr>nr_address = addr, nr_blocks_proposed = 1, nr_sla_rollup_id = None\<rparr>])\<rparr>)) = Some db'"
    have mem: "(\<exists>r \<in> set (sla_node_reports db). in_progress_for addr r) \<longleftrightarrow> addr \<in> set (in_progress_addresses db)"
      by (auto simp: in_progress_for_def in_progress_addresses_def)
    show "tallies_unique db'"
      using inv upd mem tally_bump(1) [where rs = "sla_node_reports db" and a = addr]
      by (auto simp: tallies_unique_def in_progress_addresses_def Let_def split: if_splits)
  qed
  show "keeps tallies_unique (finalizeSlaRollup rollup txHash)" for rollup txHash
    unfolding finalizeSlaRollup_def CommitSlaRollup_def ClearUncommittedSlaNodeReports_def CommitSlaNodeReport_def
    by (intro keeps_intros) (auto simp: tallies_unique_def in_progress_addresses_def insert_unique_Some no_tally
       split: result.splits intro!: keeps_intros)
qed (auto simp: write_defs tallies_unique_def in_progress_addresses_def Let_def split: option.splits
    intro!: keeps_intros keeps_insert_node_other)

interpretation stored_block: stmt_invariant "\<lambda>db. b \<in> set (core_blocks db)" for b
  by unfold_locales (auto simp: write_defs Let_def insert_unique_Some split: option.splits
    intro!: keeps_intros keeps_insert_node_other keeps_rollup_reports)

interpretation stored_tx: stmt_invariant "\<lambda>db. t \<in> set (core_transactions db)" for t
  by unfold_locales (auto simp: write_defs Let_def insert_unique_Some split: option.splits
    intro!: keeps_intros keeps_insert_node_other keeps_rollup_reports)

interpretation rollup_seq: stmt_invariant "\<lambda>db. n \<le> seq_sla_rollups db" for n
proof unfold_locales
  show "keeps (\<lambda>db. n \<le> seq_sla_rollups db) (finalizeSlaRollup rollup txHash)" for rollup txHash
    by (rule keeps_finalizeSlaRollup [where Q = "\<lambda>_ db. n \<le> seq_sla_rollups db"])
      (auto simp: CommitSlaRollup_run ClearUncommittedSlaNodeReports_def CommitSlaNodeReport_def Let_def
        split: if_splits intro!: keeps_intros)
qed (auto simp: write_defs Let_def insert_unique_Some split: option.splits
    intro!: keeps_intros keeps_insert_node_other)

interpretation rollup_ids: stmt_invariant rollup_ids_fresh
proof unfold_locales
  show "keeps rollup_ids_fresh (finalizeSlaRollup rollup txHash)" for rollup txHash
    by (rule keeps_finalizeSlaRollup [where Q = "\<lambda>i db. rollup_ids_fresh db \<and> i < seq_sla_rollups db"])
      (auto simp: CommitSlaRollup_run ClearUncommittedSlaNodeReports_def CommitSlaNodeReport_def Let_def
        rollup_ids_fresh_def insert_unique_Some split: if_splits intro!: keeps_intros)
qed (auto simp: write_defs rollup_ids_fresh_def Let_def insert_unique_Some split: option.splits
    intro!: keeps_intros keeps_insert_node_other)

text \<open>The transactions of a block leave the app state alone.\<close>

interpretation app_state: tx_invariant "\<lambda>db. core_app_state db = rs" for rs
  by unfold_locales (auto simp: write_defs Let_def insert_unique_Some split: option.splits
    intro!: keeps_intros keeps_insert_node_other keeps_rollup_reports)

end
