(* ===== verification/Node.thy ===== *)
theory Node
  imports Block_Invariants
begin

text \<open>
  A node as a transition system: blocks are finalized and committed, transactions arrive in the
  mempool, the caches and the list of snapshots change, peers of a storage proof are recorded on
  the pool, queries start and stop failing, and the process restarts. The invariants hold in
  every state it reaches; the last section follows one block through finalizing, committing and
  a restart.
\<close>

section \<open>Steps\<close>

definition NewServer :: "core_db \<Rightarrow> int \<Rightarrow> int64 \<Rightarrow> server" where
  "NewServer db maxTxs retain = \<lparr>srv_db = db, srv_mempl = NewMempool maxTxs, srv_abci = NewABCIState retain,
     srv_currentHeight = 0, srv_catchingUp = True, srv_snapshots = []\<rparr>"

text \<open>The transaction of a block that was not committed is rolled back when its process ends.\<close>

definition crashed_db :: "server \<Rightarrow> core_db" where
  "crashed_db s = (case onGoingBlock (srv_abci s) of
     Some tx \<Rightarrow> if tx_closed tx then srv_db s else rolled_back (srv_db s) tx | None \<Rightarrow> srv_db s)"

inductive node_step :: "ext \<Rightarrow> core_config \<Rightarrow> server \<Rightarrow> server \<Rightarrow> bool" for x cfg where
  submit: "node_step x cfg s (s\<lparr>srv_mempl := snd (snd (addMempoolTransaction k tx b (peers :: (string \<times> unit) list) (srv_mempl s)))\<rparr>)"
| finalize: "node_step x cfg s (snd (FinalizeBlock x cfg req s))"
| commit: "node_step x cfg s (snd (Commit cfg s))"
| proof_peers: "node_step x cfg s (s\<lparr>srv_db := snd (InsertStorageProofPeers h addrs (srv_db s))\<rparr>)"
| caches: "node_step x cfg s (s\<lparr>srv_currentHeight := h, srv_catchingUp := c, srv_snapshots := ss\<rparr>)"
| faults: "node_step x cfg s (s\<lparr>srv_db := (srv_db s)\<lparr>db_fault := f\<rparr>\<rparr>)"
| restart: "node_step x cfg s (NewServer (crashed_db s) n r)"

inductive reachable :: "ext \<Rightarrow> core_config \<Rightarrow> server \<Rightarrow> bool" for x cfg where
  initial: "reachable x cfg (NewServer empty_db n r)"
| step: "reachable x cfg s \<Longrightarrow> node_step x cfg s s' \<Longrightarrow> reachable x cfg s'"

inductive_cases node_stepE: "node_step x cfg s s'"

section \<open>Invariants of the node\<close>

locale db_invariant = stmt_invariant Inv for Inv :: "core_db \<Rightarrow> bool" +
  assumes inv_empty: "Inv empty_db"
    and inv_rollback: "Inv db \<Longrightarrow> seq_sla_rollups db \<le> n \<Longrightarrow> Inv (db\<lparr>seq_sla_rollups := n\<rparr>)"
    and inv_peers: "Inv db \<Longrightarrow> Inv (db\<lparr>storage_proof_peers := ps\<rparr>)"
    and inv_fault: "Inv db \<Longrightarrow> Inv (db\<lparr>db_fault := f\<rparr>)"
begin

text \<open>The committed database has the property, and so has the one of the open block.\<close>

definition server_inv :: "server \<Rightarrow> bool" where
  "server_inv s \<longleftrightarrow> Inv (srv_db s) \<and> mp_inv (srv_mempl s) \<and>
     (\<forall>tx. onGoingBlock (srv_abci s) = Some tx \<longrightarrow>
        Inv (tx_db tx) \<and> seq_sla_rollups (srv_db s) \<le> seq_sla_rollups (tx_db tx))"

lemma inv_rolled_back:
  "Inv db \<Longrightarrow> seq_sla_rollups db \<le> seq_sla_rollups (tx_db tx) \<Longrightarrow> Inv (rolled_back db tx)"
  by (simp add: rolled_back_def inv_rollback)

lemma server_inv_finalize:
  assumes "server_inv s"
  shows "server_inv (snd (FinalizeBlock x cfg req s))"
proof -
  let ?tx = "if db_fault (srv_db s) ''Begin'' then onGoingBlock (srv_abci s) else Some (begin_tx (srv_db s))"
  have body: "Inv (tx_db tx') \<and> seq_sla_rollups (srv_db s) \<le> seq_sla_rollups (tx_db tx')"
    if "?tx = Some tx" "block_body x cfg (srv_db s) (srv_currentHeight s) (srv_catchingUp s) req tx = (r, tx')"
    for tx r tx'
  proof -
    have "Inv (tx_db tx)" "seq_sla_rollups (srv_db s) \<le> seq_sla_rollups (tx_db tx)"
      using that(1) assms by (auto simp: server_inv_def begin_tx_def split: if_splits)
    with keepsD [OF keeps_block_body] keepsD [OF rollup_seq.keeps_block_body] that(2) show ?thesis
      by (metis snd_conv)
  qed
  show ?thesis
    using assms body RemoveExpired_spec(1)
    by (auto simp: FinalizeBlock_def server_inv_def split: option.splits prod.splits result.splits)
qed

lemma server_inv_commit:
  assumes "server_inv s"
  shows "server_inv (snd (Commit cfg s))"
proof -
  have "server_inv (snd (commitInProgressTx s))"
    using assms inv_rolled_back
    by (auto simp: commitInProgressTx_def commit_tx_def server_inv_def inv_peers rolled_back_def close_tx_def
        split: option.splits)
  then show ?thesis
    by (auto simp: Commit_def server_inv_def Let_def RemoveBatch_spec split: prod.splits result.splits)
qed

lemma server_inv_step: "node_step x cfg s s' \<Longrightarrow> server_inv s \<Longrightarrow> server_inv s'"
proof (induction rule: node_step.induct)
  case (submit s k tx b peers)
  then show ?case
    by (auto simp: server_inv_def addMempoolTransaction_def Let_def split_beta pool_insert_spec)
next
  case (proof_peers s h addrs)
  then show ?case
    by (auto simp: server_inv_def InsertStorageProofPeers_def inv_peers split: option.splits)
next
  case (restart s n r)
  then show ?case
    by (auto simp: server_inv_def NewServer_def NewABCIState_def crashed_db_def inv_rolled_back split: option.splits)
qed (auto simp: server_inv_finalize server_inv_commit, auto simp: server_inv_def inv_fault)

lemma reachable_inv: "reachable x cfg s \<Longrightarrow> server_inv s"
proof (induction rule: reachable.induct)
  case (initial n r)
  then show ?case by (simp add: server_inv_def NewServer_def NewABCIState_def inv_empty)
qed (rule server_inv_step)

lemma reachable_db: "reachable x cfg s \<Longrightarrow> Inv (srv_db s)"
  using reachable_inv by (simp add: server_inv_def)

end

interpretation node_wallets: db_invariant wallets_unique
  by unfold_locales (simp_all add: wallets_unique_def empty_db_def)

interpretation node_tallies: db_invariant tallies_unique
  by unfold_locales (simp_all add: tallies_unique_def in_progress_addresses_def empty_db_def)

interpretation node_rollups: db_invariant rollup_ids_fresh
  by unfold_locales (fastforce simp: rollup_ids_fresh_def empty_db_def)+

end
