(* ===== verification/Block_Lifecycle.thy ===== *)
theory Block_Lifecycle
  imports Node
begin

text \<open>
  One block through finalizing, committing and a restart: what is durable once \<^verbatim>\<open>Commit\<close> has
  returned without an error, what a failing statement costs, and what the invariants say of
  every database a node reaches.
\<close>

section \<open>A block whose transaction was not aborted has stored everything\<close>

lemma aborted_stays: "respects_abort s \<Longrightarrow> s tx = (r, tx') \<Longrightarrow> \<not> tx_aborted tx' \<Longrightarrow> \<not> tx_aborted tx"
  by (metis respects_abortD snd_conv)

lemma exec_not_aborted:
  assumes "ignore_err (exec_stmt n upd) tx = (r, tx')" and "\<not> tx_aborted tx'"
  shows "r = Ok () \<and> (\<exists>db. upd (tx_db tx) = Some db \<and> tx' = tx\<lparr>tx_db := db\<rparr>)"
  using assms by (auto simp: ignore_err_def stmt_try_def exec_stmt_def stmt_return_def
      split: option.splits if_splits)

definition tx_row :: "ext \<Rightarrow> block_request \<Rightarrow> nat \<Rightarrow> bytes \<Rightarrow> transaction_row" where
  "tx_row x req i tx = \<lparr>t_block_id = rq_Height req, t_index = wrap32 (int i), t_tx_hash = ToTxHashFromBytes x tx,
     t_transaction = tx, t_created_at = pg_time (Some (rq_Time req))\<rparr>"

lemma store_tx_not_aborted:
  assumes "store_tx req i (ToTxHashFromBytes x t) t tx = (r, tx')" and "\<not> tx_aborted tx'"
  shows "tx_row x req i t \<in> set (core_transactions (tx_db tx'))"
  using exec_not_aborted [OF assms(1) [unfolded store_tx_def StoreTransaction_def] assms(2)]
  by (auto simp: insert_unique_Some tx_row_def)

lemma abort_persist [abort_intros]: "respects_abort (persistTxStat name txhash h t)"
  unfolding persistTxStat_def InsertTxStat_def by (auto split: option.splits intro!: abort_intros)

lemma finalize_tx_stored:
  assumes run: "finalize_tx x cfg db ch req ups (i, t) tx = (Ok (c, ups', hs), tx')" and live: "\<not> tx_aborted tx'"
  shows "if c = 1 then hs = [] else hs = [ToTxHashFromBytes x t] \<and> tx_row x req i t \<in> set (core_transactions (tx_db tx'))"
proof -
  let ?hash = "ToTxHashFromBytes x t"
  consider (v1) m where "isValidSignedTransaction x t = Ok m"
    | (v2) m where "\<And>m. isValidSignedTransaction x t \<noteq> Ok m" "isValidV2Transaction x cfg ch t = Ok m"
    | (invalid) "\<And>m. isValidSignedTransaction x t \<noteq> Ok m" "\<And>m. isValidV2Transaction x cfg ch t \<noteq> Ok m"
    by blast
  then show ?thesis
  proof cases
    case v1
    with run obtain name tx2 tx3 u where steps:
      "store_tx req i ?hash t tx2 = (Ok u, tx3)"
      "persistTxStat name ?hash (rq_Height req) (rq_Time req) tx3 = (Ok (), tx')"
      and out: "c \<noteq> 1" "hs = [?hash]"
      by (auto simp: finalize_tx_def Let_def stmt_bind_eq_Ok stmt_return_def split: prod.splits)
    have "\<not> tx_aborted tx3" by (rule aborted_stays [OF abort_persist steps(2) live])
    from store_tx_not_aborted [OF steps(1) this] have "tx_row x req i t \<in> set (core_transactions (tx_db tx3))" .
    with steps(2) have "tx_row x req i t \<in> set (core_transactions (tx_db tx'))"
      using keepsD [OF stored_tx.keeps_tx_stat, of _ tx3]
      by (auto simp: persistTxStat_def stmt_try_def stmt_return_def split: option.splits prod.splits) (metis snd_conv)
    with out show ?thesis by simp
  next
    case v2
    with run obtain tx1 u where
      "store_tx req i ?hash t tx1 = (Ok u, tx')" "c \<noteq> 1" "hs = [?hash]"
      by (auto simp: finalize_tx_def Let_def stmt_try_def stmt_bind_eq_Ok stmt_return_def stmt_lift_def
          split: prod.splits result.splits)
    with store_tx_not_aborted [of req i x t] live show ?thesis by simp
  next
    case invalid
    with run show ?thesis
      by (auto simp: finalize_tx_def Let_def stmt_return_def stmt_lift_def split: result.splits)
  qed
qed

text \<open>The hashes of the transactions a block recognised, by their result codes.\<close>

definition recognised :: "ext \<Rightarrow> nat list \<Rightarrow> bytes list \<Rightarrow> string list" where
  "recognised x codes txs = map (ToTxHashFromBytes x \<circ> snd) (filter (\<lambda>ct. fst ct \<noteq> 1) (zip codes txs))"

lemma recognised_simps [simp]:
  "recognised x [] txs = []"
  "recognised x (c # codes) (t # txs) = (if c = 1 then [] else [ToTxHashFromBytes x t]) @ recognised x codes txs"
  by (simp_all add: recognised_def)

lemma finalize_txs_stored:
  assumes "finalize_txs x cfg db ch req ups itxs tx = (Ok (codes, ups', hs), tx')" and "\<not> tx_aborted tx'"
  shows "length codes = length itxs \<and> hs = recognised x codes (map snd itxs)
    \<and> (\<forall>j < length codes. codes ! j \<noteq> 1 \<longrightarrow>
         tx_row x req (fst (itxs ! j)) (snd (itxs ! j)) \<in> set (core_transactions (tx_db tx')))"
  using assms
proof (induction itxs arbitrary: ups tx codes hs)
  case Nil
  then show ?case by (simp add: stmt_return_def)
next
  case (Cons it itxs)
  from Cons.prems(1) obtain c u1 h1 tx1 cs h2 where
    one: "finalize_tx x cfg db ch req ups it tx = (Ok (c, u1, h1), tx1)"
    and rest: "finalize_txs x cfg db ch req u1 itxs tx1 = (Ok (cs, ups', h2), tx')"
    and out: "codes = c # cs" "hs = h1 @ h2"
    by (auto simp: stmt_bind_eq_Ok stmt_return_def split: prod.splits)
  have live: "\<not> tx_aborted tx1" by (rule aborted_stays [OF abort_finalize_txs rest Cons.prems(2)])
  note IH = Cons.IH [OF rest Cons.prems(2)]
  have kept: "r \<in> set (core_transactions (tx_db tx1)) \<Longrightarrow> r \<in> set (core_transactions (tx_db tx'))" for r
    using keepsD [OF stored_tx.keeps_finalize_txs, of r tx1] rest by (metis snd_conv)
  have head: "if c = 1 then h1 = [] else h1 = [ToTxHashFromBytes x (snd it)]
      \<and> tx_row x req (fst it) (snd it) \<in> set (core_transactions (tx_db tx1))"
    using finalize_tx_stored [of x cfg db ch req ups "fst it" "snd it"] one live by simp
  show ?case
  proof (intro conjI allI impI)
    show "length codes = length (it # itxs)" using IH out by simp
    show "hs = recognised x codes (map snd (it # itxs))" using IH head out by (auto split: if_splits)
    fix j assume "j < length codes" "codes ! j \<noteq> 1"
    then show "tx_row x req (fst ((it # itxs) ! j)) (snd ((it # itxs) ! j)) \<in> set (core_transactions (tx_db tx'))"
      using IH head kept out by (cases j) (auto split: if_splits)
  qed
qed

definition block_row_of :: "core_config \<Rightarrow> block_request \<Rightarrow> block_row" where
  "block_row_of cfg req = \<lparr>b_height = rq_Height req, b_chain_id = cfg_ChainID cfg, b_hash = hex_encode (rq_Hash req),
     b_proposer = hex_encode (rq_ProposerAddress req), b_created_at = pg_time (Some (rq_Time req))\<rparr>"

definition app_row_of :: "ext \<Rightarrow> block_request \<Rightarrow> app_state_row" where
  "app_row_of x req = \<lparr>as_block_height = rq_Height req, as_app_hash = serializeAppState x [] (rq_Txs req)\<rparr>"

lemma block_body_stored:
  assumes run: "block_body x cfg db ch cu req tx = (Ok (resp, hs), tx')" and live: "\<not> tx_aborted tx'"
  shows "block_row_of cfg req \<in> set (core_blocks (tx_db tx'))"
    and "core_app_state (tx_db tx') = core_app_state (tx_db tx) @ [app_row_of x req]"
    and "length (rs_TxResults resp) = length (rq_Txs req)"
    and "hs = recognised x (rs_TxResults resp) (rq_Txs req)"
    and "j < length (rq_Txs req) \<Longrightarrow> rs_TxResults resp ! j \<noteq> 1 \<Longrightarrow>
      tx_row x req j (rq_Txs req ! j) \<in> set (core_transactions (tx_db tx'))"
    and "rs_AppHash resp = serializeAppState x [] (rq_Txs req)"
proof -
  from run obtain u1 tx1 codes ups tx2 u3 tx3 u4 where
    blk: "ignore_err (StoreBlock (block_row_of cfg req)) tx = (Ok u1, tx1)"
    and txs: "finalize_txs x cfg db ch req [] (enumerate 0 (rq_Txs req)) tx1 = (Ok (codes, ups, hs), tx2)"
    and app: "ignore_err (UpsertAppState (rq_Height req) (serializeAppState x [] (rq_Txs req))) tx2 = (Ok u3, tx3)"
    and rep: "ignore_err (UpsertSlaRollupReport (x_address_string x (rq_ProposerAddress req))) tx3 = (Ok u4, tx')"
    and resp: "rs_TxResults resp = codes" "rs_AppHash resp = serializeAppState x [] (rq_Txs req)"
    by (auto simp: block_body_def block_row_of_def Let_def stmt_bind_eq_Ok stmt_return_def split: prod.splits)
  have live3: "\<not> tx_aborted tx3"
    by (rule aborted_stays [OF abort_ignore_err rep live]) (simp add: UpsertSlaRollupReport_def abort_intros)
  have live2: "\<not> tx_aborted tx2"
    by (rule aborted_stays [OF abort_ignore_err app live3]) (simp add: UpsertAppState_def abort_intros)
  have live1: "\<not> tx_aborted tx1" by (rule aborted_stays [OF abort_finalize_txs txs live2])
  have rep': "core_app_state (tx_db tx') = core_app_state (tx_db tx3)" "core_blocks (tx_db tx') = core_blocks (tx_db tx3)"
    "core_transactions (tx_db tx') = core_transactions (tx_db tx3)"
    using exec_not_aborted [OF rep [unfolded UpsertSlaRollupReport_def] live] by (auto simp: Let_def)
  have app': "core_app_state (tx_db tx3) = core_app_state (tx_db tx2) @ [app_row_of x req]"
    "core_blocks (tx_db tx3) = core_blocks (tx_db tx2)" "core_transactions (tx_db tx3) = core_transactions (tx_db tx2)"
    using exec_not_aborted [OF app [unfolded UpsertAppState_def] live3]
    by (auto simp: insert_unique_Some app_row_of_def)
  have blk': "block_row_of cfg req \<in> set (core_blocks (tx_db tx1))" "core_app_state (tx_db tx1) = core_app_state (tx_db tx)"
    using exec_not_aborted [OF blk [unfolded StoreBlock_def] live1] by (auto simp: insert_unique_Some)
  have kept: "block_row_of cfg req \<in> set (core_blocks (tx_db tx2))" "core_app_state (tx_db tx2) = core_app_state (tx_db tx1)"
    using keepsD [OF stored_block.keeps_finalize_txs blk'(1)] keepsD [OF app_state.keeps_finalize_txs refl] txs
    by (metis snd_conv)+
  note stored = finalize_txs_stored [OF txs live2]
  show "block_row_of cfg req \<in> set (core_blocks (tx_db tx'))" using kept rep' app' by simp
  show "core_app_state (tx_db tx') = core_app_state (tx_db tx) @ [app_row_of x req]" using kept rep' app' blk' by simp
  show "length (rs_TxResults resp) = length (rq_Txs req)" using stored resp by simp
  show "hs = recognised x (rs_TxResults resp) (rq_Txs req)" using stored resp by simp
  show "rs_AppHash resp = serializeAppState x [] (rq_Txs req)" by (rule resp)
  show "tx_row x req j (rq_Txs req ! j) \<in> set (core_transactions (tx_db tx'))"
    if "j < length (rq_Txs req)" "rs_TxResults resp ! j \<noteq> 1"
    using stored that resp rep' app' by (auto simp: nth_enumerate_eq)
qed

section \<open>Finalizing and committing\<close>

lemma latest_by_append:
  assumes "\<forall>r \<in> set rows. key r < key new"
  shows "latest_by key (rows @ [new]) = Some new"
proof (cases rows)
  case (Cons r rs)
  have "fold (\<lambda>y best. if key best < key y then y else best) rs r \<in> set (r # rs)"
    using latest_by_max(1) [of key "r # rs"] by (simp add: latest_by_def)
  with assms Cons show ?thesis by (auto simp: latest_by_def)
qed (simp add: latest_by_def)

text \<open>
  (C1) When a block is finalized in a transaction of its own and \<^verbatim>\<open>Commit\<close> then returns without
  an error, the block and every recognised transaction of it are in the database at their
  positions, a node that asks for the last state is given the block's height and application
  hash, the recognised transactions are gone from the mempool (the others stay unless the block
  expires them) and are the hashes published, and no hash is left for the next block.
\<close>

theorem committed_block_durable:
  assumes fin: "FinalizeBlock x cfg req s = (Ok resp, s1)" and begins: "\<not> db_fault (srv_db s) ''Begin''"
    and idle: "finalizedTxs (srv_abci s) = []" and pool: "mp_inv (srv_mempl s)"
    and com: "Commit cfg s1 = (Ok (retain, hashes), s2)"
    and later: "\<forall>r \<in> set (core_app_state (srv_db s)). as_block_height r < rq_Height req"
    and readable: "\<not> db_fault (srv_db s2) ''GetLatestAppState''"
  shows "block_row_of cfg req \<in> set (core_blocks (srv_db s2))
    \<and> (\<forall>j < length (rq_Txs req). rs_TxResults resp ! j \<noteq> 1 \<longrightarrow>
         tx_row x req j (rq_Txs req ! j) \<in> set (core_transactions (srv_db s2)))
    \<and> Info s2 = (rq_Height req, rs_AppHash resp)
    \<and> hashes = recognised x (rs_TxResults resp) (rq_Txs req)
    \<and> mp_view (srv_mempl s2) = filter (\<lambda>kt. fst kt \<notin> set hashes \<and>
         (go_mod (rq_Height req) 100 = 0 \<longrightarrow> rq_Height req < mt_Deadline (snd kt))) (mp_view (srv_mempl s))
    \<and> finalizedTxs (srv_abci s2) = [] \<and> onGoingBlock (srv_abci s2) = None"
proof -
  from fin begins obtain hs tx' where
    body: "block_body x cfg (srv_db s) (srv_currentHeight s) (srv_catchingUp s) req (begin_tx (srv_db s)) = (Ok (resp, hs), tx')"
    and s1: "s1 = s\<lparr>srv_abci := (srv_abci s)\<lparr>onGoingBlock := Some tx', finalizedTxs := hs\<rparr>,
        srv_mempl := (if go_mod (rq_Height req) 100 = 0
          then RemoveExpiredTransactions (rq_Height req) (srv_mempl s) else srv_mempl s)\<rparr>"
    using idle by (auto simp: FinalizeBlock_def split: prod.splits result.splits)
  have "\<not> tx_closed tx'"
    using respects_abort_closed [OF abort_block_body] body by (metis begin_tx_def pgtx.select_convs(3) snd_conv)
  with com s1 have live: "\<not> tx_aborted tx'"
    by (auto simp: Commit_def commitInProgressTx_def commit_tx_def Let_def split: if_splits)
  note stored = block_body_stored [OF body live]
  let ?pool = "if go_mod (rq_Height req) 100 = 0 then RemoveExpiredTransactions (rq_Height req) (srv_mempl s) else srv_mempl s"
  from com s1 live \<open>\<not> tx_closed tx'\<close> have s2: "hashes = hs" "finalizedTxs (srv_abci s2) = []" "onGoingBlock (srv_abci s2) = None"
    "srv_mempl s2 = RemoveBatch hs ?pool"
    "srv_db s2 = (tx_db tx')\<lparr>storage_proof_peers := storage_proof_peers (srv_db s)\<rparr>"
    by (auto simp: Commit_def commitInProgressTx_def commit_tx_def Let_def split: if_splits)
  have pool': "mp_inv ?pool" "mp_view ?pool = filter (\<lambda>kt. go_mod (rq_Height req) 100 = 0 \<longrightarrow>
      rq_Height req < mt_Deadline (snd kt)) (mp_view (srv_mempl s))"
    using RemoveExpired_spec [OF pool] pool by (auto simp: filter_id_conv)
  have app: "core_app_state (srv_db s2) = core_app_state (srv_db s) @ [app_row_of x req]"
    using stored(2) s2 by (simp add: begin_tx_def)
  have "latest_by as_block_height (core_app_state (srv_db s) @ [app_row_of x req]) = Some (app_row_of x req)"
    using later by (intro latest_by_append) (simp add: app_row_of_def)
  then have "Info s2 = (rq_Height req, rs_AppHash resp)"
    using readable app stored(6) by (simp add: Info_def db_row_def GetLatestAppState_def app_row_of_def)
  moreover have "mp_view (srv_mempl s2) = filter (\<lambda>kt. fst kt \<notin> set hashes \<and>
      (go_mod (rq_Height req) 100 = 0 \<longrightarrow> rq_Height req < mt_Deadline (snd kt))) (mp_view (srv_mempl s))"
    using RemoveBatch_spec [OF pool'(1)] pool'(2) s2 by (simp add: conj_commute)
  ultimately show ?thesis using stored s2 by simp
qed


definition demo_block :: block_request where
  "demo_block = \<lparr>rq_Height = 7, rq_Time = demo_time, rq_Hash = [1], rq_ProposerAddress = [9], rq_Txs = [[1], [2]],
     rq_Misbehavior = []\<rparr>"

text \<open>A node joins with a key of the right size.\<close>

definition demo_join_tx :: signed_transaction where
  "demo_join_tx = \<lparr>st_signature = ''616263'', st_request_id = '''', st_transaction = Some (TxLegacyRegistration
     (zero_legacy_registration\<lparr>vrl_power := 10, vrl_pub_key := replicate 32 0, vrl_comet_address := ''0000''\<rparr>))\<rparr>"

definition demo_chain_ext :: ext where
  "demo_chain_ext = one_tx_ext demo_join_tx"

definition demo_server :: server where
  "demo_server = NewServer empty_db 10 0"

definition demo_response :: block_response where
  "demo_response = \<lparr>rs_TxResults = [0, 1], rs_AppHash = pad32 [1, 2],
     rs_ValidatorUpdates = [(''0000'', 10, replicate 32 0)], rs_PoSTriggered = False\<rparr>"

abbreviation demo_finalized :: server where
  "demo_finalized \<equiv> snd (FinalizeBlock demo_chain_ext demo_config demo_block demo_server)"

abbreviation demo_committed :: server where
  "demo_committed \<equiv> snd (Commit demo_config demo_finalized)"

lemma demo_run_eval:
  "(case FinalizeBlock demo_chain_ext demo_config demo_block demo_server of (r1, s1) \<Rightarrow>
      case Commit demo_config s1 of (r2, s2) \<Rightarrow>
        (r1, r2, map v_comet_address (core_validators (srv_db s2)), db_fault (srv_db s2) ''GetLatestAppState''))
   = (Ok demo_response, Ok (0, [ToTxHashFromBytes demo_chain_ext [1]]), [''0000''], False)"
  by code_simp

lemma demo_run:
  "fst (FinalizeBlock demo_chain_ext demo_config demo_block demo_server) = Ok demo_response"
  "fst (Commit demo_config demo_finalized) = Ok (0, [ToTxHashFromBytes demo_chain_ext [1]])"
  "map v_comet_address (core_validators (srv_db demo_committed)) = [''0000'']"
  "db_fault (srv_db demo_committed) ''GetLatestAppState'' = False"
  using demo_run_eval by (simp_all add: split_beta)

theorem committed_block_durable_witness:
  "Info demo_committed = (7, pad32 [1, 2])
   \<and> tx_row demo_chain_ext demo_block 0 [1] \<in> set (core_transactions (srv_db demo_committed))"
proof -
  have fin: "FinalizeBlock demo_chain_ext demo_config demo_block demo_server = (Ok demo_response, demo_finalized)"
    using demo_run(1) by (simp add: prod_eq_iff)
  have com: "Commit demo_config demo_finalized = (Ok (0, [ToTxHashFromBytes demo_chain_ext [1]]), demo_committed)"
    using demo_run(2) by (simp add: prod_eq_iff)
  have pre: "\<not> db_fault (srv_db demo_server) ''Begin''" "finalizedTxs (srv_abci demo_server) = []"
    "mp_inv (srv_mempl demo_server)"
    "\<forall>r \<in> set (core_app_state (srv_db demo_server)). as_block_height r < rq_Height demo_block"
    by (simp_all add: demo_server_def NewServer_def NewABCIState_def empty_db_def)
  have "0 < length (rq_Txs demo_block)" "rq_Txs demo_block ! 0 = [1]" "rq_Height demo_block = 7"
    "rs_TxResults demo_response ! 0 \<noteq> 1" "rs_AppHash demo_response = pad32 [1, 2]"
    by (simp_all add: demo_block_def demo_response_def)
  with committed_block_durable [OF fin pre(1,2,3) com pre(4)] demo_run(4) show ?thesis by metis
qed

section \<open>Losing a block\<close>

text \<open>
  (C12) When a statement of a block has failed, the first \<^verbatim>\<open>Commit\<close> returns an error, the committed
  database stays as it was but for the sequence of rollup numbers, and the mempool and the
  hashes of the block are kept. A second \<^verbatim>\<open>Commit\<close> finds its transaction closed and returns
  without an error: nothing of the block is stored, and its transactions are removed from the
  mempool and published as finalized.
\<close>

theorem failed_block_is_lost:
  assumes open_tx: "onGoingBlock (srv_abci s) = Some tx" "\<not> tx_closed tx" and failed: "tx_aborted tx"
  shows "\<exists>e s1 retain s2. Commit cfg s = (Err e, s1) \<and> srv_db s1 = rolled_back (srv_db s) tx
    \<and> srv_mempl s1 = srv_mempl s \<and> finalizedTxs (srv_abci s1) = finalizedTxs (srv_abci s)
    \<and> Commit cfg s1 = (Ok (retain, finalizedTxs (srv_abci s)), s2) \<and> srv_db s2 = rolled_back (srv_db s) tx
    \<and> srv_mempl s2 = RemoveBatch (finalizedTxs (srv_abci s)) (srv_mempl s) \<and> finalizedTxs (srv_abci s2) = []"
proof -
  define s1 where "s1 = s\<lparr>srv_db := rolled_back (srv_db s) tx, srv_abci := (srv_abci s)\<lparr>onGoingBlock := Some (close_tx tx)\<rparr>\<rparr>"
  have first: "\<exists>e. Commit cfg s = (Err e, s1)"
    using assms by (auto simp: Commit_def commitInProgressTx_def commit_tx_def is_ok_def s1_def)
  have "commitInProgressTx s1 = (Ok (), s1\<lparr>srv_abci := (srv_abci s1)\<lparr>onGoingBlock := None\<rparr>\<rparr>)"
    by (simp add: commitInProgressTx_def commit_tx_def s1_def close_tx_def)
  then have "\<exists>retain s2. Commit cfg s1 = (Ok (retain, finalizedTxs (srv_abci s)), s2) \<and> srv_db s2 = rolled_back (srv_db s) tx
    \<and> srv_mempl s2 = RemoveBatch (finalizedTxs (srv_abci s)) (srv_mempl s) \<and> finalizedTxs (srv_abci s2) = []"
    by (auto simp: Commit_def Let_def s1_def)
  with first show ?thesis by (auto simp: s1_def)
qed

text \<open>A block whose height is already in the database.\<close>

definition demo_replay_server :: server where
  "demo_replay_server = demo_server\<lparr>srv_abci := \<lparr>onGoingBlock = Some \<lparr>tx_db = empty_db, tx_aborted = True, tx_closed = False\<rparr>,
     finalizedTxs = [''h''], lastRetainHeight = 0\<rparr>\<rparr>"

theorem failed_block_is_lost_witness:
  "\<exists>e s1 retain s2. Commit demo_config demo_replay_server = (Err e, s1) \<and> Commit demo_config s1 = (Ok (retain, [''h'']), s2)
    \<and> core_blocks (srv_db s2) = []"
  using failed_block_is_lost [of demo_replay_server "\<lparr>tx_db = empty_db, tx_aborted = True, tx_closed = False\<rparr>" demo_config]
  by (auto simp: demo_replay_server_def demo_server_def NewServer_def rolled_back_def empty_db_def)

section \<open>Reachable databases\<close>

text \<open>
  (C2) In every state a node reaches by submitting transactions, finalizing and committing
  blocks, losing queries and restarting, no wallet is registered twice, a proposer has at most
  one open tally, the numbers of the stored rollups are below the next one, and the mempool's
  list agrees with its index.
\<close>

theorem reachable_invariants:
  assumes "reachable x cfg s"
  shows "wallets_unique (srv_db s) \<and> tallies_unique (srv_db s) \<and> rollup_ids_fresh (srv_db s) \<and> mp_inv (srv_mempl s)"
  using node_wallets.reachable_inv [OF assms] node_wallets.reachable_db [OF assms]
    node_tallies.reachable_db [OF assms] node_rollups.reachable_db [OF assms]
  by (simp add: node_wallets.server_inv_def)

theorem reachable_invariants_witness:
  "map v_comet_address (core_validators (srv_db demo_committed)) = [''0000''] \<and> wallets_unique (srv_db demo_committed)"
proof -
  have "reachable demo_chain_ext demo_config demo_server" unfolding demo_server_def by (rule reachable.initial)
  then have "reachable demo_chain_ext demo_config demo_committed"
    by (rule reachable.step [OF reachable.step [OF _ node_step.finalize] node_step.commit])
  from reachable_invariants [OF this] demo_run(3) show ?thesis by simp
qed

end
