(* ===== verification/Determinism.thy ===== *)
theory Determinism
  imports Abci
begin

text \<open>
  Replicas: nodes that finalize the same block over the same committed data answer alike. The
  table of the peers of storage proofs is local to a node, and the theorem shows that nothing a
  block does depends on it; the cached height is local too, and there the results differ.
\<close>

section \<open>Statements that do not see the local peers\<close>

named_theorems blind_intros \<open>statements that act alike whatever peers are stored\<close>

abbreviation db_peers :: "storage_proof_peers_row list \<Rightarrow> core_db \<Rightarrow> core_db" where
  "db_peers ps db \<equiv> db\<lparr>storage_proof_peers := ps\<rparr>"

definition with_peers :: "storage_proof_peers_row list \<Rightarrow> pgtx \<Rightarrow> pgtx" where
  "with_peers ps tx = tx\<lparr>tx_db := db_peers ps (tx_db tx)\<rparr>"

definition alike :: "storage_proof_peers_row list \<Rightarrow> 'a stmt \<Rightarrow> 'a stmt \<Rightarrow> bool" where
  "alike ps s s' \<longleftrightarrow> (\<forall>tx. s' (with_peers ps tx) = (fst (s tx), with_peers ps (snd (s tx))))"

lemma with_peers_sel [simp]:
  "tx_aborted (with_peers ps tx) = tx_aborted tx" "tx_closed (with_peers ps tx) = tx_closed tx"
  "tx_db (with_peers ps tx) = db_peers ps (tx_db tx)"
  by (simp_all add: with_peers_def)

lemma alike_return [blind_intros]: "alike ps (stmt_return a) (stmt_return a)"
  by (simp add: alike_def stmt_return_def)

lemma alike_lift [blind_intros]: "alike ps (stmt_lift r) (stmt_lift r)"
  by (simp add: alike_def stmt_lift_def)

lemma alike_bind [blind_intros]:
  assumes "alike ps s s'" and "\<And>a. alike ps (f a) (f' a)"
  shows "alike ps (stmt_bind s f) (stmt_bind s' f')"
  using assms by (auto simp: alike_def stmt_bind_def split: prod.splits result.splits)

lemma alike_try [blind_intros]:
  assumes "alike ps s s'" and "\<And>r. alike ps (f r) (f' r)"
  shows "alike ps (stmt_try s f) (stmt_try s' f')"
  using assms by (simp add: alike_def stmt_try_def split_beta)

lemma alike_wrap [blind_intros]: "alike ps s s' \<Longrightarrow> alike ps (stmt_wrap msg s) (stmt_wrap msg s')"
  by (simp add: alike_def stmt_wrap_def split_beta)

lemma alike_iter [blind_intros]:
  "(\<And>y. alike ps (f y) (f' y)) \<Longrightarrow> alike ps (stmt_iter f ys) (stmt_iter f' ys)"
  by (induction ys) (auto intro!: blind_intros)

lemma alike_if [blind_intros]: "alike ps s s' \<Longrightarrow> alike ps t t' \<Longrightarrow> alike ps (if b then s else t) (if b then s' else t')"
  by simp

lemma alike_exec [blind_intros]:
  assumes "\<And>db. upd (db_peers ps db) = map_option (db_peers ps) (upd db)"
  shows "alike ps (exec_stmt n upd) (exec_stmt n upd)"
  using assms by (auto simp: alike_def exec_stmt_def with_peers_def split: option.splits)

lemma alike_rows [blind_intros]:
  "(\<And>db. q (db_peers ps db) = q db) \<Longrightarrow> alike ps (rows_stmt n q) (rows_stmt n q)"
  by (auto simp: alike_def rows_stmt_def with_peers_def)

lemma alike_row [blind_intros]:
  "(\<And>db. q (db_peers ps db) = q db) \<Longrightarrow> alike ps (row_stmt n q) (row_stmt n q)"
  unfolding row_stmt_def by (intro blind_intros) auto

lemma reads_blind [simp]:
  "GetRegisteredNodeByEthAddress a (db_peers ps db) = GetRegisteredNodeByEthAddress a db"
  "GetRegisteredNodeByCometAddress a (db_peers ps db) = GetRegisteredNodeByCometAddress a db"
  "GetAllEthAddressesOfRegisteredNodes (db_peers ps db) = GetAllEthAddressesOfRegisteredNodes db"
  "GetStorageProof h a (db_peers ps db) = GetStorageProof h a db"
  "GetStorageProofs h (db_peers ps db) = GetStorageProofs h db"
  "GetBlock h (db_peers ps db) = GetBlock h db"
  "GetReward a (db_peers ps db) = GetReward a db"
  "GetCoreUpload c (db_peers ps db) = GetCoreUpload c db"
  "GetAllRegisteredNodes (db_peers ps db) = GetAllRegisteredNodes db"
  "GetSlaRollupWithTimestamp t (db_peers ps db) = GetSlaRollupWithTimestamp t db"
  by (simp_all add: GetRegisteredNodeByEthAddress_def GetRegisteredNodeByCometAddress_def
    GetAllEthAddressesOfRegisteredNodes_def GetStorageProof_def GetStorageProofs_def GetBlock_def GetReward_def
    GetCoreUpload_def GetAllRegisteredNodes_def GetSlaRollupWithTimestamp_def)

lemma pool_row_blind [simp]:
  "(\<And>db. q (db_peers ps db) = q db) \<Longrightarrow> db_row n q (db_peers ps db) = db_row n q db"
  by (simp add: db_row_def)

lemma pool_rows_blind [simp]:
  "(\<And>db. q (db_peers ps db) = q db) \<Longrightarrow> db_rows n q (db_peers ps db) = db_rows n q db"
  by (simp add: db_rows_def)

lemma writes_blind [blind_intros]:
  "alike ps (UpsertAppState h a) (UpsertAppState h a)"
  "alike ps (InsertRegisteredNode v) (InsertRegisteredNode v)"
  "alike ps (DeleteRegisteredNode c) (DeleteRegisteredNode c)"
  "alike ps (UpsertSlaRollupReport c) (UpsertSlaRollupReport c)"
  "alike ps ClearUncommittedSlaNodeReports ClearUncommittedSlaNodeReports"
  "alike ps (CommitSlaNodeReport i c n) (CommitSlaNodeReport i c n)"
  "alike ps (CommitSlaRollup t txhash b e) (CommitSlaRollup t txhash b e)"
  "alike ps (InsertTxStat ty txhash h t) (InsertTxStat ty txhash h t)"
  "alike ps (StoreBlock br) (StoreBlock br)"
  "alike ps (StoreTransaction tr) (StoreTransaction tr)"
  by (auto simp: write_defs Let_def option.map_comp comp_def split: option.splits intro!: blind_intros map_option_cong)

lemma more_writes_blind [blind_intros]:
  "alike ps (InsertStorageProof h c cid sg provers) (InsertStorageProof h c cid sg provers)"
  "alike ps (UpdateStorageProof str st h c) (UpdateStorageProof str st h c)"
  "alike ps (InsertFailedStorageProof h c) (InsertFailedStorageProof h c)"
  "alike ps (InsertCoreERN er) (InsertCoreERN er)"
  "alike ps (InsertCoreResource e1) (InsertCoreResource e1)"
  "alike ps (InsertCoreRelease e1) (InsertCoreRelease e1)"
  "alike ps (InsertCoreParty e1) (InsertCoreParty e1)"
  "alike ps (InsertCoreDeal e1) (InsertCoreDeal e1)"
  "alike ps (InsertCoreMEAD m) (InsertCoreMEAD m)"
  "alike ps (InsertCorePIE m) (InsertCorePIE m)"
  "alike ps (AppendValidatorHistory vh) (AppendValidatorHistory vh)"
  "alike ps (InsertCoreReward w) (InsertCoreReward w)"
  "alike ps (DeleteCoreReward c) (DeleteCoreReward c)"
  "alike ps (InsertFileUpload u) (InsertFileUpload u)"
  by (auto simp: write_defs Let_def option.map_comp comp_def split: option.splits intro!: blind_intros map_option_cong)

section \<open>Validation on the pool\<close>

lemma quorum_blind [simp]:
  "attestationHasEnoughSigners x (db_peers ps db) sigs bs n m a = attestationHasEnoughSigners x db sigs bs n m a"
  by (simp add: attestationHasEnoughSigners_def)

lemma attestation_blind [simp]:
  "isValidAttestation x cfg (db_peers ps db) tx h = isValidAttestation x cfg db tx h"
  "isValidDeregisterMisbehavingNodeTx x (db_peers ps db) tx mbs = isValidDeregisterMisbehavingNodeTx x db tx mbs"
  by (simp_all add: isValidAttestation_def isValidRegisterNodeAttestation_def isValidDeregisterNodeAttestation_def
    isValidDeregisterMisbehavingNodeTx_def cong: option.case_cong if_cong attestation_body.case_cong)

lemma resources_blind [simp]: "validate_resources (db_peers ps db) sender rs = validate_resources db sender rs"
  by (induction rs) (simp_all cong: option.case_cong if_cong)

lemma challenge_block_blind [simp]: "challenge_block (db_peers ps db) h = challenge_block db h"
  by (simp add: challenge_block_def)

lemma validation_blind [simp]:
  "isValidStorageProofTx x (db_peers ps db) tx h False = isValidStorageProofTx x db tx h False"
  "isValidStorageProofVerificationTx (db_peers ps db) tx h = isValidStorageProofVerificationTx db tx h"
  "isValidFileUpload x cfg (db_peers ps db) tx = isValidFileUpload x cfg db tx"
  "validateERNNewMessage x cfg (db_peers ps db) msg = validateERNNewMessage x cfg db msg"
proof -
  have any: "(case r of Ok peers \<Rightarrow> if False \<and> P peers then e else Ok () | _ \<Rightarrow> Ok ()) = Ok ()" for r :: "string list result" and P e
    by (simp split: result.splits)
  show "isValidStorageProofTx x (db_peers ps db) tx h False = isValidStorageProofTx x db tx h False"
    unfolding isValidStorageProofTx_def any by (simp cong: option.case_cong if_cong)
qed (simp_all add: isValidStorageProofVerificationTx_def isValidFileUpload_def validateERNNewMessage_def
    cong: option.case_cong if_cong)

section \<open>The handlers\<close>

lemma registration_blind [blind_intros]:
  "alike ps (finalizeAttestation x cfg db tx h) (finalizeAttestation x cfg (db_peers ps db) tx h)"
  "alike ps (finalizeLegacyRegisterNode x tx) (finalizeLegacyRegisterNode x tx)"
  "alike ps (finalizeDeregisterMisbehavingNode x db tx mbs) (finalizeDeregisterMisbehavingNode x (db_peers ps db) tx mbs)"
  "alike ps (appendRegistrationToValidatorHistory reg t h) (appendRegistrationToValidatorHistory reg t h)"
  "alike ps (appendDeregistrationToValidatorHistory db dereg t h) (appendDeregistrationToValidatorHistory (db_peers ps db) dereg t h)"
proof -
  have insert: "alike ps (insert_node_if_absent wallet node) (insert_node_if_absent wallet node)" for wallet node
    unfolding insert_node_if_absent_def by (auto split: result.splits intro!: blind_intros)
  show "alike ps (finalizeAttestation x cfg db tx h) (finalizeAttestation x cfg (db_peers ps db) tx h)"
    "alike ps (finalizeLegacyRegisterNode x tx) (finalizeLegacyRegisterNode x tx)"
    "alike ps (finalizeDeregisterMisbehavingNode x db tx mbs) (finalizeDeregisterMisbehavingNode x (db_peers ps db) tx mbs)"
    "alike ps (appendRegistrationToValidatorHistory reg t h) (appendRegistrationToValidatorHistory reg t h)"
    "alike ps (appendDeregistrationToValidatorHistory db dereg t h) (appendDeregistrationToValidatorHistory (db_peers ps db) dereg t h)"
    unfolding finalizeAttestation_def finalizeLegacyRegisterNode_def finalizeDeregisterMisbehavingNode_def
      finalizeRegisterNodeAttestation_def finalizeDeregisterValidatorAttestation_def Let_def
      appendRegistrationToValidatorHistory_def appendDeregistrationToValidatorHistory_def
    by (auto split: prod.splits option.splits attestation_body.splits intro!: blind_intros insert)
qed

lemma rollup_blind [blind_intros]: "alike ps (finalizeSlaRollup rollup txHash) (finalizeSlaRollup rollup txHash)"
  unfolding finalizeSlaRollup_def by (auto split: result.splits intro!: blind_intros)

lemma proof_loops_blind [blind_intros]:
  "alike ps (match_proofs x pf qs nodes votes) (match_proofs x pf qs nodes votes)"
  "alike ps (mark_proofs str h nodes qs votes) (mark_proofs str h nodes qs votes)"
  "alike ps (fail_missing h n votes) (fail_missing h n votes)"
proof -
  show "alike ps (match_proofs x pf qs nodes votes) (match_proofs x pf qs nodes votes)"
    by (induction qs arbitrary: nodes votes) (auto intro!: blind_intros)
  show "alike ps (mark_proofs str h nodes qs votes) (mark_proofs str h nodes qs votes)"
    by (induction qs arbitrary: votes) (auto intro!: blind_intros)
  show "alike ps (fail_missing h n votes) (fail_missing h n votes)"
    by (induction h n votes rule: fail_missing.induct) (auto intro!: blind_intros)
qed

lemma storage_blind [blind_intros]:
  "alike ps (finalizeStorageProof x db tx h) (finalizeStorageProof x (db_peers ps db) tx h)"
  "alike ps (finalizeStorageProofVerification x db tx h) (finalizeStorageProofVerification x (db_peers ps db) tx h)"
  unfolding finalizeStorageProof_def finalizeStorageProofVerification_def
  by (auto split: option.splits prod.splits intro!: blind_intros)

lemma rewards_blind [blind_intros]:
  "alike ps (finalizeRewardTransaction x cfg h txhash action) (finalizeRewardTransaction x cfg h txhash action)"
  unfolding finalizeRewardTransaction_def finalizeRewards_def finalizeCreateReward_def finalizeDeleteReward_def
  by (auto split: option.splits reward_action.splits intro!: blind_intros)

lemma distribution_blind [blind_intros]:
  "alike ps (finalizeFileUpload x cfg db tx txHash h) (finalizeFileUpload x cfg (db_peers ps db) tx txHash h)"
  "alike ps (finalizeERN x cfg db h txhash v2 i) (finalizeERN x cfg (db_peers ps db) h txhash v2 i)"
  "alike ps (finalizeMEAD x cfg h txhash v2 i) (finalizeMEAD x cfg h txhash v2 i)"
  "alike ps (finalizePIE x cfg h txhash v2 i) (finalizePIE x cfg h txhash v2 i)"
  unfolding finalizeFileUpload_def finalizeERN_def finalizeMEAD_def finalizePIE_def finalizeERNNewMessage_def
    finalizeMEADNewMessage_def finalizePIENewMessage_def Let_def
  by (auto split: option.splits intro!: blind_intros)

lemma v2_blind [blind_intros]:
  "alike ps (finalizeV2Transaction x cfg db h tx txhash) (finalizeV2Transaction x cfg (db_peers ps db) h tx txhash)"
  unfolding finalizeV2Transaction_def finalize_v2_message_def
  by (auto split: v2_message.splits intro!: blind_intros)

lemma handlers_blind [blind_intros]:
  "alike ps (finalizeTransaction x cfg db req msg txHash h) (finalizeTransaction x cfg (db_peers ps db) req msg txHash h)"
  unfolding finalizeTransaction_def typed_def untyped_def
  by (auto split: option.splits tx_body.splits result.splits intro!: blind_intros)

lemma ignore_err_blind [blind_intros]: "alike ps s s' \<Longrightarrow> alike ps (ignore_err s) (ignore_err s')"
  unfolding ignore_err_def by (auto split: result.splits intro!: blind_intros)

lemma update_validators_blind [blind_intros]:
  "alike ps (update_validators x db req signedTx ups) (update_validators x (db_peers ps db) req signedTx ups)"
  unfolding update_validators_def by (auto split: option.splits intro!: blind_intros)

lemma finalize_tx_blind [blind_intros]:
  "alike ps (finalize_tx x cfg db ch req ups itx) (finalize_tx x cfg (db_peers ps db) ch req ups itx)"
  unfolding finalize_tx_def store_tx_def persistTxStat_def Let_def
  by (auto split: result.splits prod.splits option.splits intro!: blind_intros)

lemma finalize_txs_blind [blind_intros]:
  "alike ps (finalize_txs x cfg db ch req ups itxs) (finalize_txs x cfg (db_peers ps db) ch req ups itxs)"
  by (induction itxs arbitrary: ups) (auto split: prod.splits intro!: blind_intros)

lemma block_body_blind:
  "alike ps (block_body x cfg db ch cu req) (block_body x cfg (db_peers ps db) ch cu req)"
  unfolding block_body_def Let_def by (auto split: prod.splits intro!: blind_intros)

section \<open>Replicas agree\<close>

lemma retain_blind [simp]:
  "calculateLowestRetainHeight cfg (db_peers ps db) n snaps = calculateLowestRetainHeight cfg db n snaps"
  by (simp add: calculateLowestRetainHeight_def GetLatestBlock_def)

text \<open>
  (C4) Two nodes whose databases differ only in the locally recorded peers of storage proofs
  give the same response to a block, and the same answer to the commit that follows it, and
  their databases again differ only in those peers.
\<close>

theorem finalize_ignores_local_peers:
  assumes begins: "\<not> db_fault (srv_db s) ''Begin''"
    and fin: "FinalizeBlock x cfg req s = (r, s1)"
    and fin': "FinalizeBlock x cfg req (s\<lparr>srv_db := db_peers ps (srv_db s)\<rparr>) = (r', s1')"
  shows "r' = r \<and> fst (Commit cfg s1') = fst (Commit cfg s1)
    \<and> srv_db (snd (Commit cfg s1')) = db_peers ps (srv_db (snd (Commit cfg s1)))"
proof -
  obtain b tx where body: "block_body x cfg (srv_db s) (srv_currentHeight s) (srv_catchingUp s) req (begin_tx (srv_db s)) = (b, tx)"
    by fastforce
  have "begin_tx (db_peers ps (srv_db s)) = with_peers ps (begin_tx (srv_db s))"
    by (simp add: begin_tx_def with_peers_def)
  then have body': "block_body x cfg (db_peers ps (srv_db s)) (srv_currentHeight s) (srv_catchingUp s) req
      (begin_tx (db_peers ps (srv_db s))) = (b, with_peers ps tx)"
    using block_body_blind [of ps x cfg "srv_db s"] body by (simp add: alike_def)
  have same: "r' = r" and s1: "srv_db s1 = srv_db s" "srv_db s1' = db_peers ps (srv_db s)"
    "srv_abci s1' = (srv_abci s1)\<lparr>onGoingBlock := Some (with_peers ps tx)\<rparr>" "onGoingBlock (srv_abci s1) = Some tx"
    "srv_snapshots s1' = srv_snapshots s1" "srv_mempl s1' = srv_mempl s1"
    using begins fin fin' body body' by (auto simp: FinalizeBlock_def split: result.splits prod.splits)
  show ?thesis
    using same s1 by (auto simp: Commit_def commitInProgressTx_def commit_tx_def Let_def rolled_back_def split: option.splits)
qed

definition demo_replica :: "int64 \<Rightarrow> server" where
  "demo_replica h = \<lparr>srv_db = empty_db, srv_mempl = NewMempool 10, srv_abci = NewABCIState 0,
     srv_currentHeight = h, srv_catchingUp = False, srv_snapshots = []\<rparr>"

definition demo_empty_block :: block_request where
  "demo_empty_block = \<lparr>rq_Height = 50, rq_Time = demo_time, rq_Hash = [1], rq_ProposerAddress = [9], rq_Txs = [],
     rq_Misbehavior = []\<rparr>"

definition demo_peers :: "storage_proof_peers_row list" where
  "demo_peers = [\<lparr>spp_block_height = 3, spp_prover_addresses = [''A'']\<rparr>]"

theorem finalize_ignores_local_peers_witness:
  "fst (FinalizeBlock demo_ext demo_config demo_empty_block ((demo_replica 49)\<lparr>srv_db := db_peers demo_peers empty_db\<rparr>))
   = fst (FinalizeBlock demo_ext demo_config demo_empty_block (demo_replica 49))"
proof -
  have begins: "\<not> db_fault (srv_db (demo_replica 49)) ''Begin''" by (simp add: demo_replica_def empty_db_def)
  have db: "srv_db (demo_replica 49) = empty_db" by (simp add: demo_replica_def)
  show ?thesis
    using finalize_ignores_local_peers [OF begins surjective_pairing surjective_pairing, of demo_ext demo_config demo_empty_block demo_peers]
    unfolding db by (rule conjunct1)
qed

text \<open>
  The result of a block depends on the height a node has cached: a second-generation
  transaction that expires at the height of the block is executed by a node whose cache is up
  to date or behind, and refused as unrecognised, not stored and kept in the mempool, by a
  node with the same database whose cache is one height ahead.
\<close>

theorem results_depend_on_cached_height:
  "let x = demo_ext\<lparr>x_unmarshal_v2 := (\<lambda>_. Some (demo_v2 (demo_ern [])))\<rparr>;
       req = demo_empty_block\<lparr>rq_Txs := [[7]]\<rparr>;
       run = (\<lambda>h. FinalizeBlock x demo_config req (demo_replica h))
   in map_result rs_TxResults (fst (run 50)) = Ok [2] \<and> map_result rs_TxResults (fst (run 51)) = Ok [1]
    \<and> length (finalizedTxs (srv_abci (snd (run 50)))) = 1 \<and> finalizedTxs (srv_abci (snd (run 51))) = []"
  by code_simp

end
