(* ===== verification/Placement.thy ===== *)
theory Placement
  imports Common "HOL-Library.Multiset"
begin

text \<open>
  Where the storage node keeps content: the keys of blobs (\<^verbatim>\<open>pkg/mediorum/cidutil\<close>), the ranking of
  hosts by rendezvous hashing (\<^verbatim>\<open>placement.go\<close>) and the replication of files
  (\<^verbatim>\<open>replicate.go\<close>), sequential and by parallel workers. The bucket and the other hosts are
  arguments of the definitions.
\<close>

section \<open>Paths (path/filepath)\<close>

fun split_char :: "char \<Rightarrow> string \<Rightarrow> string list" where
  "split_char c [] = [[]]"
| "split_char c (x # xs) =
     (if x = c then [] # split_char c xs
      else case split_char c xs of [] \<Rightarrow> [[x]] | p # ps \<Rightarrow> (x # p) # ps)"

text \<open>One element of a path on the stack of elements so far.\<close>

definition clean_step :: "bool \<Rightarrow> string list \<Rightarrow> string \<Rightarrow> string list" where
  "clean_step rooted st c =
     (if c = [] \<or> c = ''.'' then st
      else if c = ''..'' then (case st of
          [] \<Rightarrow> if rooted then [] else [''..'']
        | t # ts \<Rightarrow> if t = ''..'' then ''..'' # st else ts)
      else c # st)"

definition path_clean :: "string \<Rightarrow> string" where
  "path_clean s =
     (let rooted = has_prefix s ''/'';
          body = join_with ''/'' (rev (foldl (clean_step rooted) [] (split_char (CHR ''/'') s)))
      in if rooted then ''/'' @ body else if body = [] then ''.'' else body)"

definition filepath_join :: "string list \<Rightarrow> string" where
  "filepath_join elems =
     (let es = dropWhile (\<lambda>e. e = []) elems in if es = [] then [] else path_clean (join_with ''/'' es))"

fun contains :: "string \<Rightarrow> string \<Rightarrow> bool" where
  "contains s t = (has_prefix s t \<or> (case s of [] \<Rightarrow> False | c # cs \<Rightarrow> contains cs t))"

declare contains.simps [simp del]

section \<open>Content identifiers\<close>

text \<open>The hash and the identifier as \<^verbatim>\<open>go-multihash\<close> and \<^verbatim>\<open>go-cid\<close> compute them.\<close>

record cid_ext =
  z_multihash :: "bytes \<Rightarrow> bytes result"
  z_v1_sum :: "bytes \<Rightarrow> string result"

definition ComputeFileCID :: "cid_ext \<Rightarrow> bytes \<Rightarrow> string result" where
  "ComputeFileCID z f = bind_result (z_multihash z f) (z_v1_sum z)"

definition ComputeRawDataCID :: "cid_ext \<Rightarrow> bytes \<Rightarrow> string result" where
  "ComputeRawDataCID z d = bind_result (z_multihash z d) (z_v1_sum z)"

definition ValidateCID :: "cid_ext \<Rightarrow> string \<Rightarrow> bytes \<Rightarrow> unit result" where
  "ValidateCID z expectedCID f =
     bind_result (ComputeFileCID z f) (\<lambda>computed.
     if computed \<noteq> expectedCID then Err (Errorf ''contents hashed to another cid'') else Ok ())"

definition IsLegacyCID :: "string \<Rightarrow> bool" where
  "IsLegacyCID cid = has_prefix cid ''Qm''"

definition IsLegacyCIDStrict :: "string \<Rightarrow> bool" where
  "IsLegacyCIDStrict cid \<longleftrightarrow> IsLegacyCID cid \<and> length cid = 46"

definition shardLegacyCID :: "string \<Rightarrow> string result" where
  "shardLegacyCID cid =
     (if length cid < 4 then Panic ''slice bounds out of range''
      else Ok (filepath_join [take 3 (drop (length cid - 4) cid), cid]))"

definition shardCIDV1 :: "string \<Rightarrow> string result" where
  "shardCIDV1 cid =
     (if length cid < 5 then Panic ''slice bounds out of range''
      else Ok (filepath_join [drop (length cid - 5) cid, cid]))"

definition ShardCID :: "string \<Rightarrow> string result" where
  "ShardCID cidStr =
     (if IsLegacyCIDStrict cidStr then shardLegacyCID cidStr
      else if has_prefix cidStr ''ba'' then shardCIDV1 cidStr
      else Ok cidStr)"

definition ImageVariantPath :: "string \<Rightarrow> string \<Rightarrow> string result" where
  "ImageVariantPath cid variant = map_result (\<lambda>shard. filepath_join [''img'', shard, variant]) (ShardCID cid)"

section \<open>Rendezvous hashing\<close>

definition host_tuple_less :: "string \<times> bytes \<Rightarrow> string \<times> bytes \<Rightarrow> bool" where
  "host_tuple_less s t \<longleftrightarrow> (if snd s = snd t then fst s < fst t else snd s < snd t)"

definition deadHosts :: string where
  "deadHosts = ''https://content.grassfed.network/''"

text \<open>\<open>parses\<close> is whether \<^verbatim>\<open>url.Parse\<close> accepts a host.\<close>

definition NewRendezvousHasher :: "(string \<Rightarrow> bool) \<Rightarrow> string list \<Rightarrow> string list" where
  "NewRendezvousHasher parses hosts =
     foldl (\<lambda>liveHosts h. if contains deadHosts h \<or> \<not> parses h \<or> h \<in> set liveHosts then liveHosts
                           else liveHosts @ [h]) [] hosts"

definition Rank :: "ext \<Rightarrow> string list \<Rightarrow> string \<Rightarrow> string list" where
  "Rank x hosts key =
     (let tuples = map (\<lambda>host. (host, x_sha256 x (bytes_of host @ bytes_of key))) hosts
      in map fst (sort_key (\<lambda>t. (snd t, fst t)) tuples))"

record mediorum_config =
  mc_Host :: string
  mc_ReplicationFactor :: int
  mc_StoreAll :: bool
  mc_Env :: string
  mc_BlobStoreDSN :: string

text \<open>\<^verbatim>\<open>slices.Index\<close>.\<close>

fun index_of :: "'a \<Rightarrow> 'a list \<Rightarrow> int" where
  "index_of a [] = - 1"
| "index_of a (x # xs) = (if x = a then 0 else let i = index_of a xs in if i < 0 then i else i + 1)"

definition rendezvousAllHosts :: "ext \<Rightarrow> mediorum_config \<Rightarrow> string list \<Rightarrow> string \<Rightarrow> string list \<times> bool" where
  "rendezvousAllHosts x cfg hosts key =
     (let orderedHosts = Rank x hosts key;
          myRank = index_of (mc_Host cfg) orderedHosts;
          isMine = (myRank \<ge> 0 \<and> myRank < mc_ReplicationFactor cfg)
      in (orderedHosts, mc_StoreAll cfg \<or> isMine))"

section \<open>Replication\<close>

text \<open>
  The bucket of this node: attributes (\<open>Ok None\<close> when there is no such blob), reading, writing
  and deleting, each of which may fail.
\<close>

record blob_attrs =
  at_Size :: int64
  at_ModTime :: int

record 'b bucket_api =
  ba_attributes :: "string \<Rightarrow> 'b \<Rightarrow> blob_attrs option result"
  ba_read :: "string \<Rightarrow> 'b \<Rightarrow> bytes result"
  ba_write :: "string \<Rightarrow> bytes \<Rightarrow> 'b \<Rightarrow> unit result \<times> 'b"
  ba_delete :: "string \<Rightarrow> 'b \<Rightarrow> unit result \<times> 'b"

text \<open>An operation on the blob of a file name.\<close>

definition on_blob :: "(string \<Rightarrow> 'b \<Rightarrow> unit result \<times> 'b) \<Rightarrow> string \<Rightarrow> 'b \<Rightarrow> unit result \<times> 'b" where
  "on_blob f fileName b = (case ShardCID fileName of Ok key \<Rightarrow> f key b | Err e \<Rightarrow> (Err e, b) | Panic p \<Rightarrow> (Panic p, b))"

definition replicateToMyBucket :: "'b bucket_api \<Rightarrow> string \<Rightarrow> bytes \<Rightarrow> 'b \<Rightarrow> unit result \<times> 'b" where
  "replicateToMyBucket api fileName content = on_blob (\<lambda>key. ba_write api key content) fileName"

text \<open>Failures of the deletion are logged only.\<close>

definition dropFromMyBucket :: "'b bucket_api \<Rightarrow> string \<Rightarrow> 'b \<Rightarrow> unit result \<times> 'b" where
  "dropFromMyBucket api fileName =
     on_blob (\<lambda>key b. case ba_delete api key b of (Panic p, b1) \<Rightarrow> (Panic p, b1) | (_, b1) \<Rightarrow> (Ok (), b1)) fileName"

definition haveInMyBucket :: "'b bucket_api \<Rightarrow> string \<Rightarrow> 'b \<Rightarrow> bool result" where
  "haveInMyBucket api fileName b =
     bind_result (ShardCID fileName) (\<lambda>key.
     case ba_attributes api key b of Ok a \<Rightarrow> Ok (a \<noteq> None) | Err _ \<Rightarrow> Ok False | Panic p \<Rightarrow> Panic p)"

text \<open>\<open>post\<close> is the outcome of the signed request to another host.\<close>

definition replicateFileToHost ::
    "'b bucket_api \<Rightarrow> (string \<Rightarrow> string \<Rightarrow> bytes \<Rightarrow> unit result) \<Rightarrow> mediorum_config \<Rightarrow> string \<Rightarrow> string \<Rightarrow> bytes \<Rightarrow> 'b
      \<Rightarrow> unit result \<times> 'b" where
  "replicateFileToHost api post cfg peer fileName content b =
     (if peer = mc_Host cfg then replicateToMyBucket api fileName content b else (post peer fileName content, b))"

fun replicate_loop :: "(string \<Rightarrow> 'b \<Rightarrow> unit result \<times> 'b) \<Rightarrow> int \<Rightarrow> string list \<Rightarrow> string list \<Rightarrow> 'b \<Rightarrow> string list result \<times> 'b" where
  "replicate_loop put factor success [] b = (Ok success, b)"
| "replicate_loop put factor success (peer # peers) b =
     (case put peer b of
        (Ok _, b1) \<Rightarrow> if int (length (success @ [peer])) = factor then (Ok (success @ [peer]), b1)
                       else replicate_loop put factor (success @ [peer]) peers b1
      | (Err _, b1) \<Rightarrow> replicate_loop put factor success peers b1
      | (Panic p, b1) \<Rightarrow> (Panic p, b1))"

definition replicateFile ::
    "ext \<Rightarrow> 'b bucket_api \<Rightarrow> (string \<Rightarrow> string \<Rightarrow> bytes \<Rightarrow> unit result) \<Rightarrow> mediorum_config \<Rightarrow> string list \<Rightarrow> string \<Rightarrow> bytes \<Rightarrow> 'b
      \<Rightarrow> string list result \<times> 'b" where
  "replicateFile x api post cfg hosts fileName content b =
     (let preferred = fst (rendezvousAllHosts x cfg hosts fileName)
      in replicate_loop (\<lambda>peer. replicateFileToHost api post cfg peer fileName content) (mc_ReplicationFactor cfg) [] preferred b)"

text \<open>\<open>pull\<close> is the outcome of the signed request for a blob of another host.\<close>

definition pullFileFromHost ::
    "'b bucket_api \<Rightarrow> (string \<Rightarrow> string \<Rightarrow> bytes result) \<Rightarrow> mediorum_config \<Rightarrow> string \<Rightarrow> string \<Rightarrow> 'b \<Rightarrow> unit result \<times> 'b" where
  "pullFileFromHost api pull cfg host cid b =
     (if host = mc_Host cfg then (Err (Errorf ''should not pull blob from self''), b)
      else case pull host cid of
        Ok content \<Rightarrow> replicateToMyBucket api cid content b
      | Err e \<Rightarrow> (Err e, b)
      | Panic p \<Rightarrow> (Panic p, b))"

text \<open>\<open>free\<close> is the free space of the disk in bytes.\<close>

definition diskHasSpace :: "mediorum_config \<Rightarrow> int \<Rightarrow> bool" where
  "diskHasSpace cfg free \<longleftrightarrow>
     mc_Env cfg \<noteq> ''prod'' \<or> \<not> has_prefix (mc_BlobStoreDSN cfg) ''file://'' \<or> free div 1000000000 > 200"


section \<open>Keys\<close>

lemma split_char_simple: "c \<notin> set s \<Longrightarrow> split_char c s = [s]"
  by (induction s) auto

lemma split_char_append: "c \<notin> set s \<Longrightarrow> split_char c (s @ c # t) = s # split_char c t"
  by (induction s) auto

definition simple_name :: "string \<Rightarrow> bool" where
  "simple_name s \<longleftrightarrow> s \<noteq> [] \<and> s \<noteq> ''.'' \<and> s \<noteq> ''..'' \<and> CHR ''/'' \<notin> set s"

lemma join_simple:
  assumes "simple_name a" "simple_name b"
  shows "filepath_join [a, b] = a @ ''/'' @ b"
proof -
  have "\<not> has_prefix (a @ ''/'' @ b) ''/''" using assms(1) by (cases a) (auto simp: simple_name_def has_prefix_def)
  with assms show ?thesis
    by (simp add: filepath_join_def path_clean_def split_char_append split_char_simple clean_step_def simple_name_def)
qed

text \<open>The key of a blob: a directory, or none, above the file name.\<close>

lemma ShardCID_shape:
  assumes "ShardCID cid = Ok key" "CHR ''/'' \<notin> set cid"
  shows "key = cid \<or> (\<exists>shard. simple_name shard \<and> key = shard @ ''/'' @ cid)"
proof -
  have "simple_name cid" if "IsLegacyCIDStrict cid \<or> has_prefix cid ''ba''"
    using that assms(2)
    by (cases cid; cases "tl cid") (auto simp: simple_name_def IsLegacyCIDStrict_def IsLegacyCID_def has_prefix_def)
  moreover have "simple_name (take 3 (drop (length cid - 4) cid))" if "IsLegacyCIDStrict cid"
    using that assms(2) length_take [of 3 "drop (length cid - 4) cid"] in_set_takeD [of "CHR ''/''" 3 "drop (length cid - 4) cid"]
      in_set_dropD [of "CHR ''/''" "length cid - 4" cid]
    by (auto simp: simple_name_def IsLegacyCIDStrict_def simp del: length_take)
  moreover have "simple_name (drop (length cid - 5) cid)" if "5 \<le> length cid"
    using that assms(2) length_drop [of "length cid - 5" cid] in_set_dropD [of "CHR ''/''" "length cid - 5" cid]
    by (auto simp: simple_name_def simp del: length_drop)
  ultimately show ?thesis
    using assms(1) by (auto simp: ShardCID_def shardLegacyCID_def shardCIDV1_def join_simple split: if_splits)
qed

lemma shard_split:
  assumes "a @ CHR ''/'' # c = b @ CHR ''/'' # d" "CHR ''/'' \<notin> set c" "CHR ''/'' \<notin> set d"
  shows "c = d"
proof -
  have "takeWhile (\<lambda>x. x \<noteq> CHR ''/'') (rev (a @ CHR ''/'' # c)) = rev c"
    using assms(2) by (simp add: takeWhile_append2) (subst takeWhile_append2, auto)
  moreover have "takeWhile (\<lambda>x. x \<noteq> CHR ''/'') (rev (b @ CHR ''/'' # d)) = rev d"
    using assms(3) by (simp add: takeWhile_append2) (subst takeWhile_append2, auto)
  ultimately show ?thesis using assms(1) by (metis rev_is_rev_conv)
qed

lemma ShardCID_inject:
  assumes "ShardCID cid = Ok key" "ShardCID cid' = Ok key" "CHR ''/'' \<notin> set cid" "CHR ''/'' \<notin> set cid'"
  shows "cid = cid'"
  using ShardCID_shape [OF assms(1,3)] ShardCID_shape [OF assms(2,4)] assms(3,4) by (auto dest: shard_split)


section \<open>Agreement on placement\<close>

text \<open>
  What rendezvous hashing promises its clients: a ranking of the hosts that depends only on the
  hosts and the key and that ranks the remaining hosts as before when some leave.
\<close>

locale rendezvous =
  fixes rank :: "'k \<Rightarrow> string list \<Rightarrow> string list"
  assumes rank_perm: "mset (rank k hosts) = mset hosts"
    and rank_order: "mset hosts = mset hosts' \<Longrightarrow> rank k hosts = rank k hosts'"
    and rank_filter: "rank k (filter p hosts) = filter p (rank k hosts)"
begin

lemma set_rank: "set (rank k hosts) = set hosts"
  using rank_perm by (metis set_mset_mset)

lemma distinct_rank: "distinct hosts \<Longrightarrow> distinct (rank k hosts)"
  using rank_perm by (metis mset_eq_imp_distinct_iff)

lemma filter_take_later: "set (take n (filter (\<lambda>a. a \<noteq> h) xs)) \<subseteq> set (take (Suc n) xs) - {h}" if "distinct xs"
  using that
proof (induction xs arbitrary: n)
  case (Cons x xs)
  show ?case
  proof (cases "x = h")
    case True
    with Cons.prems have "filter (\<lambda>a. a \<noteq> h) xs = xs" by (auto simp: filter_id_conv)
    with True Cons.prems show ?thesis by (auto dest: in_set_takeD)
  next
    case False
    with Cons show ?thesis by (cases n) auto
  qed
qed simp

lemma filter_take_earlier: "set (take n xs) - {h} \<subseteq> set (take n (filter (\<lambda>a. a \<noteq> h) xs))"
proof -
  have "filter (\<lambda>a. a \<noteq> h) (take n xs) = take (length (filter (\<lambda>a. a \<noteq> h) (take n xs))) (filter (\<lambda>a. a \<noteq> h) xs)"
    by (subst (3) append_take_drop_id [of n xs, symmetric]) (simp del: append_take_drop_id)
  also have "set \<dots> \<subseteq> set (take n (filter (\<lambda>a. a \<noteq> h) xs))"
    by (rule set_take_subset_set_take) (use length_filter_le [of _ "take n xs"] in \<open>simp add: le_trans\<close>)
  finally show ?thesis by auto
qed

text \<open>A host that leaves is replaced by the next one; every other replica stays.\<close>

lemma replicas_after_leaving:
  assumes "distinct hosts" "mset hosts' = mset (filter (\<lambda>a. a \<noteq> h) hosts)"
  shows "set (take n (rank k hosts)) - {h} \<subseteq> set (take n (rank k hosts'))"
    and "set (take n (rank k hosts')) \<subseteq> set (take (Suc n) (rank k hosts)) - {h}"
proof -
  have "rank k hosts' = filter (\<lambda>a. a \<noteq> h) (rank k hosts)"
    using rank_order [OF assms(2)] rank_filter by simp
  then show "set (take n (rank k hosts)) - {h} \<subseteq> set (take n (rank k hosts'))"
    and "set (take n (rank k hosts')) \<subseteq> set (take (Suc n) (rank k hosts)) - {h}"
    using filter_take_earlier filter_take_later [OF distinct_rank [OF assms(1)]] by simp_all
qed

end

lemma Rank_ranked: "Rank x hosts key = ranked x (bytes_of key) hosts"
  by (simp add: Rank_def Let_def node_score_def [symmetric] sort_key_map_pair ranked_def comp_def)

interpretation attestors: rendezvous "ranked x" for x
proof
  show "mset (ranked x k hosts) = mset hosts" for k hosts by (simp add: ranked_def)
  show "ranked x k (filter p hosts) = filter p (ranked x k hosts)" for k p hosts by (simp add: ranked_def filter_sort)
qed (rule ranked_mset_cong)

interpretation replicas: rendezvous "\<lambda>key hosts. Rank x hosts key" for x
  unfolding Rank_ranked
  by unfold_locales (fact attestors.rank_perm attestors.rank_order attestors.rank_filter)+

lemma live_hosts:
  "distinct (NewRendezvousHasher parses hosts)"
  "set (NewRendezvousHasher parses hosts) = {h \<in> set hosts. \<not> contains deadHosts h \<and> parses h}"
proof -
  have "distinct (foldl (\<lambda>liveHosts h. if contains deadHosts h \<or> \<not> parses h \<or> h \<in> set liveHosts then liveHosts
      else liveHosts @ [h]) acc hosts) \<and> set (foldl (\<lambda>liveHosts h. if contains deadHosts h \<or> \<not> parses h \<or> h \<in> set liveHosts
      then liveHosts else liveHosts @ [h]) acc hosts) = set acc \<union> {h \<in> set hosts. \<not> contains deadHosts h \<and> parses h}"
    if "distinct acc" for acc
    using that by (induction hosts arbitrary: acc) auto
  from this [of "[]"] show "distinct (NewRendezvousHasher parses hosts)"
    "set (NewRendezvousHasher parses hosts) = {h \<in> set hosts. \<not> contains deadHosts h \<and> parses h}"
    by (simp_all add: NewRendezvousHasher_def)
qed

lemma index_of_take:
  assumes "distinct xs"
  shows "(0 \<le> index_of a xs \<and> index_of a xs < int n) \<longleftrightarrow> a \<in> set (take n xs)"
  using assms
proof (induction xs arbitrary: n)
  case (Cons x xs)
  have "- 1 \<le> index_of a ys" for ys :: "'a list" by (induction ys) (auto simp: Let_def)
  then show ?case using Cons.IH [of "n - 1"] Cons.prems
    by (cases n) (auto simp: Let_def)
qed simp

text \<open>
  (C23) Nodes that know the same live hosts rank them equally for every key, however their lists
  are ordered or repeat them, and a node takes a key for its own exactly when it is among the
  replicas (or stores everything). When a host leaves, the other replicas of a key stay and at
  most the next host in the ranking joins them.
\<close>

theorem placement_agreement:
  assumes "set hosts = set hosts'" and "set fewer = set hosts - {h}" and "mc_ReplicationFactor cfg = int n"
  shows "Rank x (NewRendezvousHasher parses hosts) key = Rank x (NewRendezvousHasher parses hosts') key
    \<and> (snd (rendezvousAllHosts x cfg (NewRendezvousHasher parses hosts) key) \<longleftrightarrow>
         mc_StoreAll cfg \<or> mc_Host cfg \<in> set (take n (Rank x (NewRendezvousHasher parses hosts) key)))
    \<and> set (take n (Rank x (NewRendezvousHasher parses hosts) key)) - {h}
         \<subseteq> set (take n (Rank x (NewRendezvousHasher parses fewer) key))
    \<and> set (take n (Rank x (NewRendezvousHasher parses fewer) key))
         \<subseteq> set (take (Suc n) (Rank x (NewRendezvousHasher parses hosts) key)) - {h}"
proof (intro conjI)
  have same: "mset (NewRendezvousHasher parses hosts) = mset (NewRendezvousHasher parses hosts')"
    using live_hosts assms(1) by (simp add: set_eq_iff_mset_eq_distinct [symmetric])
  have left: "mset (NewRendezvousHasher parses fewer) = mset (filter (\<lambda>a. a \<noteq> h) (NewRendezvousHasher parses hosts))"
    using live_hosts assms(2) by (subst set_eq_iff_mset_eq_distinct [symmetric]) auto
  show "Rank x (NewRendezvousHasher parses hosts) key = Rank x (NewRendezvousHasher parses hosts') key"
    by (rule replicas.rank_order [OF same])
  show "snd (rendezvousAllHosts x cfg (NewRendezvousHasher parses hosts) key) \<longleftrightarrow>
      mc_StoreAll cfg \<or> mc_Host cfg \<in> set (take n (Rank x (NewRendezvousHasher parses hosts) key))"
    using index_of_take [OF replicas.distinct_rank [OF live_hosts(1)]] assms(3)
    by (auto simp: rendezvousAllHosts_def Let_def)
  show "set (take n (Rank x (NewRendezvousHasher parses hosts) key)) - {h}
      \<subseteq> set (take n (Rank x (NewRendezvousHasher parses fewer) key))"
    "set (take n (Rank x (NewRendezvousHasher parses fewer) key))
      \<subseteq> set (take (Suc n) (Rank x (NewRendezvousHasher parses hosts) key)) - {h}"
    by (rule replicas.replicas_after_leaving [OF live_hosts(1) left])+
qed


definition demo_mediorum :: mediorum_config where
  "demo_mediorum = \<lparr>mc_Host = ''https://a'', mc_ReplicationFactor = 1, mc_StoreAll = False, mc_Env = ''prod'',
     mc_BlobStoreDSN = ''file:///tmp/blobs''\<rparr>"

theorem placement_agreement_witness:
  "Rank demo_ext (NewRendezvousHasher (\<lambda>_. True) [''https://a'', ''https://b'', ''https://a'']) ''baeaaa''
     = Rank demo_ext (NewRendezvousHasher (\<lambda>_. True) [''https://b'', ''https://a'']) ''baeaaa''
   \<and> set (take 1 (Rank demo_ext (NewRendezvousHasher (\<lambda>_. True) [''https://b'']) ''baeaaa''))
     \<subseteq> set (take 2 (Rank demo_ext (NewRendezvousHasher (\<lambda>_. True) [''https://a'', ''https://b'', ''https://a'']) ''baeaaa'')) - {''https://a''}"
  using placement_agreement [of "[''https://a'', ''https://b'', ''https://a'']" "[''https://b'', ''https://a'']" "[''https://b'']"
      "''https://a''" demo_mediorum 1 demo_ext "\<lambda>_. True" "''baeaaa''"]
  by (auto simp: demo_mediorum_def numeral_2_eq_2)

end
