(* ===== verification/Replication.thy ===== *)
theory Replication
  imports Placement
begin

text \<open>
  Copies of a file: the sequential replication takes the first hosts in the ranking that accept
  it; the parallel one (\<^verbatim>\<open>replicateFileParallel\<close>) runs workers that take hosts from a shared
  queue, modelled as a step relation over all interleavings.
\<close>

section \<open>Sequential replication\<close>

lemma replicate_loop_first_accepting:
  assumes "\<And>peer b. fst (put peer b) = (if accepts peer then Ok () else Err (e peer))"
    and "int (length success) < factor \<or> factor \<le> 0"
  shows "fst (replicate_loop put factor success peers b) =
    Ok (success @ (if factor \<le> 0 then filter accepts peers else take (nat factor - length success) (filter accepts peers)))"
  using assms(2)
proof (induction peers arbitrary: success b)
  case (Cons peer peers)
  obtain r b1 where put: "put peer b = (r, b1)" by force
  with assms(1) [of peer b] have r: "r = (if accepts peer then Ok () else Err (e peer))" by simp
  have size: "nat factor - length success = Suc (nat factor - length (success @ [peer]))" if "0 < factor"
    using that Cons.prems by simp
  show ?case
  proof (cases "accepts peer \<and> int (length (success @ [peer])) = factor")
    case True
    then show ?thesis using put r size by auto
  next
    case False
    show ?thesis
    proof (cases "accepts peer")
      case True
      then show ?thesis using False put r size Cons.IH [of "success @ [peer]" b1] Cons.prems by auto
    next
      case False
      then show ?thesis using put r Cons.IH [of success b1] Cons.prems by simp
    qed
  qed
qed simp

section \<open>Parallel replication\<close>

datatype worker = Start | Ready | Trying string | Finished

record 'b parallel =
  pr_queue :: "string list"
  pr_workers :: "worker list"
  pr_results :: "string list"
  pr_bucket :: 'b
  pr_panicked :: bool

text \<open>
  The queue is filled with the explicit hosts or the ranking and is never closed; as many
  workers start as copies are wanted.
\<close>

definition replicateFileParallel ::
    "ext \<Rightarrow> mediorum_config \<Rightarrow> string list \<Rightarrow> string \<Rightarrow> string list \<Rightarrow> 'b \<Rightarrow> 'b parallel" where
  "replicateFileParallel x cfg hosts cid placementHosts b =
     (let replicaCount = (if placementHosts \<noteq> [] then int (length placementHosts) else mc_ReplicationFactor cfg);
          queue = (if placementHosts \<noteq> [] then placementHosts else fst (rendezvousAllHosts x cfg hosts cid))
      in \<lparr>pr_queue = queue, pr_workers = replicate (nat replicaCount) Start, pr_results = [], pr_bucket = b,
          pr_panicked = replicaCount < 0\<rparr>)"

text \<open>
  A step of a worker: it opens the file, takes the next host (waiting while the queue is empty),
  copies the file there and stops after the first copy that succeeds. \<open>opens\<close> tells for each
  worker whether the file opens, \<open>put\<close> is \<^verbatim>\<open>replicateFileToHost\<close>.
\<close>

inductive worker_step ::
    "(nat \<Rightarrow> bool) \<Rightarrow> (string \<Rightarrow> 'b \<Rightarrow> unit result \<times> 'b) \<Rightarrow> 'b parallel \<Rightarrow> 'b parallel \<Rightarrow> bool"
  for opens put where
  open_file: "\<not> pr_panicked s \<Longrightarrow> pr_workers s = us @ Start # vs \<Longrightarrow>
    worker_step opens put s (s\<lparr>pr_workers := us @ (if opens (length us) then Ready else Finished) # vs\<rparr>)"
| take_host: "\<not> pr_panicked s \<Longrightarrow> pr_workers s = us @ Ready # vs \<Longrightarrow> pr_queue s = peer # rest \<Longrightarrow>
    worker_step opens put s (s\<lparr>pr_workers := us @ Trying peer # vs, pr_queue := rest\<rparr>)"
| copied: "\<not> pr_panicked s \<Longrightarrow> pr_workers s = us @ Trying peer # vs \<Longrightarrow> put peer (pr_bucket s) = (Ok u, b1) \<Longrightarrow>
    worker_step opens put s (s\<lparr>pr_workers := us @ Finished # vs, pr_results := pr_results s @ [peer], pr_bucket := b1\<rparr>)"
| failed: "\<not> pr_panicked s \<Longrightarrow> pr_workers s = us @ Trying peer # vs \<Longrightarrow> put peer (pr_bucket s) = (Err e, b1) \<Longrightarrow>
    worker_step opens put s (s\<lparr>pr_workers := us @ Ready # vs, pr_bucket := b1\<rparr>)"
| panicked: "\<not> pr_panicked s \<Longrightarrow> pr_workers s = us @ Trying peer # vs \<Longrightarrow> put peer (pr_bucket s) = (Panic p, b1) \<Longrightarrow>
    worker_step opens put s (s\<lparr>pr_panicked := True, pr_bucket := b1\<rparr>)"

text \<open>\<^verbatim>\<open>wg.Wait()\<close> has returned.\<close>

definition returned :: "'b parallel \<Rightarrow> bool" where
  "returned s \<longleftrightarrow> \<not> pr_panicked s \<and> (\<forall>w \<in> set (pr_workers s). w = Finished)"

definition remaining :: "'b parallel \<Rightarrow> nat" where
  "remaining s = 2 * length (pr_queue s) +
     sum_list (map (\<lambda>w. case w of Start \<Rightarrow> 1 | Trying _ \<Rightarrow> 1 | _ \<Rightarrow> 0) (pr_workers s))"

definition in_flight :: "(string \<Rightarrow> bool) \<Rightarrow> worker list \<Rightarrow> nat" where
  "in_flight accepts ws = sum_list (map (\<lambda>w. case w of Trying p \<Rightarrow> (if accepts p then 1 else 0) | _ \<Rightarrow> 0) ws)"

definition finished :: "worker list \<Rightarrow> nat" where
  "finished ws = length (filter (\<lambda>w. w = Finished) ws)"

definition parallel_inv :: "(string \<Rightarrow> bool) \<Rightarrow> nat \<Rightarrow> nat \<Rightarrow> 'b parallel \<Rightarrow> bool" where
  "parallel_inv accepts n k s \<longleftrightarrow> \<not> pr_panicked s \<and> length (pr_workers s) = n
     \<and> list_all accepts (pr_results s) \<and> finished (pr_workers s) = length (pr_results s)
     \<and> length (pr_results s) + in_flight accepts (pr_workers s) + length (filter accepts (pr_queue s)) = k"

definition decides :: "(string \<Rightarrow> bool) \<Rightarrow> (string \<Rightarrow> 'b \<Rightarrow> unit result \<times> 'b) \<Rightarrow> bool" where
  "decides accepts put \<longleftrightarrow> (\<forall>peer b. if accepts peer then is_ok (fst (put peer b)) else \<exists>e. fst (put peer b) = Err e)"

lemma step_keeps_inv:
  assumes "decides accepts put" "\<And>i. opens i" "worker_step opens put s t" "parallel_inv accepts n k s"
  shows "parallel_inv accepts n k t" "Suc (remaining t) = remaining s"
proof -
  note outcome = assms(1) [unfolded decides_def, rule_format]
  show "parallel_inv accepts n k t" using assms(3,4)
  proof (cases rule: worker_step.cases)
    case (copied us peer vs u b1)
    with outcome [of peer "pr_bucket s"] have "accepts peer" by (auto split: if_splits)
    with copied assms(4) show ?thesis by (simp add: parallel_inv_def finished_def in_flight_def)
  next
    case (failed us peer vs e b1)
    with outcome [of peer "pr_bucket s"] have "\<not> accepts peer" by (auto split: if_splits)
    with failed assms(4) show ?thesis by (simp add: parallel_inv_def finished_def in_flight_def)
  next
    case (panicked us peer vs p b1)
    with outcome [of peer "pr_bucket s"] show ?thesis by (auto split: if_splits)
  qed (use assms(2) in \<open>auto simp: parallel_inv_def finished_def in_flight_def\<close>)
  show "Suc (remaining t) = remaining s" using assms(3)
  proof (cases rule: worker_step.cases)
    case (panicked us peer vs p b1)
    with outcome [of peer "pr_bucket s"] show ?thesis by (auto split: if_splits)
  qed (use assms(2) in \<open>auto simp: remaining_def\<close>)
qed

lemma stuck_workers:
  assumes "decides accepts put" "\<not> pr_panicked s" "\<nexists>t. worker_step opens put s t" "w \<in> set (pr_workers s)"
  shows "w = Finished \<or> (w = Ready \<and> pr_queue s = [])"
proof -
  obtain us vs where ws: "pr_workers s = us @ w # vs" using split_list [OF assms(4)] by blast
  show ?thesis
  proof (cases w)
    case Start
    with ws assms(2,3) show ?thesis by (metis open_file)
  next
    case Ready
    with ws assms(2,3) show ?thesis by (cases "pr_queue s") (auto dest: take_host)
  next
    case (Trying peer)
    obtain r b1 where put: "put peer (pr_bucket s) = (r, b1)" by force
    then show ?thesis using Trying ws assms(2,3) by (cases r) (metis copied failed panicked)+
  qed simp
qed

lemma stuck_results:
  assumes "decides accepts put" "parallel_inv accepts n k s" "\<nexists>t. worker_step opens put s t"
  shows "length (pr_results s) = min n k" "returned s \<longleftrightarrow> n \<le> k"
proof -
  have live: "\<not> pr_panicked s" using assms(2) by (simp add: parallel_inv_def)
  note stuck = stuck_workers [OF assms(1) live assms(3)]
  have quiet: "in_flight accepts (pr_workers s) = 0"
    using stuck by (force simp: in_flight_def sum_list_eq_0_iff)
  have "finished (pr_workers s) = length (pr_workers s) \<longleftrightarrow> (\<forall>w \<in> set (pr_workers s). w = Finished)"
    unfolding finished_def by (metis (mono_tags, lifting) filter_True length_filter_less less_irrefl)
  then have all: "returned s \<longleftrightarrow> finished (pr_workers s) = n"
    using assms(2) live by (simp add: returned_def parallel_inv_def)
  have few: "finished (pr_workers s) \<le> n" 
    using assms(2) length_filter_le [of "\<lambda>w. w = Finished" "pr_workers s"] by (simp add: finished_def parallel_inv_def)
  have tally: "finished (pr_workers s) + length (filter accepts (pr_queue s)) = k"
    "length (pr_results s) = finished (pr_workers s)"
    using assms(2) quiet by (simp_all add: parallel_inv_def)
  have "returned s \<or> pr_queue s = []" using stuck live by (auto simp: returned_def)
  then have "finished (pr_workers s) = n \<or> finished (pr_workers s) = k" using all tally(1) by auto
  with few tally show "length (pr_results s) = min n k" "returned s \<longleftrightarrow> n \<le> k" unfolding all by auto
qed

text \<open>
  (C24) Parallel replication of a file that every worker can open, to hosts that each accept or
  refuse it: whatever the interleaving, it comes to rest within a bounded number of steps with
  copies on as many hosts as were asked for, or on all that accept the file when there are
  fewer. It returns only in the first case: with fewer accepting hosts than copies some worker
  waits on the queue, which is never closed, for ever.
\<close>

theorem parallel_replication_completes:
  fixes b :: 'b
  assumes "decides accepts put" and "\<And>i. opens i"
    and start: "start = replicateFileParallel x cfg hosts cid placementHosts b"
    and factor: "0 \<le> mc_ReplicationFactor cfg"
    and run: "(worker_step opens put ^^ m) start s"
  shows "m \<le> length (pr_workers start) + 2 * length (pr_queue start)
    \<and> list_all accepts (pr_results s)
    \<and> ((\<nexists>t. worker_step opens put s t) \<longrightarrow>
         length (pr_results s) = min (length (pr_workers start)) (length (filter accepts (pr_queue start)))
         \<and> (returned s \<longleftrightarrow> length (pr_workers start) \<le> length (filter accepts (pr_queue start))))"
proof -
  let ?n = "length (pr_workers start)" and ?k = "length (filter accepts (pr_queue start))"
  have init: "parallel_inv accepts ?n ?k start" "remaining start = ?n + 2 * length (pr_queue start)"
    unfolding start using factor
    by (auto simp: replicateFileParallel_def Let_def parallel_inv_def finished_def in_flight_def remaining_def sum_list_replicate)
  from run have "parallel_inv accepts ?n ?k s \<and> m + remaining s = remaining start"
  proof (induction m arbitrary: s)
    case 0
    then show ?case using init by simp
  next
    case (Suc m)
    then obtain r where "(worker_step opens put ^^ m) start r" and step: "worker_step opens put r s" by auto
    with Suc.IH have "parallel_inv accepts ?n ?k r" "m + remaining r = remaining start" by auto
    with step_keeps_inv [OF assms(1,2) step, of ?n ?k] show ?case by auto
  qed
  then have inv: "parallel_inv accepts ?n ?k s" and steps: "m + remaining s = remaining start" by simp_all
  show ?thesis
  proof (intro conjI impI)
    show "m \<le> ?n + 2 * length (pr_queue start)" using steps init(2) by simp
    show "list_all accepts (pr_results s)" using inv by (simp add: parallel_inv_def)
  qed (use stuck_results [OF assms(1) inv] in blast)+
qed


definition demo_put :: "string \<Rightarrow> unit \<Rightarrow> unit result \<times> unit" where
  "demo_put peer b = (if peer = ''https://a'' then Ok () else Err (Errorf ''disk is too full''), b)"

definition demo_rest :: "unit parallel" where
  "demo_rest = \<lparr>pr_queue = [], pr_workers = [Finished, Ready], pr_results = [''https://a''], pr_bucket = (), pr_panicked = False\<rparr>"

lemma demo_at_rest: "\<nexists>t. worker_step (\<lambda>_. True) demo_put demo_rest t"
proof
  assume "\<exists>t. worker_step (\<lambda>_. True) demo_put demo_rest t"
  then obtain t where "worker_step (\<lambda>_. True) demo_put demo_rest t" by blast
  then show False by (cases rule: worker_step.cases) (auto simp: demo_rest_def Cons_eq_append_conv)
qed

theorem parallel_replication_completes_witness:
  "(worker_step (\<lambda>_. True) demo_put ^^ 6)
      (replicateFileParallel demo_ext demo_mediorum [] ''baeaaa'' [''https://a'', ''https://b''] ()) demo_rest
    \<and> length (pr_results demo_rest) = 1 \<and> \<not> returned demo_rest"
proof -
  let ?go = "worker_step (\<lambda>_. True) demo_put"
  let ?st = "\<lambda>q ws rs. \<lparr>pr_queue = q, pr_workers = ws, pr_results = rs, pr_bucket = (), pr_panicked = False\<rparr>"
  let ?start = "replicateFileParallel demo_ext demo_mediorum [] ''baeaaa'' [''https://a'', ''https://b''] ()"
  have start: "?start = ?st [''https://a'', ''https://b''] [Start, Start] []"
    by (simp add: replicateFileParallel_def numeral_2_eq_2)
  have "?go (?st [''https://a'', ''https://b''] [Start, Start] []) (?st [''https://a'', ''https://b''] [Ready, Start] [])"
    using open_file [of "?st [''https://a'', ''https://b''] [Start, Start] []" "[]" "[Start]" "\<lambda>_. True" demo_put] by simp
  moreover have "?go (?st [''https://a'', ''https://b''] [Ready, Start] []) (?st [''https://a'', ''https://b''] [Ready, Ready] [])"
    using open_file [of "?st [''https://a'', ''https://b''] [Ready, Start] []" "[Ready]" "[]" "\<lambda>_. True" demo_put] by simp
  moreover have "?go (?st [''https://a'', ''https://b''] [Ready, Ready] []) (?st [''https://b''] [Trying ''https://a'', Ready] [])"
    using take_host [of "?st [''https://a'', ''https://b''] [Ready, Ready] []" "[]" "[Ready]"] by simp
  moreover have "?go (?st [''https://b''] [Trying ''https://a'', Ready] []) (?st [] [Trying ''https://a'', Trying ''https://b''] [])"
    using take_host [of "?st [''https://b''] [Trying ''https://a'', Ready] []" "[Trying ''https://a'']" "[]"] by simp
  moreover have "?go (?st [] [Trying ''https://a'', Trying ''https://b''] []) (?st [] [Finished, Trying ''https://b''] [''https://a''])"
    using copied [of "?st [] [Trying ''https://a'', Trying ''https://b''] []" "[]" "''https://a''" "[Trying ''https://b'']" demo_put "()" "()"]
    by (simp add: demo_put_def)
  moreover have "?go (?st [] [Finished, Trying ''https://b''] [''https://a'']) demo_rest"
    using failed [of "?st [] [Finished, Trying ''https://b''] [''https://a'']" "[Finished]" "''https://b''" "[]" demo_put _ "()"]
    by (simp add: demo_put_def demo_rest_def)
  ultimately have run: "(?go ^^ 6) ?start demo_rest"
    unfolding start by (simp add: numeral_eq_Suc) blast
  have "decides (\<lambda>p. p = ''https://a'') demo_put" by (simp add: decides_def demo_put_def)
  moreover have "0 \<le> mc_ReplicationFactor demo_mediorum" by (simp add: demo_mediorum_def)
  ultimately show ?thesis
    using parallel_replication_completes [OF _ _ refl _ run] demo_at_rest run by (simp add: start)
qed

end
