(* ===== verification/Repair.thy ===== *)
theory Repair
  imports Placement
begin

text \<open>
  The repairer of the storage node (\<^verbatim>\<open>pkg/mediorum/server/repair.go\<close>): it pulls the blobs the
  node should have, and in cleanup mode drops those it need not keep. Times are nanoseconds
  since the epoch; the durations a run records are left out.
\<close>

section \<open>The tracker\<close>

record repair_tracker =
  rt_StartedAt :: int
  rt_FinishedAt :: "int option"
  rt_CleanupMode :: bool
  rt_CursorI :: int
  rt_CursorUploadID :: string
  rt_CursorPreviewCID :: string
  rt_CursorQmCID :: string
  rt_Counters :: "string \<Rightarrow> int"
  rt_ContentSize :: int64
  rt_AbortedReason :: string

definition count_event :: "string \<Rightarrow> repair_tracker \<Rightarrow> repair_tracker" where
  "count_event c t = t\<lparr>rt_Counters := (rt_Counters t)(c := rt_Counters t c + 1)\<rparr>"

definition add_size :: "int64 \<Rightarrow> repair_tracker \<Rightarrow> repair_tracker" where
  "add_size n t = t\<lparr>rt_ContentSize := wrap64 (rt_ContentSize t + n)\<rparr>"

text \<open>What a run sees of its node and the network: \<open>re_free\<close> and \<open>re_size\<close> are the disk's, in bytes.\<close>

record 'b repair_env =
  re_ext :: ext
  re_cid :: cid_ext
  re_bucket :: "'b bucket_api"
  re_pull :: "string \<Rightarrow> string \<Rightarrow> bytes result"
  re_cfg :: mediorum_config
  re_hosts :: "string list"
  re_free :: int
  re_size :: int
  re_now :: int

section \<open>Repairing one blob\<close>

text \<open>
  The hosts in order until one gives the blob. The size of a pulled blob is read from its
  attributes exactly when they could not be had.
\<close>

fun pull_from :: "'b repair_env \<Rightarrow> string \<Rightarrow> string \<Rightarrow> string list \<Rightarrow> repair_tracker \<times> 'b \<Rightarrow> unit result \<times> repair_tracker \<times> 'b" where
  "pull_from en cid key [] (t, b) = (Err (Errorf ''failed to pull from any host''), t, b)"
| "pull_from en cid key (host # hosts) (t, b) =
     (if host = mc_Host (re_cfg en) then pull_from en cid key hosts (t, b)
      else case pullFileFromHost (re_bucket en) (re_pull en) (re_cfg en) host cid b of
        (Ok _, b1) \<Rightarrow> (case ba_attributes (re_bucket en) key b1 of
            Ok (Some _) \<Rightarrow> (Ok (), count_event ''pull_mine_success'' t, b1)
          | _ \<Rightarrow> (Panic ''nil pointer dereference'', count_event ''pull_mine_success'' t, b1))
      | (Err e, b1) \<Rightarrow> pull_from en cid key hosts (count_event ''pull_mine_fail'' t, b1)
      | (Panic p, b1) \<Rightarrow> (Panic p, t, b1))"

text \<open>The thresholds on the free share of the disk are compared exactly.\<close>

definition rankThreshold :: "'b repair_env \<Rightarrow> int" where
  "rankThreshold en =
     (let factor = mc_ReplicationFactor (re_cfg en) in
      if \<not> diskHasSpace (re_cfg en) (re_free en) then factor
      else if 10 * re_free en > 4 * re_size en then wrap64 (factor * 3)
      else if 10 * re_free en > 2 * re_size en then wrap64 (factor * 2)
      else wrap64 (factor + 2))"

definition week :: int where
  "week = 24 * 7 * 3600 * 1000000000"

text \<open>The zero value of \<^verbatim>\<open>blob.Attributes\<close>: no size and the first instant of year one.\<close>

definition no_attrs :: blob_attrs where
  "no_attrs = \<lparr>at_Size = 0, at_ModTime = - 62135596800000000000\<rparr>"

definition derived_image :: "string \<Rightarrow> bool" where
  "derived_image cid \<longleftrightarrow> has_suffix cid ''.jpg'' \<and> \<not> has_suffix cid ''original.jpg''"

text \<open>The part after the checks of the blob: count it, pull it, or drop it when over-replicated.\<close>

definition settle_blob ::
    "'b repair_env \<Rightarrow> string \<Rightarrow> string \<Rightarrow> string list \<Rightarrow> bool \<Rightarrow> bool \<Rightarrow> blob_attrs option \<Rightarrow> repair_tracker \<times> 'b
      \<Rightarrow> unit result \<times> repair_tracker \<times> 'b" where
  "settle_blob en cid key preferredHosts isPlaced isMine found tb =
     (let alreadyHave = found \<noteq> None;
          attrs = (case found of Some a \<Rightarrow> a | None \<Rightarrow> no_attrs);
          t = (if alreadyHave then add_size (at_Size attrs) (count_event ''already_have'' (fst tb)) else fst tb);
          b = snd tb
      in if isMine \<and> \<not> alreadyHave \<and> diskHasSpace (re_cfg en) (re_free en)
         then pull_from en cid key preferredHosts (count_event ''pull_mine_needed'' t, b)
         else if \<not> isPlaced \<and> \<not> mc_StoreAll (re_cfg en) \<and> rt_CleanupMode t \<and> alreadyHave
              \<and> index_of (mc_Host (re_cfg en)) preferredHosts > rankThreshold en
              \<and> \<not> (at_ModTime attrs > re_now en - week)
         then (case dropFromMyBucket (re_bucket en) cid b of
             (Ok _, b1) \<Rightarrow> (Ok (), add_size (- at_Size attrs) (count_event ''delete_over_replicated_success''
                            (count_event ''delete_over_replicated_needed'' t)), b1)
           | (Err e, b1) \<Rightarrow> (Err e, count_event ''delete_over_replicated_fail'' (count_event ''delete_over_replicated_needed'' t), b1)
           | (Panic p, b1) \<Rightarrow> (Panic p, count_event ''delete_over_replicated_needed'' t, b1))
         else (Ok (), t, b))"

text \<open>
  \<open>err\<close> is the error of reading the attributes. The check of the content tests it, where the
  error of the validation was meant.
\<close>

definition check_blob ::
    "'b repair_env \<Rightarrow> string \<Rightarrow> string \<Rightarrow> go_error option \<Rightarrow> bool \<Rightarrow> repair_tracker \<times> 'b \<Rightarrow> (unit result \<times> repair_tracker \<times> 'b) option" where
  "check_blob en cid key err alreadyHave tb =
     (let t = fst tb; b = snd tb in
      if rt_CleanupMode t \<and> alreadyHave \<and> \<not> IsLegacyCID cid
      then (case ba_read (re_bucket en) key b of
          Ok content \<Rightarrow>
            let errVal = ValidateCID (re_cid en) cid content in
            (case err of
               Some e \<Rightarrow> (case ba_delete (re_bucket en) key b of
                   (Ok _, b1) \<Rightarrow> Some (Err e, count_event ''delete_invalid_success'' (count_event ''delete_invalid_needed'' t), b1)
                 | (Err _, b1) \<Rightarrow> Some (Err e, count_event ''delete_invalid_fail'' (count_event ''delete_invalid_needed'' t), b1)
                 | (Panic p, b1) \<Rightarrow> Some (Panic p, count_event ''delete_invalid_needed'' t, b1))
             | None \<Rightarrow> (case errVal of Panic p \<Rightarrow> Some (Panic p, t, b) | _ \<Rightarrow> None))
        | Err e \<Rightarrow> Some (Err e, count_event ''read_blob_fail'' t, b)
        | Panic p \<Rightarrow> Some (Panic p, t, b))
      else None)"

definition repairCid ::
    "'b repair_env \<Rightarrow> string \<Rightarrow> string list \<Rightarrow> repair_tracker \<times> 'b \<Rightarrow> unit result \<times> repair_tracker \<times> 'b" where
  "repairCid en cid placementHosts tb =
     (let self = mc_Host (re_cfg en);
          ranking = rendezvousAllHosts (re_ext en) (re_cfg en) (re_hosts en) cid;
          isPlaced = (placementHosts \<noteq> []);
          preferredHosts = (if isPlaced then placementHosts else fst ranking);
          isMine = (isPlaced \<or> snd ranking)
      in if isPlaced \<and> self \<notin> set placementHosts then (Ok (), tb)
         else if \<not> rt_CleanupMode (fst tb) \<and> \<not> isMine then (Ok (), tb)
         else let t = count_event ''total_checked'' (fst tb); b = snd tb in
           case ShardCID cid of
             Ok key \<Rightarrow> (case ba_attributes (re_bucket en) key b of
                 Ok found \<Rightarrow>
                   let err = (if found = None then Some (Errorf ''blob not found'') else None) in
                   (case check_blob en cid key err (found \<noteq> None) (t, b) of
                      Some out \<Rightarrow> out
                    | None \<Rightarrow>
                        if derived_image cid
                        then if rt_CleanupMode t \<and> found \<noteq> None
                             then (case dropFromMyBucket (re_bucket en) cid b of
                                 (Ok _, b1) \<Rightarrow> (Ok (), count_event ''delete_resized_image_ok'' t, b1)
                               | (Err e, b1) \<Rightarrow> (Ok (), count_event ''delete_resized_image_failed'' t, b1)
                               | (Panic p, b1) \<Rightarrow> (Panic p, t, b1))
                             else (Ok (), t, b)
                        else settle_blob en cid key preferredHosts isPlaced isMine found (t, b))
               | Err e \<Rightarrow> (Err e, count_event ''read_attrs_fail'' t, b)
               | Panic p \<Rightarrow> (Panic p, t, b))
           | Err e \<Rightarrow> (Err e, t, b)
           | Panic p \<Rightarrow> (Panic p, t, b))"


section \<open>What a repair drops\<close>

text \<open>
  What is asked of the bucket: a write that succeeds can be read back, one that fails changes
  nothing, and no operation touches another key.
\<close>

definition bucket_laws :: "'b bucket_api \<Rightarrow> bool" where
  "bucket_laws api \<longleftrightarrow>
     (\<forall>key c b b'. ba_write api key c b = (Ok (), b') \<longrightarrow> ba_read api key b' = Ok c)
     \<and> (\<forall>key c b r b' k. ba_write api key c b = (r, b') \<longrightarrow> k \<noteq> key \<or> r \<noteq> Ok () \<longrightarrow> ba_read api k b' = ba_read api k b)
     \<and> (\<forall>key b r b' k. ba_delete api key b = (r, b') \<longrightarrow> k \<noteq> key \<longrightarrow> ba_read api k b' = ba_read api k b)"

lemma count_event_mode [simp]: "rt_CleanupMode (count_event c t) = rt_CleanupMode t"
  by (simp add: count_event_def)

lemma add_size_mode [simp]: "rt_CleanupMode (add_size n t) = rt_CleanupMode t"
  by (simp add: add_size_def)

lemma pull_other_keys:
  assumes "bucket_laws (re_bucket en)" "ShardCID cid = Ok key" "k \<noteq> key"
  shows "ba_read (re_bucket en) k (snd (snd (pull_from en cid key hosts (t, b)))) = ba_read (re_bucket en) k b"
  using assms
proof (induction en cid key hosts "(t, b)" arbitrary: t b rule: pull_from.induct)
  case (2 en cid key host hosts t b)
  show ?case
  proof (cases "host = mc_Host (re_cfg en)")
    case True
    then show ?thesis using 2 by simp
  next
    case False
    obtain r b1 where pull: "pullFileFromHost (re_bucket en) (re_pull en) (re_cfg en) host cid b = (r, b1)" by force
    then have same: "ba_read (re_bucket en) k b1 = ba_read (re_bucket en) k b"
      using 2(3-5) unfolding bucket_laws_def
      by (auto simp: pullFileFromHost_def replicateToMyBucket_def on_blob_def split: if_splits result.splits)
    show ?thesis
    proof (cases r)
      case (Err e)
      with 2(2) [OF False pull [symmetric] Err] 2(3-5) pull False same show ?thesis by simp
    qed (use False pull same in \<open>auto split: result.splits option.splits\<close>)
  qed
qed simp

lemma drop_other_keys:
  assumes "bucket_laws api" "ShardCID cid = Ok key" "k \<noteq> key"
  shows "ba_read api k (snd (dropFromMyBucket api cid b)) = ba_read api k b"
  using assms unfolding bucket_laws_def
  by (cases "ba_delete api key b") (auto simp: dropFromMyBucket_def on_blob_def split: result.splits prod.splits)


lemma threshold_above_factor:
  assumes "0 \<le> mc_ReplicationFactor (re_cfg en)" "mc_ReplicationFactor (re_cfg en) < 2 ^ 61"
  shows "mc_ReplicationFactor (re_cfg en) \<le> rankThreshold en"
  using assms by (auto simp: rankThreshold_def Let_def wrap64_small)

lemma check_blob_present:
  assumes "check_blob en cid key None True (t, b) = Some (r, t', b')"
  shows "b' = b"
  using assms by (auto simp: check_blob_def Let_def split: if_splits result.splits)

lemma check_blob_absent [simp]: "check_blob en cid key err False tb = None"
  by (simp add: check_blob_def Let_def)

text \<open>A blob the node has stays unless it is over-replicated.\<close>

lemma settle_present:
  assumes "settle_blob en cid key hosts isPlaced isMine (Some a) (t, b) = (r, t', b')"
  shows "b' = b \<or> (\<not> isPlaced \<and> \<not> mc_StoreAll (re_cfg en) \<and> rt_CleanupMode t
    \<and> rankThreshold en < index_of (mc_Host (re_cfg en)) hosts \<and> at_ModTime a \<le> re_now en - week
    \<and> b' = snd (dropFromMyBucket (re_bucket en) cid b))"
  using assms by (auto simp: settle_blob_def Let_def split: if_splits prod.splits result.splits)

lemma settle_other_keys:
  assumes "bucket_laws (re_bucket en)" "ShardCID cid = Ok key" "k \<noteq> key"
  shows "ba_read (re_bucket en) k (snd (snd (settle_blob en cid key hosts isPlaced isMine found (t, b)))) = ba_read (re_bucket en) k b"
  using drop_other_keys [OF assms, of b]
  by (auto simp: settle_blob_def Let_def pull_other_keys [OF assms] split: prod.splits result.splits)

text \<open>
  The blobs a cleanup drops: derived images, and those it takes for over-replicated by the node's own rank. Only
  the rank counts: the hosts ahead are not asked whether they have the blob.
\<close>

definition spare :: "'b repair_env \<Rightarrow> string \<Rightarrow> string list \<Rightarrow> repair_tracker \<Rightarrow> blob_attrs \<Rightarrow> bool" where
  "spare en cid placementHosts t a \<longleftrightarrow>
     rt_CleanupMode t \<and> (placementHosts = [] \<or> mc_Host (re_cfg en) \<in> set placementHosts)
     \<and> (derived_image cid \<or>
        placementHosts = [] \<and> \<not> mc_StoreAll (re_cfg en)
        \<and> rankThreshold en < index_of (mc_Host (re_cfg en)) (Rank (re_ext en) (re_hosts en) cid)
        \<and> at_ModTime a \<le> re_now en - week)"

lemma repair_spare:
  assumes key: "ShardCID cid = Ok key" and spare: "spare en cid placementHosts t a"
    and have_it: "ba_attributes (re_bucket en) key b = Ok (Some a)" "ba_read (re_bucket en) key b = Ok content"
    and deleted: "ba_delete (re_bucket en) key b = (Ok (), bd)" and sane: "\<not> is_panic (ValidateCID (re_cid en) cid content)"
    and factor: "0 \<le> mc_ReplicationFactor (re_cfg en)" "mc_ReplicationFactor (re_cfg en) < 2 ^ 61"
  shows "snd (snd (repairCid en cid placementHosts (t, b))) = bd"
proof -
  have drop: "dropFromMyBucket (re_bucket en) cid b = (Ok (), bd)" using key deleted by (simp add: dropFromMyBucket_def on_blob_def)
  have check: "check_blob en cid key None True (t1, b) = None" for t1
    using have_it(2) sane by (auto simp: check_blob_def Let_def split: result.splits)
  show ?thesis
    using key spare have_it(1) drop check threshold_above_factor [OF factor]
    by (auto simp: repairCid_def spare_def Let_def rendezvousAllHosts_def settle_blob_def)
qed

text \<open>
  (C26) A repair of a blob touches no other blob. When a blob the node has is changed or dropped, the run is a
  cleanup and the blob is a derived image, or it is placed nowhere explicitly, not modified within a
  week, on a node that does not store everything and ranks behind the threshold, which is at least the number
  of replicas. Conversely every such blob is dropped, when its deletion works: whether the hosts ahead have it,
  and whether its content hashes to its identifier, plays no part, contrary to the comments of the code
  (a blob of a node that ranks among the replicas stays even when its content is invalid,
  \<open>invalid_blob_survives_cleanup\<close>).
\<close>

theorem repair_drops_by_rank:
  assumes laws: "bucket_laws (re_bucket en)" and key: "ShardCID cid = Ok key"
    and factor: "0 \<le> mc_ReplicationFactor (re_cfg en)" "mc_ReplicationFactor (re_cfg en) < 2 ^ 61"
    and run: "repairCid en cid placementHosts (t, b) = (r, t', b')"
  shows "(\<forall>k. k \<noteq> key \<longrightarrow> ba_read (re_bucket en) k b' = ba_read (re_bucket en) k b)
    \<and> (\<forall>a. ba_attributes (re_bucket en) key b = Ok (Some a) \<and> ba_read (re_bucket en) key b' \<noteq> ba_read (re_bucket en) key b \<longrightarrow>
         spare en cid placementHosts t a)
    \<and> (\<forall>a content bd. ba_attributes (re_bucket en) key b = Ok (Some a) \<and> ba_read (re_bucket en) key b = Ok content
         \<and> ba_delete (re_bucket en) key b = (Ok (), bd) \<and> \<not> is_panic (ValidateCID (re_cid en) cid content)
         \<and> spare en cid placementHosts t a \<longrightarrow> b' = bd)
    \<and> mc_ReplicationFactor (re_cfg en) \<le> rankThreshold en"
proof (intro conjI allI impI)
  let ?t = "count_event ''total_checked'' t"
  show "ba_read (re_bucket en) k b' = ba_read (re_bucket en) k b" if "k \<noteq> key" for k
  proof -
    have drop: "ba_read (re_bucket en) k (snd (dropFromMyBucket (re_bucket en) cid b)) = ba_read (re_bucket en) k b"
      by (rule drop_other_keys [OF laws key that])
    have settle: "settle_blob en cid key hosts p m found (?t, b) = (r, t', b') \<Longrightarrow> ba_read (re_bucket en) k b' = ba_read (re_bucket en) k b"
      for hosts p m found using settle_other_keys [OF laws key that, of hosts p m found ?t b] by simp
    show ?thesis
      using run key drop settle
      by (auto simp: repairCid_def Let_def dest!: check_blob_present split: if_splits result.splits option.splits prod.splits)
  qed
  show "spare en cid placementHosts t a"
    if a: "ba_attributes (re_bucket en) key b = Ok (Some a) \<and> ba_read (re_bucket en) key b' \<noteq> ba_read (re_bucket en) key b" for a
  proof -
    from a have "b' \<noteq> b" by auto
    with run key a show ?thesis
      by (auto simp: spare_def repairCid_def Let_def rendezvousAllHosts_def dest!: check_blob_present settle_present
          split: if_splits result.splits option.splits)
  qed
  show "b' = bd" if "ba_attributes (re_bucket en) key b = Ok (Some a) \<and> ba_read (re_bucket en) key b = Ok content
      \<and> ba_delete (re_bucket en) key b = (Ok (), bd) \<and> \<not> is_panic (ValidateCID (re_cid en) cid content)
      \<and> spare en cid placementHosts t a" for a content bd
    using repair_spare [OF key _ _ _ _ _ factor, of placementHosts t a b content bd] that run by simp
  show "mc_ReplicationFactor (re_cfg en) \<le> rankThreshold en" by (rule threshold_above_factor [OF factor])
qed

section \<open>What a repair restores\<close>

text \<open>The node is one of the hosts that should have the blob.\<close>

definition responsible :: "'b repair_env \<Rightarrow> string \<Rightarrow> string list \<Rightarrow> bool" where
  "responsible en cid placementHosts \<longleftrightarrow>
     (if placementHosts \<noteq> [] then mc_Host (re_cfg en) \<in> set placementHosts
      else snd (rendezvousAllHosts (re_ext en) (re_cfg en) (re_hosts en) cid))"

definition asked_hosts :: "'b repair_env \<Rightarrow> string \<Rightarrow> string list \<Rightarrow> string list" where
  "asked_hosts en cid placementHosts = (if placementHosts \<noteq> [] then placementHosts else Rank (re_ext en) (re_hosts en) cid)"

lemma pull_from_first:
  assumes "\<And>h. h \<in> set before \<Longrightarrow> h \<noteq> mc_Host (re_cfg en) \<Longrightarrow> \<exists>e. re_pull en h cid = Err e"
    and "host \<noteq> mc_Host (re_cfg en)" "re_pull en host cid = Ok content" "ShardCID cid = Ok key"
    and "ba_write (re_bucket en) key content b = (Ok (), b1)" "ba_attributes (re_bucket en) key b1 = Ok (Some a)"
  shows "\<exists>t1. pull_from en cid key (before @ host # after) (t, b) = (Ok (), t1, b1)"
  using assms(1)
proof (induction before arbitrary: t)
  case Nil
  show ?case using assms(2-) by (simp add: pullFileFromHost_def replicateToMyBucket_def on_blob_def)
next
  case (Cons h hs)
  show ?case
  proof (cases "h = mc_Host (re_cfg en)")
    case True
    then show ?thesis using Cons by simp
  next
    case False
    with Cons.prems obtain e where "re_pull en h cid = Err e" by auto
    with False Cons show ?thesis by (simp add: pullFileFromHost_def)
  qed
qed

text \<open>
  A node that should have a blob and does not, with space on its disk, takes it from the
  first of the preferred hosts that answers and the blob is then in its bucket.
\<close>

theorem repair_pulls_own_blob:
  assumes laws: "bucket_laws (re_bucket en)" and key: "ShardCID cid = Ok key"
    and mine: "responsible en cid placementHosts" and missing: "ba_attributes (re_bucket en) key b = Ok None"
    and plain: "\<not> derived_image cid" and space: "diskHasSpace (re_cfg en) (re_free en)"
    and hosts: "asked_hosts en cid placementHosts = before @ host # after" "host \<noteq> mc_Host (re_cfg en)"
    and silent: "\<And>h. h \<in> set before \<Longrightarrow> h \<noteq> mc_Host (re_cfg en) \<Longrightarrow> \<exists>e. re_pull en h cid = Err e"
    and answer: "re_pull en host cid = Ok content"
    and stored: "ba_write (re_bucket en) key content b = (Ok (), b1)" "ba_attributes (re_bucket en) key b1 = Ok (Some a)"
  shows "\<exists>t1. repairCid en cid placementHosts (t, b) = (Ok (), t1, b1) \<and> ba_read (re_bucket en) key b1 = Ok content"
proof -
  have "ba_read (re_bucket en) key b1 = Ok content" using laws stored(1) unfolding bucket_laws_def by blast
  moreover obtain t1 where "pull_from en cid key (before @ host # after)
      (count_event ''pull_mine_needed'' (count_event ''total_checked'' t), b) = (Ok (), t1, b1)"
    using pull_from_first [OF silent hosts(2) answer key stored] by blast
  then have "repairCid en cid placementHosts (t, b) = (Ok (), t1, b1)"
    using key mine missing plain space hosts(1)
    by (auto simp: repairCid_def Let_def responsible_def asked_hosts_def settle_blob_def rendezvousAllHosts_def split: if_splits)
  ultimately show ?thesis by blast
qed

text \<open>
  A blob whose content does not hash to its identifier, on a node that should have it,
  survives every cleanup: the repair succeeds, leaves the bucket as it was and does not count
  the blob as invalid.
\<close>

theorem invalid_blob_survives_cleanup:
  assumes key: "ShardCID cid = Ok key" and mine: "responsible en cid placementHosts"
    and stored: "ba_attributes (re_bucket en) key b = Ok (Some a)" "ba_read (re_bucket en) key b = Ok content"
    and invalid: "ValidateCID (re_cid en) cid content = Err e" and plain: "\<not> derived_image cid"
    and factor: "0 \<le> mc_ReplicationFactor (re_cfg en)" "mc_ReplicationFactor (re_cfg en) < 2 ^ 61"
  shows "\<exists>t1. repairCid en cid placementHosts (t, b) = (Ok (), t1, b)
    \<and> rt_Counters t1 ''delete_invalid_needed'' = rt_Counters t ''delete_invalid_needed''"
proof -
  have "\<not> (placementHosts = [] \<and> \<not> mc_StoreAll (re_cfg en)
      \<and> rankThreshold en < index_of (mc_Host (re_cfg en)) (Rank (re_ext en) (re_hosts en) cid))"
    using mine threshold_above_factor [OF factor] by (auto simp: responsible_def rendezvousAllHosts_def Let_def)
  moreover have "check_blob en cid key None True (count_event ''total_checked'' t, b) = None"
    using stored(2) invalid by (simp add: check_blob_def Let_def)
  ultimately show ?thesis
    using key mine stored(1) plain
    by (auto simp: repairCid_def Let_def responsible_def settle_blob_def rendezvousAllHosts_def count_event_def add_size_def
        split: if_splits)
qed


section \<open>A node and its peer\<close>

type_synonym shelf = "string \<Rightarrow> (bytes \<times> int) option"

definition shelf_api :: "shelf bucket_api" where
  "shelf_api = \<lparr>
     ba_attributes = (\<lambda>k b. Ok (map_option (\<lambda>(c, m). \<lparr>at_Size = int (length c), at_ModTime = m\<rparr>) (b k))),
     ba_read = (\<lambda>k b. case b k of Some (c, m) \<Rightarrow> Ok c | None \<Rightarrow> Err (Errorf ''blob not found'')),
     ba_write = (\<lambda>k c b. (Ok (), b(k \<mapsto> (c, 0)))),
     ba_delete = (\<lambda>k b. (Ok (), b(k := None)))\<rparr>"

lemma shelf_laws: "bucket_laws shelf_api"
  by (auto simp: bucket_laws_def shelf_api_def)

definition demo_repair :: "shelf repair_env" where
  "demo_repair = \<lparr>re_ext = demo_ext, re_cid = \<lparr>z_multihash = Ok, z_v1_sum = (\<lambda>h. Ok (''ba'' @ string_of h))\<rparr>,
     re_bucket = shelf_api, re_pull = (\<lambda>h cid. if h = ''https://b'' then Ok [7] else Err (Errorf ''bad status'')),
     re_cfg = demo_mediorum, re_hosts = [''https://a''], re_free = 900000000000, re_size = 1000000000000,
     re_now = 2000000000000000000\<rparr>"

definition demo_tracker :: repair_tracker where
  "demo_tracker = \<lparr>rt_StartedAt = 0, rt_FinishedAt = None, rt_CleanupMode = True, rt_CursorI = 1, rt_CursorUploadID = '''',
     rt_CursorPreviewCID = '''', rt_CursorQmCID = '''', rt_Counters = (\<lambda>_. 0), rt_ContentSize = 0, rt_AbortedReason = ''''\<rparr>"

lemma demo_key: "ShardCID ''baeaaa'' = Ok ''aeaaa/baeaaa''"
  by code_simp

lemma demo_plain: "\<not> derived_image ''baeaaa''"
  by code_simp

lemma demo_responsible: "responsible demo_repair ''baeaaa'' [''https://b'', ''https://a'']"
  by (simp add: responsible_def demo_repair_def demo_mediorum_def)

text \<open>A node that ranks behind four others, with a blob of last year.\<close>

definition demo_crowd :: "shelf repair_env" where
  "demo_crowd = demo_repair\<lparr>re_hosts := [''https://1'', ''https://a'', ''https://2'', ''https://3'', ''https://4'']\<rparr>"

definition demo_shelf :: shelf where
  "demo_shelf = [''aeaaa/baeaaa'' \<mapsto> ([7], 0), ''aeaaa/other'' \<mapsto> ([8], 0)]"

lemma demo_rank: "index_of ''https://a'' (Rank demo_ext [''https://1'', ''https://a'', ''https://2'', ''https://3'', ''https://4''] ''baeaaa'') = 4"
  by code_simp

lemma demo_spare: "spare demo_crowd ''baeaaa'' [] demo_tracker \<lparr>at_Size = 1, at_ModTime = 0\<rparr>"
  using demo_rank by (simp add: spare_def demo_crowd_def demo_repair_def demo_tracker_def demo_mediorum_def rankThreshold_def
      diskHasSpace_def week_def wrap64_def)

theorem repair_drops_by_rank_witness:
  "ba_read shelf_api ''aeaaa/other'' (snd (snd (repairCid demo_crowd ''baeaaa'' [] (demo_tracker, demo_shelf)))) = Ok [8]
   \<and> snd (snd (repairCid demo_crowd ''baeaaa'' [] (demo_tracker, demo_shelf))) = demo_shelf(''aeaaa/baeaaa'' := None)"
proof -
  obtain r t' b' where run: "repairCid demo_crowd ''baeaaa'' [] (demo_tracker, demo_shelf) = (r, t', b')"
    using prod_cases3 by blast
  have en: "re_bucket demo_crowd = shelf_api" "re_cfg demo_crowd = demo_mediorum" "re_cid demo_crowd = re_cid demo_repair"
    by (simp_all add: demo_crowd_def demo_repair_def)
  have have_it: "ba_attributes shelf_api ''aeaaa/baeaaa'' demo_shelf = Ok (Some \<lparr>at_Size = 1, at_ModTime = 0\<rparr>)"
    "ba_read shelf_api ''aeaaa/baeaaa'' demo_shelf = Ok [7]" "ba_read shelf_api ''aeaaa/other'' demo_shelf = Ok [8]"
    "ba_delete shelf_api ''aeaaa/baeaaa'' demo_shelf = (Ok (), demo_shelf(''aeaaa/baeaaa'' := None))"
    "\<not> is_panic (ValidateCID (re_cid demo_repair) ''baeaaa'' [7])"
    by (simp_all add: shelf_api_def demo_shelf_def demo_repair_def ValidateCID_def ComputeFileCID_def string_of_def)
  have "mc_ReplicationFactor demo_mediorum = 1" by (simp add: demo_mediorum_def)
  then show ?thesis
    using repair_drops_by_rank [OF _ demo_key _ _ run] shelf_laws have_it demo_spare run by (auto simp: en)
qed

theorem repair_pulls_own_blob_witness:
  "\<exists>t1. repairCid demo_repair ''baeaaa'' [''https://b'', ''https://a''] (demo_tracker, Map.empty)
       = (Ok (), t1, [''aeaaa/baeaaa'' \<mapsto> ([7], 0)])
     \<and> ba_read (re_bucket demo_repair) ''aeaaa/baeaaa'' [''aeaaa/baeaaa'' \<mapsto> ([7], 0)] = Ok [7]"
  by (rule repair_pulls_own_blob [OF _ demo_key demo_responsible _ demo_plain, where before = "[]" and host = "''https://b''"])
    (simp_all add: demo_repair_def shelf_laws, simp_all add: shelf_api_def demo_mediorum_def diskHasSpace_def asked_hosts_def)

theorem invalid_blob_survives_cleanup_witness:
  "\<exists>t1. repairCid demo_repair ''baeaaa'' [''https://b'', ''https://a''] (demo_tracker, [''aeaaa/baeaaa'' \<mapsto> ([7], 0)])
       = (Ok (), t1, [''aeaaa/baeaaa'' \<mapsto> ([7], 0)])
     \<and> rt_Counters t1 ''delete_invalid_needed'' = rt_Counters demo_tracker ''delete_invalid_needed''"
  by (rule invalid_blob_survives_cleanup [OF demo_key demo_responsible _ _ _ demo_plain, where content = "[7]"])
    (simp_all add: demo_repair_def shelf_api_def demo_mediorum_def ValidateCID_def ComputeFileCID_def string_of_def)

end
