(* ===== verification/Paging.thy ===== *)
theory Paging
  imports Encoding
begin

text \<open>
  Reading a table page by page behind a cursor, as the repairer and the sweeps of the replicated
  log do: the first rows by key behind the cursor, which moves to the last of them.
\<close>

text \<open>\<^verbatim>\<open>where key > cursor order by key limit n\<close>.\<close>

definition page :: "nat \<Rightarrow> ('i \<Rightarrow> string) \<Rightarrow> 'i list \<Rightarrow> string \<Rightarrow> 'i list" where
  "page n key table cursor = take n (sort_key key (filter (\<lambda>u. key u > cursor) table))"

lemma page_rows: "set (page n key table cursor) \<subseteq> {u \<in> set table. key u > cursor}"
  by (auto simp: page_def dest: in_set_takeD)

lemma page_empty: "0 < n \<Longrightarrow> page n key table cursor = [] \<longleftrightarrow> filter (\<lambda>u. key u > cursor) table = []"
  by (auto simp: page_def) (metis length_0_conv length_sort)

lemma page_last: "page n key table cursor \<noteq> [] \<Longrightarrow> last (page n key table cursor) \<in> {u \<in> set table. key u > cursor}"
  using page_rows [of n key table cursor] last_in_set [of "page n key table cursor"] by blast

lemma fewer_rows:
  assumes "u \<in> {u \<in> set table. key u > cursor}"
  shows "length (filter (\<lambda>v. key v > key u) table) < length (filter (\<lambda>v. key v > (cursor :: string)) table)"
proof -
  have "filter (\<lambda>v. key v > key u) table = filter (\<lambda>v. key v > key u) (filter (\<lambda>v. key v > cursor) table)"
    using assms by (auto intro: filter_cong)
  also have "length \<dots> < length (filter (\<lambda>v. key v > cursor) table)"
    by (rule length_filter_less [of u]) (use assms in auto)
  finally show ?thesis .
qed

lemma page_rest:
  assumes "distinct (map key table)" "page n key table cursor \<noteq> []"
  shows "sort_key key (filter (\<lambda>u. key u > cursor) table) =
    page n key table cursor @ sort_key key (filter (\<lambda>u. key u > key (last (page n key table cursor))) table)"
proof -
  let ?all = "sort_key key (filter (\<lambda>u. key u > cursor) table)"
  let ?rows = "page n key table cursor"
  obtain rest where split: "?all = ?rows @ rest" by (metis append_take_drop_id page_def)
  have "distinct (map key ?all)" using assms(1) by (simp add: distinct_map inj_on_def)
  then have strict: "sorted_wrt (<) (map key ?rows @ map key rest)"
    unfolding strict_sorted_iff map_append [symmetric] split [symmetric] by simp
  have "key u \<le> key (last ?rows)" if "u \<in> set ?rows" for u
  proof -
    have "map key ?rows = map key (butlast ?rows) @ [key (last ?rows)]"
      using append_butlast_last_id [OF assms(2)] by (metis list.simps(8,9) map_append)
    with strict have "\<forall>v \<in> set (butlast ?rows). key v < key (last ?rows)" by (simp add: sorted_wrt_append)
    with that append_butlast_last_id [OF assms(2)] show ?thesis by (metis Un_iff empty_set insert_iff le_less list.simps(15) set_append singletonD)
  qed
  moreover have "key v > key (last ?rows)" if "v \<in> set rest" for v
    using strict that last_in_set [OF assms(2)] by (simp add: sorted_wrt_append)
  ultimately have "filter (\<lambda>u. key u > key (last ?rows)) ?all = rest"
    unfolding split filter_append by (auto simp: filter_empty_conv filter_id_conv leD)
  moreover have "filter (\<lambda>u. key u > key (last ?rows)) ?all = sort_key key (filter (\<lambda>u. key u > key (last ?rows)) table)"
    using page_last [OF assms(2)] by (auto simp: filter_sort intro!: arg_cong [where f = "sort_key key"] filter_cong)
  ultimately show ?thesis using split by simp
qed

end
