(* ===== verification/Repair_Runs.thy ===== *)
theory Repair_Runs
  imports Repair Paging
begin

text \<open>
  Whole runs of the repairer (\<^verbatim>\<open>runRepair\<close> and one tick of \<^verbatim>\<open>startRepairer\<close>): the tables of uploads,
  previews and legacy identifiers are read in pages behind a cursor that the tracker keeps. The
  tables do not change during a run.
\<close>

record upload =
  ul_ID :: string
  ul_OrigFileCID :: string
  ul_PlacementHosts :: "string list"
  ul_Template :: string
  ul_TranscodeResults :: "string list"

text \<open>The blobs a row names; errors of their repair are dropped.\<close>

fun repair_jobs :: "'b repair_env \<Rightarrow> (string \<times> string list) list \<Rightarrow> repair_tracker \<times> 'b \<Rightarrow> unit result \<times> repair_tracker \<times> 'b" where
  "repair_jobs en [] tb = (Ok (), tb)"
| "repair_jobs en ((cid, placementHosts) # jobs) tb =
     (case repairCid en cid placementHosts tb of
        (Panic p, tb1) \<Rightarrow> (Panic p, tb1)
      | (_, tb1) \<Rightarrow> repair_jobs en jobs tb1)"

definition upload_jobs :: "upload \<Rightarrow> (string \<times> string list) list" where
  "upload_jobs u = (ul_OrigFileCID u, ul_PlacementHosts u) #
     (if ul_Template u \<noteq> ''audio'' then [] else map (\<lambda>cid. (cid, ul_PlacementHosts u)) (ul_TranscodeResults u))"

text \<open>The rows of a page; \<open>mark\<close> sets the cursor of the tracker.\<close>

fun repair_rows ::
    "'b repair_env \<Rightarrow> (string \<Rightarrow> repair_tracker \<Rightarrow> repair_tracker) \<Rightarrow> ('i \<Rightarrow> string) \<Rightarrow> ('i \<Rightarrow> (string \<times> string list) list) \<Rightarrow> 'i list
      \<Rightarrow> repair_tracker \<times> 'b \<Rightarrow> unit result \<times> repair_tracker \<times> 'b" where
  "repair_rows en mark key jobs [] tb = (Ok (), tb)"
| "repair_rows en mark key jobs (u # us) tb =
     (case repair_jobs en (jobs u) (mark (key u) (fst tb), snd tb) of
        (Panic p, tb1) \<Rightarrow> (Panic p, tb1)
      | (_, tb1) \<Rightarrow> repair_rows en mark key jobs us tb1)"

definition page_size :: nat where
  "page_size = 1000"

lemma page_size_pos: "0 < page_size"
  by (simp add: page_size_def)

text \<open>One of the three loops of \<^verbatim>\<open>runRepair\<close>; \<open>cursor\<close> is the key of the row marked last.\<close>

function scroll ::
    "'b repair_env \<Rightarrow> (string \<Rightarrow> repair_tracker \<Rightarrow> repair_tracker) \<Rightarrow> ('i \<Rightarrow> string) \<Rightarrow> ('i \<Rightarrow> (string \<times> string list) list) \<Rightarrow> 'i list
      \<Rightarrow> string \<Rightarrow> repair_tracker \<times> 'b \<Rightarrow> unit result \<times> repair_tracker \<times> 'b" where
  "scroll en mark key jobs table cursor tb =
     (if \<not> diskHasSpace (re_cfg en) (re_free en) \<and> \<not> rt_CleanupMode (fst tb)
      then (Ok (), (fst tb)\<lparr>rt_AbortedReason := ''DISK_FULL''\<rparr>, snd tb)
      else let rows = page page_size key table cursor in
        if rows = [] then (Ok (), tb)
        else case repair_rows en mark key jobs rows tb of
            (Panic p, tb1) \<Rightarrow> (Panic p, tb1)
          | (Err e, tb1) \<Rightarrow> (Err e, tb1)
          | (Ok _, tb1) \<Rightarrow> scroll en mark key jobs table (key (last rows)) tb1)"
  by pat_completeness auto

termination scroll
  by (relation "measure (\<lambda>(en, mark, key, jobs, table, cursor, tb). length (filter (\<lambda>u. key u > cursor) table))")
    (auto intro: fewer_rows [OF page_last])

declare scroll.simps [simp del]


definition and_then :: "(unit result \<times> 's) \<Rightarrow> ('s \<Rightarrow> unit result \<times> 's) \<Rightarrow> unit result \<times> 's" where
  "and_then r f = (case r of (Ok _, s) \<Rightarrow> f s | (Err e, s) \<Rightarrow> (Err e, s) | (Panic p, s) \<Rightarrow> (Panic p, s))"

text \<open>A loop over a table, or the error of its query; a full disk ends it before the query.\<close>

definition scroll_table ::
    "'b repair_env \<Rightarrow> (repair_tracker \<Rightarrow> string) \<Rightarrow> (string \<Rightarrow> repair_tracker \<Rightarrow> repair_tracker) \<Rightarrow> ('i \<Rightarrow> string) \<Rightarrow> ('i \<Rightarrow> (string \<times> string list) list)
      \<Rightarrow> 'i list result \<Rightarrow> repair_tracker \<times> 'b \<Rightarrow> unit result \<times> repair_tracker \<times> 'b" where
  "scroll_table en cursor mark key jobs query tb =
     (case query of
        Ok table \<Rightarrow> scroll en mark key jobs table (cursor (fst tb)) tb
      | Err e \<Rightarrow> if \<not> diskHasSpace (re_cfg en) (re_free en) \<and> \<not> rt_CleanupMode (fst tb)
                 then (Ok (), (fst tb)\<lparr>rt_AbortedReason := ''DISK_FULL''\<rparr>, snd tb) else (Err e, tb)
      | Panic p \<Rightarrow> (Panic p, tb))"

definition mark_upload :: "string \<Rightarrow> repair_tracker \<Rightarrow> repair_tracker" where
  "mark_upload k t = t\<lparr>rt_CursorUploadID := k\<rparr>"

definition mark_preview :: "string \<Rightarrow> repair_tracker \<Rightarrow> repair_tracker" where
  "mark_preview k t = t\<lparr>rt_CursorPreviewCID := k\<rparr>"

definition mark_qm :: "string \<Rightarrow> repair_tracker \<Rightarrow> repair_tracker" where
  "mark_qm k t = t\<lparr>rt_CursorQmCID := k\<rparr>"

definition runRepair ::
    "'b repair_env \<Rightarrow> upload list result \<Rightarrow> string list result \<Rightarrow> string list result \<Rightarrow> repair_tracker \<times> 'b \<Rightarrow> unit result \<times> repair_tracker \<times> 'b" where
  "runRepair en uploads previews qmCids tb =
     and_then (and_then (scroll_table en rt_CursorUploadID mark_upload ul_ID upload_jobs uploads tb)
       (scroll_table en rt_CursorPreviewCID mark_preview id (\<lambda>cid. [(cid, [])]) previews))
       (scroll_table en rt_CursorQmCID mark_qm id (\<lambda>cid. [(cid, [])]) qmCids)"

text \<open>
  One tick of \<^verbatim>\<open>startRepairer\<close>: the tracker it starts or resumes, from the last one of the database.
\<close>

definition new_tracker :: "int \<Rightarrow> repair_tracker" where
  "new_tracker now = \<lparr>rt_StartedAt = now, rt_FinishedAt = None, rt_CleanupMode = True, rt_CursorI = 1, rt_CursorUploadID = '''',
     rt_CursorPreviewCID = '''', rt_CursorQmCID = '''', rt_Counters = (\<lambda>_. 0), rt_ContentSize = 0, rt_AbortedReason = ''''\<rparr>"

definition next_tracker :: "int \<Rightarrow> repair_tracker option \<Rightarrow> repair_tracker" where
  "next_tracker now lastRun =
     (case lastRun of
        None \<Rightarrow> new_tracker now
      | Some lr \<Rightarrow>
          if rt_FinishedAt lr = None then lr
          else let i = wrap64 (rt_CursorI lr + 1); i1 = (if i > 4 then 1 else i)
               in (new_tracker now)\<lparr>rt_CursorI := i1, rt_CleanupMode := (i1 = 1)\<rparr>)"

fun error_text :: "go_error \<Rightarrow> string" where
  "error_text (Errorf m) = m"
| "error_text (Wrapf m e) = m @ '': '' @ error_text e"
| "error_text (DbErr e) = ''database error''"

text \<open>The tracker saved at the end and the minutes to the next tick; a panic ends the program.\<close>

definition repair_tick ::
    "'b repair_env \<Rightarrow> nat \<Rightarrow> int \<Rightarrow> repair_tracker option \<Rightarrow> upload list result \<Rightarrow> string list result \<Rightarrow> string list result \<Rightarrow> 'b
      \<Rightarrow> (repair_tracker \<times> nat) result \<times> 'b" where
  "repair_tick en healthyPeers finished lastRun uploads previews qmCids b =
     (let t = next_tracker (re_now en) lastRun in
      if int healthyPeers < mc_ReplicationFactor (re_cfg en)
      then (Ok (t\<lparr>rt_AbortedReason := ''NOT_ENOUGH_PEERS'', rt_FinishedAt := Some finished\<rparr>, 1), b)
      else if \<not> diskHasSpace (re_cfg en) (re_free en) \<and> \<not> rt_CleanupMode t
      then (Ok (t\<lparr>rt_AbortedReason := ''DISK_FULL'', rt_FinishedAt := Some finished\<rparr>, 1), b)
      else case runRepair en uploads previews qmCids (t, b) of
          (Ok _, t1, b1) \<Rightarrow> (Ok (t1\<lparr>rt_FinishedAt := Some finished\<rparr>, 60), b1)
        | (Err e, t1, b1) \<Rightarrow> (Ok (t1\<lparr>rt_FinishedAt := Some finished, rt_AbortedReason := error_text e\<rparr>, 60), b1)
        | (Panic p, t1, b1) \<Rightarrow> (Panic p, b1))"

section \<open>A run visits every row once\<close>

text \<open>A repair of a blob changes nothing of the tracker but its counters and its size.\<close>

definition same_run :: "repair_tracker \<Rightarrow> repair_tracker \<Rightarrow> bool" where
  "same_run t t' \<longleftrightarrow> t' = t\<lparr>rt_Counters := rt_Counters t', rt_ContentSize := rt_ContentSize t'\<rparr>"

lemma same_run_refl [simp]: "same_run t t"
  by (simp add: same_run_def)

lemma same_runD:
  assumes "same_run t t'"
  shows "rt_CleanupMode t' = rt_CleanupMode t" "rt_CursorPreviewCID t' = rt_CursorPreviewCID t" "rt_CursorQmCID t' = rt_CursorQmCID t"
  using assms unfolding same_run_def by (cases t; cases t'; simp)+

lemma same_run_trans [trans]: "same_run t u \<Longrightarrow> same_run u v \<Longrightarrow> same_run t v"
  unfolding same_run_def
  by (cases t; cases u; cases v) simp

lemma same_run_count [simp]: "same_run t (count_event c u) \<longleftrightarrow> same_run t u"
  by (cases t; cases u) (auto simp: same_run_def count_event_def)

lemma same_run_size [simp]: "same_run t (add_size n u) \<longleftrightarrow> same_run t u"
  by (cases t; cases u) (auto simp: same_run_def add_size_def)

lemma same_run_from_count [simp]: "same_run (count_event c t) u \<longleftrightarrow> same_run t u"
  by (cases t; cases u) (auto simp: same_run_def count_event_def)

lemma pull_from_run: "same_run t (fst (snd (pull_from en cid key hosts (t, b))))"
proof (induction en cid key hosts "(t, b)" arbitrary: t b rule: pull_from.induct)
  case (2 en cid key host hosts t b)
  show ?case
  proof (cases "host = mc_Host (re_cfg en)")
    case True
    then show ?thesis using 2(1) by simp
  next
    case False
    obtain r b1 where pull: "pullFileFromHost (re_bucket en) (re_pull en) (re_cfg en) host cid b = (r, b1)" by force
    show ?thesis
    proof (cases r)
      case (Err e)
      with 2(2) [OF False pull [symmetric] Err] False pull show ?thesis by simp
    qed (use False pull in \<open>auto split: result.splits option.splits\<close>)
  qed
qed simp

lemma repairCid_run: "same_run t (fst (snd (repairCid en cid hosts (t, b))))"
proof -
  have settle: "same_run t (fst (snd (settle_blob en cid key ps pl m f (count_event c t, b))))" for key ps pl m f c
    using pull_from_run [of "count_event ''pull_mine_needed'' (count_event c t)" en cid key ps b]
    by (auto simp: settle_blob_def Let_def split: prod.splits result.splits)
  have check: "check_blob en cid key err have_it (count_event c t, b) = Some out \<Longrightarrow> same_run t (fst (snd out))" for key err have_it c out
    by (auto simp: check_blob_def Let_def split: if_splits prod.splits result.splits option.splits)
  let ?t = "count_event ''total_checked'' t"
  show ?thesis
  proof (cases "ShardCID cid")
    case (Ok key)
    show ?thesis
    proof (cases "ba_attributes (re_bucket en) key b")
      case (Ok found)
      let ?check = "check_blob en cid key (if found = None then Some (Errorf ''blob not found'') else None) (found \<noteq> None) (?t, b)"
      show ?thesis
      proof (cases ?check)
        case None
        obtain r b1 where drop: "dropFromMyBucket (re_bucket en) cid b = (r, b1)" by force
        show ?thesis using \<open>ShardCID cid = Ok key\<close> Ok None settle drop by (cases r) (simp_all add: repairCid_def Let_def)
      next
        case (Some out)
        then show ?thesis using \<open>ShardCID cid = Ok key\<close> Ok check [OF Some] by (simp add: repairCid_def Let_def)
      qed
    qed (simp_all add: repairCid_def Let_def Ok)
  qed (simp_all add: repairCid_def Let_def)
qed


lemma repair_jobs_run: "same_run (fst tb) (fst (snd (repair_jobs en jobs tb)))"
proof (induction en jobs tb rule: repair_jobs.induct)
  case (2 en cid hosts jobs tb)
  obtain r t1 b1 where run: "repairCid en cid hosts tb = (r, t1, b1)" using prod_cases3 by blast
  then have "same_run (fst tb) t1" using repairCid_run [of "fst tb" en cid hosts "snd tb"] by simp
  with 2 run show ?case by (cases r) (auto intro: same_run_trans)
qed simp

text \<open>A part of the tracker that marking and repairing leave alone.\<close>

lemma repair_rows_keep:
  assumes "\<And>k t. f (mark k t) = f t" "\<And>t t'. same_run t t' \<Longrightarrow> f t' = f t"
  shows "f (fst (snd (repair_rows en mark key jobs us tb))) = f (fst tb)"
proof (induction us arbitrary: tb)
  case (Cons u us)
  obtain r t1 b1 where run: "repair_jobs en (jobs u) (mark (key u) (fst tb), snd tb) = (r, t1, b1)" using prod_cases3 by blast
  have "f t1 = f (fst tb)"
    using assms repair_jobs_run [of "(mark (key u) (fst tb), snd tb)" en "jobs u"] run by simp
  with run Cons.IH [of "(t1, b1)"] show ?case by (cases r) auto
qed simp

lemma rows_keep:
  "(\<And>k t. rt_CleanupMode (mark k t) = rt_CleanupMode t) \<Longrightarrow>
    rt_CleanupMode (fst (snd (repair_rows en mark key jobs us tb))) = rt_CleanupMode (fst tb)"
  "(\<And>k t. rt_CursorPreviewCID (mark k t) = rt_CursorPreviewCID t) \<Longrightarrow>
    rt_CursorPreviewCID (fst (snd (repair_rows en mark key jobs us tb))) = rt_CursorPreviewCID (fst tb)"
  "(\<And>k t. rt_CursorQmCID (mark k t) = rt_CursorQmCID t) \<Longrightarrow>
    rt_CursorQmCID (fst (snd (repair_rows en mark key jobs us tb))) = rt_CursorQmCID (fst tb)"
  by (rule repair_rows_keep, assumption, erule same_runD)+

lemma repair_rows_append: "repair_rows en mark key jobs (us @ vs) tb =
    and_then (repair_rows en mark key jobs us tb) (repair_rows en mark key jobs vs)"
  by (induction us arbitrary: tb) (auto simp: and_then_def split: prod.splits result.splits)

lemma repair_rows_no_error: "repair_rows en mark key jobs us tb \<noteq> (Err e, tb')"
  by (induction us arbitrary: tb) (auto split: prod.splits result.splits)

lemma scroll_all_rows:
  assumes "distinct (map key table)" "\<And>k t. rt_CleanupMode (mark k t) = rt_CleanupMode t"
    and "diskHasSpace (re_cfg en) (re_free en) \<or> rt_CleanupMode (fst tb)"
  shows "scroll en mark key jobs table cursor tb =
    repair_rows en mark key jobs (sort_key key (filter (\<lambda>u. key u > cursor) table)) tb"
  using assms
proof (induction en mark key jobs table cursor tb rule: scroll.induct)
  case (1 en mark key jobs table cursor tb)
  let ?rows = "page page_size key table cursor"
  show ?case
  proof (cases "?rows = []")
    case True
    then show ?thesis using 1(4) by (auto simp: scroll.simps [of en mark key jobs table cursor tb] page_empty [OF page_size_pos])
  next
    case False
    obtain r tb1 where run: "repair_rows en mark key jobs ?rows tb = (r, tb1)" by (rule prod.exhaust)
    have mode: "rt_CleanupMode (fst tb1) = rt_CleanupMode (fst tb)"
      using repair_rows_keep [of rt_CleanupMode mark en key jobs ?rows tb] 1(3) run same_runD(1) by auto
    show ?thesis
      unfolding page_rest [OF 1(2) False] repair_rows_append run
      using 1 False run mode repair_rows_no_error [of en mark key jobs ?rows tb]
      by (cases r) (auto simp: scroll.simps [of en mark key jobs table cursor tb] and_then_def)
  qed
qed


text \<open>The rows of a table behind the cursor, in order.\<close>

definition rows_behind :: "('i \<Rightarrow> string) \<Rightarrow> string \<Rightarrow> 'i list \<Rightarrow> 'i list" where
  "rows_behind key cursor table = sort_key key (filter (\<lambda>u. key u > cursor) table)"

text \<open>
  (C27) A run of the repairer that is not stopped by a full disk visits every row of the three
  tables behind the cursors it resumes from, once and in order of the keys, whatever the number
  of pages: uploads, then previews, then legacy identifiers.
\<close>

theorem run_repair_visits_all:
  assumes "distinct (map ul_ID uploads)" "distinct previews" "distinct qmCids"
    and going: "diskHasSpace (re_cfg en) (re_free en) \<or> rt_CleanupMode t"
  shows "runRepair en (Ok uploads) (Ok previews) (Ok qmCids) (t, b) =
    and_then (and_then (repair_rows en mark_upload ul_ID upload_jobs (rows_behind ul_ID (rt_CursorUploadID t) uploads) (t, b))
      (repair_rows en mark_preview id (\<lambda>cid. [(cid, [])]) (rows_behind id (rt_CursorPreviewCID t) previews)))
      (repair_rows en mark_qm id (\<lambda>cid. [(cid, [])]) (rows_behind id (rt_CursorQmCID t) qmCids))"
proof -
  let ?up = "repair_rows en mark_upload ul_ID upload_jobs (rows_behind ul_ID (rt_CursorUploadID t) uploads) (t, b)"
  let ?pre = "repair_rows en mark_preview id (\<lambda>cid. [(cid, [])]) (rows_behind id (rt_CursorPreviewCID t) previews)"
  have marks: "rt_CleanupMode (mark_upload k t) = rt_CleanupMode t" "rt_CleanupMode (mark_preview k t) = rt_CleanupMode t"
    "rt_CleanupMode (mark_qm k t) = rt_CleanupMode t" "rt_CursorPreviewCID (mark_upload k t) = rt_CursorPreviewCID t"
    "rt_CursorQmCID (mark_upload k t) = rt_CursorQmCID t" "rt_CursorQmCID (mark_preview k t) = rt_CursorQmCID t" for k t
    by (simp_all add: mark_upload_def mark_preview_def mark_qm_def)
  have up: "rt_CleanupMode (fst (snd ?up)) = rt_CleanupMode t" "rt_CursorPreviewCID (fst (snd ?up)) = rt_CursorPreviewCID t"
    "rt_CursorQmCID (fst (snd ?up)) = rt_CursorQmCID t"
    by (simp_all add: rows_keep marks)
  have pre: "rt_CleanupMode (fst (snd (?pre tb))) = rt_CleanupMode (fst tb)" "rt_CursorQmCID (fst (snd (?pre tb))) = rt_CursorQmCID (fst tb)" for tb
    by (simp_all add: rows_keep marks)
  have first: "scroll_table en rt_CursorUploadID mark_upload ul_ID upload_jobs (Ok uploads) (t, b) = ?up"
    using scroll_all_rows [OF assms(1) marks(1), of en "(t, b)"] going by (simp add: scroll_table_def rows_behind_def)
  have second: "scroll_table en rt_CursorPreviewCID mark_preview id (\<lambda>cid. [(cid, [])]) (Ok previews) (snd ?up) = ?pre (snd ?up)"
    using scroll_all_rows [of id previews mark_preview en "snd ?up"] assms(2) marks(2) going up
    by (simp add: scroll_table_def rows_behind_def)
  have third: "scroll_table en rt_CursorQmCID mark_qm id (\<lambda>cid. [(cid, [])]) (Ok qmCids) (snd (?pre (snd ?up)))
      = repair_rows en mark_qm id (\<lambda>cid. [(cid, [])]) (rows_behind id (rt_CursorQmCID t) qmCids) (snd (?pre (snd ?up)))"
    using scroll_all_rows [of id qmCids mark_qm en "snd (?pre (snd ?up))"] assms(3) marks(3) going up pre
    by (simp add: scroll_table_def rows_behind_def)
  obtain r1 s1 where one: "?up = (r1, s1)" by (rule prod.exhaust)
  obtain r2 s2 where two: "?pre s1 = (r2, s2)" by (rule prod.exhaust)
  show ?thesis
    using first second third one two by (cases r1; cases r2) (simp_all add: runRepair_def and_then_def)
qed


definition demo_upload :: upload where
  "demo_upload = \<lparr>ul_ID = ''01'', ul_OrigFileCID = ''baeaaa'', ul_PlacementHosts = [], ul_Template = ''audio'',
     ul_TranscodeResults = [''baeaab'']\<rparr>"

theorem run_repair_visits_all_witness:
  "runRepair demo_repair (Ok [demo_upload]) (Ok []) (Ok [''Qm'']) (demo_tracker, Map.empty) =
    and_then (repair_rows demo_repair mark_upload ul_ID upload_jobs [demo_upload] (demo_tracker, Map.empty))
      (repair_rows demo_repair mark_qm id (\<lambda>cid. [(cid, [])]) [''Qm''])"
proof -
  have behind: "rows_behind ul_ID '''' [demo_upload] = [demo_upload]" "rows_behind id '''' [] = []" "rows_behind id '''' [''Qm''] = [''Qm'']"
    by (simp_all add: rows_behind_def demo_upload_def)
  have still: "and_then r (repair_rows demo_repair mark_preview id (\<lambda>cid. [(cid, [])]) []) = r" for r
    by (cases r; cases "fst r") (simp_all add: and_then_def)
  show ?thesis
    using run_repair_visits_all [of "[demo_upload]" "[]" "[''Qm'']" demo_repair demo_tracker Map.empty]
    by (simp add: demo_tracker_def behind still del: repair_rows.simps)
qed

text \<open>Successive runs that finish clean up in one run of four.\<close>

lemma cleanup_cycle:
  assumes "rt_CursorI t \<in> {1..4}" "rt_FinishedAt t = Some f"
  shows "rt_CursorI (next_tracker now (Some t)) = rt_CursorI t mod 4 + 1"
    and "rt_CleanupMode (next_tracker now (Some t)) \<longleftrightarrow> rt_CursorI t = 4"
proof -
  have "rt_CursorI t = 1 \<or> rt_CursorI t = 2 \<or> rt_CursorI t = 3 \<or> rt_CursorI t = 4" using assms(1) by auto
  then show "rt_CursorI (next_tracker now (Some t)) = rt_CursorI t mod 4 + 1"
    and "rt_CleanupMode (next_tracker now (Some t)) \<longleftrightarrow> rt_CursorI t = 4"
    using assms(2) by (auto simp: next_tracker_def wrap64_def)
qed

end
