(* ===== verification/Crudr.thy ===== *)
theory Crudr
  imports Placement Paging "HOL-Library.AList"
begin

text \<open>
  The replicated log of the storage node (\<^verbatim>\<open>pkg/mediorum/crudr\<close> and \<^verbatim>\<open>serve_crud.go\<close>): every change of a
  table is an operation with a unique identifier, applied in one database transaction with its
  log entry, pushed to the peers and swept from their logs behind a cursor. The tables are an
  argument: how an operation's records change them is the database mapper's, which also puts the time of the
  local clock into some columns. Peers differ in their hosts.
\<close>

section \<open>Operations\<close>

record op =
  op_ULID :: string
  op_Host :: string
  op_Action :: string
  op_Table :: string
  op_Data :: bytes
  op_Transient :: bool
  op_SkipBroadcast :: bool

text \<open>
  A statement on the tables: it affects rows, it fails, which aborts its transaction, or the
  mapper refuses it without issuing it (an empty list of records).
\<close>

datatype exec = Affected int | Failed go_error | Refused go_error

text \<open>
  \<open>c_create\<close> is given the time, which the mapper writes into \<^verbatim>\<open>updated_at\<close> of the rows it updates, and whether it
  updates rows that are there; \<open>c_jsonb\<close> is what a JSONB column makes of a text.
\<close>

record ('r, 't) crud_ext =
  c_types :: "string \<Rightarrow> (bytes \<Rightarrow> 'r option) option"
  c_create :: "int \<Rightarrow> bool \<Rightarrow> string \<Rightarrow> 'r \<Rightarrow> 't \<Rightarrow> exec \<times> 't"
  c_delete :: "string \<Rightarrow> 'r \<Rightarrow> 't \<Rightarrow> exec \<times> 't"
  c_json :: "op \<Rightarrow> bytes"
  c_jsonb :: "bytes \<Rightarrow> bytes"
  c_ulid_time :: "string \<Rightarrow> int option"

record peer_client =
  pc_Host :: string
  pc_Seeded :: bool
  pc_outbox :: "bytes list"

record cursor =
  cu_Host :: string
  cu_LastULID :: string

text \<open>
  \<open>cr_fault\<close> names the database accesses that fail; \<open>cr_notified\<close> are the calls of the callbacks, one for each
  operation that was applied; \<open>cr_clock\<close> are the readings of the local clock, one for each of them.
\<close>

record 't crudr =
  cr_host :: string
  cr_ops :: "op list"
  cr_tables :: 't
  cr_cursors :: "cursor list"
  cr_peers :: "peer_client list"
  cr_notified :: "op list"
  cr_fault :: "string \<Rightarrow> bool"
  cr_clock :: "nat \<Rightarrow> int"

definition RemoveTrailingSlash :: "string \<Rightarrow> string" where
  "RemoveTrailingSlash s = (if has_suffix s ''/'' then butlast s else s)"

definition NewPeerClient :: "string \<Rightarrow> peer_client" where
  "NewPeerClient host = \<lparr>pc_Host = RemoveTrailingSlash (map to_lower host), pc_Seeded = False, pc_outbox = []\<rparr>"

definition New :: "string \<Rightarrow> string list \<Rightarrow> 't \<Rightarrow> (string \<Rightarrow> bool) \<Rightarrow> (nat \<Rightarrow> int) \<Rightarrow> 't crudr" where
  "New selfHost peerHosts tables fault clock =
     \<lparr>cr_host = RemoveTrailingSlash (map to_lower selfHost), cr_ops = [], cr_tables = tables, cr_cursors = [],
      cr_peers = map NewPeerClient peerHosts, cr_notified = [], cr_fault = fault,
      cr_clock = clock\<rparr>"

definition outboxBufferSize :: nat where
  "outboxBufferSize = 8"

text \<open>A full outbox drops the message.\<close>

definition Send :: "bytes \<Rightarrow> peer_client \<Rightarrow> peer_client" where
  "Send payload p = (if length (pc_outbox p) < outboxBufferSize then p\<lparr>pc_outbox := pc_outbox p @ [payload]\<rparr> else p)"

definition broadcast :: "bytes \<Rightarrow> 't crudr \<Rightarrow> 't crudr" where
  "broadcast payload st = st\<lparr>cr_peers := map (Send payload) (cr_peers st)\<rparr>"

definition callOpCallbacks :: "op \<Rightarrow> 't crudr \<Rightarrow> 't crudr" where
  "callOpCallbacks op st = st\<lparr>cr_notified := cr_notified st @ [op]\<rparr>"


text \<open>The columns of the log table: the two flags are not stored, and the data are a JSONB.\<close>

definition stored_op :: "('r, 't) crud_ext \<Rightarrow> op \<Rightarrow> op" where
  "stored_op x op = op\<lparr>op_Data := c_jsonb x (op_Data op), op_Transient := False, op_SkipBroadcast := False\<rparr>"

text \<open>
  The statement of an action in the transaction: the new tables, or the error the transaction
  ends with. A create that affects no rows returns no error; when its statement failed the
  commit does.
\<close>

definition run_action :: "('r, 't) crud_ext \<Rightarrow> int \<Rightarrow> op \<Rightarrow> 'r \<Rightarrow> 't \<Rightarrow> 't result" where
  "run_action x now op records tables =
     (if op_Action op = ''create'' then (case c_create x now False (op_Table op) records tables of
          (Affected n, t1) \<Rightarrow> Ok t1 | (Refused e, t1) \<Rightarrow> Ok tables | (Failed e, t1) \<Rightarrow> Err (DbErr ErrTxAborted))
      else if op_Action op = ''update'' then (case c_create x now True (op_Table op) records tables of
          (Affected n, t1) \<Rightarrow> Ok t1 | (Refused e, t1) \<Rightarrow> Err e | (Failed e, t1) \<Rightarrow> Err e)
      else if op_Action op = ''delete'' then (case c_delete x (op_Table op) records tables of
          (Affected n, t1) \<Rightarrow> Ok t1 | (Refused e, t1) \<Rightarrow> Err e | (Failed e, t1) \<Rightarrow> Err e)
      else Err (Errorf ''unknown action''))"

definition ApplyOp :: "('r, 't) crud_ext \<Rightarrow> op \<Rightarrow> 't crudr \<Rightarrow> unit result \<times> 't crudr" where
  "ApplyOp x op st =
     (case c_types x (op_Table op) of
        None \<Rightarrow> (Err (Errorf ''no type registered''), st)
      | Some decode \<Rightarrow> (case decode (op_Data op) of
          None \<Rightarrow> (Err (Errorf ''invalid crud data''), st)
        | Some records \<Rightarrow>
            if \<not> op_Transient op \<and> cr_fault st ''ops'' then (Err (DbErr ErrQuery), st)
            else if \<not> op_Transient op \<and> op_ULID op \<in> op_ULID ` set (cr_ops st) then (Ok (), st)
            else (case run_action x (cr_clock st (length (cr_notified st))) op records (cr_tables st) of
                Ok t1 \<Rightarrow>
                  if cr_fault st ''commit'' then (Err (DbErr ErrQuery), st)
                  else let st1 = st\<lparr>cr_tables := t1, cr_ops := (if op_Transient op then cr_ops st else cr_ops st @ [stored_op x op])\<rparr>;
                           st2 = (if op_Host op = cr_host st \<and> \<not> op_SkipBroadcast op then broadcast (c_json x op) st1 else st1)
                       in (Ok (), callOpCallbacks op st2)
              | Err e \<Rightarrow> (Err e, st)
              | Panic p \<Rightarrow> (Panic p, st))))"

text \<open>\<open>j\<close> is the data marshalled to JSON.\<close>

definition jsonArrayMarshal :: "bytes \<Rightarrow> bytes result" where
  "jsonArrayMarshal j =
     (if j = [] then Panic ''index out of range''
      else Ok (if hd j = of_char (CHR ''['') then j else of_char (CHR ''['') # j @ [of_char (CHR '']'')]))"

definition newOp :: "'t crudr \<Rightarrow> string \<Rightarrow> string \<Rightarrow> string \<Rightarrow> bytes \<Rightarrow> (op \<Rightarrow> op) \<Rightarrow> op result" where
  "newOp st ulid action tableName j opts =
     map_result (\<lambda>d. opts \<lparr>op_ULID = ulid, op_Host = cr_host st, op_Action = action, op_Table = tableName, op_Data = d,
       op_Transient = False, op_SkipBroadcast = False\<rparr>) (jsonArrayMarshal j)"

definition WithTransient :: "op \<Rightarrow> op" where
  "WithTransient op = op\<lparr>op_Transient := True\<rparr>"

definition WithSkipBroadcast :: "op \<Rightarrow> op" where
  "WithSkipBroadcast op = op\<lparr>op_SkipBroadcast := True\<rparr>"

text \<open>\<^verbatim>\<open>doOp\<close> of a new operation.\<close>

definition doOp :: "('r, 't) crud_ext \<Rightarrow> op result \<Rightarrow> 't crudr \<Rightarrow> unit result \<times> 't crudr" where
  "doOp x mk st = (case mk of Ok op \<Rightarrow> ApplyOp x op st | Err e \<Rightarrow> (Err e, st) | Panic p \<Rightarrow> (Panic p, st))"

definition Create :: "('r, 't) crud_ext \<Rightarrow> string \<Rightarrow> string \<Rightarrow> bytes \<Rightarrow> (op \<Rightarrow> op) \<Rightarrow> 't crudr \<Rightarrow> unit result \<times> 't crudr" where
  "Create x ulid tableName j opts st = doOp x (newOp st ulid ''create'' tableName j opts) st"

definition Update :: "('r, 't) crud_ext \<Rightarrow> string \<Rightarrow> string \<Rightarrow> bytes \<Rightarrow> (op \<Rightarrow> op) \<Rightarrow> 't crudr \<Rightarrow> unit result \<times> 't crudr" where
  "Update x ulid tableName j opts st = doOp x (newOp st ulid ''update'' tableName j opts) st"

definition Patch :: "('r, 't) crud_ext \<Rightarrow> string \<Rightarrow> string \<Rightarrow> bytes \<Rightarrow> (op \<Rightarrow> op) \<Rightarrow> 't crudr \<Rightarrow> unit result \<times> 't crudr" where
  "Patch x ulid tableName j opts st = doOp x (newOp st ulid ''update'' tableName j (WithTransient \<circ> opts)) st"

definition Delete :: "('r, 't) crud_ext \<Rightarrow> string \<Rightarrow> string \<Rightarrow> bytes \<Rightarrow> (op \<Rightarrow> op) \<Rightarrow> 't crudr \<Rightarrow> unit result \<times> 't crudr" where
  "Delete x ulid tableName j opts st = doOp x (newOp st ulid ''delete'' tableName j opts) st"

section \<open>Exchange between peers\<close>

definition PullLimit :: nat where
  "PullLimit = 10000"

text \<open>Uploads are forwarded only by hosts their record names.\<close>

definition forwards :: "string \<Rightarrow> op \<Rightarrow> bool" where
  "forwards myHost op \<longleftrightarrow> \<not> (op_Table op = ''uploads'' \<and> \<not> contains (string_of (op_Data op)) myHost)"

definition serveCrudSweep :: "string \<Rightarrow> string \<Rightarrow> 't crudr \<Rightarrow> op list result" where
  "serveCrudSweep myHost after st =
     (if cr_fault st ''ops'' then Err (Errorf ''Failed to query ops'')
      else Ok (filter (forwards myHost) (page PullLimit op_ULID (cr_ops st) after)))"


fun sweep_ops :: "('r, 't) crud_ext \<Rightarrow> string \<Rightarrow> op list \<Rightarrow> 't crudr \<Rightarrow> string \<times> 't crudr" where
  "sweep_ops x lastUlid [] st = (lastUlid, st)"
| "sweep_ops x lastUlid (op # ops) st =
     (if op_Table op = ''blobs'' then sweep_ops x (op_ULID op) ops st
      else case ApplyOp x op st of
          (Ok _, st1) \<Rightarrow> sweep_ops x (op_ULID op) ops st1
        | (_, st1) \<Rightarrow> sweep_ops x lastUlid ops st1)"

definition lastUlid :: "string \<Rightarrow> 't crudr \<Rightarrow> string" where
  "lastUlid host st =
     (if cr_fault st ''cursors'' then ''''
      else case List.find (\<lambda>c. cu_Host c = host) (cr_cursors st) of None \<Rightarrow> '''' | Some c \<Rightarrow> cu_LastULID c)"

text \<open>The answer of the peer to a sweep: no answer, a bad status, an unreadable body, or operations.\<close>

datatype sweep_response = NoAnswer | BadStatus | BadBody | Operations "op list"

definition set_cursor :: "string \<Rightarrow> string \<Rightarrow> 't crudr \<Rightarrow> 't crudr" where
  "set_cursor host ulid st =
     (if cr_fault st ''cursors'' then st
      else st\<lparr>cr_cursors := \<lparr>cu_Host = host, cu_LastULID = ulid\<rparr> # filter (\<lambda>c. cu_Host c \<noteq> host) (cr_cursors st)\<rparr>)"

definition set_seeded :: "string \<Rightarrow> 't crudr \<Rightarrow> 't crudr" where
  "set_seeded host st = st\<lparr>cr_peers := map (\<lambda>p. if pc_Host p = host then p\<lparr>pc_Seeded := True\<rparr> else p) (cr_peers st)\<rparr>"

definition hour :: int where
  "hour = 3600 * 1000"

text \<open>A sweep of the peer \<open>host\<close> at the time \<open>now\<close> in milliseconds.\<close>

definition doSweep :: "('r, 't) crud_ext \<Rightarrow> int \<Rightarrow> string \<Rightarrow> sweep_response \<Rightarrow> 't crudr \<Rightarrow> unit result \<times> 't crudr" where
  "doSweep x now host response st =
     (case response of
        NoAnswer \<Rightarrow> (Err (Errorf ''request failed''), set_seeded host st)
      | BadStatus \<Rightarrow> (Err (Errorf ''bad status''), set_seeded host st)
      | BadBody \<Rightarrow> (Err (Errorf ''invalid body''), st)
      | Operations ops \<Rightarrow>
          let swept = sweep_ops x (lastUlid host st) ops st;
              st1 = (if length ops < 10 then set_seeded host (snd swept) else snd swept);
              st2 = set_cursor host (fst swept) st1;
              recent = (case c_ulid_time x (fst swept) of None \<Rightarrow> False | Some t \<Rightarrow> now - t < hour)
          in (Ok (), if recent then set_seeded host st2 else st2))"

definition GetOutboxSizes :: "'t crudr \<Rightarrow> (string \<times> nat) list" where
  "GetOutboxSizes st = fold (\<lambda>p sizes. AList.update (pc_Host p) (length (pc_outbox p)) sizes) (cr_peers st) []"


section \<open>The log determines the tables\<close>

text \<open>What an operation does to the tables when it is applied at the time \<open>now\<close>.\<close>

definition effect :: "('r, 't) crud_ext \<Rightarrow> int \<Rightarrow> op \<Rightarrow> 't \<Rightarrow> 't" where
  "effect x now op tables =
     (case Option.bind (c_types x (op_Table op)) (\<lambda>decode. decode (op_Data op)) of
        None \<Rightarrow> tables
      | Some records \<Rightarrow> (case run_action x now op records tables of Ok t1 \<Rightarrow> t1 | _ \<Rightarrow> tables))"





lemma stored_fields [simp]:
  "op_ULID (stored_op x op) = op_ULID op" "op_Table (stored_op x op) = op_Table op"
  "op_Host (stored_op x op) = op_Host op" "op_Action (stored_op x op) = op_Action op" "\<not> op_Transient (stored_op x op)"
  by (simp_all add: stored_op_def)

lemmas crud_state = broadcast_def callOpCallbacks_def set_cursor_def set_seeded_def

text \<open>An operation either changes nothing or is applied: it has its effect, its callbacks and, unless it is transient, its entry.\<close>

lemma ApplyOp_effect:
  assumes "ApplyOp x op st = (r, st')"
  obtains "st' = st" "r = Ok () \<longrightarrow> \<not> op_Transient op \<and> op_ULID op \<in> op_ULID ` set (cr_ops st)"
  | "r = Ok ()" "\<not> op_Transient op \<Longrightarrow> op_ULID op \<notin> op_ULID ` set (cr_ops st)"
    "cr_ops st' = (if op_Transient op then cr_ops st else cr_ops st @ [stored_op x op])"
    "cr_tables st' = effect x (cr_clock st (length (cr_notified st))) op (cr_tables st)"
    "cr_notified st' = cr_notified st @ [op]" "cr_cursors st' = cr_cursors st" "cr_fault st' = cr_fault st" "cr_host st' = cr_host st"
proof (cases "st' = st \<and> (r = Ok () \<longrightarrow> \<not> op_Transient op \<and> op_ULID op \<in> op_ULID ` set (cr_ops st))")
  case False
  let ?now = "cr_clock st (length (cr_notified st))"
  from assms False obtain decode records t1 where "c_types x (op_Table op) = Some decode" "decode (op_Data op) = Some records"
    "op_Transient op \<or> op_ULID op \<notin> op_ULID ` set (cr_ops st)" "op_Transient op \<or> \<not> cr_fault st ''ops''" "\<not> cr_fault st ''commit''"
    "run_action x ?now op records (cr_tables st) = Ok t1"
    by (auto simp: ApplyOp_def split: option.splits if_splits result.splits)
  with assms that(2) show ?thesis by (auto simp: ApplyOp_def Let_def effect_def crud_state)
qed (use that(1) in blast)

lemma ApplyOp_cases:
  assumes "ApplyOp x op st = (r, st')" "\<not> op_Transient op"
  obtains "st' = st" "r = Ok () \<longrightarrow> op_ULID op \<in> op_ULID ` set (cr_ops st)"
  | "r = Ok ()" "op_ULID op \<notin> op_ULID ` set (cr_ops st)" "cr_ops st' = cr_ops st @ [stored_op x op]"
    "cr_cursors st' = cr_cursors st" "cr_fault st' = cr_fault st" "cr_host st' = cr_host st"
  using assms(1) by (rule ApplyOp_effect) (use assms(2) that in auto)


definition logged :: "op list \<Rightarrow> op list" where
  "logged ops = filter (\<lambda>op. \<not> op_Transient op) ops"

definition log_inv :: "('r, 't) crud_ext \<Rightarrow> ('t \<Rightarrow> 'v) \<Rightarrow> 't \<Rightarrow> 't crudr \<Rightarrow> bool" where
  "log_inv x view t0 st \<longleftrightarrow> view (cr_tables st) = view (fold (effect x 0) (cr_notified st) t0)
     \<and> cr_ops st = map (stored_op x) (logged (cr_notified st)) \<and> distinct (map op_ULID (cr_ops st))"



lemma log_inv_fields [simp]:
  "log_inv x view t0 (set_cursor h u st) = log_inv x view t0 st" "log_inv x view t0 (set_seeded h st) = log_inv x view t0 st"
  by (simp_all add: log_inv_def crud_state)






text \<open>A transient operation that the database accepts changes the tables and leaves the log as it is.\<close>

theorem transient_op_not_logged:
  assumes "op_Transient op" and "ApplyOp x op st = (r, st')"
  shows "cr_ops st' = cr_ops st
    \<and> (r = Ok () \<longrightarrow> cr_tables st' = effect x (cr_clock st (length (cr_notified st))) op (cr_tables st))"
  using assms(2) by (rule ApplyOp_effect) (use assms(1) in auto)

section \<open>Sweeping a peer\<close>

text \<open>An operation that every state of the tables admits.\<close>

definition applicable :: "('r, 't) crud_ext \<Rightarrow> op \<Rightarrow> bool" where
  "applicable x op \<longleftrightarrow> \<not> op_Transient op \<and> (\<exists>decode records. c_types x (op_Table op) = Some decode
     \<and> decode (op_Data op) = Some records \<and> (\<forall>now t. is_ok (run_action x now op records t)))"

definition healthy :: "'t crudr \<Rightarrow> bool" where
  "healthy st \<longleftrightarrow> \<not> cr_fault st ''ops'' \<and> \<not> cr_fault st ''commit'' \<and> \<not> cr_fault st ''cursors''"

definition known :: "'t crudr \<Rightarrow> string set" where
  "known st = op_ULID ` set (cr_ops st)"

lemma known_fields [simp]:
  "known (set_cursor h u st) = known st" "known (set_seeded h st) = known st"
  "healthy (set_cursor h u st) = healthy st" "healthy (set_seeded h st) = healthy st"
  "lastUlid h (set_seeded h' st) = lastUlid h st"
  by (simp_all add: known_def healthy_def lastUlid_def crud_state)

lemma lastUlid_set [simp]: "healthy st \<Longrightarrow> lastUlid h (set_cursor h u st) = u"
  by (simp add: lastUlid_def set_cursor_def healthy_def)

lemma ApplyOp_known:
  assumes "ApplyOp x op st = (r, st')" "\<not> op_Transient op"
  shows "known st \<subseteq> known st'" "r = Ok () \<Longrightarrow> op_ULID op \<in> known st'" "healthy st' = healthy st"
  using assms by (rule ApplyOp_cases; auto simp: known_def healthy_def)+

lemma ApplyOp_applicable: "applicable x op \<Longrightarrow> healthy st \<Longrightarrow> fst (ApplyOp x op st) = Ok ()"
  by (auto simp: applicable_def healthy_def ApplyOp_def is_ok_iff Let_def split: result.splits) (metis result.distinct(1,3))+

text \<open>A sweep applies every operation it is sent and moves the cursor to the last.\<close>

lemma sweep_ops_applicable:
  assumes "list_all (\<lambda>op. op_Table op = ''blobs'' \<or> applicable x op) ops" "healthy st"
  shows "fst (sweep_ops x l ops st) = (if ops = [] then l else op_ULID (last ops))
    \<and> known st \<subseteq> known (snd (sweep_ops x l ops st)) \<and> healthy (snd (sweep_ops x l ops st))
    \<and> (\<forall>op \<in> set ops. op_Table op \<noteq> ''blobs'' \<longrightarrow> op_ULID op \<in> known (snd (sweep_ops x l ops st)))"
  using assms
proof (induction x l ops st rule: sweep_ops.induct)
  case (2 x l op ops st)
  show ?case
  proof (cases "op_Table op = ''blobs''")
    case True
    then show ?thesis using 2 by auto
  next
    case False
    with "2.prems" have app: "applicable x op" "\<not> op_Transient op" by (auto simp: applicable_def)
    obtain st1 where run: "ApplyOp x op st = (Ok (), st1)"
      using ApplyOp_applicable [OF app(1) "2.prems"(2)] by (metis prod.collapse)
    note one = ApplyOp_known [OF run app(2)]
    have "fst (sweep_ops x (op_ULID op) ops st1) = (if ops = [] then op_ULID op else op_ULID (last ops))
      \<and> known st1 \<subseteq> known (snd (sweep_ops x (op_ULID op) ops st1)) \<and> healthy (snd (sweep_ops x (op_ULID op) ops st1))
      \<and> (\<forall>op' \<in> set ops. op_Table op' \<noteq> ''blobs'' \<longrightarrow> op_ULID op' \<in> known (snd (sweep_ops x (op_ULID op) ops st1)))"
      using 2(2) [OF False run [symmetric] refl] "2.prems" one by simp
    then show ?thesis using one False run by auto
  qed
qed simp

text \<open>The cursor moves past operations that failed before one that is applied.\<close>

lemma sweep_skips_failed:
  assumes "op_Table op \<noteq> ''blobs''" "fst (ApplyOp x op (snd (sweep_ops x l ops st))) = Ok ()"
  shows "fst (sweep_ops x l (ops @ [op]) st) = op_ULID op"
  using assms(2) by (induction x l ops st rule: sweep_ops.induct) (use assms(1) in \<open>auto split: prod.splits result.splits\<close>)


text \<open>A sweep of a peer against its log: the request and its answer.\<close>

definition sweep_round :: "('r, 't) crud_ext \<Rightarrow> int \<Rightarrow> string \<Rightarrow> 'u crudr \<Rightarrow> 't crudr \<Rightarrow> 't crudr" where
  "sweep_round x now host server st =
     (case serveCrudSweep host (lastUlid host st) server of
        Ok ops \<Rightarrow> snd (doSweep x now host (Operations ops) st)
      | _ \<Rightarrow> snd (doSweep x now host BadStatus st))"

lemma sweep_round_operations:
  assumes "serveCrudSweep host (lastUlid host st) server = Ok ops"
    and "list_all (\<lambda>op. op_Table op = ''blobs'' \<or> applicable x op) ops" "healthy st"
  shows "lastUlid host (sweep_round x now host server st) = (if ops = [] then lastUlid host st else op_ULID (last ops))
    \<and> known st \<subseteq> known (sweep_round x now host server st) \<and> healthy (sweep_round x now host server st)
    \<and> (\<forall>op \<in> set ops. op_Table op \<noteq> ''blobs'' \<longrightarrow> op_ULID op \<in> known (sweep_round x now host server st))"
  using sweep_ops_applicable [OF assms(2,3), of "lastUlid host st"] assms(1)
  by (auto simp: sweep_round_def doSweep_def Let_def split: option.splits)

definition pending :: "string \<Rightarrow> 'u crudr \<Rightarrow> op list" where
  "pending after server = sort_key op_ULID (filter (\<lambda>op. op_ULID op > after) (cr_ops server))"

lemma set_pending: "set (pending after server) = {op \<in> set (cr_ops server). op_ULID op > after}"
  by (simp add: pending_def)

text \<open>
  (C29) A node that sweeps a healthy peer whose log holds operations it can apply, all of them
  forwarded, knows every operation behind its cursor after as many sweeps as the log has pages
  of ten thousand operations behind it.
\<close>

theorem sweeps_catch_up:
  assumes "healthy st" "healthy server" "distinct (map op_ULID (cr_ops server))"
    and good: "\<forall>op \<in> set (cr_ops server). forwards host op \<and> (op_Table op = ''blobs'' \<or> applicable x op)"
    and rounds: "length (pending (lastUlid host st) server) \<le> n * PullLimit"
    and op: "op \<in> set (cr_ops server)" "op_ULID op > lastUlid host st" "op_Table op \<noteq> ''blobs''"
  shows "op_ULID op \<in> known ((sweep_round x now host server ^^ n) st)"
proof -
  let ?round = "sweep_round x now host server"
  have page: "serveCrudSweep host after server = Ok (page PullLimit op_ULID (cr_ops server) after)" for after
    using good assms(2) page_rows [of PullLimit op_ULID "cr_ops server" after]
    by (auto simp: serveCrudSweep_def healthy_def filter_id_conv)
  have fit: "list_all (\<lambda>op. op_Table op = ''blobs'' \<or> applicable x op) (page PullLimit op_ULID (cr_ops server) after)" for after
    using good page_rows [of PullLimit op_ULID "cr_ops server" after] by (auto simp: list_all_iff)
  note round = sweep_round_operations [OF page fit]
  have grow: "known s \<subseteq> known ((?round ^^ m) s)" if "healthy s" for m s
    using that
  proof (induction m arbitrary: s)
    case (Suc m)
    with round [of s now] show ?case by (simp add: funpow_swap1) blast
  qed simp
  have "set (pending (lastUlid host s) server) \<inter> {op. op_Table op \<noteq> ''blobs''} \<subseteq> {op. op_ULID op \<in> known ((?round ^^ n) s)}"
    if "healthy s" "length (pending (lastUlid host s) server) \<le> n * PullLimit" for s
    using that
  proof (induction n arbitrary: s)
    case (Suc n)
    let ?page = "page PullLimit op_ULID (cr_ops server) (lastUlid host s)"
    show ?case
    proof (cases "?page = []")
      case True
      then have "pending (lastUlid host s) server = []" by (simp add: page_def pending_def PullLimit_def)
      then show ?thesis by simp
    next
      case False
      let ?s = "?round s"
      have next_cursor: "lastUlid host ?s = op_ULID (last ?page)" and "healthy ?s"
        and got: "\<forall>op \<in> set ?page. op_Table op \<noteq> ''blobs'' \<longrightarrow> op_ULID op \<in> known ?s"
        using round [OF Suc.prems(1)] False by auto
      have split: "pending (lastUlid host s) server = ?page @ pending (lastUlid host ?s) server"
        using page_rest [OF assms(3) False] by (simp add: pending_def next_cursor)
      have "length ?page = min PullLimit (length (pending (lastUlid host s) server))" by (simp add: page_def pending_def)
      moreover have "length (pending (lastUlid host s) server) = length ?page + length (pending (lastUlid host ?s) server)"
        using arg_cong [OF split, of length] unfolding length_append .
      moreover have "length (pending (lastUlid host s) server) \<le> PullLimit + n * PullLimit" using Suc.prems(2) by simp
      ultimately have "length (pending (lastUlid host ?s) server) \<le> n * PullLimit" by linarith
      note later = Suc.IH [OF \<open>healthy ?s\<close> this]
      have unroll: "(?round ^^ Suc n) s = (?round ^^ n) ?s" by (simp add: funpow_swap1)
      show ?thesis unfolding unroll split set_append using later grow [OF \<open>healthy ?s\<close>, of n] got by blast
    qed
  qed (simp add: pending_def)
  from this [OF assms(1) rounds] op show ?thesis by (auto simp: set_pending)
qed


text \<open>
  A peer reads a page of its log before it leaves out the uploads that do not name it: when
  no operation of the page behind the cursor is forwarded, every sweep returns nothing and the
  cursor stays, so that later operations never arrive by sweeping, however many are forwarded.
\<close>

theorem sweeps_starve:
  assumes "healthy st" "healthy server"
    and hidden: "\<forall>op \<in> set (page PullLimit op_ULID (cr_ops server) (lastUlid host st)). \<not> forwards host op"
    and wanted: "op \<in> set (cr_ops server)" "forwards host op" "op_ULID op \<notin> known st"
  shows "lastUlid host ((sweep_round x now host server ^^ n) st) = lastUlid host st
    \<and> op_ULID op \<notin> known ((sweep_round x now host server ^^ n) st)"
proof -
  let ?round = "sweep_round x now host server"
  have "healthy ((?round ^^ n) st) \<and> lastUlid host ((?round ^^ n) st) = lastUlid host st \<and> known ((?round ^^ n) st) = known st"
  proof (induction n)
    case (Suc n)
    let ?s = "(?round ^^ n) st"
    have "serveCrudSweep host (lastUlid host ?s) server = Ok []"
      using Suc hidden assms(2) by (auto simp: serveCrudSweep_def healthy_def)
    then have "?round ?s = snd (doSweep x now host (Operations []) ?s)" by (simp add: sweep_round_def)
    then show ?case using Suc by (auto simp: doSweep_def Let_def split: option.splits)
  qed (simp add: assms(1))
  then show ?thesis using wanted(3) by simp
qed

section \<open>Two nodes\<close>

text \<open>Tables of names with the time of their last update.\<close>

definition demo_crud :: "(string, (string \<times> int) list) crud_ext" where
  "demo_crud = \<lparr>c_types = (\<lambda>t. if t \<in> {''uploads'', ''audio_previews''} then Some (\<lambda>d. Some (string_of d)) else None),
     c_create = (\<lambda>now update t r rows. if r \<notin> fst ` set rows then (Affected 1, rows @ [(r, now)])
        else if update then (Affected 1, map (\<lambda>(k, u). (k, if k = r then now else u)) rows) else (Affected 0, rows)),
     c_delete = (\<lambda>t r rows. (Affected 1, filter (\<lambda>e. fst e \<noteq> r) rows)), c_json = op_Data, c_jsonb = (\<lambda>d. d),
     c_ulid_time = (\<lambda>_. None)\<rparr>"

definition demo_op :: "nat \<Rightarrow> string \<Rightarrow> op" where
  "demo_op i t = \<lparr>op_ULID = digits 6 i, op_Host = ''https://b'', op_Action = ''create'', op_Table = t, op_Data = [],
     op_Transient = False, op_SkipBroadcast = False\<rparr>"

definition demo_node :: "op list \<Rightarrow> (string \<times> int) list crudr" where
  "demo_node ops = (New ''https://b'' [''https://a''] [] (\<lambda>_. False) int)\<lparr>cr_ops := ops\<rparr>"

lemma demo_node_fields [simp]:
  "cr_ops (demo_node ops) = ops" "healthy (demo_node ops)" "lastUlid host (demo_node ops) = ''''" "known (demo_node ops) = op_ULID ` set ops"
  by (simp_all add: demo_node_def New_def healthy_def lastUlid_def known_def)

lemma demo_op_fields: "op_ULID (demo_op i t) = digits 6 i" "op_Table (demo_op i t) = t"
  by (simp_all add: demo_op_def del: digits.simps)

lemma demo_forwards: "forwards h (demo_op i ''audio_previews'')" "\<not> forwards ''https://b'' (demo_op i ''uploads'')"
  by (simp_all add: forwards_def demo_op_def contains.simps string_of_def has_prefix_def)

lemma demo_applicable: "applicable demo_crud (demo_op i ''audio_previews'')"
  by (simp add: applicable_def demo_op_def demo_crud_def run_action_def)

lemma digits_nonempty: "'''' < digits 6 i"
  using length_digits [of 6 i] by (cases "digits 6 i") (simp_all del: digits.simps length_digits)





theorem sweeps_catch_up_witness:
  "op_ULID (demo_op 5 ''audio_previews'') \<in> known ((sweep_round demo_crud 0 ''https://b'' (demo_node [demo_op 5 ''audio_previews'']) ^^ 1) (demo_node []))"
  by (rule sweeps_catch_up)
    (simp_all add: demo_forwards demo_applicable pending_def PullLimit_def digits_nonempty demo_op_fields del: digits.simps)


definition demo_backlog :: "nat \<Rightarrow> op list" where
  "demo_backlog n = map (\<lambda>i. demo_op i ''uploads'') [0..<n] @ [demo_op n ''audio_previews'']"

lemma demo_backlog_page:
  assumes "n < 10 ^ 6"
  shows "page n op_ULID (demo_backlog n) '''' = map (\<lambda>i. demo_op i ''uploads'') [0..<n]"
proof -
  have ulids: "map op_ULID (demo_backlog n) = map (digits 6) [0..<Suc n]"
    by (simp add: demo_backlog_def demo_op_fields comp_def del: digits.simps)
  have "sorted_wrt (\<lambda>a b. digits 6 a < digits 6 b) [0..<Suc n]"
    by (rule sorted_wrt_mono_rel [of _ "(<)"]) (use assms in \<open>auto simp: digits_less simp del: digits.simps upt_Suc\<close>)
  then have "sorted (map op_ULID (demo_backlog n))"
    unfolding ulids sorted_wrt_map by (rule sorted_wrt_mono_rel [rotated]) (simp add: less_imp_le)
  moreover have "\<forall>op \<in> set (demo_backlog n). '''' < op_ULID op"
    by (auto simp: demo_backlog_def demo_op_fields digits_nonempty simp del: digits.simps)
  then have "filter (\<lambda>op. '''' < op_ULID op) (demo_backlog n) = demo_backlog n" by (simp add: filter_id_conv)
  ultimately show ?thesis by (simp add: page_def sort_key_id_if_sorted) (simp add: demo_backlog_def)
qed

theorem sweeps_starve_witness:
  "op_ULID (demo_op PullLimit ''audio_previews'')
     \<notin> known ((sweep_round demo_crud 0 ''https://b'' (demo_node (demo_backlog PullLimit)) ^^ 3) (demo_node []))"
proof -
  have "PullLimit < 10 ^ 6" by (simp add: PullLimit_def)
  then have "\<forall>op \<in> set (page PullLimit op_ULID (cr_ops (demo_node (demo_backlog PullLimit))) (lastUlid ''https://b'' (demo_node []))).
      \<not> forwards ''https://b'' op"
    using demo_forwards by (auto simp: demo_backlog_page)
  moreover have "demo_op PullLimit ''audio_previews'' \<in> set (cr_ops (demo_node (demo_backlog PullLimit)))" by (simp add: demo_backlog_def)
  ultimately show ?thesis
    using sweeps_starve [of "demo_node []" "demo_node (demo_backlog PullLimit)" "''https://b''" "demo_op PullLimit ''audio_previews''" 3 demo_crud 0]
    by (simp add: demo_forwards)
qed

end
