(* ===== verification/Storage_Answers.thy ===== *)
theory Storage_Answers
  imports Placement Storage_Proofs
begin

text \<open>
  The storage node's answers to proof-of-storage challenges (\<^verbatim>\<open>pkg/mediorum/server/pos.go\<close>), which the
  consensus core turns into storage proofs: the content a block hash selects, the hosts that
  have to prove it and the proof.
\<close>

section \<open>The handler\<close>

text \<open>
  \<open>cids\<close> are the identifiers of the uploads, or the error of their query: the first behind the
  identifier of the block hash, or else the first of all before it.
\<close>

definition getStorageProofCIDFromBlockhash :: "cid_ext \<Rightarrow> string list result \<Rightarrow> bytes \<Rightarrow> string result" where
  "getStorageProofCIDFromBlockhash z cids blockhash =
     bind_result (ComputeRawDataCID z blockhash) (\<lambda>fauxCid.
     bind_result cids (\<lambda>cs.
     case sort (filter (\<lambda>c. c > fauxCid) cs) of
       c # _ \<Rightarrow> Ok c
     | [] \<Rightarrow> (case sort (filter (\<lambda>c. c < fauxCid) cs) of c # _ \<Rightarrow> Ok c | [] \<Rightarrow> Err (DbErr ErrNoRows))))"

text \<open>\<open>md5\<close> is \<^verbatim>\<open>md5.Sum\<close>.\<close>

definition getStorageProof :: "(bytes \<Rightarrow> bytes) \<Rightarrow> 'b bucket_api \<Rightarrow> string \<Rightarrow> bytes \<Rightarrow> 'b \<Rightarrow> bytes result" where
  "getStorageProof md5 api cid nonce b =
     bind_result (ShardCID cid) (\<lambda>key.
     bind_result (ba_read api key b) (\<lambda>blobData. Ok (md5 (blobData @ nonce))))"

record 'b storage_node =
  sn_cfg :: mediorum_config
  sn_hosts :: "string list"
  sn_cids :: "string list result"
  sn_bucket :: 'b

text \<open>One request of \<^verbatim>\<open>startPoSHandler\<close>: the response, if one is sent.\<close>

definition answer_challenge ::
    "ext \<Rightarrow> cid_ext \<Rightarrow> (bytes \<Rightarrow> bytes) \<Rightarrow> 'b bucket_api \<Rightarrow> 'b storage_node \<Rightarrow> bytes \<Rightarrow> pos_response option result" where
  "answer_challenge x z md5 api nd hash =
     (case getStorageProofCIDFromBlockhash z (sn_cids nd) hash of
        Ok cid \<Rightarrow>
          let orderedHosts = Rank x (sn_hosts nd) cid; factor = mc_ReplicationFactor (sn_cfg nd) in
          if factor < 0 then Panic ''makeslice: cap out of range''
          else let replicaSet = take (nat factor) orderedHosts; mustProve = (mc_Host (sn_cfg nd) \<in> set replicaSet) in
            if mustProve
            then (case getStorageProof md5 api cid hash (sn_bucket nd) of
                Ok proof \<Rightarrow> Ok (Some \<lparr>pr_CID = cid, pr_Replicas = replicaSet, pr_Proof = proof\<rparr>)
              | Err _ \<Rightarrow> Ok None
              | Panic p \<Rightarrow> Panic p)
            else Ok (Some \<lparr>pr_CID = cid, pr_Replicas = replicaSet, pr_Proof = []\<rparr>)
      | Err _ \<Rightarrow> Ok None
      | Panic p \<Rightarrow> Panic p)"

section \<open>Agreement of honest nodes\<close>

lemma selected_cid_cong:
  assumes "mset cs = mset cs'"
  shows "getStorageProofCIDFromBlockhash z (Ok cs) h = getStorageProofCIDFromBlockhash z (Ok cs') h"
proof -
  have "sort (filter p cs) = sort (filter p cs')" for p using assms by (intro sort_mset_cong) (metis mset_filter)
  then show ?thesis by (simp add: getStorageProofCIDFromBlockhash_def cong: list.case_cong)
qed

text \<open>A node's answer in terms of the placement.\<close>

lemma answer_shape:
  assumes "answer_challenge x z md5 api nd hash = Ok (Some r)"
  shows "getStorageProofCIDFromBlockhash z (sn_cids nd) hash = Ok (pr_CID r)"
    and "pr_Replicas r = take (nat (mc_ReplicationFactor (sn_cfg nd))) (Rank x (sn_hosts nd) (pr_CID r))"
    and "mc_Host (sn_cfg nd) \<in> set (pr_Replicas r) \<Longrightarrow> getStorageProof md5 api (pr_CID r) hash (sn_bucket nd) = Ok (pr_Proof r)"
    and "mc_Host (sn_cfg nd) \<notin> set (pr_Replicas r) \<Longrightarrow> pr_Proof r = []"
  using assms by (auto simp: answer_challenge_def Let_def split: result.splits if_splits)

text \<open>
  (C25) Two storage nodes with the same uploads and the same live hosts that answer the challenge
  of a block name the same content and the same replicas, and two of them that have to prove and
  hold the same content give the same proof, so that the one revealed later verifies the others.
  A node outside the replicas gives none. On core nodes with the same validators the answers
  record the same provers.
\<close>

theorem challenge_agreement:
  assumes cids: "sn_cids a = Ok ca" "sn_cids b = Ok cb" "mset ca = mset cb"
    and hosts: "sn_hosts a = NewRendezvousHasher parses ha" "sn_hosts b = NewRendezvousHasher parses hb" "set ha = set hb"
    and factor: "mc_ReplicationFactor (sn_cfg a) = mc_ReplicationFactor (sn_cfg b)"
    and answers: "answer_challenge x z md5 api a hash = Ok (Some ra)" "answer_challenge x z md5 api b hash = Ok (Some rb)"
    and content: "ShardCID (pr_CID ra) = Ok key" "ba_read api key (sn_bucket a) = ba_read api key (sn_bucket b)"
    and db: "core_validators da = core_validators db"
  shows "pr_CID ra = pr_CID rb \<and> pr_Replicas ra = pr_Replicas rb
    \<and> (mc_Host (sn_cfg a) \<in> set (pr_Replicas ra) \<and> mc_Host (sn_cfg b) \<in> set (pr_Replicas ra) \<longrightarrow> pr_Proof ra = pr_Proof rb)
    \<and> (mc_Host (sn_cfg a) \<notin> set (pr_Replicas ra) \<longrightarrow> fst (sendPoSChallengeToStorage da height (Some ra)) = None)
    \<and> map v_comet_address (GetNodesByEndpoints (pr_Replicas ra) da) = map v_comet_address (GetNodesByEndpoints (pr_Replicas rb) db)"
proof -
  note sa = answer_shape [OF answers(1)] and sb = answer_shape [OF answers(2)]
  have cid: "pr_CID ra = pr_CID rb"
    using sa(1) sb(1) selected_cid_cong [OF cids(3), of z hash] cids(1,2) by simp
  have "mset (sn_hosts a) = mset (sn_hosts b)"
    using live_hosts hosts by (simp add: set_eq_iff_mset_eq_distinct [symmetric])
  then have "Rank x (sn_hosts a) key = Rank x (sn_hosts b) key" for key by (rule replicas.rank_order)
  then have reps: "pr_Replicas ra = pr_Replicas rb" using sa(2) sb(2) cid factor by simp
  have "pr_Proof ra = pr_Proof rb" if "mc_Host (sn_cfg a) \<in> set (pr_Replicas ra)" "mc_Host (sn_cfg b) \<in> set (pr_Replicas ra)"
    using sa(3) sb(3) that reps cid content by (simp add: getStorageProof_def)
  moreover have "fst (sendPoSChallengeToStorage da height (Some ra)) = None" if "mc_Host (sn_cfg a) \<notin> set (pr_Replicas ra)"
    using sa(4) that by (simp add: sendPoSChallengeToStorage_def split: prod.splits)
  moreover have "GetNodesByEndpoints rs da = GetNodesByEndpoints rs db" for rs
    using db by (simp add: GetNodesByEndpoints_def)
  ultimately show ?thesis using cid reps by simp
qed


definition demo_storage_node :: "string \<Rightarrow> string list \<Rightarrow> (string \<Rightarrow> bytes option) storage_node" where
  "demo_storage_node self hosts =
     \<lparr>sn_cfg = \<lparr>mc_Host = self, mc_ReplicationFactor = 2, mc_StoreAll = False, mc_Env = ''prod'', mc_BlobStoreDSN = ''''\<rparr>,
      sn_hosts = NewRendezvousHasher (\<lambda>_. True) hosts, sn_cids = Ok [''baeaaa''], sn_bucket = [''aeaaa/baeaaa'' \<mapsto> [7]]\<rparr>"

definition demo_blobs :: "(string \<Rightarrow> bytes option) bucket_api" where
  "demo_blobs = \<lparr>ba_attributes = (\<lambda>k b. Ok (map_option (\<lambda>c. \<lparr>at_Size = int (length c), at_ModTime = 0\<rparr>) (b k))),
     ba_read = (\<lambda>k b. case b k of Some c \<Rightarrow> Ok c | None \<Rightarrow> Err (Errorf ''blob not found'')),
     ba_write = (\<lambda>k c b. (Ok (), b(k \<mapsto> c))), ba_delete = (\<lambda>k b. (Ok (), b(k := None)))\<rparr>"

definition demo_cid_ext :: cid_ext where
  "demo_cid_ext = \<lparr>z_multihash = Ok, z_v1_sum = (\<lambda>_. Ok ''ba'')\<rparr>"

lemma demo_shard: "ShardCID ''baeaaa'' = Ok ''aeaaa/baeaaa''"
  by code_simp

lemma demo_selected: "getStorageProofCIDFromBlockhash demo_cid_ext (Ok [''baeaaa'']) h = Ok ''baeaaa''"
  by (simp add: getStorageProofCIDFromBlockhash_def ComputeRawDataCID_def demo_cid_ext_def)

lemma demo_answer:
  assumes "set hosts = {''https://a'', ''https://b''}" "self \<in> set hosts"
  shows "answer_challenge demo_ext demo_cid_ext id demo_blobs (demo_storage_node self hosts) [1] =
    Ok (Some \<lparr>pr_CID = ''baeaaa'', pr_Replicas = Rank demo_ext (NewRendezvousHasher (\<lambda>_. True) hosts) ''baeaaa'', pr_Proof = [7, 1]\<rparr>)"
proof -
  let ?live = "NewRendezvousHasher (\<lambda>_. True) hosts"
  have "\<not> contains deadHosts ''https://a''" "\<not> contains deadHosts ''https://b''" by code_simp+
  then have live: "set ?live = {''https://a'', ''https://b''}" using live_hosts(2) assms(1) by auto
  then have "length ?live = 2" using live_hosts(1) [of "\<lambda>_. True" hosts] distinct_card [of ?live] by simp
  then have "length (Rank demo_ext ?live ''baeaaa'') = 2" using replicas.rank_perm [of demo_ext ?live "''baeaaa''"] by (metis size_mset)
  then have whole: "take (nat 2) (Rank demo_ext ?live ''baeaaa'') = Rank demo_ext ?live ''baeaaa''" by simp
  have "self \<in> set (Rank demo_ext ?live ''baeaaa'')" using replicas.set_rank [of demo_ext ?live "''baeaaa''"] live assms by simp
  then show ?thesis
    using whole by (simp add: answer_challenge_def demo_storage_node_def demo_selected getStorageProof_def demo_shard demo_blobs_def)
qed

theorem challenge_agreement_witness:
  "Rank demo_ext (NewRendezvousHasher (\<lambda>_. True) [''https://a'', ''https://b'']) ''baeaaa''
     = Rank demo_ext (NewRendezvousHasher (\<lambda>_. True) [''https://b'', ''https://a'']) ''baeaaa''"
proof -
  let ?a = "demo_storage_node ''https://a'' [''https://a'', ''https://b'']"
  let ?b = "demo_storage_node ''https://b'' [''https://b'', ''https://a'']"
  have node: "sn_cids (demo_storage_node s hs) = Ok [''baeaaa'']" "sn_hosts (demo_storage_node s hs) = NewRendezvousHasher (\<lambda>_. True) hs"
    "mc_ReplicationFactor (sn_cfg (demo_storage_node s hs)) = 2" "sn_bucket (demo_storage_node s hs) = [''aeaaa/baeaaa'' \<mapsto> [7]]" for s hs
    by (simp_all add: demo_storage_node_def)
  have "answer_challenge demo_ext demo_cid_ext id demo_blobs ?a [1] = Ok (Some \<lparr>pr_CID = ''baeaaa'',
      pr_Replicas = Rank demo_ext (NewRendezvousHasher (\<lambda>_. True) [''https://a'', ''https://b'']) ''baeaaa'', pr_Proof = [7, 1]\<rparr>)"
    "answer_challenge demo_ext demo_cid_ext id demo_blobs ?b [1] = Ok (Some \<lparr>pr_CID = ''baeaaa'',
      pr_Replicas = Rank demo_ext (NewRendezvousHasher (\<lambda>_. True) [''https://b'', ''https://a'']) ''baeaaa'', pr_Proof = [7, 1]\<rparr>)"
    by (rule demo_answer; auto)+
  from challenge_agreement [OF node(1) node(1) _ node(2) node(2) _ _ this, where key = "''aeaaa/baeaaa''" and da = empty_db and db = empty_db]
  show ?thesis by (auto simp: node demo_shard)
qed

end
