(* ===== verification/Eip712.thy ===== *)
theory Eip712
  imports Common
begin

text \<open>
  Signed entity management (\<^verbatim>\<open>pkg/core/server/eip712.go\<close>): the typed data of a message, its signature
  and the recovery of the signer that the API puts into the message. Hashing of typed data and
  recovery are functions of go-ethereum and arguments of the definitions.
\<close>

section \<open>Typed data\<close>

record typed_domain =
  dom_Name :: string
  dom_Version :: string
  dom_ChainId :: int64
  dom_VerifyingContract :: string

datatype typed_value = TextValue string | Bytes32Value bytes

type_synonym typed_map = "(string \<times> typed_value) list"

record typed_data =
  ty_Types :: "(string \<times> (string \<times> string) list) list"
  ty_Domain :: typed_domain
  ty_PrimaryType :: string
  ty_Message :: typed_map

text \<open>The two values of the configuration and the functions of go-ethereum.\<close>

record eip712_env =
  ee_AcdcEntityManagerAddress :: string
  ee_AcdcChainID :: int
  ee_DomainMap :: "typed_domain \<Rightarrow> typed_map"
  ee_HashStruct :: "typed_data \<Rightarrow> string \<Rightarrow> typed_map \<Rightarrow> bytes option"
  ee_Ecrecover :: "bytes \<Rightarrow> bytes \<Rightarrow> bytes option"
  ee_UnmarshalPubkey :: "bytes \<Rightarrow> bytes option"

text \<open>\<^verbatim>\<open>hex.DecodeString\<close> returns the bytes before a bad digit along with its error, which is dropped.\<close>

fun hex_decode_prefix :: "string \<Rightarrow> bytes" where
  "hex_decode_prefix (c # d # cs) =
     (case (from_hex_char c, from_hex_char d) of
        (Some h, Some l) \<Rightarrow> of_nat (16 * h + l) # hex_decode_prefix cs
      | _ \<Rightarrow> [])"
| "hex_decode_prefix cs = []"

definition toBytes :: "string \<Rightarrow> bytes" where
  "toBytes str = hex_decode_prefix (trim_prefix str ''0x'')"

text \<open>\<^verbatim>\<open>copy(nonce[:], toBytes(em.Nonce))\<close> into 32 zero bytes.\<close>

definition nonce_bytes :: "manage_entity_legacy \<Rightarrow> bytes" where
  "nonce_bytes em = take 32 (toBytes (me_nonce em) @ replicate 32 0)"

definition manage_entity_typed_data :: "eip712_env \<Rightarrow> manage_entity_legacy \<Rightarrow> typed_data" where
  "manage_entity_typed_data ee em =
     \<lparr>ty_Types =
        [(''EIP712Domain'', [(''name'', ''string''), (''version'', ''string''), (''chainId'', ''uint256''),
           (''verifyingContract'', ''address'')]),
         (''ManageEntity'', [(''userId'', ''uint''), (''entityType'', ''string''), (''entityId'', ''uint''),
           (''action'', ''string''), (''metadata'', ''string''), (''nonce'', ''bytes32'')])],
      ty_Domain = \<lparr>dom_Name = ''Entity Manager'', dom_Version = ''1'',
        dom_ChainId = wrap64 (ee_AcdcChainID ee), dom_VerifyingContract = ee_AcdcEntityManagerAddress ee\<rparr>,
      ty_PrimaryType = ''ManageEntity'',
      ty_Message =
        [(''userId'', TextValue (format_int (me_user_id em))), (''entityType'', TextValue (me_entity_type em)),
         (''entityId'', TextValue (format_int (me_entity_id em))), (''action'', TextValue (me_action em)),
         (''metadata'', TextValue (me_metadata em)), (''nonce'', Bytes32Value (nonce_bytes em))]\<rparr>"

section \<open>Recovering and signing\<close>

text \<open>The hash both directions sign: the magic prefix, the domain separator and the hash of the message.\<close>

definition typed_data_sighash :: "ext \<Rightarrow> eip712_env \<Rightarrow> typed_data \<Rightarrow> bytes result" where
  "typed_data_sighash x ee typedData =
     (case ee_HashStruct ee typedData ''EIP712Domain'' (ee_DomainMap ee (ty_Domain typedData)) of
        None \<Rightarrow> Err (Errorf ''eip712domain hash struct'')
      | Some domainSeparator \<Rightarrow>
     (case ee_HashStruct ee typedData (ty_PrimaryType typedData) (ty_Message typedData) of
        None \<Rightarrow> Err (Errorf ''primary type hash struct'')
      | Some typedDataHash \<Rightarrow> Ok (x_keccak256 x ([0x19, 0x01] @ domainSeparator @ typedDataHash))))"

definition recoverPublicKey :: "ext \<Rightarrow> eip712_env \<Rightarrow> bytes \<Rightarrow> typed_data \<Rightarrow> bytes result" where
  "recoverPublicKey x ee signature typedData =
     bind_result (typed_data_sighash x ee typedData) (\<lambda>sighash.
     let signature' = (if length signature > 64 then signature[64 := signature ! 64 - 27] else signature) in
     case ee_Ecrecover ee sighash signature' of
       None \<Rightarrow> Err (Errorf ''invalid signature'')
     | Some pubkey \<Rightarrow> Ok pubkey)"

definition RecoverPubkeyFromCoreTx :: "ext \<Rightarrow> eip712_env \<Rightarrow> manage_entity_legacy \<Rightarrow> (string \<times> bytes) result" where
  "RecoverPubkeyFromCoreTx x ee em =
     bind_result (recoverPublicKey x ee (toBytes (me_signature em)) (manage_entity_typed_data ee em)) (\<lambda>pubkeyBytes.
     case ee_UnmarshalPubkey ee pubkeyBytes of
       None \<Rightarrow> Err (Errorf ''invalid public key'')
     | Some pubkey \<Rightarrow> Ok (x_PubkeyToAddress x pubkey, pubkey))"

definition InjectSigner :: "ext \<Rightarrow> eip712_env \<Rightarrow> manage_entity_legacy \<Rightarrow> manage_entity_legacy result" where
  "InjectSigner x ee em =
     bind_result (RecoverPubkeyFromCoreTx x ee em) (\<lambda>(address, _). Ok (em\<lparr>me_signer := address\<rparr>))"

definition SignManageEntity ::
    "ext \<Rightarrow> eip712_env \<Rightarrow> manage_entity_legacy \<Rightarrow> string \<Rightarrow> manage_entity_legacy result" where
  "SignManageEntity x ee em privateKey =
     bind_result (typed_data_sighash x ee (manage_entity_typed_data ee em)) (\<lambda>sighash.
     case x_Sign x sighash privateKey of
       None \<Rightarrow> Err (Errorf ''failed to sign'')
     | Some signature \<Rightarrow>
         if length signature \<le> 64 then Panic ''index out of range''
         else Ok (em\<lparr>me_signature := ''0x'' @ hex_encode (signature[64 := signature ! 64 + 27])\<rparr>))"

section \<open>Round trip\<close>

lemma hex_decode_prefix_Ok: "hex_decode s = Ok bs \<Longrightarrow> hex_decode_prefix s = bs"
  by (induction s arbitrary: bs rule: hex_decode.induct) (auto simp: go_simps split: option.splits)

lemma toBytes_hex [simp]: "toBytes (''0x'' @ hex_encode bs) = bs"
  unfolding toBytes_def trim_prefix_append by (simp add: hex_decode_prefix_Ok)

lemma nonce_bytes_update [simp]:
  "nonce_bytes (em\<lparr>me_signature := s\<rparr>) = nonce_bytes em" "nonce_bytes (em\<lparr>me_signer := a\<rparr>) = nonce_bytes em"
  by (simp_all add: nonce_bytes_def)

lemma typed_data_unsigned [simp]:
  "manage_entity_typed_data ee (em\<lparr>me_signature := s\<rparr>) = manage_entity_typed_data ee em"
  "manage_entity_typed_data ee (em\<lparr>me_signer := a\<rparr>) = manage_entity_typed_data ee em"
  by (simp_all add: manage_entity_typed_data_def)

lemma InjectSigner_eq_Ok:
  "InjectSigner x ee em = Ok em' \<longleftrightarrow>
   (\<exists>pk pub. recoverPublicKey x ee (toBytes (me_signature em)) (manage_entity_typed_data ee em) = Ok pk
      \<and> ee_UnmarshalPubkey ee pk = Some pub \<and> em' = em\<lparr>me_signer := x_PubkeyToAddress x pub\<rparr>)"
proof (cases "recoverPublicKey x ee (toBytes (me_signature em)) (manage_entity_typed_data ee em)")
  case (Ok pk)
  then show ?thesis
    by (cases "ee_UnmarshalPubkey ee pk") (auto simp: InjectSigner_def RecoverPubkeyFromCoreTx_def)
qed (auto simp: InjectSigner_def RecoverPubkeyFromCoreTx_def)

lemma InjectSigner_idem: "InjectSigner x ee em = Ok em' \<Longrightarrow> InjectSigner x ee em' = Ok em'"
  by (auto simp: InjectSigner_eq_Ok)

lemma InjectSigner_no_panic: "InjectSigner x ee em \<noteq> Panic p"
  by (auto simp: InjectSigner_def RecoverPubkeyFromCoreTx_def recoverPublicKey_def typed_data_sighash_def go_simps Let_def
      split: option.splits)

text \<open>
  A message signed with a key gets the address of that key as its signer, whatever signer it
  named before; injecting again changes nothing. The hypotheses on go-ethereum are that a
  signature has 65 bytes and that recovery returns the key that made it.
\<close>

theorem sign_inject_roundtrip:
  assumes "SignManageEntity x ee em key = Ok em'"
    and "\<And>h s. x_Sign x h key = Some s \<Longrightarrow> length s = 65"
    and "\<And>h s. x_Sign x h key = Some s \<Longrightarrow> Option.bind (ee_Ecrecover ee h s) (ee_UnmarshalPubkey ee) = Some pub"
  shows "InjectSigner x ee (em'\<lparr>me_signer := other\<rparr>) = Ok (em'\<lparr>me_signer := x_PubkeyToAddress x pub\<rparr>)
    \<and> InjectSigner x ee (em'\<lparr>me_signer := x_PubkeyToAddress x pub\<rparr>) = Ok (em'\<lparr>me_signer := x_PubkeyToAddress x pub\<rparr>)"
proof -
  from assms(1) obtain h s where h: "typed_data_sighash x ee (manage_entity_typed_data ee em) = Ok h"
    and s: "x_Sign x h key = Some s" "em' = em\<lparr>me_signature := ''0x'' @ hex_encode (s[64 := s ! 64 + 27])\<rparr>"
    by (auto simp: SignManageEntity_def go_simps split: option.splits if_splits)
  from assms(2) [OF s(1)] have len: "length s = 65" .
  obtain pk where rec: "ee_Ecrecover ee h s = Some pk" "ee_UnmarshalPubkey ee pk = Some pub"
    using assms(3) [OF s(1)] by (auto simp: bind_eq_Some_conv)
  have inj: "InjectSigner x ee (em'\<lparr>me_signer := a\<rparr>) = Ok (em'\<lparr>me_signer := x_PubkeyToAddress x pub\<rparr>)" for a
    using h len rec
    by (simp add: s(2) InjectSigner_def RecoverPubkeyFromCoreTx_def recoverPublicKey_def del: append_Cons)
  show ?thesis by (simp add: inj)
qed

text \<open>
  Only the first 32 bytes that the nonce decodes to are signed: messages that differ in the rest of
  its text have the same signer under the same signature.
\<close>

theorem nonce_text_unsigned:
  assumes "InjectSigner x ee em = Ok em'" and "nonce_bytes (em\<lparr>me_nonce := n\<rparr>) = nonce_bytes em"
  shows "InjectSigner x ee (em\<lparr>me_nonce := n\<rparr>) = Ok (em'\<lparr>me_nonce := n\<rparr>)"
proof -
  have "manage_entity_typed_data ee (em\<lparr>me_nonce := n\<rparr>) = manage_entity_typed_data ee em"
    using assms(2) by (simp add: manage_entity_typed_data_def)
  with assms(1) show ?thesis
    by (auto simp: InjectSigner_eq_Ok)
qed

text \<open>A transparent instance: a signature is the key, padded to 65 bytes.\<close>

definition demo_eip712 :: eip712_env where
  "demo_eip712 = \<lparr>ee_AcdcEntityManagerAddress = ''0xem'', ee_AcdcChainID = 1337, ee_DomainMap = (\<lambda>_. []),
     ee_HashStruct = (\<lambda>d t m. Some (bytes_of t)), ee_Ecrecover = (\<lambda>h s. if length s = 65 then Some (take 3 s) else None),
     ee_UnmarshalPubkey = Some\<rparr>"

definition demo_eip712_ext :: ext where
  "demo_eip712_ext = demo_ext\<lparr>x_Sign := (\<lambda>h k. Some (take 65 (bytes_of k @ replicate 65 0)))\<rparr>"

definition demo_entity :: manage_entity_legacy where
  "demo_entity = \<lparr>me_user_id = 1, me_entity_type = ''Track'', me_entity_id = 2, me_action = ''Create'',
     me_metadata = ''{}'', me_signature = '''', me_signer = ''mallory'', me_nonce = ''0x01''\<rparr>"

theorem sign_inject_roundtrip_witness:
  "\<exists>em'. SignManageEntity demo_eip712_ext demo_eip712 demo_entity ''key'' = Ok em'
     \<and> InjectSigner demo_eip712_ext demo_eip712 em' = Ok (em'\<lparr>me_signer := ''key''\<rparr>)"
proof -
  have "is_ok (SignManageEntity demo_eip712_ext demo_eip712 demo_entity ''key'')" by code_simp
  then obtain em' where em: "SignManageEntity demo_eip712_ext demo_eip712 demo_entity ''key'' = Ok em'"
    by (auto simp: is_ok_iff)
  have sign: "x_Sign demo_eip712_ext h ''key'' = Some s \<Longrightarrow> length s = 65
      \<and> Option.bind (ee_Ecrecover demo_eip712 h s) (ee_UnmarshalPubkey demo_eip712) = Some (bytes_of ''key'')" for h s
    by (auto simp: demo_eip712_ext_def demo_eip712_def bytes_of_def)
  have "x_PubkeyToAddress demo_eip712_ext (bytes_of ''key'') = ''key''" by code_simp
  with sign_inject_roundtrip [OF em, of "bytes_of ''key''" "me_signer em'"] sign em show ?thesis by simp
qed

end
