(* ===== verification/Endpoints.thy ===== *)
theory Endpoints
  imports Abci Eip712 Pubsub
begin

text \<open>
  Submitting transactions (\<^verbatim>\<open>SendTransaction\<close>, \<^verbatim>\<open>ForwardTransaction\<close> and \<^verbatim>\<open>GetTransaction\<close> of
  \<^verbatim>\<open>pkg/core/server/connect.go\<close>): a client's transaction enters the mempool of the node and is sent to
  its peers, and the call waits for the block that includes it. \<^verbatim>\<open>SendTransaction\<close> is modelled as
  what it does before it waits and what it does afterwards.
\<close>

section \<open>Requests\<close>

record send_request =
  tq_Transaction :: "signed_transaction option"
  tq_Transactionv2 :: "v2_transaction option"

definition uses_distribution :: "send_request \<Rightarrow> bool" where
  "uses_distribution req \<longleftrightarrow>
     (case tq_Transaction req of None \<Rightarrow> False | Some tx \<Rightarrow> get_file_upload tx \<noteq> None)
   \<or> (case Option.bind (tq_Transactionv2 req) v2_envelope of
        None \<Rightarrow> False | Some env \<Rightarrow> list_ex (\<lambda>msg. get_ern msg \<noteq> None) (env_messages env))"

definition distribution_gate :: "core_config \<Rightarrow> send_request \<Rightarrow> unit result" where
  "distribution_gate cfg req =
     (if \<not> cfg_ProgrammableDistributionEnabled cfg \<and> uses_distribution req
      then Err (Errorf ''programmable distribution is not enabled in this environment'') else Ok ())"

text \<open>The signer of an entity message is overwritten with the recovered one in place.\<close>

definition inject_signer_tx :: "ext \<Rightarrow> eip712_env \<Rightarrow> signed_transaction \<Rightarrow> signed_transaction result" where
  "inject_signer_tx x ee tx =
     (case get_manage_entity tx of
        None \<Rightarrow> Ok tx
      | Some em \<Rightarrow> wrap_err ''signer not recoverable'' (map_result
          (\<lambda>em'. tx\<lparr>st_transaction := Some (TxManageEntity em')\<rparr>) (InjectSigner x ee em)))"

text \<open>The hash of the marshalled transaction; a nil message marshals to no bytes.\<close>

definition v2_key :: "ext \<Rightarrow> v2_transaction \<Rightarrow> string result" where
  "v2_key x tx = map_result (ToTxHashFromBytes x) (wrap_err ''could not marshal transaction'' (marshal (x_marshal_v2 x) tx))"

definition v1_key :: "ext \<Rightarrow> eip712_env \<Rightarrow> send_request \<Rightarrow> (string \<times> send_request) result" where
  "v1_key x ee req =
     (case tq_Transaction req of
        None \<Rightarrow> Ok (ToTxHashFromBytes x [], req)
      | Some tx \<Rightarrow> bind_result (inject_signer_tx x ee tx) (\<lambda>tx'.
          map_result (\<lambda>txBytes. (ToTxHashFromBytes x txBytes, req\<lparr>tq_Transaction := Some tx'\<rparr>))
            (wrap_err ''could not marshal transaction'' (marshal (x_marshal_signed x) tx'))))"

text \<open>A request that carries both transactions is filed as its version 1 transaction.\<close>

definition request_tx :: "send_request \<Rightarrow> int64 \<Rightarrow> mempool_tx option" where
  "request_tx req deadline =
     (case tq_Transaction req of
        Some tx \<Rightarrow> Some \<lparr>mt_Deadline = deadline, mt_Tx = Some tx, mt_Txv2 = None\<rparr>
      | None \<Rightarrow> map_option (\<lambda>tx. \<lparr>mt_Deadline = deadline, mt_Tx = None, mt_Txv2 = Some tx\<rparr>) (tq_Transactionv2 req))"

section \<open>ForwardTransaction\<close>

text \<open>
  \<open>rpc\<close> is the status of the local CometBFT node: None before it is there, otherwise its latest
  height or the error of asking for it.
\<close>

definition ForwardTransaction ::
    "ext \<Rightarrow> eip712_env \<Rightarrow> core_config \<Rightarrow> int64 result option \<Rightarrow> send_request \<Rightarrow> mempool \<Rightarrow> unit result \<times> mempool" where
  "ForwardTransaction x ee cfg rpc req m =
     (let checked =
        bind_result (distribution_gate cfg req) (\<lambda>_.
        bind_result (case tq_Transactionv2 req of
            Some v2 \<Rightarrow> map_result (\<lambda>k. (k, req)) (v2_key x v2)
          | None \<Rightarrow> v1_key x ee req) (\<lambda>(mempoolKey, req').
        if tq_Transactionv2 req \<noteq> None \<and> cfg_Environment cfg \<noteq> ''dev''
          then Err (Errorf ''received forwarded v2 tx outside of dev'')
        else case rpc of
            None \<Rightarrow> Err (Errorf ''local rpc not ready'')
          | Some status \<Rightarrow> bind_result (wrap_err ''chain not healthy'' status) (\<lambda>latest.
        case request_tx req' (wrap64 (latest + 10)) of
            None \<Rightarrow> Err (Errorf ''no transaction provided'')
          | Some mempoolTx \<Rightarrow> Ok (mempoolKey, mempoolTx))))
      in case checked of
           Ok (mempoolKey, mempoolTx) \<Rightarrow>
             (case addMempoolTransaction mempoolKey mempoolTx False ([] :: (string \<times> unit) list) m of
                (r, sent, m') \<Rightarrow> (wrap_err ''could not add tx to mempool'' r, m'))
         | Err e \<Rightarrow> (Err e, m)
         | Panic p \<Rightarrow> (Panic p, m))"

section \<open>SendTransaction\<close>

definition check_submission ::
    "ext \<Rightarrow> eip712_env \<Rightarrow> core_config \<Rightarrow> core_db \<Rightarrow> int64 \<Rightarrow> send_request \<Rightarrow> (string \<times> send_request) result" where
  "check_submission x ee cfg db currentHeight req =
     bind_result (distribution_gate cfg req) (\<lambda>_.
     case tq_Transactionv2 req of
       Some v2 \<Rightarrow>
         if cfg_Environment cfg \<noteq> ''dev'' then Err (Errorf ''tx v2 in development'')
         else bind_result (v2_key x v2) (\<lambda>txhash.
           map_result (\<lambda>_. (txhash, req))
             (wrap_err ''transactionv2 validation failed'' (validateV2Transaction cfg currentHeight v2)))
     | None \<Rightarrow> bind_result (v1_key x ee req) (\<lambda>(txhash, req').
         case tq_Transaction req' of
           None \<Rightarrow> Panic ''nil pointer dereference''
         | Some tx \<Rightarrow> map_result (\<lambda>_. (txhash, req'))
             (wrap_err ''transaction validation failed'' (validateV1Transaction x db currentHeight tx))))"

text \<open>Up to the wait: the hash and the channel waited on, the requests sent to peers, mempool and hub.\<close>

definition SendTransaction_submit ::
    "ext \<Rightarrow> eip712_env \<Rightarrow> core_config \<Rightarrow> core_db \<Rightarrow> int64 \<Rightarrow> (string \<times> 'c) list \<Rightarrow> send_request \<Rightarrow> mempool \<Rightarrow> 'm pubsub
     \<Rightarrow> (string \<times> nat \<times> send_request) result \<times> (string \<times> forward_request) list \<times> mempool \<times> 'm pubsub" where
  "SendTransaction_submit x ee cfg db currentHeight peers req m ps =
     (case check_submission x ee cfg db currentHeight req of
        Err e \<Rightarrow> (Err e, [], m, ps)
      | Panic p \<Rightarrow> (Panic p, [], m, ps)
      | Ok (txhash, req') \<Rightarrow>
     (case Subscribe txhash [] ps of
        (Err e, ps1) \<Rightarrow> (Err e, [], m, ps1)
      | (Panic p, ps1) \<Rightarrow> (Panic p, [], m, ps1)
      | (Ok txHashCh, ps1) \<Rightarrow>
     (case request_tx req' (wrap64 (currentHeight + 10)) of
        None \<Rightarrow> (Ok (txhash, txHashCh, req'), [], m, ps1)
      | Some mempoolTx \<Rightarrow>
     (case addMempoolTransaction txhash mempoolTx True peers m of
        (Ok _, sent, m') \<Rightarrow> (Ok (txhash, txHashCh, req'), sent, m', ps1)
      | (Err e, sent, m') \<Rightarrow> (Err (Wrapf ''could not add tx to mempool'' e), sent, m', Unsubscribe txhash txHashCh ps1)
      | (Panic p, sent, m') \<Rightarrow> (Panic p, sent, m', Unsubscribe txhash txHashCh ps1)))))"

text \<open>The queries of the receipts.\<close>

definition GetERNReceipts :: "string \<Rightarrow> core_db \<Rightarrow> (bytes \<times> int64) list" where
  "GetERNReceipts txhash db =
     map (\<lambda>r. (er_raw_acknowledgment r, er_index r)) (filter (\<lambda>r. er_tx_hash r = txhash) (core_ern db))"

definition GetMEADReceipts :: "string \<Rightarrow> core_db \<Rightarrow> (bytes \<times> int64) list" where
  "GetMEADReceipts txhash db =
     map (\<lambda>r. (mq_raw_acknowledgment r, mq_index r)) (filter (\<lambda>r. mq_tx_hash r = txhash) (core_mead db))"

definition GetPIEReceipts :: "string \<Rightarrow> core_db \<Rightarrow> (bytes \<times> int64) list" where
  "GetPIEReceipts txhash db =
     map (\<lambda>r. (mq_raw_acknowledgment r, mq_index r)) (filter (\<lambda>r. mq_tx_hash r = txhash) (core_pie db))"

text \<open>
  An acknowledgment is unmarshalled by protobuf, whose error is dropped, so that the parser is a
  total function of the bytes.
\<close>

datatype 'a message_receipt = ErnAck int 'a | MeadAck int 'a | PieAck int 'a

fun fill_receipts ::
    "(int \<Rightarrow> 'a \<Rightarrow> 'a message_receipt) \<Rightarrow> (bytes \<Rightarrow> 'a) \<Rightarrow> (bytes \<times> int64) list
     \<Rightarrow> 'a message_receipt option list \<Rightarrow> 'a message_receipt option list result" where
  "fill_receipts mk ack [] rs = Ok rs"
| "fill_receipts mk ack ((raw, i) # rows) rs =
     (if 0 \<le> i \<and> i < int (length rs) then fill_receipts mk ack rows (rs[nat i := Some (mk (wrap32 i) (ack raw))])
      else Panic ''index out of range'')"

definition add_receipts ::
    "(int \<Rightarrow> 'a \<Rightarrow> 'a message_receipt) \<Rightarrow> (bytes \<Rightarrow> 'a) \<Rightarrow> (bytes \<times> int64) list result
     \<Rightarrow> 'a message_receipt option list \<Rightarrow> 'a message_receipt option list result" where
  "add_receipts mk ack rows rs = (case rows of Ok rws \<Rightarrow> fill_receipts mk ack rws rs | _ \<Rightarrow> Ok rs)"

record 'a tx_receipt =
  tr_ChainId :: string
  tr_Expiration :: int64
  tr_Nonce :: string
  tr_MessageCount :: int
  tr_TxHash :: string
  tr_Height :: int64
  tr_Timestamp :: int
  tr_Responder :: string
  tr_Proposer :: string
  tr_MessageReceipts :: "'a message_receipt option list"

record tx_response =
  txr_Hash :: string
  txr_BlockHash :: string
  txr_ChainId :: string
  txr_Height :: int64
  txr_Timestamp :: int
  txr_Transaction :: "signed_transaction option"
  txr_Transactionv2 :: "v2_transaction option"

definition build_receipt ::
    "core_config \<Rightarrow> (bytes \<Rightarrow> 'a) \<Rightarrow> core_db \<Rightarrow> string \<Rightarrow> block_row \<Rightarrow> v2_transaction \<Rightarrow> 'a tx_receipt result" where
  "build_receipt cfg ack db txhash block v2 =
     bind_result (envelope_of v2) (\<lambda>env. bind_result (header_of env) (\<lambda>header.
     bind_result (add_receipts ErnAck ack (db_rows ''GetERNReceipts'' (GetERNReceipts txhash) db)
       (replicate (length (env_messages env)) None)) (\<lambda>rs1.
     bind_result (add_receipts MeadAck ack (db_rows ''GetMEADReceipts'' (GetMEADReceipts txhash) db) rs1) (\<lambda>rs2.
     bind_result (add_receipts PieAck ack (db_rows ''GetPIEReceipts'' (GetPIEReceipts txhash) db) rs2) (\<lambda>rs3.
     Ok \<lparr>tr_ChainId = cfg_ChainID cfg, tr_Expiration = eh_expiration header, tr_Nonce = eh_nonce header,
         tr_MessageCount = wrap32 (int (length (env_messages env))), tr_TxHash = txhash,
         tr_Height = b_height block, tr_Timestamp = b_created_at block div 1000000,
         tr_Responder = cfg_ProposerAddress cfg, tr_Proposer = b_proposer block, tr_MessageReceipts = rs3\<rparr>)))))"

datatype send_event = TxIncluded | TxTimeout

text \<open>After the wait; the channel is given back whatever happens.\<close>

definition SendTransaction_finish ::
    "core_config \<Rightarrow> (bytes \<Rightarrow> 'a) \<Rightarrow> core_db \<Rightarrow> string \<Rightarrow> nat \<Rightarrow> send_request \<Rightarrow> send_event \<Rightarrow> 'm pubsub
     \<Rightarrow> (tx_response \<times> 'a tx_receipt option) result \<times> 'm pubsub" where
  "SendTransaction_finish cfg ack db txhash txHashCh req event ps =
     (case event of
        TxTimeout \<Rightarrow> Err (Errorf ''tx waiting timeout'')
      | TxIncluded \<Rightarrow>
          bind_result (db_row ''GetTx'' (GetTx txhash) db) (\<lambda>tx.
          bind_result (db_row ''GetBlock'' (GetBlock (t_block_id tx)) db) (\<lambda>block.
          bind_result (case tq_Transactionv2 req of
              None \<Rightarrow> Ok None
            | Some v2 \<Rightarrow> map_result Some (build_receipt cfg ack db txhash block v2)) (\<lambda>receipt.
          Ok (\<lparr>txr_Hash = txhash, txr_BlockHash = b_hash block, txr_ChainId = cfg_ChainID cfg,
               txr_Height = b_height block, txr_Timestamp = b_created_at block,
               txr_Transaction = tq_Transaction req, txr_Transactionv2 = tq_Transactionv2 req\<rparr>, receipt)))),
      Unsubscribe txhash txHashCh ps)"

text \<open>
  A failed attempt to read version 1 leaves whatever the parser has filled in, \<open>partial\<close>, in the
  response.
\<close>

definition GetTransaction ::
    "ext \<Rightarrow> core_config \<Rightarrow> (bytes \<Rightarrow> signed_transaction) \<Rightarrow> core_db \<Rightarrow> string \<Rightarrow> tx_response result" where
  "GetTransaction x cfg partial db txhash =
     bind_result (db_row ''GetTx'' (GetTx txhash) db) (\<lambda>tx.
     bind_result (db_row ''GetBlock'' (GetBlock (t_block_id tx)) db) (\<lambda>block.
     let response = (\<lambda>v1 v2. \<lparr>txr_Hash = txhash, txr_BlockHash = b_hash block, txr_ChainId = cfg_ChainID cfg,
            txr_Height = b_height block, txr_Timestamp = b_created_at block,
            txr_Transaction = v1, txr_Transactionv2 = v2\<rparr>) in
     case x_unmarshal_signed x (t_transaction tx) of
       Some v1 \<Rightarrow> Ok (response (Some v1) None)
     | None \<Rightarrow> (case x_unmarshal_v2 x (t_transaction tx) of
         Some v2 \<Rightarrow> Ok (response (Some (partial (t_transaction tx))) (Some v2))
       | None \<Rightarrow> Err (Errorf ''could not unmarshal transaction as v1 or v2''))))"

section \<open>Mempool keys\<close>

lemma addMempoolTransaction_spec:
  assumes "addMempoolTransaction k tx broadcast peers m = (r, sent, m')" and "mp_inv m"
  shows "mp_inv m'"
    and "mp_view m' = (if mp_full m \<or> k \<in> fst ` set (mp_view m) then mp_view m else mp_view m @ [(k, tx)])"
    and "r = Ok () \<longleftrightarrow> \<not> mp_full m"
    and "sent = (if broadcast then broadcastMempoolTransaction tx peers else [])"
proof -
  from assms(1) have eq: "pool_insert k tx m = (r, m')" and sent: "sent = (if broadcast then broadcastMempoolTransaction tx peers else [])"
    by (auto simp: addMempoolTransaction_def Let_def split: prod.splits)
  show "mp_inv m'" "mp_view m' = (if mp_full m \<or> k \<in> fst ` set (mp_view m) then mp_view m else mp_view m @ [(k, tx)])"
    using mempool.inv_add [OF assms(2), of k tx] mempool.view_add [OF assms(2), of k tx] by (simp_all add: eq)
  show "r = Ok () \<longleftrightarrow> \<not> mp_full m" using eq by (auto simp: pool_insert_def mp_full_def split: if_splits)
qed (use assms(1) in \<open>auto simp: addMempoolTransaction_def Let_def split: prod.splits\<close>)

text \<open>The key of every transaction is the hash the chain will know it by.\<close>

definition keys_are_hashes :: "ext \<Rightarrow> mempool \<Rightarrow> bool" where
  "keys_are_hashes x m \<longleftrightarrow> (\<forall>(k, tx) \<in> set (mp_view m).
     \<exists>b. mempool_tx_bytes x tx = Ok b \<and> k = ToTxHashFromBytes x b)"

definition single_request :: "send_request \<Rightarrow> bool" where
  "single_request req \<longleftrightarrow> tq_Transaction req = None \<or> tq_Transactionv2 req = None"

lemma v1_key_hash:
  assumes "v1_key x ee req = Ok (k, req')" and "tq_Transactionv2 req = None" and "request_tx req' d = Some tx"
  shows "\<exists>b. mempool_tx_bytes x tx = Ok b \<and> k = ToTxHashFromBytes x b"
  using assms by (cases "tq_Transaction req") (auto simp: v1_key_def request_tx_def mempool_tx_bytes_def go_simps)

lemma v2_key_hash:
  assumes "v2_key x v2 = Ok k" and "tq_Transaction req = None" "tq_Transactionv2 req = Some v2"
    and "request_tx req d = Some tx"
  shows "\<exists>b. mempool_tx_bytes x tx = Ok b \<and> k = ToTxHashFromBytes x b"
  using assms by (auto simp: v2_key_def request_tx_def mempool_tx_bytes_def go_simps)

lemma add_keeps_keys:
  assumes "addMempoolTransaction k tx broadcast peers m = (r, sent, m')" and "mp_inv m" and "keys_are_hashes x m"
    and "\<exists>b. mempool_tx_bytes x tx = Ok b \<and> k = ToTxHashFromBytes x b"
  shows "keys_are_hashes x m'"
  using assms(3,4) addMempoolTransaction_spec(2) [OF assms(1,2)] by (auto simp: keys_are_hashes_def)

lemma check_submission_key:
  assumes "check_submission x ee cfg db h req = Ok (k, req')" and "single_request req" and "request_tx req' d = Some tx"
  shows "\<exists>b. mempool_tx_bytes x tx = Ok b \<and> k = ToTxHashFromBytes x b"
proof (cases "tq_Transactionv2 req")
  case None
  with assms(1) have "v1_key x ee req = Ok (k, req')"
    by (auto simp: check_submission_def go_simps split: option.splits)
  from v1_key_hash [OF this None assms(3)] show ?thesis .
next
  case (Some v2)
  with assms(1) have "v2_key x v2 = Ok k" "req' = req"
    by (auto simp: check_submission_def go_simps split: if_splits)
  with v2_key_hash [OF this(1) _ Some] Some assms(2,3) show ?thesis by (auto simp: single_request_def)
qed

lemma ForwardTransaction_adds:
  assumes "ForwardTransaction x ee cfg rpc req m = (r, m')" and "single_request req"
  shows "m' = m \<or> (\<exists>k tx r0 sent b. addMempoolTransaction k tx False ([] :: (string \<times> unit) list) m = (r0, sent, m')
    \<and> mempool_tx_bytes x tx = Ok b \<and> k = ToTxHashFromBytes x b)"
proof (cases "tq_Transactionv2 req")
  case None
  with assms(1) show ?thesis
    by (auto simp: ForwardTransaction_def Let_def go_simps split: result.splits prod.splits if_splits option.splits
        dest!: v1_key_hash [OF _ None]) blast
next
  case (Some v2)
  with assms(2) have "tq_Transaction req = None" by (simp add: single_request_def)
  with assms(1) Some show ?thesis
    by (auto simp: ForwardTransaction_def Let_def go_simps split: result.splits prod.splits if_splits option.splits
        dest!: v2_key_hash [OF _ _ Some]) blast
qed

lemma SendTransaction_adds:
  assumes "SendTransaction_submit x ee cfg db h peers req m ps = (r, sent, m', ps')" and "single_request req"
  shows "m' = m \<or> (\<exists>k tx r0 sent b. addMempoolTransaction k tx True peers m = (r0, sent, m')
    \<and> mempool_tx_bytes x tx = Ok b \<and> k = ToTxHashFromBytes x b)"
  using assms(1)
  by (auto simp: SendTransaction_submit_def split: result.splits prod.splits option.splits
      dest!: check_submission_key [OF _ assms(2)])

text \<open>
  (C8) Every request that carries one transaction, sent by a client or forwarded by a peer, keeps
  the mempool consistent and filed by hash: the key of every pending transaction is the hash
  under which the block that includes it is finalized, so that committing that block removes it.
\<close>

theorem requests_keep_keys:
  assumes "mp_inv m" and "keys_are_hashes x m" and "single_request req"
    and "m' = snd (ForwardTransaction x ee cfg rpc req m)
       \<or> m' = fst (snd (snd (SendTransaction_submit x ee cfg db h peers req m ps)))"
  shows "mp_inv m' \<and> keys_are_hashes x m'
    \<and> (\<forall>(k, tx) \<in> set (mp_view m'). \<exists>b. mempool_tx_bytes x tx = Ok b
         \<and> (k, tx) \<notin> set (mp_view (RemoveBatch [ToTxHashFromBytes x b] m')))"
proof -
  have inv: "mp_inv m' \<and> keys_are_hashes x m'"
    using assms(4)
  proof
    assume "m' = snd (ForwardTransaction x ee cfg rpc req m)"
    then have "ForwardTransaction x ee cfg rpc req m = (fst (ForwardTransaction x ee cfg rpc req m), m')" by simp
    from ForwardTransaction_adds [OF this assms(3)] show ?thesis
      using assms(1,2) addMempoolTransaction_spec(1) add_keeps_keys by blast
  next
    assume m': "m' = fst (snd (snd (SendTransaction_submit x ee cfg db h peers req m ps)))"
    obtain r sent ps' where "SendTransaction_submit x ee cfg db h peers req m ps = (r, sent, m', ps')"
      unfolding m' by (metis prod.collapse)
    from SendTransaction_adds [OF this assms(3)] show ?thesis
      using assms(1,2) addMempoolTransaction_spec(1) add_keeps_keys by blast
  qed
  have "\<exists>b. mempool_tx_bytes x tx = Ok b \<and> (k, tx) \<notin> set (mp_view (RemoveBatch [ToTxHashFromBytes x b] m'))"
    if "(k, tx) \<in> set (mp_view m')" for k tx
  proof -
    from inv that obtain b where b: "mempool_tx_bytes x tx = Ok b" "k = ToTxHashFromBytes x b"
      by (auto simp: keys_are_hashes_def)
    from inv have "set (mp_view (RemoveBatch [k] m')) = {kt \<in> set (mp_view m'). fst kt \<noteq> k}"
      using mempool.view_remove [of m' "[k]"] by simp
    with b show ?thesis by auto
  qed
  with inv show ?thesis by blast
qed

section \<open>From one node to its peers\<close>

lemma inject_signer_tx_eq_Ok:
  "inject_signer_tx x ee tx = Ok tx' \<longleftrightarrow>
     (case get_manage_entity tx of
        None \<Rightarrow> tx' = tx
      | Some em \<Rightarrow> (\<exists>em'. InjectSigner x ee em = Ok em' \<and> tx' = tx\<lparr>st_transaction := Some (TxManageEntity em')\<rparr>))"
  by (auto simp: inject_signer_tx_def go_simps split: option.splits)

lemma inject_signer_tx_idem:
  assumes "inject_signer_tx x ee tx = Ok tx'"
  shows "inject_signer_tx x ee tx' = Ok tx'"
proof (cases "get_manage_entity tx")
  case None
  with assms show ?thesis by (simp add: inject_signer_tx_eq_Ok)
next
  case (Some em)
  with assms obtain em' where "InjectSigner x ee em = Ok em'" "tx' = tx\<lparr>st_transaction := Some (TxManageEntity em')\<rparr>"
    by (auto simp: inject_signer_tx_eq_Ok)
  then show ?thesis using InjectSigner_idem [of x ee em em']
    by (simp add: inject_signer_tx_eq_Ok get_manage_entity_def) 
qed

lemma inject_signer_tx_keeps:
  assumes "inject_signer_tx x ee tx = Ok tx'"
  shows "get_file_upload tx' = get_file_upload tx"
    and "st_transaction tx' = Some (TxSlaRollup r) \<longleftrightarrow> st_transaction tx = Some (TxSlaRollup r)"
  using assms by (auto simp: inject_signer_tx_eq_Ok get_manage_entity_def get_file_upload_def
      split: option.splits tx_body.splits)

lemma v1_key_again:
  assumes "v1_key x ee \<lparr>tq_Transaction = Some tx, tq_Transactionv2 = None\<rparr> = Ok (k, req')"
  obtains tx' where "req' = \<lparr>tq_Transaction = Some tx', tq_Transactionv2 = None\<rparr>"
    "v1_key x ee req' = Ok (k, req')" "inject_signer_tx x ee tx = Ok tx'"
proof -
  from assms obtain tx' b where "inject_signer_tx x ee tx = Ok tx'" "x_marshal_signed x tx' = Some b"
    "k = ToTxHashFromBytes x b" "req' = \<lparr>tq_Transaction = Some tx', tq_Transactionv2 = None\<rparr>"
    by (auto simp: v1_key_def go_simps)
  with that inject_signer_tx_idem show thesis by (simp add: v1_key_def marshal_def)
qed

lemma submit_OkD:
  assumes "SendTransaction_submit x ee cfg db h peers req m ps = (Ok (txhash, ch, req'), sent, m', ps')"
  shows "check_submission x ee cfg db h req = Ok (txhash, req')" and "Subscribe txhash [] ps = (Ok ch, ps')"
    and "request_tx req' (wrap64 (h + 10)) = Some mt \<Longrightarrow> addMempoolTransaction txhash mt True peers m = (Ok (), sent, m')"
  using assms by (auto simp: SendTransaction_submit_def split: result.splits prod.splits option.splits)

lemma broadcast_v1:
  assumes "\<And>r. st_transaction tx \<noteq> Some (TxSlaRollup r)"
  shows "broadcastMempoolTransaction \<lparr>mt_Deadline = d, mt_Tx = Some tx, mt_Txv2 = None\<rparr> peers
    = map (\<lambda>(a, p). (a, ForwardV1 tx)) peers"
  using assms by (auto simp: broadcastMempoolTransaction_def split: option.splits tx_body.splits)

lemma add_files_key:
  assumes "addMempoolTransaction k tx broadcast peers m = (Ok (), sent, m')" and "mp_inv m"
  shows "k \<in> fst ` set (mp_view m')"
  using addMempoolTransaction_spec(2,3) [OF assms] by auto

lemma forward_v1:
  assumes "v1_key x ee req = Ok (k, req)" and "req = \<lparr>tq_Transaction = Some tx, tq_Transactionv2 = None\<rparr>"
    and "distribution_gate cfg req = Ok ()" and "mp_inv m" and "\<not> mp_full m"
  shows "\<exists>m'. ForwardTransaction x ee cfg (Some (Ok h)) req m = (Ok (), m') \<and> k \<in> fst ` set (mp_view m')"
proof -
  let ?mt = "\<lparr>mt_Deadline = wrap64 (h + 10), mt_Tx = Some tx, mt_Txv2 = None\<rparr>"
  obtain r sent m' where add: "addMempoolTransaction k ?mt False ([] :: (string \<times> unit) list) m = (r, sent, m')"
    by (metis prod.exhaust)
  with addMempoolTransaction_spec(3) [OF add assms(4)] assms(5) have r: "r = Ok ()" by simp
  have "ForwardTransaction x ee cfg (Some (Ok h)) req m = (Ok (), m')"
    using assms(1-3) add r by (simp add: ForwardTransaction_def request_tx_def)
  with add_files_key [OF add [unfolded r] assms(4)] show ?thesis by blast
qed

text \<open>
  (C7) When a client's request with a version 1 transaction only, which is not an SLA rollup, is accepted, the
  transaction is pending on the node under its hash, the client's channel is subscribed to that hash, and every
  peer is sent it; a peer with room, under the same feature flag and a chain it can ask, answers without an
  error and has it pending under the same hash, although it recovers the signer of an entity message again.
  (Rollups are not broadcast, and a request with both transactions is filed under another hash,
  \<open>double_request_misfiled\<close>.)
\<close>

theorem submission_reaches_peers:
  assumes "SendTransaction_submit x ee cfg db h peers \<lparr>tq_Transaction = Some tx, tq_Transactionv2 = None\<rparr> m ps
      = (Ok (txhash, ch, req'), sent, m', ps')"
    and "mp_inv m" and "\<And>r. st_transaction tx \<noteq> Some (TxSlaRollup r)"
    and "cfg_ProgrammableDistributionEnabled cfg' = cfg_ProgrammableDistributionEnabled cfg"
    and "mp_inv mp" and "\<not> mp_full mp" and "(addr, peer) \<in> set peers"
  shows "\<exists>tx'. req' = \<lparr>tq_Transaction = Some tx', tq_Transactionv2 = None\<rparr>
    \<and> txhash \<in> fst ` set (mp_view m') \<and> ch \<in> set (subs_of ps' txhash) \<and> (addr, ForwardV1 tx') \<in> set sent
    \<and> (\<exists>mp'. ForwardTransaction x ee cfg' (Some (Ok h')) req' mp = (Ok (), mp') \<and> txhash \<in> fst ` set (mp_view mp'))"
proof -
  note ok = submit_OkD [OF assms(1)]
  from ok(1) have key: "v1_key x ee \<lparr>tq_Transaction = Some tx, tq_Transactionv2 = None\<rparr> = Ok (txhash, req')"
    and gate: "distribution_gate cfg \<lparr>tq_Transaction = Some tx, tq_Transactionv2 = None\<rparr> = Ok ()"
    by (auto simp: check_submission_def go_simps split: option.splits)
  obtain tx' where req': "req' = \<lparr>tq_Transaction = Some tx', tq_Transactionv2 = None\<rparr>"
    and again: "v1_key x ee req' = Ok (txhash, req')" and inj: "inject_signer_tx x ee tx = Ok tx'"
    using v1_key_again [OF key] by metis
  note add = ok(3) [of "\<lparr>mt_Deadline = wrap64 (h + 10), mt_Tx = Some tx', mt_Txv2 = None\<rparr>", unfolded req',
      simplified request_tx_def, simplified]
  have sent: "sent = map (\<lambda>(a, p). (a, ForwardV1 tx')) peers"
    using addMempoolTransaction_spec(4) [OF add assms(2)] assms(3) inject_signer_tx_keeps(2) [OF inj]
    by (simp add: broadcast_v1)
  have "distribution_gate cfg' req' = Ok ()"
    using gate assms(4) inject_signer_tx_keeps(1) [OF inj]
    by (simp add: req' distribution_gate_def uses_distribution_def split: if_splits)
  from forward_v1 [OF again req' this assms(5,6), of h']
  have "\<exists>mp'. ForwardTransaction x ee cfg' (Some (Ok h')) req' mp = (Ok (), mp') \<and> txhash \<in> fst ` set (mp_view mp')" .
  moreover have "ch \<in> set (subs_of ps' txhash)"
    using ok(2) by (auto simp: Subscribe_def Let_def subs_of_update)
  moreover have "(addr, ForwardV1 tx') \<in> set sent" using assms(7) by (force simp: sent)
  ultimately show ?thesis using req' add_files_key [OF add assms(2)] by blast
qed

definition demo_play_tx :: signed_transaction where
  "demo_play_tx = \<lparr>st_signature = '''', st_request_id = '''', st_transaction = Some (TxPlays [])\<rparr>"

definition demo_play_request :: send_request where
  "demo_play_request = \<lparr>tq_Transaction = Some demo_play_tx, tq_Transactionv2 = None\<rparr>"

lemma demo_submit:
  "\<exists>txhash sent m' ps'. SendTransaction_submit demo_ext demo_eip712 demo_config empty_db 5 [(''0xb'', ())] demo_play_request
      (NewMempool 3) (NewPubsub :: unit pubsub) = (Ok (txhash, 0, demo_play_request), sent, m', ps')"
proof -
  have "x_marshal_signed demo_ext t = Some []" for t by (simp add: demo_ext_def)
  then show ?thesis
    by (simp add: SendTransaction_submit_def check_submission_def distribution_gate_def demo_config_def demo_play_request_def
      v1_key_def inject_signer_tx_def demo_play_tx_def getter_defs marshal_def validateV1Transaction_def Subscribe_def
      NewPubsub_def Let_def request_tx_def addMempoolTransaction_def pool_insert_def NewMempool_def)
qed

theorem submission_reaches_peers_witness:
  "\<exists>txhash sent m' ps' mp'. SendTransaction_submit demo_ext demo_eip712 demo_config empty_db 5 [(''0xb'', ())] demo_play_request
      (NewMempool 3) (NewPubsub :: unit pubsub) = (Ok (txhash, 0, demo_play_request), sent, m', ps')
    \<and> ForwardTransaction demo_ext demo_eip712 demo_config (Some (Ok 7)) demo_play_request (NewMempool 2) = (Ok (), mp')
    \<and> txhash \<in> fst ` set (mp_view mp')"
proof -
  obtain txhash sent m' and ps' :: "unit pubsub" where s: "SendTransaction_submit demo_ext demo_eip712 demo_config empty_db 5 [(''0xb'', ())]
      demo_play_request (NewMempool 3) NewPubsub = (Ok (txhash, 0, demo_play_request), sent, m', ps')"
    using demo_submit by blast
  have "\<not> mp_full (NewMempool 2)" by (simp add: mp_full_def NewMempool_def)
  from submission_reaches_peers [OF s [unfolded demo_play_request_def] _ _ refl _ this, of "''0xb''" "()" 7]
  have "\<exists>mp'. ForwardTransaction demo_ext demo_eip712 demo_config (Some (Ok 7)) demo_play_request (NewMempool 2) = (Ok (), mp')
      \<and> txhash \<in> fst ` set (mp_view mp')"
    by (auto simp: demo_play_tx_def demo_play_request_def)
  with s show ?thesis by blast
qed

theorem requests_keep_keys_witness:
  "single_request demo_play_request \<and> keys_are_hashes demo_ext
     (snd (ForwardTransaction demo_ext demo_eip712 demo_config (Some (Ok 7)) demo_play_request (NewMempool 2)))"
proof -
  have single: "single_request demo_play_request" by (simp add: single_request_def demo_play_request_def)
  have keys: "keys_are_hashes demo_ext (NewMempool 2)" by (simp add: keys_are_hashes_def)
  show ?thesis
    using single requests_keep_keys [OF mp_inv_New(1) keys single disjI1 [OF refl]] by simp
qed

section \<open>Requests without or with two transactions\<close>

text \<open>A request to send nothing dereferences the missing transaction; forwarding nothing is refused.\<close>

theorem empty_request:
  "check_submission x ee cfg db h \<lparr>tq_Transaction = None, tq_Transactionv2 = None\<rparr> = Panic ''nil pointer dereference''"
  "fst (ForwardTransaction x ee cfg (Some (Ok h)) \<lparr>tq_Transaction = None, tq_Transactionv2 = None\<rparr> m)
     = Err (Errorf ''no transaction provided'')"
  by (simp_all add: check_submission_def ForwardTransaction_def distribution_gate_def uses_distribution_def v1_key_def
      request_tx_def)

text \<open>
  In the development environment a request may carry both transactions. Only the version 2
  one is validated and hashed, but the version 1 one is filed, under the other's hash and whatever
  its own validation would say; when a block with it is committed, the hash that is removed
  from the mempool is not its key, and it stays pending.
\<close>

theorem double_request_misfiled:
  assumes "tq_Transaction req = Some tx" and "tq_Transactionv2 req = Some v2"
    and "cfg_Environment cfg = ''dev''" and "distribution_gate cfg req = Ok ()"
    and "x_marshal_v2 x v2 = Some b" and "validateV2Transaction cfg h v2 = Ok ()"
    and "mp_inv m" and "\<not> mp_full m" and "ToTxHashFromBytes x b \<notin> fst ` set (mp_view m)"
    and "x_marshal_signed x tx = Some b1" and "ToTxHashFromBytes x b1 \<noteq> ToTxHashFromBytes x b"
  shows "\<exists>ch sent m' ps' mt. SendTransaction_submit x ee cfg db h peers req m ps
      = (Ok (ToTxHashFromBytes x b, ch, req), sent, m', ps')
    \<and> mp_view m' = mp_view m @ [(ToTxHashFromBytes x b, mt)] \<and> mempool_tx_bytes x mt = Ok b1
    \<and> (ToTxHashFromBytes x b, mt) \<in> set (mp_view (RemoveBatch [ToTxHashFromBytes x b1] m'))"
proof -
  let ?k = "ToTxHashFromBytes x b"
  let ?mt = "\<lparr>mt_Deadline = wrap64 (h + 10), mt_Tx = Some tx, mt_Txv2 = None\<rparr>"
  obtain r sent m' where add: "addMempoolTransaction ?k ?mt True peers m = (r, sent, m')" by (metis prod.exhaust)
  note spec = addMempoolTransaction_spec [OF add assms(7)]
  have r: "r = Ok ()" using spec(3) assms(8) by simp
  have view: "mp_view m' = mp_view m @ [(?k, ?mt)]" using spec(2) assms(8,9) by simp
  have "check_submission x ee cfg db h req = Ok (?k, req)"
    using assms(2-6) by (simp add: check_submission_def v2_key_def marshal_def)
  moreover obtain ch ps' where "Subscribe ?k [] ps = (Ok ch, ps')" by (simp add: Subscribe_def Let_def)
  ultimately have "SendTransaction_submit x ee cfg db h peers req m ps = (Ok (?k, ch, req), sent, m', ps')"
    using assms(1) add r by (simp add: SendTransaction_submit_def request_tx_def)
  moreover have "(?k, ?mt) \<in> set (mp_view (RemoveBatch [ToTxHashFromBytes x b1] m'))"
    using mempool.view_remove [OF spec(1), of "[ToTxHashFromBytes x b1]"] assms(11) view by auto
  moreover have "mempool_tx_bytes x ?mt = Ok b1" using assms(10) by (simp add: mempool_tx_bytes_def marshal_def)
  ultimately show ?thesis using view by blast
qed

definition demo_both_ext :: ext where
  "demo_both_ext = demo_ext\<lparr>x_marshal_v2 := (\<lambda>_. Some [2]), x_marshal_signed := (\<lambda>_. Some [1])\<rparr>"

definition demo_both_request :: send_request where
  "demo_both_request = \<lparr>tq_Transaction = Some demo_play_tx, tq_Transactionv2 = Some (demo_v2 (demo_ern []))\<rparr>"

theorem double_request_misfiled_witness:
  "\<exists>k ch sent m' ps' mt. SendTransaction_submit demo_both_ext demo_eip712 demo_config empty_db 5 [(''0xb'', ())]
      demo_both_request (NewMempool 3) (NewPubsub :: unit pubsub) = (Ok (k, ch, demo_both_request), sent, m', ps')
    \<and> mempool_tx_bytes demo_both_ext mt = Ok [1]
    \<and> (k, mt) \<in> set (mp_view (RemoveBatch [ToTxHashFromBytes demo_both_ext [1]] m'))"
proof -
  have gate: "distribution_gate demo_config demo_both_request = Ok ()" by (simp add: distribution_gate_def demo_config_def)
  have valid: "validateV2Transaction demo_config 5 (demo_v2 (demo_ern [])) = Ok ()" by code_simp
  have hash: "ToTxHashFromBytes demo_both_ext [1] \<noteq> ToTxHashFromBytes demo_both_ext [2]" by code_simp
  have room: "\<not> mp_full (NewMempool 3)" by (simp add: mp_full_def NewMempool_def)
  show ?thesis
    using double_request_misfiled [OF _ _ _ gate _ valid mp_inv_New(1) room _ _ hash, of demo_play_tx demo_eip712 empty_db
        "[(''0xb'', ())]" "NewPubsub :: unit pubsub"]
    by (fastforce simp: demo_both_request_def demo_both_ext_def demo_config_def)
qed

end
