(* ===== verification/Registry_Bridge.thy ===== *)
theory Registry_Bridge
  imports Registration Auditor
begin

text \<open>
  The registry bridge (\<^verbatim>\<open>pkg/core/server/registry_bridge.go\<close>) and the endpoints that answer it
  (\<^verbatim>\<open>GetRegistrationAttestation\<close> and \<^verbatim>\<open>GetDeregistrationAttestation\<close> of \<^verbatim>\<open>connect.go\<close>): a node that is
  registered on Ethereum collects the signatures of a rendezvous of validators and registers
  itself on the chain, and the warden deregisters validators that left Ethereum or propose no
  blocks. The answers of the Ethereum service and of the peers are arguments.
\<close>

section \<open>The Ethereum service\<close>

record eth_endpoint =
  ep_Id :: int64
  ep_DelegateWallet :: string
  ep_BlockNumber :: int64

text \<open>An answer, the connect error \<^verbatim>\<open>CodeNotFound\<close>, or any other error.\<close>

datatype 'a eth_answer = EthOk 'a | EthNotFound | EthFailed go_error

definition IsNodeRegisteredOnEthereum ::
    "(string \<Rightarrow> eth_endpoint eth_answer) \<Rightarrow> string \<Rightarrow> string \<Rightarrow> int64 \<Rightarrow> bool result" where
  "IsNodeRegisteredOnEthereum info endpoint delegateWallet ethBlock =
     (case info endpoint of
        EthNotFound \<Rightarrow> Ok False
      | EthFailed e \<Rightarrow> Err (Wrapf ''could check registration status for node'' e)
      | EthOk ep \<Rightarrow> Ok (\<not> (ep_BlockNumber ep \<noteq> ethBlock \<or> ep_DelegateWallet ep \<noteq> delegateWallet)))"

text \<open>\<^verbatim>\<open>big.Int.SetString(s, 10)\<close>, and \<^verbatim>\<open>Int64()\<close> of it wraps.\<close>

definition big_SetString :: "string \<Rightarrow> int option" where
  "big_SetString s =
     (let neg = has_prefix s ''-'';
          body = (if neg \<or> has_prefix s ''+'' then tl s else s)
      in if body = [] then None
         else map_option (\<lambda>n. if neg then - int n else int n) (parse_digits 0 body))"

section \<open>Answering requests for attestations (connect.go)\<close>

definition GetRegistrationAttestation ::
    "ext \<Rightarrow> core_config \<Rightarrow> core_db \<Rightarrow> int64 \<Rightarrow> (string \<Rightarrow> eth_endpoint eth_answer) \<Rightarrow> validator_registration option
     \<Rightarrow> (string \<times> validator_registration) result" where
  "GetRegistrationAttestation x cfg db currentHeight info request =
     (case request of
        None \<Rightarrow> Err (Errorf ''empty registration attestation'')
      | Some reg \<Rightarrow>
     if vr_deadline reg < currentHeight
        \<or> vr_deadline reg > wrap64 (currentHeight + maxRegistrationAttestationValidity)
       then Err (Errorf ''cannot sign registration request with deadline'')
     else if IsNodeRegisteredOnEthereum info (vr_endpoint reg) (vr_delegate_wallet reg) (vr_eth_block reg) \<noteq> Ok True
       then Err (Errorf ''node is not registered on ethereum'')
     else if ShouldPurgeValidatorForUnderperformance db (vr_comet_address reg) \<noteq> Ok False
       then Err (Errorf ''node is temporarily blacklisted'')
     else bind_result (marshal (x_marshal_registration x) reg) (\<lambda>regBytes.
     bind_result (EthSign x (cfg_EthereumKey cfg) regBytes) (\<lambda>sig. Ok (sig, reg))))"

definition GetDeregistrationAttestation ::
    "ext \<Rightarrow> core_config \<Rightarrow> core_db \<Rightarrow> (string \<Rightarrow> eth_endpoint eth_answer) \<Rightarrow> validator_deregistration option
     \<Rightarrow> (string \<times> validator_deregistration) result" where
  "GetDeregistrationAttestation x cfg db info request =
     (case request of
        None \<Rightarrow> Err (Errorf ''empty deregistration attestation'')
      | Some dereg \<Rightarrow>
     bind_result (wrap_err ''could not attest deregistration''
         (db_row ''GetRegisteredNodeByCometAddress'' (GetRegisteredNodeByCometAddress (vd_comet_address dereg)) db)) (\<lambda>node.
     case big_SetString (v_eth_block node) of
       None \<Rightarrow> Err (Errorf ''could not format eth block'')
     | Some ethBlock \<Rightarrow>
     bind_result (wrap_err ''could not attest to node deregistration''
         (IsNodeRegisteredOnEthereum info (v_endpoint node) (v_eth_address node) (wrap64 ethBlock))) (\<lambda>registered.
     bind_result (wrap_err ''could not attest to node deregistration''
         (ShouldPurgeValidatorForUnderperformance db (vd_comet_address dereg))) (\<lambda>shouldPurge.
     if registered \<and> \<not> shouldPurge then Err (Errorf ''could not attest to node deregistration'')
     else bind_result (marshal (x_marshal_deregistration x) dereg) (\<lambda>deregBytes.
     bind_result (EthSign x (cfg_EthereumKey cfg) deregBytes) (\<lambda>sig. Ok (sig, dereg)))))))"

section \<open>Registering\<close>

definition Discovery :: int where
  "Discovery = 0"

definition Content :: int where
  "Content = 1"

definition serviceType :: "int \<Rightarrow> bytes result" where
  "serviceType nt =
     (if nt = Discovery then Ok (Utf8ToHex ''discovery-node'')
      else if nt = Content then Ok (Utf8ToHex ''content-node'')
      else Err (Errorf ''node type provided not valid''))"

definition isDevEnvironment :: "core_config \<Rightarrow> bool" where
  "isDevEnvironment cfg \<longleftrightarrow> cfg_Environment cfg = ''dev'' \<or> cfg_Environment cfg = ''sandbox''"

definition GetNodeByEndpoint :: "string \<Rightarrow> core_db \<Rightarrow> validator_row option" where
  "GetNodeByEndpoint endpoint db = find_row (\<lambda>r. v_endpoint r = endpoint) (core_validators db)"

definition isSelfAlreadyRegistered :: "core_config \<Rightarrow> core_db \<Rightarrow> bool" where
  "isSelfAlreadyRegistered cfg db =
     (case db_row ''GetNodeByEndpoint'' (GetNodeByEndpoint (cfg_NodeEndpoint cfg)) db of
        Ok res \<Rightarrow> v_eth_address res = cfg_WalletAddress cfg
      | _ \<Rightarrow> False)"

text \<open>
  What the bridge reads besides the configuration: the answers of the Ethereum service about the
  node, whether it is catching up, the validators of the genesis file, its CometBFT key and
  node type, the address that go-ethereum writes for its wallet, a fresh uuid, and the order in
  which a map's keys are walked.
\<close>

record bridge_env =
  be_isDuplicate :: "bool result"
  be_catchingUp :: bool
  be_genesisAddresses :: "string list"
  be_CometPubKey :: bytes
  be_NodeType :: int
  be_walletHex :: string
  be_uuid :: string
  be_walk :: "string set \<Rightarrow> string list"

text \<open>A peer's client is its answer to a request; errors are logged and the peer skipped.\<close>

fun collect_attestations :: "(string \<Rightarrow> string result option) \<Rightarrow> string list \<Rightarrow> string list" where
  "collect_attestations ask [] = []"
| "collect_attestations ask (addr # addrs) =
     (case ask addr of Some (Ok sig) \<Rightarrow> sig # collect_attestations ask addrs | _ \<Rightarrow> collect_attestations ask addrs)"

definition own_registration ::
    "core_config \<Rightarrow> bridge_env \<Rightarrow> bytes \<Rightarrow> int64 \<Rightarrow> string \<Rightarrow> int64 \<Rightarrow> validator_registration" where
  "own_registration cfg be st ethBlock spID currentHeight =
     \<lparr>vr_delegate_wallet = be_walletHex be, vr_endpoint = cfg_NodeEndpoint cfg,
      vr_node_type = HexToUtf8 st, vr_sp_id = spID, vr_eth_block = ethBlock,
      vr_comet_address = cfg_ProposerAddress cfg, vr_pub_key = be_CometPubKey be,
      vr_power = cfg_ValidatorVotingPower cfg, vr_deadline = wrap64 (currentHeight + 120)\<rparr>"

definition attestation_tx :: "ext \<Rightarrow> core_config \<Rightarrow> string \<Rightarrow> attestation \<Rightarrow> signed_transaction result" where
  "attestation_tx x cfg uuid att =
     bind_result (wrap_err ''failure to marshal tx'' (marshal (x_marshal_attestation x) att)) (\<lambda>txBytes.
     bind_result (wrap_err ''could not sign tx'' (EthSign x (cfg_EthereumKey cfg) txBytes)) (\<lambda>sig.
     Ok \<lparr>st_signature = sig, st_request_id = uuid, st_transaction = Some (TxAttestation att)\<rparr>))"

text \<open>
  \<open>height\<close> is the cached height when the body is built and \<open>heightAt addr\<close> the one when the peer at
  an address is asked, which is read again; \<open>send\<close> is the answer of \<^verbatim>\<open>SendTransaction\<close>. The result is
  the transaction that was sent, if any.
\<close>

definition registerSelfOnComet ::
    "ext \<Rightarrow> core_config \<Rightarrow> bridge_env \<Rightarrow> core_db \<Rightarrow> int64 \<Rightarrow> (string \<Rightarrow> int64)
     \<Rightarrow> (string \<times> (validator_registration \<Rightarrow> string result)) list \<Rightarrow> (signed_transaction \<Rightarrow> string result)
     \<Rightarrow> int64 \<Rightarrow> string \<Rightarrow> signed_transaction option result" where
  "registerSelfOnComet x cfg be db height heightAt peers send ethBlock spID =
     bind_result (wrap_err ''could not check for duplicate delegate wallet'' (be_isDuplicate be)) (\<lambda>duplicate.
     if duplicate then Ok None
     else if be_catchingUp be then Err (Errorf ''aborting comet registration because node is still syncing'')
     else if cfg_ProposerAddress cfg \<notin> set (be_genesisAddresses be) \<and> peers = []
       then Err (Errorf ''not in genesis and no peers, retrying to register on comet later'')
     else bind_result (wrap_err ''invalid node type'' (serviceType (be_NodeType be))) (\<lambda>st.
     bind_result (wrap_err ''failed to get all registered nodes'' (db_rows ''GetAllEthAddressesOfRegisteredNodes''
         GetAllEthAddressesOfRegisteredNodes db)) (\<lambda>addrs.
     let rendezvous = GetAttestorRendezvous x addrs (put_uint64_be (uwrap64 \<bar>ethBlock\<bar>)) (cfg_AttRegistrationRSize cfg);
         ask = (\<lambda>addr. map_option (\<lambda>peer. peer (own_registration cfg be st ethBlock spID (heightAt addr))) (map_of peers addr));
         att = \<lparr>att_signatures = collect_attestations ask (be_walk be rendezvous),
                att_body = Some (AttRegistration (own_registration cfg be st ethBlock spID height))\<rparr>
     in bind_result (attestation_tx x cfg (be_uuid be) att) (\<lambda>tx.
        bind_result (wrap_err ''send register tx failed'' (send tx)) (\<lambda>txhash. Ok (Some tx))))))"

definition RegisterSelf ::
    "ext \<Rightarrow> core_config \<Rightarrow> bridge_env \<Rightarrow> core_db \<Rightarrow> int64 \<Rightarrow> (string \<Rightarrow> int64)
     \<Rightarrow> (string \<times> (validator_registration \<Rightarrow> string result)) list \<Rightarrow> (signed_transaction \<Rightarrow> string result)
     \<Rightarrow> (string \<Rightarrow> eth_endpoint eth_answer) \<Rightarrow> signed_transaction option result" where
  "RegisterSelf x cfg be db height heightAt peers send info =
     (if isSelfAlreadyRegistered cfg db then Ok None
      else case info (cfg_NodeEndpoint cfg) of
        EthNotFound \<Rightarrow> Ok None
      | EthFailed e \<Rightarrow> Err (Wrapf ''could not register self: unexpected error'' e)
      | EthOk ep \<Rightarrow>
          (case db_row ''GetNodeByEndpoint'' (GetNodeByEndpoint (cfg_NodeEndpoint cfg)) db of
             Ok nodeRecord \<Rightarrow> Ok None
           | Err e \<Rightarrow> if is_no_rows e
               then wrap_err ''could not register on comet'' (registerSelfOnComet x cfg be db height heightAt peers send
                      (ep_BlockNumber ep) (format_int (ep_Id ep)))
               else Err e
           | Panic p \<Rightarrow> Panic p))"

text \<open>In a development environment the node first registers on Ethereum, with a service type by name.\<close>

definition registerSelfOnEth ::
    "core_config \<Rightarrow> bridge_env \<Rightarrow> (string \<Rightarrow> eth_endpoint eth_answer) \<Rightarrow> (string \<Rightarrow> string \<Rightarrow> unit result) \<Rightarrow> unit result" where
  "registerSelfOnEth cfg be info register =
     (case info (cfg_NodeEndpoint cfg) of
        EthOk _ \<Rightarrow> Ok ()
      | EthNotFound \<Rightarrow> wrap_err ''could not register on eth'' (register (cfg_NodeEndpoint cfg)
          (if be_NodeType be = Discovery then ''discovery-node'' else ''content-node''))
      | EthFailed e \<Rightarrow> Err (Wrapf ''could not register self: unexpected error'' e))"

section \<open>Deregistering\<close>

text \<open>
  \<open>selfAnswer\<close> is the node's own endpoint, asked when the rendezvous selects the node itself. Errors are
  logged; the result is the transaction that was sent, if any.
\<close>

definition deregisterValidator ::
    "ext \<Rightarrow> core_config \<Rightarrow> bridge_env \<Rightarrow> core_db \<Rightarrow> int64 \<Rightarrow> (validator_deregistration \<Rightarrow> string result)
     \<Rightarrow> (string \<times> (validator_deregistration \<Rightarrow> string result)) list \<Rightarrow> (signed_transaction \<Rightarrow> string result)
     \<Rightarrow> string \<Rightarrow> signed_transaction result" where
  "deregisterValidator x cfg be db height selfAnswer peers send ethAddress =
     bind_result (db_row ''GetRegisteredNodeByEthAddress'' (GetRegisteredNodeByEthAddress ethAddress) db) (\<lambda>node.
     bind_result (db_rows ''GetAllEthAddressesOfRegisteredNodes'' GetAllEthAddressesOfRegisteredNodes db) (\<lambda>addrs.
     let filteredAddrs = swap_remove ethAddress addrs in
     bind_result (b64_decode (v_comet_pub_key node)) (\<lambda>pubKey.
     let rendezvous = GetAttestorRendezvous x filteredAddrs pubKey (cfg_AttDeregistrationRSize cfg);
         dereg = \<lparr>vd_comet_address = v_comet_address node, vd_pub_key = pubKey, vd_deadline = wrap64 (height + 120)\<rparr>;
         ask = (\<lambda>addr. if addr = cfg_WalletAddress cfg then Some (selfAnswer dereg)
                        else map_option (\<lambda>peer. peer dereg) (map_of peers addr));
         att = \<lparr>att_signatures = collect_attestations ask (be_walk be rendezvous), att_body = Some (AttDeregistration dereg)\<rparr>
     in bind_result (attestation_tx x cfg (be_uuid be) att) (\<lambda>tx.
        bind_result (send tx) (\<lambda>txhash. Ok tx)))))"

text \<open>
  One tick of the warden: the addresses it deregisters, in order. \<open>dbAt\<close> is the database when a
  validator's performance is looked up, after the transactions for the missing ones. An answer
  without endpoints is nil.
\<close>

fun first_purgeable :: "(string \<Rightarrow> core_db) \<Rightarrow> validator_row list \<Rightarrow> string list" where
  "first_purgeable dbAt [] = []"
| "first_purgeable dbAt (v # vs) =
     (if ShouldPurgeValidatorForUnderperformance (dbAt (v_comet_address v)) (v_comet_address v) = Ok True
      then [v_eth_address v] else first_purgeable dbAt vs)"

definition warden_tick :: "core_db \<Rightarrow> (string \<Rightarrow> core_db) \<Rightarrow> eth_endpoint list result \<Rightarrow> string list" where
  "warden_tick db dbAt endpoints =
     (case db_rows ''GetAllRegisteredNodes'' GetAllRegisteredNodes db of
        Ok allValidators \<Rightarrow>
          (case endpoints of
             Ok eps \<Rightarrow>
               if eps = [] then []
               else map v_eth_address (filter (\<lambda>v. v_eth_address v \<notin> ep_DelegateWallet ` set eps) allValidators)
                    @ first_purgeable dbAt allValidators
           | _ \<Rightarrow> [])
      | _ \<Rightarrow> [])"

section \<open>When a node attests\<close>

text \<open>
  A node signs a registration only when its deadline lies within a day of blocks, Ethereum
  knows the endpoint with that wallet and block, and the validator is not one to be purged. It
  signs a deregistration only of a registered node, which Ethereum does not know with the wallet
  and block it was registered with, or which should be purged.
\<close>

theorem attestation_conditions:
  assumes "GetRegistrationAttestation x cfg db h info (Some reg) = Ok (sig, reg')"
    and "GetDeregistrationAttestation x cfg db info (Some dereg) = Ok (sig', dereg')"
  shows "(reg' = reg \<and> h \<le> vr_deadline reg \<and> vr_deadline reg \<le> wrap64 (h + 86400)
      \<and> (\<exists>ep. info (vr_endpoint reg) = EthOk ep \<and> ep_BlockNumber ep = vr_eth_block reg
           \<and> ep_DelegateWallet ep = vr_delegate_wallet reg)
      \<and> ShouldPurgeValidatorForUnderperformance db (vr_comet_address reg) = Ok False)
    \<and> dereg' = dereg
    \<and> (\<exists>node \<in> set (core_validators db). \<exists>b. v_comet_address node = vd_comet_address dereg
         \<and> big_SetString (v_eth_block node) = Some b
         \<and> (info (v_endpoint node) = EthNotFound
            \<or> (\<exists>ep. info (v_endpoint node) = EthOk ep \<and> (ep_BlockNumber ep \<noteq> wrap64 b \<or> ep_DelegateWallet ep \<noteq> v_eth_address node))
            \<or> ShouldPurgeValidatorForUnderperformance db (vd_comet_address dereg) = Ok True))"
proof -
  have registered: "IsNodeRegisteredOnEthereum info e w b = Ok True \<longleftrightarrow>
      (\<exists>ep. info e = EthOk ep \<and> ep_BlockNumber ep = b \<and> ep_DelegateWallet ep = w)"
    "IsNodeRegisteredOnEthereum info e w b = Ok False \<longleftrightarrow>
      info e = EthNotFound \<or> (\<exists>ep. info e = EthOk ep \<and> (ep_BlockNumber ep \<noteq> b \<or> ep_DelegateWallet ep \<noteq> w))" for e w b
    by (auto simp: IsNodeRegisteredOnEthereum_def split: eth_answer.splits)
  from assms(2) obtain node b reged purge where node: "GetRegisteredNodeByCometAddress (vd_comet_address dereg) db = Some node"
    and b: "big_SetString (v_eth_block node) = Some b" and d': "dereg' = dereg"
    and reged: "IsNodeRegisteredOnEthereum info (v_endpoint node) (v_eth_address node) (wrap64 b) = Ok reged"
    and purge: "ShouldPurgeValidatorForUnderperformance db (vd_comet_address dereg) = Ok purge" and "\<not> reged \<or> purge"
    by (auto simp: GetDeregistrationAttestation_def go_simps db_row_def split: option.splits if_splits)
  then have "info (v_endpoint node) = EthNotFound
      \<or> (\<exists>ep. info (v_endpoint node) = EthOk ep \<and> (ep_BlockNumber ep \<noteq> wrap64 b \<or> ep_DelegateWallet ep \<noteq> v_eth_address node))
      \<or> ShouldPurgeValidatorForUnderperformance db (vd_comet_address dereg) = Ok True"
    using registered(2) [of "v_endpoint node" "v_eth_address node" "wrap64 b"] by (cases reged) auto
  moreover have "node \<in> set (core_validators db)" "v_comet_address node = vd_comet_address dereg"
    using node by (auto simp: GetRegisteredNodeByCometAddress_def dest: find_row_SomeD)
  moreover have "reg' = reg \<and> h \<le> vr_deadline reg \<and> vr_deadline reg \<le> wrap64 (h + 86400)
      \<and> (\<exists>ep. info (vr_endpoint reg) = EthOk ep \<and> ep_BlockNumber ep = vr_eth_block reg
           \<and> ep_DelegateWallet ep = vr_delegate_wallet reg)
      \<and> ShouldPurgeValidatorForUnderperformance db (vr_comet_address reg) = Ok False"
    using assms(1) by (auto simp: GetRegistrationAttestation_def go_simps registered maxRegistrationAttestationValidity_def split: if_splits)
  ultimately show ?thesis using b d' by blast
qed

section \<open>Collected attestations are accepted\<close>

text \<open>A key that makes non-empty signatures which recover to an address.\<close>

definition signs_as :: "ext \<Rightarrow> string \<Rightarrow> string \<Rightarrow> bool" where
  "signs_as x key addr \<longleftrightarrow> (\<exists>pub. x_PubkeyToAddress x pub = addr
     \<and> (\<forall>h s. x_Sign x h key = Some s \<longrightarrow> s \<noteq> [] \<and> x_SigToPub x h s = Some pub))"

text \<open>A peer whose signatures of a request recover to its address.\<close>

definition honest_peer :: "ext \<Rightarrow> ('r \<Rightarrow> bytes option) \<Rightarrow> string \<Rightarrow> ('r \<Rightarrow> string result) \<Rightarrow> bool" where
  "honest_peer x enc addr peer \<longleftrightarrow>
     (\<forall>r s. peer r = Ok s \<longrightarrow> (\<exists>b k. enc r = Some b \<and> EthRecover x s b = Ok (k, addr)))"

lemma signs_as_recover:
  assumes "signs_as x key addr" and "EthSign x key d = Ok sig"
  shows "sig \<noteq> ''''" and "\<exists>k. EthRecover x sig d = Ok (k, addr)"
proof -
  from assms(2) obtain s where sig: "x_Sign x (x_sha256 x d) key = Some s" "sig = hex_encode s"
    by (auto simp: EthSign_def split: option.splits)
  with assms(1) obtain pub where s: "x_PubkeyToAddress x pub = addr" "x_SigToPub x (x_sha256 x d) s = Some pub" "s \<noteq> []"
    "sig = hex_encode s" by (auto simp: signs_as_def)
  then show "sig \<noteq> ''''" by (cases s) auto
  from s show "\<exists>k. EthRecover x sig d = Ok (k, addr)" by (simp add: EthRecover_def)
qed

text \<open>The endpoints of a node that holds the key of an address are such peers.\<close>

lemma endpoints_honest:
  assumes "signs_as x (cfg_EthereumKey cfg) addr"
  shows "honest_peer x (x_marshal_registration x) addr (\<lambda>r. map_result fst (GetRegistrationAttestation x cfg db h info (Some r)))"
    and "honest_peer x (x_marshal_deregistration x) addr (\<lambda>r. map_result fst (GetDeregistrationAttestation x cfg db info (Some r)))"
  using signs_as_recover(2) [OF assms]
  by (auto simp: honest_peer_def GetRegistrationAttestation_def GetDeregistrationAttestation_def go_simps
      split: if_splits option.splits)

definition answers :: "(string \<Rightarrow> string result option) \<Rightarrow> string \<Rightarrow> bool" where
  "answers ask addr \<longleftrightarrow> (\<exists>s. ask addr = Some (Ok s))"

lemma recover_collected:
  assumes "\<And>a s. ask a = Some (Ok s) \<Longrightarrow> \<exists>k. EthRecover x s body = Ok (k, a)"
  shows "recoverSigners x (collect_attestations ask addrs) body = Ok (filter (answers ask) addrs)"
proof (induction addrs)
  case (Cons a addrs)
  show ?case
  proof (cases "answers ask a")
    case True
    then obtain s where s: "ask a = Some (Ok s)" by (auto simp: answers_def)
    with assms [OF s] Cons True show ?thesis by auto
  next
    case False
    then have "collect_attestations ask (a # addrs) = collect_attestations ask addrs"
      by (auto simp: answers_def split: option.splits result.splits)
    with Cons False show ?thesis by simp
  qed
qed simp

lemma enough_signersI:
  assumes "\<not> db_fault db ''GetAllEthAddressesOfRegisteredNodes''"
    and "filtered = swap_remove excluded (map v_eth_address (core_validators db))"
    and "min (int (length filtered)) needed \<le> int (card {a \<in> GetAttestorRendezvous x filtered key sz. answers ask a})"
    and "\<And>R. finite R \<Longrightarrow> set (walk R) = R"
  shows "attestationHasEnoughSigners x db (filter (answers ask) (walk (GetAttestorRendezvous x filtered key sz))) key sz needed excluded
    = Ok True"
proof -
  have "set (filter (answers ask) (walk (GetAttestorRendezvous x filtered key sz))) \<inter> GetAttestorRendezvous x filtered key sz
      = {a \<in> GetAttestorRendezvous x filtered key sz. answers ask a}"
    using assms(4) by auto
  with assms(1-3) show ?thesis
    by (simp add: attestationHasEnoughSigners_def db_rows_def Let_def count_signers_card GetAllEthAddressesOfRegisteredNodes_def)
      linarith
qed

lemma attestation_tx_OkD:
  assumes "attestation_tx x cfg uuid att = Ok tx" and "signs_as x (cfg_EthereumKey cfg) addr"
  shows "get_attestation tx = Some att" and "st_signature tx \<noteq> ''''"
    and "\<exists>b k. x_marshal_attestation x att = Some b \<and> EthRecover x (st_signature tx) b = Ok (k, addr)"
  using assms(1) signs_as_recover [OF assms(2)]
  by (auto simp: attestation_tx_def go_simps get_attestation_def)

text \<open>The peers a rendezvous selects and that answer a request.\<close>

definition attesting :: "(string \<times> ('r \<Rightarrow> string result)) list \<Rightarrow> 'r \<Rightarrow> string set \<Rightarrow> string set" where
  "attesting peers r R = {a \<in> R. \<exists>peer s. map_of peers a = Some peer \<and> peer r = Ok s}"

lemma attesting_answers:
  "attesting peers r R = {a \<in> R. answers (\<lambda>a. map_option (\<lambda>peer. peer r) (map_of peers a)) a}"
  by (auto simp: attesting_def answers_def)

text \<open>
  (C10) The registration a node sends is accepted by every validator with the same table of
  validators: when enough of the peers that the rendezvous selects answer, their answers
  recover to their addresses, the node signs with the key of its wallet, its CometBFT address is new
  and no block is finalized while it asks, the transaction passes the check of attestations at
  every height up to its deadline.
\<close>

theorem collected_registration_accepted:
  assumes run: "registerSelfOnComet x cfg be db h heightAt peers send ethBlock spID = Ok (Some tx)"
    and reg: "get_attestation tx = Some att" "att_body att = Some (AttRegistration reg)"
    and still: "\<And>a. heightAt a = h"
    and honest: "\<And>a peer. (a, peer) \<in> set peers \<Longrightarrow> honest_peer x (x_marshal_registration x) a peer"
    and walk: "\<And>R. finite R \<Longrightarrow> set (be_walk be R) = R"
    and own: "signs_as x (cfg_EthereumKey cfg) (be_walletHex be)"
    and key: "be_CometPubKey be \<noteq> []" "x_ed25519_address x (be_CometPubKey be) = Some (cfg_ProposerAddress cfg)"
    and fresh: "\<not> db_fault db ''GetRegisteredNodeByCometAddress''"
      "cfg_ProposerAddress cfg \<notin> v_comet_address ` set (core_validators db)"
      "'''' \<notin> v_eth_address ` set (core_validators db)"
    and body: "x_marshal_registration x reg = Some b"
    and enough: "min (int (length (core_validators db))) (cfg_AttRegistrationMin cfg) \<le> int (card (attesting peers reg
        (GetAttestorRendezvous x (map v_eth_address (core_validators db)) (put_uint64_be (uwrap64 ethBlock)) (cfg_AttRegistrationRSize cfg))))"
    and time: "0 \<le> ethBlock" "0 \<le> h" "h + 120 < 2 ^ 63" "bh \<le> h + 120" "h + 120 \<le> bh + 86400" "bh + 86400 < 2 ^ 63"
  shows "isValidAttestation x cfg db tx bh = Ok ()"
proof -
  let ?addrs = "map v_eth_address (core_validators db)"
  let ?R = "GetAttestorRendezvous x ?addrs (put_uint64_be (uwrap64 ethBlock)) (cfg_AttRegistrationRSize cfg)"
  from run obtain st where live: "\<not> db_fault db ''GetAllEthAddressesOfRegisteredNodes''"
    and sent: "attestation_tx x cfg (be_uuid be) \<lparr>att_signatures = collect_attestations (\<lambda>a. map_option (\<lambda>peer. peer
        (own_registration cfg be st ethBlock spID h)) (map_of peers a)) (be_walk be ?R),
        att_body = Some (AttRegistration (own_registration cfg be st ethBlock spID h))\<rparr> = Ok tx"
    using time(1) by (auto simp: registerSelfOnComet_def still go_simps Let_def db_rows_def
        GetAllEthAddressesOfRegisteredNodes_def split: if_splits)
  note tx = attestation_tx_OkD [OF sent own]
  have r: "reg = own_registration cfg be st ethBlock spID h" using tx(1) reg by auto
  define ask where "ask = (\<lambda>a. map_option (\<lambda>peer. peer reg) (map_of peers a))"
  have "recoverSigners x (att_signatures att) b = Ok (filter (answers ask) (be_walk be ?R))"
  proof -
    have "\<exists>k. EthRecover x s b = Ok (k, a)" if "ask a = Some (Ok s)" for a s
      using that honest body by (fastforce simp: ask_def honest_peer_def dest: map_of_SomeD)
    from recover_collected [of ask x b, OF this] show ?thesis using tx(1) reg(1) by (simp add: r ask_def)
  qed
  moreover have "attestationHasEnoughSigners x db (filter (answers ask) (be_walk be ?R))
      (put_uint64_be (uwrap64 ethBlock)) (cfg_AttRegistrationRSize cfg) (cfg_AttRegistrationMin cfg) '''' = Ok True"
  proof (rule enough_signersI [OF live _ _ walk])
    show "?addrs = swap_remove '''' ?addrs"
      using fresh(3) by (simp add: swap_remove_def index_of_None [THEN iffD2])
    show "min (int (length ?addrs)) (cfg_AttRegistrationMin cfg) \<le> int (card {a \<in> ?R. answers ask a})"
      using enough by (simp add: attesting_answers ask_def)
  qed
  moreover have "wrap64 (h + 120) = h + 120" "wrap64 (bh + 86400) = bh + 86400"
    using time by (simp_all add: wrap64_small)
  moreover have "\<forall>r \<in> set (core_validators db). v_comet_address r \<noteq> cfg_ProposerAddress cfg"
    using fresh(2) by (metis imageI)
  ultimately have "registration_acceptable x cfg db tx (filter (answers ask) (be_walk be ?R)) bh"
    using tx reg key fresh(1) time unfolding registration_acceptable_def
    by (auto simp: r own_registration_def att_registration_def)
  then show ?thesis
    using reg body \<open>recoverSigners x (att_signatures att) b = _\<close>
    by (simp add: isValidAttestation_def getAttestationBodyBytes_def marshal_def register_attestation_iff)
qed

text \<open>
  (C11) The deregistration a node sends for a wallet is accepted likewise: enough of the rendezvous
  without the deregistered node, the sender among them when it is selected, answer it, and the
  stored key is the 32 bytes of the node's CometBFT address, which no other row has.
\<close>

theorem collected_deregistration_accepted:
  assumes run: "deregisterValidator x cfg be db h selfAnswer peers send wallet = Ok tx"
    and dereg: "get_attestation tx = Some att" "att_body att = Some (AttDeregistration dereg)"
    and node: "node \<in> set (core_validators db)" "v_eth_address node = wallet" "wallets_unique db"
      "distinct (map v_comet_address (core_validators db))" "\<not> db_fault db ''GetRegisteredNodeByCometAddress''"
    and key: "b64_decode (v_comet_pub_key node) = Ok pk" "length pk = 32" "x_ed25519_address x pk = Some (v_comet_address node)"
    and honest: "honest_peer x (x_marshal_deregistration x) (cfg_WalletAddress cfg) selfAnswer"
      "\<And>a peer. (a, peer) \<in> set peers \<Longrightarrow> honest_peer x (x_marshal_deregistration x) a peer"
    and walk: "\<And>R. finite R \<Longrightarrow> set (be_walk be R) = R"
    and own: "signs_as x (cfg_EthereumKey cfg) (cfg_WalletAddress cfg)"
    and body: "x_marshal_deregistration x dereg = Some b"
    and enough: "min (int (length (core_validators db)) - 1) (cfg_AttDeregistrationMin cfg)
      \<le> int (card (attesting ((cfg_WalletAddress cfg, selfAnswer) # peers) dereg
        (GetAttestorRendezvous x (remove1 wallet (map v_eth_address (core_validators db))) pk (cfg_AttDeregistrationRSize cfg))))"
    and time: "0 \<le> h" "h + 120 < 2 ^ 63" "bh \<le> h + 120" "h + 120 \<le> bh + 86400" "bh + 86400 < 2 ^ 63"
  shows "isValidAttestation x cfg db tx bh = Ok ()"
proof -
  let ?addrs = "map v_eth_address (core_validators db)"
  let ?R = "GetAttestorRendezvous x (swap_remove wallet ?addrs) pk (cfg_AttDeregistrationRSize cfg)"
  let ?d = "\<lparr>vd_comet_address = v_comet_address node, vd_pub_key = pk, vd_deadline = wrap64 (h + 120)\<rparr>"
  define ask where "ask = (\<lambda>a. map_option (\<lambda>peer. peer dereg) (map_of ((cfg_WalletAddress cfg, selfAnswer) # peers) a))"
  have by_wallet: "GetRegisteredNodeByEthAddress wallet db = Some node"
    using find_row_by_key [of v_eth_address, OF _ node(1)] node(2,3)
    by (simp add: wallets_unique_def GetRegisteredNodeByEthAddress_def)
  have by_comet: "GetRegisteredNodeByCometAddress (v_comet_address node) db = Some node"
    using find_row_by_key [OF node(4,1)] by (simp add: GetRegisteredNodeByCometAddress_def)
  from run key(1) by_wallet obtain att' where live: "\<not> db_fault db ''GetAllEthAddressesOfRegisteredNodes''"
    and sent: "attestation_tx x cfg (be_uuid be) att' = Ok tx" and att': "att_body att' = Some (AttDeregistration ?d)"
      "att_signatures att' = collect_attestations (\<lambda>a. if a = cfg_WalletAddress cfg then Some (selfAnswer ?d)
          else map_option (\<lambda>peer. peer ?d) (map_of peers a)) (be_walk be ?R)"
    by (auto simp: deregisterValidator_def go_simps Let_def db_rows_def db_row_def
        GetAllEthAddressesOfRegisteredNodes_def split: if_splits)
  note tx = attestation_tx_OkD [OF sent own]
  have d: "dereg = ?d" and att: "att = att'" using tx(1) dereg att' by auto
  have "ask = (\<lambda>a. if a = cfg_WalletAddress cfg then Some (selfAnswer ?d) else map_option (\<lambda>peer. peer ?d) (map_of peers a))"
    by (auto simp: ask_def d)
  then have sigs: "att_signatures att = collect_attestations ask (be_walk be ?R)" by (simp add: att att'(2))
  have rec: "recoverSigners x (att_signatures att) b = Ok (filter (answers ask) (be_walk be ?R))"
  proof -
    have "\<exists>k. EthRecover x s b = Ok (k, a)" if "ask a = Some (Ok s)" for a s
      using that honest body by (fastforce simp: ask_def honest_peer_def dest: map_of_SomeD split: if_splits)
    from recover_collected [of ask x b, OF this] show ?thesis by (simp add: sigs)
  qed
  have quorum: "attestationHasEnoughSigners x db (filter (answers ask) (be_walk be ?R)) pk
      (cfg_AttDeregistrationRSize cfg) (cfg_AttDeregistrationMin cfg) wallet = Ok True"
  proof (rule enough_signersI [OF live refl _ walk])
    have "wallet \<in> set ?addrs" using node(1,2) by auto
    then have "int (length (swap_remove wallet ?addrs)) = int (length (core_validators db)) - 1"
      by (simp add: length_swap_remove) (metis length_pos_if_in_set node(1) of_nat_1 of_nat_diff Suc_leI One_nat_def)
    then show "min (int (length (swap_remove wallet ?addrs))) (cfg_AttDeregistrationMin cfg) \<le> int (card {a \<in> ?R. answers ask a})"
      using enough by (simp add: attesting_answers ask_def rendezvous_swap_remove)
  qed
  have "wrap64 (h + 120) = h + 120" "wrap64 (bh + 86400) = bh + 86400"
    using time by (simp_all add: wrap64_small)
  then have "isValidDeregisterNodeAttestation x cfg db tx (filter (answers ask) (be_walk be ?R)) bh = Ok ()"
    using tx(1) dereg d key(2,3) node(2,5) by_comet quorum time
    by (auto simp: isValidDeregisterNodeAttestation_def att_deregistration_def ed25519_PubKeySize_def Let_def
        ed25519_address_def db_row_def maxDeregistrationAttestationValidity_def)
  with dereg body rec show ?thesis
    by (simp add: isValidAttestation_def getAttestationBodyBytes_def marshal_def)
qed

section \<open>Concrete runs\<close>

definition demo_eth :: "string \<Rightarrow> eth_endpoint eth_answer" where
  "demo_eth endpoint = (if endpoint = ''https://self'' then EthOk \<lparr>ep_Id = 7, ep_DelegateWallet = ''0xself'', ep_BlockNumber = 1\<rparr>
     else EthNotFound)"

definition demo_bridge_config :: "string \<Rightarrow> core_config" where
  "demo_bridge_config key = demo_config\<lparr>cfg_EthereumKey := key, cfg_ProposerAddress := ''0000''\<rparr>"

definition demo_bridge :: bridge_env where
  "demo_bridge = \<lparr>be_isDuplicate = Ok False, be_catchingUp = False, be_genesisAddresses = [],
     be_CometPubKey = replicate 32 0, be_NodeType = Content, be_walletHex = ''0xself'', be_uuid = ''id'',
     be_walk = sorted_list_of_set\<rparr>"

text \<open>The node at \<^verbatim>\<open>0xa\<close> as a peer.\<close>

definition demo_registration_peer :: "validator_registration \<Rightarrow> string result" where
  "demo_registration_peer r = map_result fst
     (GetRegistrationAttestation demo_ext (demo_bridge_config ''0xa'') demo_validators 5 demo_eth (Some r))"

lemma demo_signs_as: "key \<noteq> [] \<Longrightarrow> signs_as demo_ext key key"
  by (auto simp: signs_as_def demo_ext_def bytes_of_def intro!: exI [of _ "bytes_of key"])
     (metis bytes_of_def string_of_bytes_of)+

lemma demo_marshal [simp]:
  "x_marshal_attestation demo_ext a = Some []" "x_marshal_registration demo_ext r = Some []"
  "x_marshal_deregistration demo_ext d = Some []"
  by (simp_all add: demo_ext_def)

lemma demo_rendezvous:
  assumes "set addrs = {''0xa'', ''0xb''}" and "length addrs = 2"
  shows "GetAttestorRendezvous demo_ext addrs k 2 = {''0xa'', ''0xb''}"
  unfolding rendezvous_ranked using assms set_ranked [of demo_ext k addrs] by simp

definition demo_own_registration :: validator_registration where
  "demo_own_registration = own_registration (demo_bridge_config ''0xself'') demo_bridge (Utf8ToHex ''content-node'') 1 ''7'' 5"

theorem collected_registration_accepted_witness:
  "\<exists>tx. registerSelfOnComet demo_ext (demo_bridge_config ''0xself'') demo_bridge demo_validators 5 (\<lambda>_. 5)
       [(''0xa'', demo_registration_peer)] (\<lambda>_. Ok ''hash'') 1 ''7'' = Ok (Some tx)
     \<and> isValidAttestation demo_ext (demo_bridge_config ''0xself'') demo_validators tx 6 = Ok ()"
proof -
  let ?cfg = "demo_bridge_config ''0xself''"
  obtain att tx where run: "registerSelfOnComet demo_ext ?cfg demo_bridge demo_validators 5 (\<lambda>_. 5)
       [(''0xa'', demo_registration_peer)] (\<lambda>_. Ok ''hash'') 1 ''7'' = Ok (Some tx)"
    and tx: "get_attestation tx = Some att" "att_body att = Some (AttRegistration demo_own_registration)"
    by (simp add: registerSelfOnComet_def demo_bridge_def serviceType_def Discovery_def Content_def db_rows_def
        demo_validators_def empty_db_def Let_def attestation_tx_def marshal_def EthSign_def getter_defs demo_own_registration_def)
      (simp add: demo_ext_def)
  have "is_ok (demo_registration_peer demo_own_registration)" by code_simp
  then have peer: "\<exists>s. demo_registration_peer demo_own_registration = Ok s" by (simp add: is_ok_iff)
  have wallets: "map v_eth_address (core_validators demo_validators) = [''0xa'', ''0xb'']"
    by (simp add: demo_validators_def demo_node_def)
  have "isValidAttestation demo_ext ?cfg demo_validators tx 6 = Ok ()"
  proof (rule collected_registration_accepted [OF run tx])
    show "honest_peer demo_ext (x_marshal_registration demo_ext) a peer" if "(a, peer) \<in> set [(''0xa'', demo_registration_peer)]" for a peer
      using that endpoints_honest(1) [OF demo_signs_as, of "demo_bridge_config ''0xa''" demo_validators 5 demo_eth]
      by (auto simp: demo_registration_peer_def [abs_def] demo_bridge_config_def)
    show "signs_as demo_ext (cfg_EthereumKey ?cfg) (be_walletHex demo_bridge)"
      using demo_signs_as [of "''0xself''"] by (simp add: demo_bridge_config_def demo_bridge_def)
    show "x_ed25519_address demo_ext (be_CometPubKey demo_bridge) = Some (cfg_ProposerAddress ?cfg)" by code_simp
    show "min (int (length (core_validators demo_validators))) (cfg_AttRegistrationMin ?cfg)
        \<le> int (card (attesting [(''0xa'', demo_registration_peer)] demo_own_registration (GetAttestorRendezvous demo_ext
            (map v_eth_address (core_validators demo_validators)) (put_uint64_be (uwrap64 1)) (cfg_AttRegistrationRSize ?cfg))))"
    proof -
      have "attesting [(''0xa'', demo_registration_peer)] demo_own_registration {''0xa'', ''0xb''} = {''0xa''}"
        using peer by (auto simp: attesting_def)
      then show ?thesis
        unfolding wallets by (simp add: demo_rendezvous demo_bridge_config_def demo_config_def demo_validators_def)
    qed
  qed (auto simp: demo_bridge_def demo_bridge_config_def demo_config_def demo_validators_def demo_node_def empty_db_def)
  with run show ?thesis by blast
qed


text \<open>Three validators, of which the one at \<^verbatim>\<open>0xgone\<close> has left Ethereum.\<close>

definition demo_gone :: validator_row where
  "demo_gone = (demo_node ''0xgone'' ''0000'')\<lparr>v_comet_pub_key := b64_encode (replicate 32 0), v_eth_block := ''12''\<rparr>"

definition demo_gone_db :: core_db where
  "demo_gone_db = empty_db\<lparr>core_validators := [demo_node ''0xa'' ''C1'', demo_gone, demo_node ''0xb'' ''C2'']\<rparr>"

definition demo_deregistration_answer :: "string \<Rightarrow> validator_deregistration \<Rightarrow> string result" where
  "demo_deregistration_answer key d = map_result fst
     (GetDeregistrationAttestation demo_ext (demo_bridge_config key) demo_gone_db demo_eth (Some d))"

definition demo_deregistration :: validator_deregistration where
  "demo_deregistration = \<lparr>vd_comet_address = ''0000'', vd_pub_key = replicate 32 0, vd_deadline = 125\<rparr>"

theorem collected_deregistration_accepted_witness:
  "\<exists>tx. deregisterValidator demo_ext (demo_bridge_config ''0xself'') demo_bridge demo_gone_db 5
       (demo_deregistration_answer ''0xself'') [(''0xb'', demo_deregistration_answer ''0xb'')] (\<lambda>_. Ok ''hash'') ''0xgone'' = Ok tx
     \<and> isValidAttestation demo_ext (demo_bridge_config ''0xself'') demo_gone_db tx 6 = Ok ()"
proof -
  let ?cfg = "demo_bridge_config ''0xself''"
  let ?peers = "[(''0xb'', demo_deregistration_answer ''0xb'')]"
  have wallets: "map v_eth_address (core_validators demo_gone_db) = [''0xa'', ''0xgone'', ''0xb'']"
    by (simp add: demo_gone_db_def demo_gone_def demo_node_def)
  obtain att tx where run: "deregisterValidator demo_ext ?cfg demo_bridge demo_gone_db 5
       (demo_deregistration_answer ''0xself'') ?peers (\<lambda>_. Ok ''hash'') ''0xgone'' = Ok tx"
    and tx: "get_attestation tx = Some att" "att_body att = Some (AttDeregistration demo_deregistration)"
    by (simp add: deregisterValidator_def demo_bridge_def db_rows_def db_row_def GetRegisteredNodeByEthAddress_def
        demo_gone_db_def demo_gone_def demo_node_def empty_db_def Let_def attestation_tx_def marshal_def EthSign_def getter_defs
        demo_deregistration_def wrap64_def)
      (simp add: demo_ext_def)
  have "is_ok (demo_deregistration_answer ''0xb'' demo_deregistration)" by code_simp
  then have peer: "\<exists>s. demo_deregistration_answer ''0xb'' demo_deregistration = Ok s" by (simp add: is_ok_iff)
  have honest: "honest_peer demo_ext (x_marshal_deregistration demo_ext) k (demo_deregistration_answer k)" if "k \<noteq> []" for k
    using endpoints_honest(2) [OF demo_signs_as, of "demo_bridge_config k" demo_gone_db demo_eth] that
    by (auto simp: demo_deregistration_answer_def [abs_def] demo_bridge_config_def)
  have self: "cfg_WalletAddress ?cfg = ''0xself''" by (simp add: demo_bridge_config_def demo_config_def)
  have "isValidAttestation demo_ext ?cfg demo_gone_db tx 6 = Ok ()"
  proof (rule collected_deregistration_accepted [OF run tx, of demo_gone "replicate 32 0"])
    show "x_ed25519_address demo_ext (replicate 32 0) = Some (v_comet_address demo_gone)" by code_simp
    show "min (int (length (core_validators demo_gone_db)) - 1) (cfg_AttDeregistrationMin ?cfg)
        \<le> int (card (attesting ((cfg_WalletAddress ?cfg, demo_deregistration_answer ''0xself'') # ?peers) demo_deregistration
            (GetAttestorRendezvous demo_ext (remove1 ''0xgone'' (map v_eth_address (core_validators demo_gone_db)))
              (replicate 32 0) (cfg_AttDeregistrationRSize ?cfg))))"
    proof -
      have "attesting ((''0xself'', demo_deregistration_answer ''0xself'') # ?peers) demo_deregistration {''0xa'', ''0xb''} = {''0xb''}"
        using peer by (auto simp: attesting_def)
      then show ?thesis
        unfolding wallets self by (simp add: demo_rendezvous demo_bridge_config_def demo_config_def demo_gone_db_def)
    qed
  qed (use honest [of "''0xself''"] honest [of "''0xb''"] demo_signs_as [of "''0xself''"] in
      \<open>auto simp: self demo_bridge_def demo_bridge_config_def demo_config_def demo_gone_db_def demo_gone_def demo_node_def empty_db_def wallets_unique_def\<close>)
  with run show ?thesis by blast
qed

theorem attestation_conditions_witness:
  "(\<exists>sig sig'. GetRegistrationAttestation demo_ext (demo_bridge_config ''0xa'') demo_gone_db 5 demo_eth (Some demo_own_registration)
        = Ok (sig, demo_own_registration)
      \<and> GetDeregistrationAttestation demo_ext (demo_bridge_config ''0xa'') demo_gone_db demo_eth (Some demo_deregistration)
        = Ok (sig', demo_deregistration))
   \<and> (\<exists>ep. demo_eth (vr_endpoint demo_own_registration) = EthOk ep)"
proof -
  have "is_ok (GetRegistrationAttestation demo_ext (demo_bridge_config ''0xa'') demo_gone_db 5 demo_eth (Some demo_own_registration))"
    "is_ok (GetDeregistrationAttestation demo_ext (demo_bridge_config ''0xa'') demo_gone_db demo_eth (Some demo_deregistration))"
    by code_simp+
  then obtain sig reg' sig' dereg' where
    "GetRegistrationAttestation demo_ext (demo_bridge_config ''0xa'') demo_gone_db 5 demo_eth (Some demo_own_registration) = Ok (sig, reg')"
    "GetDeregistrationAttestation demo_ext (demo_bridge_config ''0xa'') demo_gone_db demo_eth (Some demo_deregistration) = Ok (sig', dereg')"
    by (auto simp: is_ok_iff)
  with attestation_conditions [OF this] show ?thesis by blast
qed

section \<open>The warden\<close>

lemma first_purgeable_cases:
  "first_purgeable dbAt vs = [] \<or> (\<exists>v \<in> set vs. first_purgeable dbAt vs = [v_eth_address v]
     \<and> ShouldPurgeValidatorForUnderperformance (dbAt (v_comet_address v)) (v_comet_address v) = Ok True)"
  by (induction vs) auto

text \<open>
  A tick of the warden deregisters only registered validators that are missing on Ethereum, and after
  them at most one that should be purged; nothing when the answer of the Ethereum service has
  no endpoints or either query fails.
\<close>

theorem warden_conservative:
  "\<exists>purged. length purged \<le> 1
     \<and> (\<forall>a \<in> set purged. \<exists>v \<in> set (core_validators db). v_eth_address v = a
          \<and> ShouldPurgeValidatorForUnderperformance (dbAt (v_comet_address v)) (v_comet_address v) = Ok True)
     \<and> (warden_tick db dbAt endpoints = []
        \<or> (\<exists>eps. endpoints = Ok eps \<and> eps \<noteq> [] \<and> warden_tick db dbAt endpoints =
             map v_eth_address (filter (\<lambda>v. v_eth_address v \<notin> ep_DelegateWallet ` set eps) (core_validators db)) @ purged))"
  using first_purgeable_cases [of dbAt "core_validators db"]
  by (intro exI [of _ "first_purgeable dbAt (core_validators db)"])
    (auto simp: warden_tick_def db_rows_def GetAllRegisteredNodes_def split: result.splits)

section \<open>A height that moves\<close>

lemma recoverSigners_signer:
  "recoverSigners x sigs b = Ok signers \<Longrightarrow> a \<in> set signers \<Longrightarrow> \<exists>sig \<in> set sigs. \<exists>k. EthRecover x sig b = Ok (k, a)"
  by (induction sigs arbitrary: signers) (auto simp: go_simps)

lemma collect_attestations_sound:
  "sig \<in> set (collect_attestations ask addrs) \<Longrightarrow> \<exists>a. ask a = Some (Ok sig)"
  by (induction addrs) (auto split: option.splits result.splits)

lemma no_signer_not_enough:
  assumes "set signers \<inter> v_eth_address ` set (core_validators db) = {}"
    and "0 < needed" and "core_validators db \<noteq> []" and "'''' \<notin> v_eth_address ` set (core_validators db)"
  shows "attestationHasEnoughSigners x db signers key sz needed '''' \<noteq> Ok True"
proof -
  let ?addrs = "map v_eth_address (core_validators db)"
  have same: "swap_remove '''' ?addrs = ?addrs" using assms(4) by (simp add: swap_remove_def index_of_None [THEN iffD2])
  have "GetAttestorRendezvous x ?addrs key sz \<subseteq> set ?addrs"
    using set_ranked [of x key ?addrs] by (auto simp: rendezvous_ranked dest!: in_set_takeD)
  then have "set signers \<inter> GetAttestorRendezvous x ?addrs key sz = {}" using assms(1) by auto
  with assms(2,3) same show ?thesis
    by (simp add: attestationHasEnoughSigners_def db_rows_def Let_def count_signers_card
        GetAllEthAddressesOfRegisteredNodes_def)
qed

text \<open>
  The deadline of the request a peer signs is computed from the height at that moment. When the
  height moves after the body was built, the peers sign a registration with another deadline;
  since a signature of other data does not recover to a validator, none of them counts, and the
  registration is refused wherever an attestation is needed.
\<close>

theorem moved_height_spoils_registration:
  assumes run: "registerSelfOnComet x cfg be db h heightAt peers send ethBlock spID = Ok (Some tx)"
    and moved: "\<And>a. wrap64 (heightAt a + 120) \<noteq> wrap64 (h + 120)"
    and honest: "\<And>a peer. (a, peer) \<in> set peers \<Longrightarrow> honest_peer x (x_marshal_registration x) a peer"
    and own: "signs_as x (cfg_EthereumKey cfg) wallet"
    and codec: "inj_on (x_marshal_registration x) {r. x_marshal_registration x r \<noteq> None}"
    and foreign: "\<And>sig b b' k k' a a'. EthRecover x sig b = Ok (k, a) \<Longrightarrow> EthRecover x sig b' = Ok (k', a') \<Longrightarrow> b \<noteq> b'
      \<Longrightarrow> a' \<notin> v_eth_address ` set (core_validators db)"
    and needed: "0 < cfg_AttRegistrationMin cfg" "core_validators db \<noteq> []" "'''' \<notin> v_eth_address ` set (core_validators db)"
  shows "isValidAttestation x cfg db tx bh \<noteq> Ok ()"
proof
  assume valid: "isValidAttestation x cfg db tx bh = Ok ()"
  from run obtain st addrs where sent: "attestation_tx x cfg (be_uuid be) \<lparr>att_signatures = collect_attestations (\<lambda>a. map_option (\<lambda>peer. peer
        (own_registration cfg be st ethBlock spID (heightAt a))) (map_of peers a)) addrs,
        att_body = Some (AttRegistration (own_registration cfg be st ethBlock spID h))\<rparr> = Ok tx"
    by (auto simp: registerSelfOnComet_def go_simps Let_def split: if_splits)
  define reg where "reg = (\<lambda>h. own_registration cfg be st ethBlock spID h)"
  obtain att where att: "get_attestation tx = Some att" "att_body att = Some (AttRegistration (reg h))"
    and sigs: "att_signatures att = collect_attestations (\<lambda>a. map_option (\<lambda>peer. peer (reg (heightAt a))) (map_of peers a)) addrs"
    by (rule that [OF attestation_tx_OkD(1) [OF sent own]]) (simp_all add: reg_def)
  obtain b signers where b: "x_marshal_registration x (reg h) = Some b" and signers: "recoverSigners x (att_signatures att) b = Ok signers"
    and acc: "registration_acceptable x cfg db tx signers bh"
    using valid att by (auto simp: isValidAttestation_def getAttestationBodyBytes_def go_simps register_attestation_iff)
  have "a \<notin> v_eth_address ` set (core_validators db)" if a: "a \<in> set signers" for a
  proof -
    obtain sig k where sig: "sig \<in> set (att_signatures att)" "EthRecover x sig b = Ok (k, a)"
      using recoverSigners_signer [OF signers a] by blast
    then obtain a' peer where "(a', peer) \<in> set peers" "peer (reg (heightAt a')) = Ok sig"
      by (auto simp: sigs dest!: collect_attestations_sound map_of_SomeD)
    with honest obtain b' k' where b': "x_marshal_registration x (reg (heightAt a')) = Some b'" "EthRecover x sig b' = Ok (k', a')"
      by (fastforce simp: honest_peer_def)
    have "reg (heightAt a') \<noteq> reg h" using moved by (auto simp: reg_def own_registration_def)
    then have "b' \<noteq> b" using codec b b'(1) by (auto simp: inj_on_def)
    with foreign b'(2) sig(2) show ?thesis by blast
  qed
  then have "set signers \<inter> v_eth_address ` set (core_validators db) = {}" by blast
  from no_signer_not_enough [OF this needed] acc show False
    by (auto simp: registration_acceptable_def)
qed

end
