(* ===== verification/Storage_Auth.thy ===== *)
theory Storage_Auth
  imports Common
begin

text \<open>
  Who may ask a storage node for what (\<^verbatim>\<open>pkg/mediorum/server/signature\<close>, \<^verbatim>\<open>server_basic_auth.go\<close> and
  \<^verbatim>\<open>requireRegisteredSignature\<close> in \<^verbatim>\<open>serve_blob.go\<close>): peers authenticate with a signed time, users and
  registered nodes with signed data in the query. A panic in a handler is turned into an
  error answer by the server's middleware. Times are nanoseconds since the epoch.
\<close>

section \<open>Integers of any base (strconv)\<close>

definition digit_value :: "char \<Rightarrow> nat option" where
  "digit_value c =
     (let n = (of_char c :: nat); l = (of_char (to_lower c) :: nat)
      in if 48 \<le> n \<and> n \<le> 57 then Some (n - 48) else if 97 \<le> l \<and> l \<le> 122 then Some (l - 87) else None)"

fun parse_base :: "nat \<Rightarrow> nat \<Rightarrow> string \<Rightarrow> nat option" where
  "parse_base base acc [] = Some acc"
| "parse_base base acc (c # cs) =
     (if c = CHR ''_'' then parse_base base acc cs
      else case digit_value c of
        None \<Rightarrow> None
      | Some d \<Rightarrow> if d < base then parse_base base (base * acc + d) cs else None)"

text \<open>\<^verbatim>\<open>underscoreOK\<close>: underscores only between digits or after a base prefix; \<open>prev\<close> is the last class seen.\<close>

datatype seen = SeenStart | SeenDigit | SeenUnderscore | SeenOther

fun underscores_ok :: "bool \<Rightarrow> seen \<Rightarrow> string \<Rightarrow> bool" where
  "underscores_ok hex prev [] = (prev \<noteq> SeenUnderscore)"
| "underscores_ok hex prev (c # cs) =
     (if (case digit_value c of None \<Rightarrow> False | Some d \<Rightarrow> d < 10 \<or> (hex \<and> d < 16)) then underscores_ok hex SeenDigit cs
      else if c = CHR ''_'' then prev = SeenDigit \<and> underscores_ok hex SeenUnderscore cs
      else prev \<noteq> SeenUnderscore \<and> underscores_ok hex SeenOther cs)"

definition base_prefix :: "string \<Rightarrow> nat option" where
  "base_prefix s =
     (case s of
        z # c # _ \<Rightarrow>
          (if z \<noteq> CHR ''0'' then None else if to_lower c = CHR ''b'' then Some 2 else if to_lower c = CHR ''o'' then Some 8
           else if to_lower c = CHR ''x'' then Some 16 else None)
      | _ \<Rightarrow> None)"

text \<open>\<^verbatim>\<open>strconv.ParseUint(s, 0, 64)\<close> without its range check, and \<^verbatim>\<open>strconv.ParseInt(s, 0, 64)\<close>.\<close>

definition parse_uint_any :: "string \<Rightarrow> nat option" where
  "parse_uint_any s =
     (let (base, body) =
        (case (if 3 \<le> length s then base_prefix s else None) of
           Some b \<Rightarrow> (b, drop 2 s)
         | None \<Rightarrow> if s \<noteq> [] \<and> hd s = CHR ''0'' then (8, tl s) else (10, s));
        ok = (case base_prefix s of
                Some b \<Rightarrow> underscores_ok (b = 16) SeenDigit (drop 2 s)
              | None \<Rightarrow> underscores_ok False SeenStart s)
      in if s = [] \<or> (CHR ''_'' \<in> set body \<and> \<not> ok) then None else parse_base base 0 body)"

definition parse_int_any :: "string \<Rightarrow> int result" where
  "parse_int_any s =
     (let neg = has_prefix s ''-'';
          body = (if neg \<or> has_prefix s ''+'' then tl s else s)
      in case parse_uint_any body of
           None \<Rightarrow> Err (Errorf ''strconv: invalid syntax'')
         | Some n \<Rightarrow>
             if neg then if int n \<le> 2 ^ 63 then Ok (- int n) else Err (Errorf ''strconv: value out of range'')
             else if int n < 2 ^ 63 then Ok (int n) else Err (Errorf ''strconv: value out of range''))"

section \<open>Signatures of bytes\<close>

text \<open>
  \<open>sg_TextHash\<close> is \<^verbatim>\<open>accounts.TextHash\<close>, \<open>sg_EcRecoverEx\<close> the recovery of \<^verbatim>\<open>sigverify\<close> from the inner
  hash, \<open>sg_canonical\<close> the canonical form of JSON and the other two its parsers: null is an envelope
  that is nil.
\<close>

record signature_data =
  sd_UploadID :: string
  sd_Cid :: string
  sd_ShouldCache :: int
  sd_Timestamp :: int64
  sd_TrackId :: int64
  sd_UserID :: int

record sig_ext =
  sg_TextHash :: "bytes \<Rightarrow> bytes"
  sg_EcRecoverEx :: "bytes \<Rightarrow> bytes \<Rightarrow> string option"
  sg_canonical :: "bytes \<Rightarrow> bytes result"
  sg_envelope :: "string \<Rightarrow> (string \<times> string) option result"
  sg_data :: "string \<Rightarrow> signature_data result"
  sg_data_json :: "signature_data \<Rightarrow> string"
  sg_envelope_json :: "string \<times> string \<Rightarrow> string"

definition SignBytes :: "ext \<Rightarrow> sig_ext \<Rightarrow> bytes \<Rightarrow> string \<Rightarrow> bytes result" where
  "SignBytes x g input privateKey =
     (case x_Sign x (sg_TextHash g (x_keccak256 x input)) privateKey of
        None \<Rightarrow> Err (Errorf ''sign'') | Some s \<Rightarrow> Ok s)"

definition recoverSigner :: "ext \<Rightarrow> sig_ext \<Rightarrow> string \<Rightarrow> bytes \<Rightarrow> string option" where
  "recoverSigner x g input signature = sg_EcRecoverEx g (x_keccak256 x (bytes_of input)) signature"

record recovered_signature =
  rc_DataHash :: bytes
  rc_Data :: signature_data
  rc_SignerWallet :: string
  rc_SignerPubkey :: bytes

definition ParseFromQueryString :: "ext \<Rightarrow> sig_ext \<Rightarrow> string \<Rightarrow> recovered_signature result" where
  "ParseFromQueryString x g queryStringValue =
     bind_result (sg_envelope g queryStringValue) (\<lambda>envelope.
     case envelope of
       None \<Rightarrow> Panic ''nil pointer dereference''
     | Some (data, signature) \<Rightarrow>
     bind_result (sg_canonical g (bytes_of data)) (\<lambda>inner.
     let hash = x_keccak256 x inner; hash2 = sg_TextHash g hash in
     if length signature < 2 then Panic ''slice bounds out of range''
     else bind_result (hex_decode (drop 2 signature)) (\<lambda>signatureBytes.
     if length signatureBytes < 65 then Err (Errorf ''Invalid signature length'')
     else let normalized = (if signatureBytes ! 64 \<ge> 27 then signatureBytes[64 := signatureBytes ! 64 - 27] else signatureBytes)
     in case x_SigToPub x hash2 normalized of
          None \<Rightarrow> Err (Errorf ''recovery failed'')
        | Some pub \<Rightarrow> bind_result (sg_data g data) (\<lambda>d.
            Ok \<lparr>rc_DataHash = hash, rc_Data = d, rc_SignerWallet = x_PubkeyToAddress x pub,
                rc_SignerPubkey = x_CompressPubkey x pub\<rparr>))))"

definition GenerateQueryStringFromSignatureData ::
    "ext \<Rightarrow> sig_ext \<Rightarrow> signature_data \<Rightarrow> string \<Rightarrow> string result" where
  "GenerateQueryStringFromSignatureData x g data privKey =
     (let dataBytes = sg_data_json g data in
     bind_result (wrap_err ''jcs.Transform'' (sg_canonical g (bytes_of dataBytes))) (\<lambda>canonicalJSON.
     case x_Sign x (sg_TextHash g (x_keccak256 x canonicalJSON)) privKey of
       None \<Rightarrow> Err (Errorf ''crypto.Sign'')
     | Some sig \<Rightarrow>
         let sigBytes = (if length sig = 65 then sig[64 := sig ! 64 + 27] else sig)
         in Ok (sg_envelope_json g (dataBytes, ''0x'' @ hex_encode sigBytes))))"

section \<open>Basic authentication between nodes\<close>

record auth_peer =
  pr_Host :: string
  pr_Wallet :: string

text \<open>
  The configuration the checks read; without a key the node is in development mode.
\<close>

record auth_config =
  ac_privateKey :: "string option"
  ac_SelfWallet :: string
  ac_Peers :: "auth_peer list"
  ac_Signers :: "auth_peer list"

text \<open>User and password; a failing signature panics.\<close>

definition basicAuthNonce :: "ext \<Rightarrow> sig_ext \<Rightarrow> string option \<Rightarrow> int \<Rightarrow> (string \<times> string) result" where
  "basicAuthNonce x g privateKey now =
     (case privateKey of
        None \<Rightarrow> Ok (''dev'', ''mode'')
      | Some key \<Rightarrow>
          let ts = format_int (wrap64 (now div 1000000)) in
          case SignBytes x g (bytes_of ts) key of
            Ok signature \<Rightarrow> Ok (ts, ''0x'' @ hex_encode signature)
          | _ \<Rightarrow> Panic ''sign'')"

definition hour :: int where
  "hour = 3600 * 1000000000"

definition checkBasicAuth :: "ext \<Rightarrow> sig_ext \<Rightarrow> auth_config \<Rightarrow> int \<Rightarrow> string \<Rightarrow> string \<Rightarrow> bool result" where
  "checkBasicAuth x g ac now user pass =
     (if ac_privateKey ac = None then Ok True
      else bind_result (wrap_err ''basic auth: invalid ts'' (parse_int_any user)) (\<lambda>ts.
      if now - ts * 1000000 > hour then Err (Errorf ''basic auth: ts too old'')
      else if length pass < 2 then Panic ''slice bounds out of range''
      else bind_result (wrap_err ''basic auth: signature not hex'' (hex_decode (drop 2 pass))) (\<lambda>sig.
      case recoverSigner x g user sig of
        None \<Rightarrow> Err (Errorf ''basic auth: invalid signature'')
      | Some wallet \<Rightarrow>
          if list_ex (\<lambda>peer. equal_fold (pr_Wallet peer) wallet) (ac_Peers ac) then Ok True
          else Err (Errorf ''basic auth: wallet not in peer list''))))"

section \<open>Signatures in the query\<close>

text \<open>A middleware either refuses with a message or passes on, the user's with the signer's wallet.\<close>

datatype 'a gate = Refuse string | Pass 'a

definition too_old :: "int \<Rightarrow> signature_data \<Rightarrow> bool" where
  "too_old now d \<longleftrightarrow> now - go_div (sd_Timestamp d) 1000 * 1000000000 > 48 * hour"

definition requireUserSignature ::
    "ext \<Rightarrow> sig_ext \<Rightarrow> int \<Rightarrow> string \<Rightarrow> string \<Rightarrow> string gate result" where
  "requireUserSignature x g now uploadId query =
     (case ParseFromQueryString x g query of
        Panic p \<Rightarrow> Panic p
      | Err e \<Rightarrow> Ok (Refuse ''invalid signature'')
      | Ok sig \<Rightarrow>
          if uploadId \<noteq> '''' \<and> sd_UploadID (rc_Data sig) \<noteq> uploadId then Ok (Refuse ''signature contains incorrect ID'')
          else if too_old now (rc_Data sig) then Ok (Refuse ''signature too old'')
          else Ok (Pass (rc_SignerWallet sig)))"

definition requireBodySignedByOwner ::
    "ext \<Rightarrow> sig_ext \<Rightarrow> auth_config \<Rightarrow> int \<Rightarrow> string \<Rightarrow> bytes result \<Rightarrow> unit gate result" where
  "requireBodySignedByOwner x g ac now query body =
     (case ParseFromQueryString x g query of
        Panic p \<Rightarrow> Panic p
      | Err e \<Rightarrow> Ok (Refuse ''invalid signature'')
      | Ok sig \<Rightarrow>
     (case body of
        Ok bodyBytes \<Rightarrow>
     (case sg_canonical g bodyBytes of
        Ok sortedBody \<Rightarrow>
          if x_keccak256 x sortedBody \<noteq> rc_DataHash sig then Ok (Refuse ''signature mismatch'')
          else if too_old now (rc_Data sig) then Ok (Refuse ''signature too old'')
          else if \<not> equal_fold (rc_SignerWallet sig) (ac_SelfWallet ac) then Ok (Refuse ''signature not from owner'')
          else Ok (Pass ())
      | _ \<Rightarrow> Ok (Refuse ''failed to sort POST body bytes''))
      | _ \<Rightarrow> Ok (Refuse ''failed to read POST body bytes'')))"

definition requireRegisteredSignature ::
    "ext \<Rightarrow> sig_ext \<Rightarrow> auth_config \<Rightarrow> int \<Rightarrow> string \<Rightarrow> string \<Rightarrow> string \<Rightarrow> unit gate result" where
  "requireRegisteredSignature x g ac now cid uploadID query =
     (case ParseFromQueryString x g query of
        Panic p \<Rightarrow> Panic p
      | Err e \<Rightarrow> Ok (Refuse ''invalid signature'')
      | Ok sig \<Rightarrow>
          let isRegistered = list_ex (\<lambda>peer. equal_fold (pr_Wallet peer) (rc_SignerWallet sig)) (ac_Signers ac)
                \<or> list_ex (\<lambda>peer. equal_fold (pr_Wallet peer) (rc_SignerWallet sig)) (ac_Peers ac)
          in if \<not> isRegistered then Ok (Refuse ''signer not in list of registered nodes'')
             else if too_old now (rc_Data sig) then Ok (Refuse ''signature too old'')
             else if sd_Cid (rc_Data sig) \<noteq> cid then Ok (Refuse ''signature contains incorrect CID'')
             else if sd_UploadID (rc_Data sig) \<noteq> uploadID then Ok (Refuse ''signature contains incorrect upload ID'')
             else Ok (Pass ()))"

section \<open>Round trips\<close>

lemma format_nat_digits: "c \<in> set (format_nat n) \<Longrightarrow> 48 \<le> (of_char c :: nat) \<and> (of_char c :: nat) \<le> 57"
proof (induction n rule: format_nat.induct)
  case (1 n)
  then show ?case by (subst (asm) (2) format_nat.simps) (auto split: if_splits)
qed

lemma hd_format_nat: "0 < n \<Longrightarrow> format_nat n \<noteq> [] \<and> hd (format_nat n) \<noteq> CHR ''0''"
proof (induction n rule: format_nat.induct)
  case (1 n)
  show ?case
  proof (cases "n < 10")
    case True
    then have "(of_char (char_of (48 + n) :: char) :: nat) = 48 + n" by simp
    with 1(2) True show ?thesis
      by (subst (1 2) format_nat.simps) (auto dest: arg_cong [where f = "of_char :: char \<Rightarrow> nat"])
  next
    case False
    with 1(1) show ?thesis by (subst (1 2) format_nat.simps) auto
  qed
qed

lemma parse_base_digits:
  assumes "\<And>c. c \<in> set s \<Longrightarrow> 48 \<le> (of_char c :: nat) \<and> (of_char c :: nat) \<le> 57"
  shows "parse_base 10 acc s = parse_digits acc s" and "CHR ''_'' \<notin> set s"
proof -
  show us: "CHR ''_'' \<notin> set s" using assms [of "CHR ''_''"] by auto
  show "parse_base 10 acc s = parse_digits acc s"
    using assms us
  proof (induction s arbitrary: acc)
    case (Cons c s)
    have c: "48 \<le> (of_char c :: nat)" "(of_char c :: nat) \<le> 57" "c \<noteq> CHR ''_''" using Cons.prems(1) [of c] Cons.prems(2) by auto
    then have "(of_char c :: nat) - 48 < 10" by linarith
    with c Cons show ?case by (simp add: digit_value_def digit_val_def Let_def)
  qed simp
qed

lemma parse_int_any_format:
  assumes "0 \<le> i" and "i < 2 ^ 63"
  shows "parse_int_any (format_int i) = Ok i"
proof -
  obtain n where n: "i = int n" using assms(1) nonneg_int_cases by blast
  note dig = parse_base_digits [OF format_nat_digits]
  have "parse_uint_any (format_nat n) = Some n"
  proof (cases "n = 0")
    case True
    moreover have "parse_uint_any (format_nat 0) = Some 0" by code_simp
    ultimately show ?thesis by simp
  next
    case False
    then have hd: "format_nat n \<noteq> []" "hd (format_nat n) \<noteq> CHR ''0''" using hd_format_nat [of n] by auto
    then have "base_prefix (format_nat n) = None"
      by (cases "format_nat n") (auto simp: base_prefix_def split: list.splits)
    with hd dig show ?thesis by (simp add: parse_uint_any_def)
  qed
  with n assms(2) show ?thesis by (simp add: parse_int_any_def format_int_def format_nat_not_sign Let_def)
qed

text \<open>
  What the recovery of \<^verbatim>\<open>sigverify\<close> is relied on for: it undoes \<^verbatim>\<open>Sign\<close> with a key of a wallet.
\<close>

definition auth_key :: "ext \<Rightarrow> sig_ext \<Rightarrow> string \<Rightarrow> string \<Rightarrow> bool" where
  "auth_key x g key wallet \<longleftrightarrow>
     (\<forall>h s. x_Sign x (sg_TextHash g h) key = Some s \<longrightarrow> sg_EcRecoverEx g h s = Some wallet)"

text \<open>
  The credentials a node makes with its key are accepted by another node exactly when they are
  at most an hour old by the other's clock and the key's wallet is in its list of peers, up to
  case.
\<close>

theorem basic_auth_roundtrip:
  assumes "basicAuthNonce x g (Some key) sent = Ok (user, pass)" and "auth_key x g key wallet"
    and "ac_privateKey ac \<noteq> None" and "0 \<le> sent" and "sent < 2 ^ 63"
  shows "checkBasicAuth x g ac now user pass = Ok True \<longleftrightarrow>
    now - sent div 1000000 * 1000000 \<le> hour \<and> (\<exists>peer \<in> set (ac_Peers ac). equal_fold (pr_Wallet peer) wallet)"
proof -
  have ms: "0 \<le> sent div 1000000" "sent div 1000000 < 2 ^ 63" using assms(4,5) by linarith+
  then have ts: "wrap64 (sent div 1000000) = sent div 1000000" by (simp add: wrap64_small)
  with assms(1) obtain s where user: "user = format_int (sent div 1000000)" and pass: "pass = ''0x'' @ hex_encode s"
    and s: "x_Sign x (sg_TextHash g (x_keccak256 x (bytes_of user))) key = Some s"
    by (auto simp: basicAuthNonce_def SignBytes_def Let_def split: option.splits result.splits)
  have "recoverSigner x g user s = Some wallet" using assms(2) s by (simp add: auth_key_def recoverSigner_def)
  moreover have "parse_int_any user = Ok (sent div 1000000)" unfolding user using ms by (rule parse_int_any_format)
  ultimately show ?thesis using assms(3) by (auto simp: checkBasicAuth_def pass list_ex_iff)
qed

text \<open>
  Credentials for a time in the future are accepted until an hour after that time: a signature
  of a far future never expires.
\<close>

theorem future_credentials:
  assumes "parse_int_any user = Ok ts" and "now \<le> ts * 1000000" and "ac_privateKey ac \<noteq> None"
    and "hex_decode (drop 2 pass) = Ok sig" and "2 \<le> length pass" and "recoverSigner x g user sig = Some (pr_Wallet peer)"
    and "peer \<in> set (ac_Peers ac)"
  shows "checkBasicAuth x g ac now user pass = Ok True"
proof -
  have "list_ex (\<lambda>p. equal_fold (pr_Wallet p) (pr_Wallet peer)) (ac_Peers ac)"
    using assms(7) by (auto simp: list_ex_iff intro: bexI [of _ peer])
  with assms show ?thesis by (simp add: checkBasicAuth_def hour_def)
qed

lemma recovery_id_shift: "(b :: byte) < 229 \<Longrightarrow> 27 \<le> b + 27"
  by (simp add: word_le_nat_alt word_less_nat_alt unat_word_ariths)

text \<open>
  (C30) A query signed by a registered node opens exactly the content and upload it names, for two
  days from its timestamp: the string made from the data parses back to it with the wallet of the key.
  The hypotheses are that JSON parses what it prints, that signatures have 65 bytes, the last
  below 229, and that recovery undoes signing.
\<close>

theorem signed_query_roundtrip:
  assumes "GenerateQueryStringFromSignatureData x g d key = Ok query"
    and "\<And>e. sg_envelope g (sg_envelope_json g e) = Ok (Some e)" and "sg_data g (sg_data_json g d) = Ok d"
    and "\<And>h s. x_Sign x h key = Some s \<Longrightarrow> length s = 65 \<and> s ! 64 < 229 \<and> x_SigToPub x h s = Some pub"
  shows "requireRegisteredSignature x g ac now cid uploadID query = Ok (Pass ()) \<longleftrightarrow>
    (\<exists>peer \<in> set (ac_Signers ac) \<union> set (ac_Peers ac). equal_fold (pr_Wallet peer) (x_PubkeyToAddress x pub))
    \<and> now - go_div (sd_Timestamp d) 1000 * 1000000000 \<le> 48 * hour \<and> cid = sd_Cid d \<and> uploadID = sd_UploadID d"
proof -
  from assms(1) obtain c s where c: "sg_canonical g (bytes_of (sg_data_json g d)) = Ok c"
    and s: "x_Sign x (sg_TextHash g (x_keccak256 x c)) key = Some s"
    and query: "query = sg_envelope_json g (sg_data_json g d, ''0x'' @ hex_encode (if length s = 65 then s[64 := s ! 64 + 27] else s))"
    by (auto simp: GenerateQueryStringFromSignatureData_def Let_def go_simps split: option.splits)
  note sig = assms(4) [OF s]
  from recovery_id_shift sig have "27 \<le> s ! 64 + 27" by blast
  then have parsed: "ParseFromQueryString x g query = Ok \<lparr>rc_DataHash = x_keccak256 x c, rc_Data = d,
      rc_SignerWallet = x_PubkeyToAddress x pub, rc_SignerPubkey = x_CompressPubkey x pub\<rparr>"
    using sig c assms(2,3) by (simp add: ParseFromQueryString_def query Let_def)
  show ?thesis
    by (auto simp: requireRegisteredSignature_def parsed Let_def list_ex_iff too_old_def)
qed

text \<open>
  A transparent instance: keys are wallets, a signature is the key padded to 65 bytes, an envelope
  is written as the length of its data in unary, the data and the signature.
\<close>

definition demo_pad :: "string \<Rightarrow> bytes" where
  "demo_pad key = take 65 (bytes_of key @ replicate 65 0)"

definition demo_auth_ext :: ext where
  "demo_auth_ext = demo_ext\<lparr>x_Sign := (\<lambda>h k. Some (demo_pad k)), x_SigToPub := (\<lambda>h s. Some (take 3 s))\<rparr>"

definition demo_signature_data :: signature_data where
  "demo_signature_data = \<lparr>sd_UploadID = '''', sd_Cid = ''cid'', sd_ShouldCache = 1, sd_Timestamp = 5000,
     sd_TrackId = 1, sd_UserID = 2\<rparr>"

definition demo_sig :: sig_ext where
  "demo_sig = \<lparr>sg_TextHash = id, sg_EcRecoverEx = (\<lambda>h s. Some (string_of (take 3 s))), sg_canonical = Ok,
     sg_envelope = (\<lambda>q. let n = length (takeWhile (\<lambda>c. c = CHR ''n'') q); r = drop (Suc n) q in Ok (Some (take n r, drop n r))),
     sg_data = (\<lambda>_. Ok demo_signature_data), sg_data_json = (\<lambda>_. ''data''),
     sg_envelope_json = (\<lambda>(d, s). replicate (length d) (CHR ''n'') @ CHR ''.'' # d @ s)\<rparr>"

definition demo_auth :: auth_config where
  "demo_auth = \<lparr>ac_privateKey = Some ''me'', ac_SelfWallet = ''me'', ac_Peers = [\<lparr>pr_Host = ''h'', pr_Wallet = ''KEY''\<rparr>], ac_Signers = []\<rparr>"

theorem basic_auth_roundtrip_witness:
  "\<exists>user pass. basicAuthNonce demo_auth_ext demo_sig (Some ''key'') 7000000 = Ok (user, pass)
     \<and> checkBasicAuth demo_auth_ext demo_sig demo_auth 9000000 user pass = Ok True"
proof -
  have "is_ok (basicAuthNonce demo_auth_ext demo_sig (Some ''key'') 7000000)" by code_simp
  then obtain user pass where up: "basicAuthNonce demo_auth_ext demo_sig (Some ''key'') 7000000 = Ok (user, pass)"
    by (auto simp: is_ok_iff)
  have "string_of (take 3 (demo_pad ''key'')) = ''key''" by code_simp
  then have key: "auth_key demo_auth_ext demo_sig ''key'' ''key''"
    by (simp add: auth_key_def demo_auth_ext_def demo_sig_def)
  have "equal_fold ''KEY'' ''key''" by code_simp
  with basic_auth_roundtrip [OF up key, of demo_auth 9000000] up show ?thesis
    by (auto simp: demo_auth_def hour_def)
qed

theorem signed_query_roundtrip_witness:
  "\<exists>query. GenerateQueryStringFromSignatureData demo_auth_ext demo_sig demo_signature_data ''key'' = Ok query
     \<and> requireRegisteredSignature demo_auth_ext demo_sig demo_auth 6000000000 ''cid'' '''' query = Ok (Pass ())"
proof -
  have "is_ok (GenerateQueryStringFromSignatureData demo_auth_ext demo_sig demo_signature_data ''key'')" by code_simp
  then obtain query where q: "GenerateQueryStringFromSignatureData demo_auth_ext demo_sig demo_signature_data ''key'' = Ok query"
    by (auto simp: is_ok_iff)
  have pad: "length (demo_pad ''key'') = 65 \<and> demo_pad ''key'' ! 64 < 229 \<and> take 3 (demo_pad ''key'') = bytes_of ''key''" by code_simp
  have codec: "sg_envelope demo_sig (sg_envelope_json demo_sig e) = Ok (Some e)" for e
  proof (cases e)
    case (Pair a b)
    have "takeWhile (\<lambda>c. c = CHR ''n'') (replicate k (CHR ''n'') @ CHR ''.'' # r) = replicate k (CHR ''n'')" for k r
      by (induction k) auto
    with Pair show ?thesis by (simp add: demo_sig_def)
  qed
  have fold: "equal_fold ''KEY'' (x_PubkeyToAddress demo_auth_ext (bytes_of ''key''))" by code_simp
  have "requireRegisteredSignature demo_auth_ext demo_sig demo_auth 6000000000 ''cid'' '''' query = Ok (Pass ()) \<longleftrightarrow>
      (\<exists>peer \<in> set (ac_Signers demo_auth) \<union> set (ac_Peers demo_auth). equal_fold (pr_Wallet peer) (x_PubkeyToAddress demo_auth_ext (bytes_of ''key'')))
      \<and> 6000000000 - go_div (sd_Timestamp demo_signature_data) 1000 * 1000000000 \<le> 48 * hour
      \<and> ''cid'' = sd_Cid demo_signature_data \<and> '''' = sd_UploadID demo_signature_data"
    by (rule signed_query_roundtrip [OF q codec]) (use pad in \<open>auto simp: demo_sig_def demo_auth_ext_def\<close>)
  with q fold show ?thesis by (auto simp: demo_auth_def demo_signature_data_def go_div_def hour_def)
qed

end
