(* ===== verification/Play_Queue.thy ===== *)
theory Play_Queue
  imports Storage_Auth "HOL-Library.AList" "HOL-Library.Multiset"
begin

text \<open>
  Plays on their way to the chain (\<^verbatim>\<open>logTrackListen\<close> in \<^verbatim>\<open>serve_blob.go\<close> and \<^verbatim>\<open>play_event_queue.go\<close>): a
  stream that was asked for with a signature queues a play, and a ticker sends the queue in batches to
  the consensus core as transactions of plays.
\<close>

section \<open>The queue\<close>

record play_event =
  pv_UserID :: string
  pv_TrackID :: string
  pv_PlayTime :: timestamp
  pv_Signature :: string
  pv_City :: string
  pv_Region :: string
  pv_Country :: string
  pv_RequestSignature :: string

definition playBatch :: nat where
  "playBatch = 500"

definition pushPlayEvent :: "play_event \<Rightarrow> play_event list \<Rightarrow> play_event list" where
  "pushPlayEvent play plays = plays @ [play]"

definition popPlayEventBatch :: "play_event list \<Rightarrow> play_event list \<times> play_event list" where
  "popPlayEventBatch plays = (let batchSize = min (length plays) playBatch in (take batchSize plays, drop batchSize plays))"

text \<open>
  \<open>listen\<close> is the answer of \<^verbatim>\<open>GenerateListenTimestampAndSignature\<close> (the clock and its text format), and
  \<open>geo\<close> the city, region and country of the caller's address, or no answer.
\<close>

definition logTrackListen ::
    "ext \<Rightarrow> sig_ext \<Rightarrow> auth_config \<Rightarrow> (timestamp \<times> string) result \<Rightarrow> (string \<times> string \<times> string) result
     \<Rightarrow> bool \<Rightarrow> string \<Rightarrow> play_event list \<Rightarrow> unit result \<times> play_event list" where
  "logTrackListen x g ac listen geo skipPlayCount query plays =
     (if skipPlayCount then (Ok (), plays)
      else case ParseFromQueryString x g query of
        Panic p \<Rightarrow> (Panic p, plays)
      | Err e \<Rightarrow> (Ok (), plays)
      | Ok sig \<Rightarrow>
     (case (listen, geo) of
        (Ok (time, signature), Ok (city, region, country)) \<Rightarrow>
          (Ok (), pushPlayEvent
            \<lparr>pv_UserID = (if sd_UserID (rc_Data sig) \<noteq> 0 then format_int (sd_UserID (rc_Data sig)) else ac_SelfWallet ac),
             pv_TrackID = format_int (sd_TrackId (rc_Data sig)), pv_PlayTime = time, pv_Signature = signature,
             pv_City = city, pv_Region = region, pv_Country = country, pv_RequestSignature = query\<rparr> plays)
      | _ \<Rightarrow> (Ok (), plays)))"

section \<open>Sending a batch\<close>

definition core_play :: "play_event \<Rightarrow> track_play" where
  "core_play play = \<lparr>tp_user_id = pv_UserID play, tp_track_id = pv_TrackID play, tp_timestamp = Some (pv_PlayTime play),
     tp_signature = pv_Signature play, tp_city = pv_City play, tp_region = pv_Region play, tp_country = pv_Country play\<rparr>"

definition uniquePlays :: "play_event list \<Rightarrow> (string \<times> track_play) list" where
  "uniquePlays plays = fold (\<lambda>play m. AList.update (pv_RequestSignature play) (core_play play) m) plays []"

definition SignCoreBytes :: "ext \<Rightarrow> sig_ext \<Rightarrow> ('m \<Rightarrow> bytes option) \<Rightarrow> 'm \<Rightarrow> string \<Rightarrow> string result" where
  "SignCoreBytes x g enc input privateKey =
     bind_result (marshal enc input) (\<lambda>bs. map_result hex_encode (SignBytes x g bs privateKey))"

text \<open>
  \<open>walk\<close> is the order in which the map of plays is walked, \<open>enc\<close> the marshaller of plays and \<open>send\<close> the answer
  of \<^verbatim>\<open>SendTransaction\<close>, whose panic is recovered. The result is the transaction that was recorded,
  with the queue that is left.
\<close>

definition processPlayRecordBatch ::
    "ext \<Rightarrow> sig_ext \<Rightarrow> string \<Rightarrow> (track_play list \<Rightarrow> bytes option) \<Rightarrow> (track_play list \<Rightarrow> track_play list)
     \<Rightarrow> (signed_transaction \<Rightarrow> string result) \<Rightarrow> play_event list \<Rightarrow> signed_transaction option result \<times> play_event list" where
  "processPlayRecordBatch x g key enc walk send queue =
     (let (plays, rest) = popPlayEventBatch queue in
      if plays = [] then (Ok None, rest)
      else let corePlays = walk (map snd (uniquePlays plays)) in
        (bind_result (SignCoreBytes x g enc corePlays key) (\<lambda>sig.
         let signedTx = \<lparr>st_signature = sig, st_request_id = '''', st_transaction = Some (TxPlays corePlays)\<rparr>
         in case send signedTx of
              Ok _ \<Rightarrow> Ok (Some signedTx)
            | Err e \<Rightarrow> Err e
            | Panic p \<Rightarrow> Err (Errorf ''panic in SendTransaction'')), rest))"

text \<open>The transactions recorded by so many ticks, and the queue afterwards.\<close>

fun play_ticks ::
    "(play_event list \<Rightarrow> signed_transaction option result \<times> play_event list) \<Rightarrow> nat \<Rightarrow> play_event list
     \<Rightarrow> signed_transaction list \<times> play_event list" where
  "play_ticks tick 0 queue = ([], queue)"
| "play_ticks tick (Suc n) queue =
     (case tick queue of (r, queue') \<Rightarrow>
      case play_ticks tick n queue' of (txs, queue'') \<Rightarrow>
        ((case r of Ok (Some tx) \<Rightarrow> tx # txs | _ \<Rightarrow> txs), queue''))"

definition plays_of :: "signed_transaction \<Rightarrow> track_play list" where
  "plays_of tx = (case get_plays tx of None \<Rightarrow> [] | Some ps \<Rightarrow> ps)"

section \<open>Every play is recorded\<close>

text \<open>What a batch is worth: of the plays asked for with one signature, the last that was queued.\<close>

fun last_requests :: "play_event list \<Rightarrow> play_event list" where
  "last_requests [] = []"
| "last_requests (p # ps) =
     (if pv_RequestSignature p \<in> pv_RequestSignature ` set ps then last_requests ps else p # last_requests ps)"

lemma last_requests_subset: "set (last_requests ps) \<subseteq> set ps"
  by (induction ps) auto

lemma last_requests_signatures: "pv_RequestSignature ` set (last_requests ps) = pv_RequestSignature ` set ps"
  by (induction ps) auto

lemma last_requests_distinct: "distinct (map pv_RequestSignature (last_requests ps))"
  by (induction ps) (auto dest: last_requests_subset [THEN subsetD])

lemma last_requests_same: "distinct (map pv_RequestSignature ps) \<Longrightarrow> last_requests ps = ps"
  by (induction ps) auto

lemma last_requests_length: "length (last_requests ps) \<le> length ps"
  by (induction ps) auto

lemma mset_update:
  "distinct (map fst al) \<Longrightarrow> mset (AList.update k v al) = {#(k, v)#} + filter_mset (\<lambda>e. fst e \<noteq> k) (mset al)"
proof (induction al)
  case (Cons e al)
  have "filter_mset (\<lambda>e. fst e \<noteq> k) (mset al) = mset al" if "k \<notin> fst ` set al"
    using that by (intro filter_mset_cong [THEN trans, OF refl _ filter_mset_True]) force
  with Cons show ?case by (cases e) auto
qed simp

lemma mset_uniquePlays:
  "mset (uniquePlays plays) = mset (map (\<lambda>p. (pv_RequestSignature p, core_play p)) (last_requests plays))"
proof -
  let ?upd = "\<lambda>play m. AList.update (pv_RequestSignature play) (core_play play) m"
  have "mset (fold ?upd plays m) = mset (map (\<lambda>p. (pv_RequestSignature p, core_play p)) (last_requests plays))
      + filter_mset (\<lambda>e. fst e \<notin> pv_RequestSignature ` set plays) (mset m)" if "distinct (map fst m)" for m
    using that
  proof (induction plays arbitrary: m)
    case (Cons a plays)
    have "distinct (map fst (?upd a m))" using Cons.prems by (rule distinct_update)
    with Cons show ?case by (auto simp: mset_update filter_filter_mset intro: filter_mset_cong)
  qed simp
  from this [of "[]"] show ?thesis by (simp add: uniquePlays_def)
qed

lemma popPlayEventBatch_eq: "popPlayEventBatch plays = (take playBatch plays, drop playBatch plays)"
  by (cases "length plays \<le> playBatch") (simp_all add: popPlayEventBatch_def min_def)

lemma processPlayRecordBatch_rest:
  "snd (processPlayRecordBatch x g key enc walk send queue) = drop playBatch queue"
  by (simp add: processPlayRecordBatch_def popPlayEventBatch_eq Let_def)

lemma processPlayRecordBatch_Ok:
  assumes "queue \<noteq> []" and "\<And>ps. mset (walk ps) = mset ps" and "\<And>ps. enc ps \<noteq> None" and "\<And>h. x_Sign x h key \<noteq> None"
    and "\<And>tx. is_ok (send tx)"
  shows "\<exists>tx. fst (processPlayRecordBatch x g key enc walk send queue) = Ok (Some tx)
    \<and> mset (plays_of tx) = mset (map core_play (last_requests (take playBatch queue)))"
proof -
  let ?plays = "take playBatch queue"
  let ?core = "walk (map snd (uniquePlays ?plays))"
  have ne: "?plays \<noteq> []" using assms(1) by (simp add: playBatch_def)
  obtain sig where sig: "SignCoreBytes x g enc ?core key = Ok sig"
  proof -
    obtain b where b: "enc ?core = Some b" using assms(3) by blast
    obtain s where "x_Sign x (sg_TextHash g (x_keccak256 x b)) key = Some s" using assms(4) by blast
    with b that show thesis by (simp add: SignCoreBytes_def SignBytes_def marshal_def)
  qed
  let ?tx = "\<lparr>st_signature = sig, st_request_id = '''', st_transaction = Some (TxPlays ?core)\<rparr>"
  obtain h where sent: "send ?tx = Ok h" using assms(5) [of ?tx] unfolding is_ok_iff ..
  have "fst (processPlayRecordBatch x g key enc walk send queue) = Ok (Some ?tx)"
    unfolding processPlayRecordBatch_def popPlayEventBatch_eq Let_def prod.case sig bind_result.simps sent if_not_P [OF ne]
    by simp
  moreover have "mset (map snd (uniquePlays ?plays)) = mset (map core_play (last_requests ?plays))"
    unfolding mset_map [of snd] mset_uniquePlays by (simp add: multiset.map_comp comp_def)
  ultimately show ?thesis using assms(2) by (auto simp: plays_of_def get_plays_def)
qed

text \<open>The batches of a queue, and how many there are.\<close>

definition play_batches :: "play_event list \<Rightarrow> play_event list list" where
  "play_batches queue = map (\<lambda>i. take playBatch (drop (playBatch * i) queue)) [0 ..< (length queue + (playBatch - 1)) div playBatch]"

lemma play_batches_Nil [simp]: "play_batches [] = []"
  by (simp add: play_batches_def playBatch_def)

lemma play_batches_step:
  assumes "queue \<noteq> []"
  shows "play_batches queue = take playBatch queue # play_batches (drop playBatch queue)"
proof -
  let ?rest = "drop playBatch queue"
  have "(length queue + (playBatch - 1)) div playBatch = Suc ((length ?rest + (playBatch - 1)) div playBatch)"
  proof (cases "length queue \<le> playBatch")
    case True
    with assms have "0 < length queue" "length queue \<le> 500" by (simp_all add: playBatch_def)
    then have "(length queue + 499) div 500 = 1" by arith
    with True show ?thesis by (simp add: playBatch_def)
  next
    case False
    then have "length queue + 499 = (length ?rest + 499) + 500" by (simp add: playBatch_def)
    then show ?thesis by (simp add: playBatch_def)
  qed
  then show ?thesis unfolding play_batches_def by (simp add: upt_conv_Cons map_Suc_upt [symmetric] comp_def add.commute del: upt_Suc)
qed

lemma play_batches_concat: "concat (play_batches queue) = queue"
proof (induction "length queue" arbitrary: queue rule: less_induct)
  case less
  show ?case
  proof (cases "queue = []")
    case False
    then have "length (drop playBatch queue) < length queue" by (simp add: playBatch_def)
    with less have "concat (play_batches (drop playBatch queue)) = drop playBatch queue" by blast
    with False show ?thesis by (simp add: play_batches_step)
  qed simp
qed

text \<open>
  (C31) When every submission succeeds, as many ticks as the queue has batches of five hundred leave the queue
  empty and record one transaction for each batch, in their order. It holds exactly one play for each request
  signature of the batch, the last that was queued with it, and so at most five hundred. (A batch that is
  refused is lost, and a signature counts again in another batch: see below.)
\<close>

theorem plays_recorded_once:
  assumes "length queue \<le> playBatch * n"
    and "\<And>ps. mset (walk ps) = mset ps" and "\<And>ps. enc ps \<noteq> None" and "\<And>h. x_Sign x h key \<noteq> None"
    and "\<And>tx. is_ok (send tx)"
    and "play_ticks (processPlayRecordBatch x g key enc walk send) n queue = (txs, queue')"
  shows "queue' = []
    \<and> map (\<lambda>tx. mset (plays_of tx)) txs = map (\<lambda>batch. mset (map core_play (last_requests batch))) (play_batches queue)
    \<and> (\<forall>tx \<in> set txs. length (plays_of tx) \<le> 500)"
  using assms(1,6)
proof (induction n arbitrary: queue txs queue')
  case (Suc n)
  let ?tick = "processPlayRecordBatch x g key enc walk send"
  let ?rest = "drop playBatch queue"
  obtain txs0 where rest: "play_ticks ?tick n ?rest = (txs0, queue')"
    and txs: "txs = (case fst (?tick queue) of Ok (Some tx) \<Rightarrow> tx # txs0 | _ \<Rightarrow> txs0)"
    using Suc.prems(2) processPlayRecordBatch_rest [of x g key enc walk send queue]
    by (cases "?tick queue") (auto split: prod.splits)
  have "length ?rest \<le> playBatch * n" using Suc.prems(1) by simp
  then have IH: "queue' = []"
    "map (\<lambda>tx. mset (plays_of tx)) txs0 = map (\<lambda>batch. mset (map core_play (last_requests batch))) (play_batches ?rest)"
    "\<forall>tx \<in> set txs0. length (plays_of tx) \<le> 500" using Suc.IH rest by blast+
  show ?case
  proof (cases "queue = []")
    case True
    then have "fst (?tick queue) = Ok None" by (simp add: processPlayRecordBatch_def popPlayEventBatch_eq)
    with IH txs True show ?thesis by simp
  next
    case False
    from processPlayRecordBatch_Ok [of queue walk enc x key send g, OF False assms(2-5)]
    obtain tx where tx: "fst (?tick queue) = Ok (Some tx)"
      "mset (plays_of tx) = mset (map core_play (last_requests (take playBatch queue)))" by blast
    then have "length (plays_of tx) = length (last_requests (take playBatch queue))" by (metis length_map size_mset)
    also have "\<dots> \<le> 500" using last_requests_length [of "take playBatch queue"] by (simp add: playBatch_def)
    finally show ?thesis using IH txs tx False by (simp add: play_batches_step)
  qed
qed simp

text \<open>
  A batch that is refused is lost: it has left the queue, whatever the answer was.
\<close>

theorem refused_batch_lost:
  assumes "\<And>tx. \<not> is_ok (send tx)" and "length queue \<le> playBatch"
  shows "play_ticks (processPlayRecordBatch x g key enc walk send) n queue = ([], if n = 0 then queue else [])"
proof -
  have none: "fst (processPlayRecordBatch x g key enc walk send q) \<noteq> Ok (Some tx)" for q tx
    using assms(1) by (auto simp: processPlayRecordBatch_def popPlayEventBatch_eq Let_def go_simps split: result.splits prod.splits)
  have "play_ticks (processPlayRecordBatch x g key enc walk send) n q = ([], if n = 0 then q else [])" if "length q \<le> playBatch" for n q
    using that
  proof (induction n arbitrary: q)
    case (Suc n)
    have "snd (processPlayRecordBatch x g key enc walk send q) = []"
      using Suc.prems by (simp add: processPlayRecordBatch_rest)
    then show ?case
      using Suc.IH [of "[]"] none [of q] by (cases "processPlayRecordBatch x g key enc walk send q")
        (auto split: result.splits option.splits)
  qed simp
  with assms(2) show ?thesis by blast
qed

definition demo_play :: "string \<Rightarrow> string \<Rightarrow> play_event" where
  "demo_play user sig = \<lparr>pv_UserID = user, pv_TrackID = ''2'', pv_PlayTime = \<lparr>ts_seconds = 5, ts_nanos = 0\<rparr>, pv_Signature = '''',
     pv_City = '''', pv_Region = '''', pv_Country = '''', pv_RequestSignature = sig\<rparr>"

theorem plays_recorded_once_witness:
  "\<exists>txs. play_ticks (processPlayRecordBatch demo_auth_ext demo_sig ''key'' (\<lambda>_. Some []) rev (\<lambda>_. Ok ''hash'')) 1
       [demo_play ''1'' ''a'', demo_play ''2'' ''b'', demo_play ''3'' ''a''] = (txs, [])
     \<and> map (\<lambda>tx. mset (plays_of tx)) txs = [{#core_play (demo_play ''2'' ''b''), core_play (demo_play ''3'' ''a'')#}]"
proof -
  let ?queue = "[demo_play ''1'' ''a'', demo_play ''2'' ''b'', demo_play ''3'' ''a'']"
  obtain txs queue' where run: "play_ticks (processPlayRecordBatch demo_auth_ext demo_sig ''key'' (\<lambda>_. Some []) rev (\<lambda>_. Ok ''hash'')) 1
       ?queue = (txs, queue')" by (rule prod.exhaust)
  have "queue' = []
    \<and> map (\<lambda>tx. mset (plays_of tx)) txs = map (\<lambda>batch. mset (map core_play (last_requests batch))) (play_batches ?queue)
    \<and> (\<forall>tx \<in> set txs. length (plays_of tx) \<le> 500)"
    by (rule plays_recorded_once [OF _ _ _ _ _ run]) (simp_all add: playBatch_def demo_auth_ext_def)
  moreover have "play_batches ?queue = [?queue]" by (simp add: play_batches_step) (simp add: playBatch_def)
  moreover have "last_requests ?queue = [demo_play ''2'' ''b'', demo_play ''3'' ''a'']" by (simp add: demo_play_def)
  ultimately show ?thesis using run by simp
qed

text \<open>A request signature only deduplicates within a batch: a request that is repeated in the next batch counts again.\<close>

theorem repeated_request_counts_again:
  assumes "length ps = playBatch" and "distinct (map pv_RequestSignature ps)" and "p \<in> set ps"
    and "\<And>ps. mset (walk ps) = mset ps" and "\<And>ps. enc ps \<noteq> None" and "\<And>h. x_Sign x h key \<noteq> None"
    and "\<And>tx. is_ok (send tx)"
    and "play_ticks (processPlayRecordBatch x g key enc walk send) 2 (ps @ [p]) = (txs, queue')"
  shows "2 \<le> count (mset (concat (map plays_of txs))) (core_play p)"
proof -
  let ?tick = "processPlayRecordBatch x g key enc walk send"
  have batch: "take playBatch (ps @ [p]) = ps" "drop playBatch (ps @ [p]) = [p]" using assms(1) by simp_all
  have "1 \<le> playBatch" by (simp add: playBatch_def)
  obtain tx1 where tx1: "fst (?tick (ps @ [p])) = Ok (Some tx1)" "mset (plays_of tx1) = mset (map core_play ps)"
    using processPlayRecordBatch_Ok [of "ps @ [p]" walk enc x key send g, OF _ assms(4-7)] last_requests_same [OF assms(2)]
    unfolding batch by auto
  obtain tx2 where tx2: "fst (?tick [p]) = Ok (Some tx2)" "mset (plays_of tx2) = {#core_play p#}"
    using processPlayRecordBatch_Ok [of "[p]" walk enc x key send g, OF _ assms(4-7)] \<open>1 \<le> playBatch\<close> by auto
  have steps: "?tick (ps @ [p]) = (Ok (Some tx1), [p])" "snd (?tick [p]) = drop playBatch [p]"
    using tx1 processPlayRecordBatch_rest [of x g key enc walk send "ps @ [p]"]
      processPlayRecordBatch_rest [of x g key enc walk send "[p]"] batch by (auto simp: prod_eq_iff)
  have "txs = [tx1, tx2]"
    using assms(8) steps(1) tx2(1) by (cases "?tick [p]") (auto simp: numeral_2_eq_2)
  moreover have "core_play p \<in># mset (map core_play ps)" using assms(3) by simp
  ultimately show ?thesis using tx1(2) tx2(2) by (simp add: Suc_le_eq)
qed

end
