(* ===== verification/Peer_Health.thy ===== *)
theory Peer_Health
  imports Prelude "HOL-Library.AList"
begin

text \<open>
  Which peers a storage node takes for healthy (\<^verbatim>\<open>pkg/mediorum/server/peer_health.go\<close>): every tick asks each
  peer for its health and records when it was reachable and healthy. The polls of a tick run
  concurrently but change the table under a lock, so that they are steps in some order. Times
  are nanoseconds since the epoch; the zero time lies before any of them.
\<close>

section \<open>The table of peers\<close>

text \<open>\<open>ph_ReachablePeers\<close> is None for the nil map of a zero value.\<close>

record peer_health =
  ph_Version :: string
  ph_LastReachable :: int
  ph_LastHealthy :: int
  ph_ReachablePeers :: "(string \<times> int) list option"

definition zero_time :: int where
  "zero_time = -62135596800 * 1000000000"

definition zero_health :: peer_health where
  "zero_health = \<lparr>ph_Version = '''', ph_LastReachable = zero_time, ph_LastHealthy = zero_time, ph_ReachablePeers = None\<rparr>"

type_synonym healths = "(string \<times> peer_health) list"

text \<open>
  A decoded answer: the status, the version and the peers' healths of the answer's data, each an object
  whose fields are read as times where they are strings in that format.
\<close>

record health_answer =
  ha_StatusCode :: int
  ha_version :: "string option"
  ha_peerHealths :: "(string \<times> (string \<times> int option) list) list"

definition two_minutes :: int where
  "two_minutes = 120 * 1000000000"

section \<open>Reachability by a majority\<close>

definition bump :: "string \<Rightarrow> (string \<times> nat) list \<Rightarrow> (string \<times> nat) list" where
  "bump h counts = AList.update h (Suc (case map_of counts h of None \<Rightarrow> 0 | Some n \<Rightarrow> n)) counts"

definition reach_counts ::
    "string \<Rightarrow> string list \<Rightarrow> int \<Rightarrow> string \<Rightarrow> healths \<Rightarrow> nat \<times> (string \<times> nat) list" where
  "reach_counts self peers now host hs =
     fold (\<lambda>peer (totalHosts, counts).
       if peer = host \<or> peer = self then (totalHosts, counts)
       else let counts' = (if peer \<in> fst ` set counts then counts else AList.update peer 0 counts) in
         case map_of hs peer of
           None \<Rightarrow> (totalHosts, counts')
         | Some health \<Rightarrow>
             if ph_LastReachable health < now - two_minutes then (totalHosts, counts')
             else (Suc totalHosts,
               fold (\<lambda>(p, t) c. if t > now - two_minutes then bump p c else c)
                 (case ph_ReachablePeers health of None \<Rightarrow> [] | Some r \<Rightarrow> r) (bump peer counts')))
       peers (0, [])"

fun unreachable_by :: "nat \<Rightarrow> int \<Rightarrow> string \<Rightarrow> healths \<Rightarrow> (string \<times> nat) list \<Rightarrow> string list result" where
  "unreachable_by totalHosts now host hs [] = Ok []"
| "unreachable_by totalHosts now host hs ((peer, reachableBy) # counts) =
     (if reachableBy > totalHosts div 2
      then case map_of hs peer of
             None \<Rightarrow> Panic ''nil pointer dereference''
           | Some health \<Rightarrow>
               (case Option.bind (ph_ReachablePeers health) (\<lambda>r. map_of r host) of
                  Some lastReachable \<Rightarrow>
                    if lastReachable < now - two_minutes then map_result ((#) peer) (unreachable_by totalHosts now host hs counts)
                    else unreachable_by totalHosts now host hs counts
                | None \<Rightarrow> map_result ((#) peer) (unreachable_by totalHosts now host hs counts))
      else unreachable_by totalHosts now host hs counts)"

definition getReachableByMajorityButNotByHost ::
    "string \<Rightarrow> string list \<Rightarrow> int \<Rightarrow> string \<Rightarrow> healths \<Rightarrow> string list result" where
  "getReachableByMajorityButNotByHost self peers now host hs =
     (if host = self then Ok []
      else let (totalHosts, counts) = reach_counts self peers now host hs in
        if totalHosts < 5 then Ok [] else unreachable_by totalHosts now host hs counts)"

section \<open>Polling\<close>

text \<open>Assigning into the nil map panics.\<close>

fun record_reachable :: "(string \<times> (string \<times> int option) list) list \<Rightarrow> peer_health \<Rightarrow> peer_health result" where
  "record_reachable [] health = Ok health"
| "record_reachable ((host, entries) # rest) health =
     (case map_of entries ''LastReachable'' of
        Some (Some t) \<Rightarrow>
          (case ph_ReachablePeers health of
             None \<Rightarrow> Panic ''assignment to entry in nil map''
           | Some r \<Rightarrow> record_reachable rest (health\<lparr>ph_ReachablePeers := Some (AList.update host t r)\<rparr>))
      | _ \<Rightarrow> record_reachable rest health)"

text \<open>One peer of a tick; \<open>answer\<close> is None when there is none or it has no healths of peers.\<close>

definition poll_peer ::
    "string \<Rightarrow> string list \<Rightarrow> int \<Rightarrow> string \<Rightarrow> health_answer option \<Rightarrow> healths \<Rightarrow> healths result" where
  "poll_peer self peers now host answer hs =
     (if host = self then Ok hs
      else case answer of
        None \<Rightarrow> Ok hs
      | Some a \<Rightarrow>
          let health = (case map_of hs host of None \<Rightarrow> zero_health | Some h \<Rightarrow> h);
              reached = health\<lparr>ph_LastReachable := now,
                ph_Version := (case ha_version a of None \<Rightarrow> ph_Version health | Some v \<Rightarrow> v)\<rparr>
          in bind_result (record_reachable (ha_peerHealths a) reached) (\<lambda>recorded.
             if ha_StatusCode a = 200
             then bind_result (getReachableByMajorityButNotByHost self peers now host (AList.update host recorded hs)) (\<lambda>_.
               Ok (AList.update host (recorded\<lparr>ph_LastHealthy := now\<rparr>) hs))
             else Ok (AList.update host recorded hs)))"

fun poll_all ::
    "string \<Rightarrow> string list \<Rightarrow> (string \<times> int \<times> health_answer option) list \<Rightarrow> healths \<Rightarrow> healths result" where
  "poll_all self peers [] hs = Ok hs"
| "poll_all self peers ((host, now, answer) # polls) hs =
     bind_result (poll_peer self peers now host answer hs) (poll_all self peers polls)"

definition findHealthyPeers :: "int \<Rightarrow> int \<Rightarrow> healths \<Rightarrow> string list result" where
  "findHealthyPeers now aliveInLast hs =
     (if aliveInLast < 5 * 60 * 1000000000 then Panic ''aliveInLast should be > 5 minutes''
      else Ok (map fst (filter (\<lambda>(host, h). now - ph_LastHealthy h < aliveInLast) hs)))"

section \<open>Polls of nodes of this program\<close>

text \<open>
  The nodes write the field as \<^verbatim>\<open>lastReachable\<close>, while the poller reads \<^verbatim>\<open>LastReachable\<close>: in their
  answers there is no such field.
\<close>

definition own_format :: "health_answer \<Rightarrow> bool" where
  "own_format a \<longleftrightarrow> (\<forall>(host, entries) \<in> set (ha_peerHealths a). ''LastReachable'' \<notin> fst ` set entries)"

definition nothing_recorded :: "healths \<Rightarrow> bool" where
  "nothing_recorded hs \<longleftrightarrow> (\<forall>h \<in> snd ` set hs. ph_ReachablePeers h = None)"

lemma record_reachable_own:
  assumes "\<forall>(host, entries) \<in> set ps. ''LastReachable'' \<notin> fst ` set entries"
  shows "record_reachable ps health = Ok health"
  using assms by (induction ps) (auto simp: map_of_eq_None_iff [THEN iffD2])

lemma nothing_recordedD: "nothing_recorded hs \<Longrightarrow> map_of hs host = Some h \<Longrightarrow> ph_ReachablePeers h = None"
  by (force simp: nothing_recorded_def dest: map_of_SomeD)

text \<open>A host with a count is in the table.\<close>

definition counts_known :: "healths \<Rightarrow> (string \<times> nat) list \<Rightarrow> bool" where
  "counts_known hs counts \<longleftrightarrow> (\<forall>(peer, k) \<in> set counts. 0 < k \<longrightarrow> map_of hs peer \<noteq> None)"

lemma counts_known_update:
  "counts_known hs counts \<Longrightarrow> 0 < k \<longrightarrow> map_of hs p \<noteq> None \<Longrightarrow> counts_known hs (AList.update p k counts)"
  unfolding counts_known_def by (induction counts) auto

lemma counts_known_fold:
  assumes "\<And>peer tc. counts_known hs (snd tc) \<Longrightarrow> counts_known hs (snd (step peer tc))" and "counts_known hs (snd tc)"
  shows "counts_known hs (snd (fold step ps tc))"
  using assms(2) by (induction ps arbitrary: tc) (simp_all add: assms(1))

lemma reach_counts_known:
  assumes "nothing_recorded hs"
  shows "counts_known hs (snd (reach_counts self peers now host hs))"
  unfolding reach_counts_def
proof (rule counts_known_fold, goal_cases)
  case (1 peer tc)
  obtain n counts where tc: "tc = (n, counts)" by (rule prod.exhaust)
  let ?counts = "if peer \<in> fst ` set counts then counts else AList.update peer 0 counts"
  have known: "counts_known hs ?counts" using 1 tc by (simp add: counts_known_update)
  show ?case
  proof (cases "map_of hs peer")
    case None
    with 1 tc known show ?thesis by (simp add: Let_def)
  next
    case (Some health)
    then have "ph_ReachablePeers health = None" using nothing_recordedD [OF assms] by blast
    moreover have "counts_known hs (bump peer ?counts)" unfolding bump_def using known Some by (simp add: counts_known_update)
    ultimately show ?thesis using 1 tc known Some by (simp add: Let_def)
  qed
next
  case 2
  show ?case by (simp add: counts_known_def)
qed

lemma unreachable_by_no_panic:
  assumes "counts_known hs counts"
  shows "\<exists>ps. unreachable_by n now host hs counts = Ok ps"
  using assms unfolding counts_known_def by (induction counts) (auto split: option.splits)

lemma majority_no_panic:
  assumes "nothing_recorded hs"
  shows "\<exists>ps. getReachableByMajorityButNotByHost self peers now host hs = Ok ps"
  using unreachable_by_no_panic [OF reach_counts_known [OF assms, of self peers now host]]
  by (auto simp: getReachableByMajorityButNotByHost_def split: prod.splits)

text \<open>When a host was last healthy, and what a poll says about it.\<close>

definition healthy_at :: "healths \<Rightarrow> string \<Rightarrow> int" where
  "healthy_at hs host = (case map_of hs host of None \<Rightarrow> zero_time | Some h \<Rightarrow> ph_LastHealthy h)"

fun answered_ok :: "string \<Rightarrow> string \<Rightarrow> string \<times> int \<times> health_answer option \<Rightarrow> bool" where
  "answered_ok self host (h, t, answer) = (h = host \<and> h \<noteq> self \<and> (\<exists>a. answer = Some a \<and> ha_StatusCode a = 200))"

definition last_answer :: "string \<Rightarrow> string \<Rightarrow> (string \<times> int \<times> health_answer option) list \<Rightarrow> int \<Rightarrow> int" where
  "last_answer self host polls t0 = fold (\<lambda>poll t. if answered_ok self host poll then fst (snd poll) else t) polls t0"

definition healths_inv :: "healths \<Rightarrow> bool" where
  "healths_inv hs \<longleftrightarrow> distinct (map fst hs) \<and> nothing_recorded hs"

lemma healths_inv_update:
  assumes "healths_inv hs" and "ph_ReachablePeers h = None"
  shows "healths_inv (AList.update host h hs)"
proof -
  have "set (AList.update host h hs) \<subseteq> insert (host, h) (set hs)" by (induction hs) auto
  with assms show ?thesis by (fastforce simp: healths_inv_def nothing_recorded_def distinct_update)
qed

lemma poll_peer_own:
  assumes "healths_inv hs" and "\<And>a. answer = Some a \<Longrightarrow> own_format a"
  shows "\<exists>hs'. poll_peer self peers now host answer hs = Ok hs' \<and> healths_inv hs'
    \<and> (\<forall>h. healthy_at hs' h = (if answered_ok self h (host, now, answer) then now else healthy_at hs h))"
proof (cases "host = self \<or> answer = None")
  case True
  with assms(1) show ?thesis by (auto simp: poll_peer_def)
next
  case False
  then obtain a where a: "answer = Some a" "host \<noteq> self" by auto
  define health where "health = (case map_of hs host of None \<Rightarrow> zero_health | Some h \<Rightarrow> h)"
  define r where "r = health\<lparr>ph_LastReachable := now, ph_Version := (case ha_version a of None \<Rightarrow> ph_Version health | Some v \<Rightarrow> v)\<rparr>"
  have none: "ph_ReachablePeers health = None"
    using assms(1) nothing_recordedD [of hs host] by (auto simp: health_def zero_health_def healths_inv_def split: option.splits)
  have inv: "healths_inv (AList.update host (r\<lparr>ph_LastHealthy := t\<rparr>) hs)" "healths_inv (AList.update host r hs)" for t
    using healths_inv_update [OF assms(1)] none by (simp_all add: r_def)
  have old: "ph_LastHealthy r = healthy_at hs host"
    by (simp add: r_def health_def healthy_at_def zero_health_def split: option.splits)
  have rec: "record_reachable (ha_peerHealths a) r = Ok r"
    using assms(2) [OF a(1)] by (intro record_reachable_own) (simp add: own_format_def)
  obtain ps where maj: "getReachableByMajorityButNotByHost self peers now host (AList.update host r hs) = Ok ps"
    using inv(2) majority_no_panic [of "AList.update host r hs" self peers now host] by (auto simp: healths_inv_def)
  let ?hs' = "AList.update host (if ha_StatusCode a = 200 then r\<lparr>ph_LastHealthy := now\<rparr> else r) hs"
  have "poll_peer self peers now host answer hs = Ok ?hs'"
    using a rec maj by (simp add: poll_peer_def Let_def flip: health_def r_def)
  moreover have "healthy_at ?hs' h = (if answered_ok self h (host, now, answer) then now else healthy_at hs h)" for h
    using old a by (simp add: healthy_at_def update_conv')
  moreover have "healths_inv ?hs'" using inv by simp
  ultimately show ?thesis by blast
qed

lemma poll_all_own:
  assumes "healths_inv hs" and "\<And>h t a. (h, t, Some a) \<in> set polls \<Longrightarrow> own_format a"
  shows "\<exists>hs'. poll_all self peers polls hs = Ok hs' \<and> healths_inv hs'
    \<and> (\<forall>h. healthy_at hs' h = last_answer self h polls (healthy_at hs h))"
  using assms
proof (induction polls arbitrary: hs)
  case Nil
  then show ?case by (simp add: last_answer_def)
next
  case (Cons poll polls)
  obtain host t answer where poll: "poll = (host, t, answer)" by (cases poll)
  obtain hs1 where hs1: "poll_peer self peers t host answer hs = Ok hs1" "healths_inv hs1"
    "\<And>h. healthy_at hs1 h = (if answered_ok self h poll then t else healthy_at hs h)"
    using poll_peer_own [OF Cons.prems(1), of answer self peers t host] Cons.prems(2) poll by auto
  have "\<And>h t a. (h, t, Some a) \<in> set polls \<Longrightarrow> own_format a" using Cons.prems(2) by auto
  with Cons.IH [OF hs1(2)] obtain hs' where "poll_all self peers polls hs1 = Ok hs'" "healths_inv hs'"
    "\<forall>h. healthy_at hs' h = last_answer self h polls (healthy_at hs1 h)" by blast
  with hs1 poll show ?case by (auto simp: last_answer_def)
qed

text \<open>
  (C32) Polling nodes of this program never panics, whatever they answer and in whatever order
  the polls come: afterwards the healthy peers are exactly those whose last answer with status
  200, or the last one recorded before, is recent enough.
\<close>

theorem healthy_peers_exact:
  assumes "healths_inv hs" and "\<And>h t a. (h, t, Some a) \<in> set polls \<Longrightarrow> own_format a"
    and "5 * 60 * 1000000000 \<le> alive" and "alive \<le> now - zero_time"
  shows "\<exists>hs' hosts. poll_all self peers polls hs = Ok hs' \<and> findHealthyPeers now alive hs' = Ok hosts
    \<and> distinct hosts \<and> (\<forall>host. host \<in> set hosts \<longleftrightarrow> now - last_answer self host polls (healthy_at hs host) < alive)"
proof -
  obtain hs' where hs': "poll_all self peers polls hs = Ok hs'" "healths_inv hs'"
    "\<forall>h. healthy_at hs' h = last_answer self h polls (healthy_at hs h)" using poll_all_own [of hs polls self peers] assms(1,2) by blast
  let ?hosts = "map fst (filter (\<lambda>(host, h). now - ph_LastHealthy h < alive) hs')"
  have "host \<in> set ?hosts \<longleftrightarrow> now - healthy_at hs' host < alive" for host
  proof (cases "map_of hs' host")
    case None
    then have "host \<notin> set ?hosts" by (auto simp: map_of_eq_None_iff)
    with None assms(4) show ?thesis by (simp add: healthy_at_def)
  next
    case (Some h)
    have "(host, h') \<in> set hs' \<longleftrightarrow> h' = h" for h'
      using Some map_of_is_SomeI [of hs' host h'] hs'(2) by (auto simp: healths_inv_def dest: map_of_SomeD)
    then have "host \<in> set ?hosts \<longleftrightarrow> now - ph_LastHealthy h < alive" by (auto simp: image_iff)
    with Some show ?thesis by (simp add: healthy_at_def)
  qed
  moreover have "distinct ?hosts" using hs'(2) by (simp add: healths_inv_def distinct_map_filter)
  moreover have "findHealthyPeers now alive hs' = Ok ?hosts" using assms(3) by (simp add: findHealthyPeers_def)
  ultimately show ?thesis using hs' by auto
qed

text \<open>A peer whose answer has the field the poller reads stops the node: the map it is written to is nil.\<close>

theorem reachable_field_panics:
  assumes "host \<noteq> self" and "map_of hs host = None" and "ha_peerHealths a = (h, entries) # rest"
    and "map_of entries ''LastReachable'' = Some (Some t)"
  shows "poll_peer self peers now host (Some a) hs = Panic ''assignment to entry in nil map''"
  using assms by (simp add: poll_peer_def Let_def zero_health_def)

definition demo_answer :: health_answer where
  "demo_answer = \<lparr>ha_StatusCode = 200, ha_version = Some ''1'', ha_peerHealths = [(''c'', [(''lastReachable'', Some 5)])]\<rparr>"

theorem healthy_peers_exact_witness:
  "\<exists>hs' hosts. poll_all ''s'' [''s'', ''a'', ''b''] [(''a'', 7, Some demo_answer), (''b'', 8, None)] [] = Ok hs'
     \<and> findHealthyPeers 9 (3600 * 1000000000) hs' = Ok hosts \<and> ''a'' \<in> set hosts \<and> ''b'' \<notin> set hosts"
proof -
  have "healths_inv []" by (simp add: healths_inv_def nothing_recorded_def)
  moreover have "own_format demo_answer" by (simp add: own_format_def demo_answer_def)
  ultimately show ?thesis
    using healthy_peers_exact [of "[]" "[(''a'', 7, Some demo_answer), (''b'', 8, None)]" "3600 * 1000000000" 9 "''s''" "[''s'', ''a'', ''b'']"]
    by (fastforce simp: zero_time_def last_answer_def healthy_at_def demo_answer_def)
qed

end
