(* ===== verification/Go_State.thy ===== *)
theory Go_State
  imports Prelude
begin

text \<open>
  Go methods that change the state of their receiver and may return an error: a function from the
  state to the outcome and the new state. A return with an error leaves the changes made so far;
  \<open>go_atomic\<close> is a method whose changes are undone unless it succeeds (a database transaction with a
  deferred rollback). \<open>go_keeps\<close> says that a method keeps a property of the state on every path.
\<close>

type_synonym ('s, 'a) go = "'s \<Rightarrow> 'a result \<times> 's"

definition go_return :: "'a \<Rightarrow> ('s, 'a) go" where
  "go_return a s = (Ok a, s)"

definition go_lift :: "'a result \<Rightarrow> ('s, 'a) go" where
  "go_lift r s = (r, s)"

definition go_gets :: "('s \<Rightarrow> 'a) \<Rightarrow> ('s, 'a) go" where
  "go_gets f s = (Ok (f s), s)"

definition go_modify :: "('s \<Rightarrow> 's) \<Rightarrow> ('s, unit) go" where
  "go_modify f s = (Ok (), f s)"

definition go_bind :: "('s, 'a) go \<Rightarrow> ('a \<Rightarrow> ('s, 'b) go) \<Rightarrow> ('s, 'b) go" where
  "go_bind m f s =
     (case m s of (Ok a, s') \<Rightarrow> f a s' | (Err e, s') \<Rightarrow> (Err e, s') | (Panic p, s') \<Rightarrow> (Panic p, s'))"

text \<open>The outcome of a call as a value, for code that looks at the error and goes on.\<close>

definition go_try :: "('s, 'a) go \<Rightarrow> ('a result \<Rightarrow> ('s, 'b) go) \<Rightarrow> ('s, 'b) go" where
  "go_try m f s = (case m s of (r, s') \<Rightarrow> f r s')"

definition go_wrap :: "string \<Rightarrow> ('s, 'a) go \<Rightarrow> ('s, 'a) go" where
  "go_wrap msg m s = (case m s of (r, s') \<Rightarrow> (wrap_err msg r, s'))"

definition go_atomic :: "('s \<Rightarrow> 's \<Rightarrow> 's) \<Rightarrow> ('s, 'a) go \<Rightarrow> ('s, 'a) go" where
  "go_atomic undo m s = (case m s of (Ok a, s') \<Rightarrow> (Ok a, s') | (r, s') \<Rightarrow> (r, undo s s'))"

primrec go_iter :: "('a \<Rightarrow> ('s, unit) go) \<Rightarrow> 'a list \<Rightarrow> ('s, unit) go" where
  "go_iter f [] = go_return ()"
| "go_iter f (x # xs) = go_bind (f x) (\<lambda>_. go_iter f xs)"

text \<open>A loop over what a caller logs and skips: errors do not end it, a panic does.\<close>

primrec go_each :: "('a \<Rightarrow> ('s, unit) go) \<Rightarrow> 'a list \<Rightarrow> ('s, unit) go" where
  "go_each f [] = go_return ()"
| "go_each f (x # xs) = go_try (f x) (\<lambda>r. case r of Panic p \<Rightarrow> go_lift (Panic p) | _ \<Rightarrow> go_each f xs)"

lemmas go_defs = go_return_def go_lift_def go_gets_def go_modify_def go_bind_def go_try_def go_wrap_def go_atomic_def

lemma go_bind_Ok [go_simps]:
  "go_bind m f s = (Ok b, s'') \<longleftrightarrow> (\<exists>a s'. m s = (Ok a, s') \<and> f a s' = (Ok b, s''))"
  by (auto simp: go_bind_def split: prod.splits result.splits)

lemma go_return_eq [go_simps]: "go_return a s = (r, s') \<longleftrightarrow> r = Ok a \<and> s' = s"
  by (auto simp: go_return_def)

lemma go_lift_eq [go_simps]: "go_lift r s = (r', s') \<longleftrightarrow> r = r' \<and> s' = s"
  by (auto simp: go_lift_def)

lemma go_gets_eq [go_simps]: "go_gets f s = (r, s') \<longleftrightarrow> r = Ok (f s) \<and> s' = s"
  by (auto simp: go_gets_def)

lemma go_modify_eq [go_simps]: "go_modify f s = (r, s') \<longleftrightarrow> r = Ok () \<and> s' = f s"
  by (auto simp: go_modify_def)

lemma go_wrap_Ok [go_simps]: "go_wrap msg m s = (Ok a, s') \<longleftrightarrow> m s = (Ok a, s')"
  by (auto simp: go_wrap_def wrap_err_eq_Ok split: prod.splits)

lemma go_atomic_Ok [go_simps]: "go_atomic undo m s = (Ok a, s') \<longleftrightarrow> m s = (Ok a, s')"
  by (auto simp: go_atomic_def split: prod.splits result.splits)

lemma go_bind_apply_Ok: "m s = (Ok a, s') \<Longrightarrow> go_bind m f s = f a s'"
  by (simp add: go_bind_def)

lemma go_bind_assoc: "go_bind (go_bind m f) g = go_bind m (\<lambda>a. go_bind (f a) g)"
  by (rule ext) (auto simp: go_bind_def split: prod.splits result.splits)

section \<open>What a method keeps\<close>

named_theorems go_keeps_intros \<open>methods that keep a property of the state\<close>

definition go_keeps :: "('s \<Rightarrow> bool) \<Rightarrow> ('s, 'a) go \<Rightarrow> bool" where
  "go_keeps P m \<longleftrightarrow> (\<forall>s. P s \<longrightarrow> P (snd (m s)))"

lemma go_keepsD: "go_keeps P m \<Longrightarrow> P s \<Longrightarrow> P (snd (m s))"
  by (simp add: go_keeps_def)

lemma go_keepsE: "go_keeps P m \<Longrightarrow> P s \<Longrightarrow> m s = (r, s') \<Longrightarrow> P s'"
  using go_keepsD [of P m s] by simp

lemma go_keeps_return [go_keeps_intros]: "go_keeps P (go_return a)"
  by (simp add: go_keeps_def go_return_def)

lemma go_keeps_lift [go_keeps_intros]: "go_keeps P (go_lift r)"
  by (simp add: go_keeps_def go_lift_def)

lemma go_keeps_gets [go_keeps_intros]: "go_keeps P (go_gets f)"
  by (simp add: go_keeps_def go_gets_def)

lemma go_keeps_modify: "(\<And>s. P s \<Longrightarrow> P (f s)) \<Longrightarrow> go_keeps P (go_modify f)"
  by (simp add: go_keeps_def go_modify_def)

lemma go_keeps_bind [go_keeps_intros]:
  "go_keeps P m \<Longrightarrow> (\<And>a. go_keeps P (f a)) \<Longrightarrow> go_keeps P (go_bind m f)"
  by (fastforce simp: go_keeps_def go_bind_def split: prod.splits result.splits)

lemma go_keeps_try [go_keeps_intros]:
  "go_keeps P m \<Longrightarrow> (\<And>r. go_keeps P (f r)) \<Longrightarrow> go_keeps P (go_try m f)"
  by (fastforce simp: go_keeps_def go_try_def split: prod.splits)

lemma go_keeps_wrap [go_keeps_intros]: "go_keeps P m \<Longrightarrow> go_keeps P (go_wrap msg m)"
  by (fastforce simp: go_keeps_def go_wrap_def split: prod.splits)

lemma go_keeps_atomic:
  "go_keeps P m \<Longrightarrow> (\<And>s s'. P s \<Longrightarrow> P s' \<Longrightarrow> P (undo s s')) \<Longrightarrow> go_keeps P (go_atomic undo m)"
  by (fastforce simp: go_keeps_def go_atomic_def split: prod.splits result.splits)

lemma go_keeps_iter [go_keeps_intros]: "(\<And>x. go_keeps P (f x)) \<Longrightarrow> go_keeps P (go_iter f xs)"
  by (induction xs) (auto intro: go_keeps_intros)

lemma go_keeps_each [go_keeps_intros]: "(\<And>x. go_keeps P (f x)) \<Longrightarrow> go_keeps P (go_each f xs)"
  by (induction xs) (auto intro!: go_keeps_intros split: result.splits)

lemma go_keeps_if [go_keeps_intros]: "go_keeps P m \<Longrightarrow> go_keeps P m' \<Longrightarrow> go_keeps P (if b then m else m')"
  by simp

lemma go_keeps_option [go_keeps_intros]:
  "go_keeps P m \<Longrightarrow> (\<And>a. go_keeps P (f a)) \<Longrightarrow> go_keeps P (case o' of None \<Rightarrow> m | Some a \<Rightarrow> f a)"
  by (simp split: option.split)

lemma go_keeps_result [go_keeps_intros]:
  "(\<And>a. go_keeps P (f a)) \<Longrightarrow> (\<And>e. go_keeps P (g e)) \<Longrightarrow> (\<And>p. go_keeps P (h p))
   \<Longrightarrow> go_keeps P (case r of Ok a \<Rightarrow> f a | Err e \<Rightarrow> g e | Panic p \<Rightarrow> h p)"
  by (simp split: result.split)

end
