(* ===== verification/Float64.thy ===== *)
theory Float64
  imports Complex_Main Prelude "HOL-Library.Log_Nat"
begin

text \<open>
  The \<^verbatim>\<open>float64\<close> arithmetic of Go that amounts, percentages and durations are computed in: a finite value
  is a rational number, and every operation rounds its exact result to 53 binary digits, to the nearest and to
  the even one of two. The values of the program lie far inside the range of exponents (between
  \<open>2\<^sup>-\<^sup>2\<^sup>0\<^sup>0\<close> and \<open>2\<^sup>2\<^sup>0\<^sup>0\<close>), so that no finite operation overflows or loses digits to a small exponent. The
  sign of zero is not kept: no zero that arithmetic yields is divided by. Conversion to \<^verbatim>\<open>int64\<close> truncates; of a
  value outside the range, an infinity or NaN, its result depends on the machine and is an argument.
\<close>

section \<open>Rounding\<close>

definition half_even :: "rat \<Rightarrow> int" where
  "half_even x =
     (let f = \<lfloor>x\<rfloor>; d = x - of_int f
      in if d < 1 / 2 then f else if 1 / 2 < d then f + 1 else if even f then f else f + 1)"

text \<open>The binary exponent of a positive number, from the lengths of its numerator and denominator.\<close>

definition exponent2 :: "rat \<Rightarrow> int" where
  "exponent2 x =
     (case quotient_of x of (p, q) \<Rightarrow>
        let e = int (floorlog 2 (nat p)) - int (floorlog 2 (nat q))
        in if (2 :: rat) powi e \<le> x then e else e - 1)"

definition fl53_pos :: "rat \<Rightarrow> rat" where
  "fl53_pos x = (let u = 2 powi (exponent2 x - 52) in of_int (half_even (x / u)) * u)"

definition fl53 :: "rat \<Rightarrow> rat" where
  "fl53 x = (if x = 0 then 0 else if 0 < x then fl53_pos x else - fl53_pos (- x))"

lemma half_even_floor: "\<lfloor>x\<rfloor> \<le> half_even x \<and> half_even x \<le> \<lfloor>x\<rfloor> + 1"
  by (simp add: half_even_def Let_def)

lemma half_even_of_int [simp]: "half_even (of_int k) = k"
  by (simp add: half_even_def)

lemma half_even_mono:
  assumes "x \<le> y"
  shows "half_even x \<le> half_even y"
proof (cases "\<lfloor>x\<rfloor> = \<lfloor>y\<rfloor>")
  case True
  with assms show ?thesis by (auto simp: half_even_def Let_def)
next
  case False
  with floor_mono [OF assms] have "\<lfloor>x\<rfloor> + 1 \<le> \<lfloor>y\<rfloor>" by linarith
  with half_even_floor [of x] half_even_floor [of y] show ?thesis by linarith
qed

lemma floorlog2_bounds:
  assumes "0 < n"
  shows "(2 :: rat) powi (int (floorlog 2 n) - 1) \<le> of_nat n" and "(of_nat n :: rat) < 2 powi int (floorlog 2 n)"
proof -
  have pos: "0 < floorlog 2 n" using assms by (simp add: floorlog_def)
  have b: "2 ^ (floorlog 2 n - 1) \<le> n" "n < 2 ^ floorlog 2 n"
    using assms floorlog_bounds [of n 2] by simp_all
  have "(of_nat (2 ^ (floorlog 2 n - 1)) :: rat) \<le> of_nat n" using b(1) by (simp only: of_nat_le_iff)
  moreover have "(2 :: rat) powi (int (floorlog 2 n) - 1) = 2 ^ (floorlog 2 n - 1)"
    using pos by (simp add: of_nat_diff flip: power_int_of_nat)
  ultimately show "(2 :: rat) powi (int (floorlog 2 n) - 1) \<le> of_nat n" by simp
  have "(of_nat n :: rat) < of_nat (2 ^ floorlog 2 n)" using b(2) by (simp only: of_nat_less_iff)
  then show "(of_nat n :: rat) < 2 powi int (floorlog 2 n)" by simp
qed

lemma exponent2_bounds:
  assumes "0 < x"
  shows "2 powi exponent2 x \<le> x" and "x < 2 powi (exponent2 x + 1)"
proof -
  obtain p q where pq: "quotient_of x = (p, q)" by force
  then have q: "0 < q" and x: "x = of_int p / of_int q"
    using quotient_of_denom_pos quotient_of_div by blast+
  with assms have p: "0 < p" by (simp add: zero_less_divide_iff)
  let ?P = "int (floorlog 2 (nat p))" and ?Q = "int (floorlog 2 (nat q))"
  have P: "(2 :: rat) powi (?P - 1) \<le> of_int p" "(of_int p :: rat) < 2 powi ?P"
    using floorlog2_bounds [of "nat p"] p by simp_all
  have Q: "(2 :: rat) powi (?Q - 1) \<le> of_int q" "(of_int q :: rat) < 2 powi ?Q"
    using floorlog2_bounds [of "nat q"] q by simp_all
  have "(2 :: rat) powi (?P - ?Q - 1) = 2 powi (?P - 1) / 2 powi ?Q"
    by (simp add: power_int_diff power_int_add)
  also have "\<dots> \<le> of_int p / of_int q" using P Q p q by (intro frac_le) simp_all
  finally have lo: "2 powi (?P - ?Q - 1) \<le> x" by (simp add: x)
  have "x < 2 powi ?P / 2 powi (?Q - 1)" unfolding x using P Q p q by (intro frac_less) simp_all
  also have "\<dots> = 2 powi (?P - ?Q + 1)" by (simp add: power_int_diff power_int_add)
  finally have hi: "x < 2 powi (?P - ?Q + 1)" .
  show "2 powi exponent2 x \<le> x" using lo by (simp add: exponent2_def pq Let_def)
  show "x < 2 powi (exponent2 x + 1)" using hi by (simp add: exponent2_def pq Let_def)
qed

lemma powi2_less_iff: "(2 :: rat) powi a < 2 powi b \<longleftrightarrow> a < b"
  using power_int_strict_increasing [of a b "2 :: rat"] power_int_increasing [of b a "2 :: rat"] by force

lemma exponent2_mono:
  assumes "0 < x" and "x \<le> y"
  shows "exponent2 x \<le> exponent2 y"
proof -
  have "(2 :: rat) powi exponent2 x \<le> x" using assms(1) by (rule exponent2_bounds)
  also have "\<dots> \<le> y" by (fact assms(2))
  also have "y < 2 powi (exponent2 y + 1)" using assms by (intro exponent2_bounds) simp
  finally show ?thesis by (simp only: powi2_less_iff)
qed

lemma scaled_bounds:
  assumes "0 < x"
  defines "u \<equiv> 2 powi (exponent2 x - 52)"
  shows "0 < u" and "2 ^ 52 \<le> x / u" and "x / u < 2 ^ 53" and "2 ^ 52 * u = 2 powi exponent2 x" and "2 ^ 53 * u = 2 powi (exponent2 x + 1)"
proof -
  show u: "0 < u" by (simp add: u_def)
  show 1: "2 ^ 52 * u = 2 powi exponent2 x" by (simp add: u_def power_int_diff)
  show 2: "2 ^ 53 * u = 2 powi (exponent2 x + 1)" by (simp add: u_def power_int_diff power_int_add)
  show "2 ^ 52 \<le> x / u" "x / u < 2 ^ 53"
    using exponent2_bounds [OF assms(1)] u 1 2 by (simp_all add: field_simps)
qed

lemma fl53_pos_bounds:
  assumes "0 < x"
  shows "2 powi exponent2 x \<le> fl53_pos x" and "fl53_pos x \<le> 2 powi (exponent2 x + 1)"
proof -
  let ?u = "2 powi (exponent2 x - 52) :: rat"
  note b = scaled_bounds [OF assms]
  have "half_even (of_int (2 ^ 52)) \<le> half_even (x / ?u)" using b(2) by (intro half_even_mono) simp
  then have "(2 ^ 52 :: int) \<le> half_even (x / ?u)" by (simp only: half_even_of_int)
  then have "of_int (2 ^ 52) \<le> (of_int (half_even (x / ?u)) :: rat)" by (simp only: of_int_le_iff)
  with b(1) have "2 ^ 52 * ?u \<le> of_int (half_even (x / ?u)) * ?u" by (intro mult_right_mono) simp_all
  then show "2 powi exponent2 x \<le> fl53_pos x" by (simp only: fl53_pos_def Let_def b(4))
  have "half_even (x / ?u) \<le> half_even (of_int (2 ^ 53))" using b(3) by (intro half_even_mono) simp
  then have "half_even (x / ?u) \<le> (2 ^ 53 :: int)" by (simp only: half_even_of_int)
  then have "(of_int (half_even (x / ?u)) :: rat) \<le> of_int (2 ^ 53)" by (simp only: of_int_le_iff)
  with b(1) have "of_int (half_even (x / ?u)) * ?u \<le> 2 ^ 53 * ?u" by (intro mult_right_mono) simp_all
  then show "fl53_pos x \<le> 2 powi (exponent2 x + 1)" by (simp only: fl53_pos_def Let_def b(5))
qed

lemma fl53_pos_mono:
  assumes "0 < x" and "x \<le> y"
  shows "fl53_pos x \<le> fl53_pos y"
proof (cases "exponent2 x = exponent2 y")
  case True
  let ?u = "2 powi (exponent2 y - 52) :: rat"
  have u: "0 < ?u" using scaled_bounds(1) [of y] assms by simp
  with assms have "half_even (x / ?u) \<le> half_even (y / ?u)" by (intro half_even_mono divide_right_mono) simp_all
  then have "(of_int (half_even (x / ?u)) :: rat) \<le> of_int (half_even (y / ?u))" by simp
  with u show ?thesis by (simp add: fl53_pos_def Let_def True)
next
  case False
  with exponent2_mono [OF assms] have less: "exponent2 x + 1 \<le> exponent2 y" by simp
  have "fl53_pos x \<le> 2 powi (exponent2 x + 1)" using assms(1) by (rule fl53_pos_bounds)
  also have "\<dots> \<le> 2 powi exponent2 y" using less by (intro power_int_increasing) simp_all
  also have "\<dots> \<le> fl53_pos y" using assms by (intro fl53_pos_bounds) simp
  finally show ?thesis .
qed

lemma fl53_pos_gt_0: "0 < x \<Longrightarrow> 0 < fl53_pos x"
  using fl53_pos_bounds(1) [of x] zero_less_power_int [of "2 :: rat" "exponent2 x"] by linarith

lemma fl53_0 [simp]: "fl53 0 = 0"
  by (simp add: fl53_def)

lemma fl53_mono: "x \<le> y \<Longrightarrow> fl53 x \<le> fl53 y"
  using fl53_pos_mono [of x y] fl53_pos_mono [of "- y" "- x"] fl53_pos_gt_0 [of y] fl53_pos_gt_0 [of "- x"]
  by (auto simp: fl53_def)

lemma fl53_nonneg: "0 \<le> x \<Longrightarrow> 0 \<le> fl53 x"
  using fl53_mono [of 0 x] by simp

lemma fl53_pos_exact:
  assumes "x / 2 powi (exponent2 x - 52) = of_int k"
  shows "fl53_pos x = x"
proof -
  have "fl53_pos x = (x / 2 powi (exponent2 x - 52)) * 2 powi (exponent2 x - 52)"
    by (simp add: fl53_pos_def Let_def assms)
  then show ?thesis by simp
qed

lemma fl53_pos_int:
  assumes "0 < i" and "i \<le> 2 ^ 53"
  shows "fl53_pos (of_int i) = of_int i"
proof (cases "i = 2 ^ 53")
  case True
  have "\<not> (2 :: rat) powi 53 < 2 powi exponent2 (of_int i)"
    using exponent2_bounds(1) [of "of_int i"] assms True by simp
  moreover have "(2 :: rat) powi 53 < 2 powi (exponent2 (of_int i) + 1)"
    using exponent2_bounds(2) [of "of_int i"] assms True by simp
  ultimately have "\<not> 53 < exponent2 (of_int i)" "53 < exponent2 (of_int i) + 1"
    by (simp_all only: powi2_less_iff not_False_eq_True)
  then have "exponent2 (of_int i) = 53" by simp
  then show ?thesis using True by (intro fl53_pos_exact [where k = "2 ^ 52"]) simp
next
  case False
  let ?e = "exponent2 (of_int i)"
  have "(2 :: rat) powi ?e \<le> of_int i" using assms(1) by (intro exponent2_bounds) simp
  also have "(of_int i :: rat) < of_int (2 ^ 53)" using assms(2) False by (simp only: of_int_less_iff)
  also have "\<dots> = 2 powi 53" by simp
  finally have "(2 :: rat) powi ?e < 2 powi 53" .
  then have e: "?e \<le> 52" by (simp only: powi2_less_iff)
  have "(of_int i :: rat) / 2 powi (?e - 52) = of_int i * 2 powi (52 - ?e)"
    by (simp add: power_int_diff field_simps)
  also have "\<dots> = of_int i * 2 ^ nat (52 - ?e)" using e by (simp add: power_int_def)
  also have "\<dots> = of_int (i * 2 ^ nat (52 - ?e))" by simp
  finally show ?thesis by (rule fl53_pos_exact)
qed

lemma fl53_int [simp]: "\<bar>i\<bar> \<le> 2 ^ 53 \<Longrightarrow> fl53 (of_int i) = of_int i"
  using fl53_pos_int [of i] fl53_pos_int [of "- i"] by (auto simp: fl53_def)

lemma fl53_le_int:
  assumes "x \<le> of_int k" and "\<bar>k\<bar> \<le> 2 ^ 53"
  shows "fl53 x \<le> of_int k"
  using fl53_mono [OF assms(1)] fl53_int [OF assms(2)] by simp

section \<open>Values and operations\<close>

datatype float64 = FFin rat | FInf bool | FNaN

definition f_of_int :: "int \<Rightarrow> float64" where
  "f_of_int i = FFin (fl53 (of_int i))"

fun f_add :: "float64 \<Rightarrow> float64 \<Rightarrow> float64" where
  "f_add (FFin x) (FFin y) = FFin (fl53 (x + y))"
| "f_add FNaN y = FNaN"
| "f_add x FNaN = FNaN"
| "f_add (FInf s) (FInf t) = (if s = t then FInf s else FNaN)"
| "f_add (FInf s) y = FInf s"
| "f_add x (FInf t) = FInf t"

fun f_mul :: "float64 \<Rightarrow> float64 \<Rightarrow> float64" where
  "f_mul (FFin x) (FFin y) = FFin (fl53 (x * y))"
| "f_mul FNaN y = FNaN"
| "f_mul x FNaN = FNaN"
| "f_mul (FInf s) (FInf t) = FInf (s \<noteq> t)"
| "f_mul (FInf s) (FFin y) = (if y = 0 then FNaN else FInf (s \<noteq> (y < 0)))"
| "f_mul (FFin x) (FInf t) = (if x = 0 then FNaN else FInf (t \<noteq> (x < 0)))"

fun f_div :: "float64 \<Rightarrow> float64 \<Rightarrow> float64" where
  "f_div (FFin x) (FFin y) =
     (if y = 0 then (if x = 0 then FNaN else FInf (x < 0)) else FFin (fl53 (x / y)))"
| "f_div FNaN y = FNaN"
| "f_div x FNaN = FNaN"
| "f_div (FInf s) (FInf t) = FNaN"
| "f_div (FInf s) (FFin y) = FInf (s \<noteq> (y < 0))"
| "f_div (FFin x) (FInf t) = FFin 0"

definition trunc :: "rat \<Rightarrow> int" where
  "trunc x = (if 0 \<le> x then \<lfloor>x\<rfloor> else - \<lfloor>- x\<rfloor>)"

definition f_to_int64 :: "(float64 \<Rightarrow> int64) \<Rightarrow> float64 \<Rightarrow> int64" where
  "f_to_int64 machine v =
     (case v of FFin x \<Rightarrow> if in_int64 (trunc x) then trunc x else machine v | _ \<Rightarrow> machine v)"

lemma f_of_int_exact [simp]: "\<bar>i\<bar> \<le> 2 ^ 53 \<Longrightarrow> f_of_int i = FFin (of_int i)"
  by (simp add: f_of_int_def)

lemma trunc_of_int [simp]: "trunc (of_int i) = i"
  by (simp add: trunc_def)

lemma trunc_mono: "0 \<le> x \<Longrightarrow> x \<le> y \<Longrightarrow> trunc x \<le> trunc y"
  by (simp add: trunc_def floor_mono)

lemma trunc_nonneg: "0 \<le> x \<Longrightarrow> 0 \<le> trunc x"
  by (simp add: trunc_def)

end
