(* ===== verification/Eth_Service.thy ===== *)
theory Eth_Service
  imports Go_State Float64 Pubsub Registry_Bridge
begin

text \<open>
  The Ethereum service (\<^verbatim>\<open>pkg/eth/eth.go\<close>, \<^verbatim>\<open>pkg/eth/connect.go\<close>, \<^verbatim>\<open>pkg/eth/contracts/contracts.go\<close> and the
  statements of \<^verbatim>\<open>pkg/eth/db\<close>): tables that copy the registered endpoints, service providers, stakes
  and proposals of the contracts. They are refilled in one transaction at the start and every
  hour, and changed by the events of the contracts in between; a deregistration is published to
  the registry bridge. What the contracts answer is the record \<open>eth_chain\<close>.
\<close>

section \<open>Tables (pkg/eth/db)\<close>

record eth_endpoint_row =
  ee_id :: int
  ee_service_type :: string
  ee_owner :: string
  ee_delegate_wallet :: string
  ee_endpoint :: string
  ee_blocknumber :: int64
  ee_registered_at :: int

record service_provider_row =
  sv_address :: string
  sv_deployer_stake :: int64
  sv_deployer_cut :: int64
  sv_valid_bounds :: bool
  sv_number_of_endpoints :: int
  sv_min_account_stake :: int64
  sv_max_account_stake :: int64

record staked_row =
  sk_address :: string
  sk_total_staked :: int64

record funding_round_row =
  fr_round_num :: int
  fr_blocknumber :: int64
  fr_creation_time :: int

record proposal_row =
  pr_id :: int64
  pr_proposer :: string
  pr_submission_block_number :: int64
  pr_target_contract_registry_key :: string
  pr_target_contract_address :: string
  pr_call_value :: int64
  pr_function_signature :: string
  pr_call_data :: string

record eth_db =
  eth_registered_endpoints :: "eth_endpoint_row list"
  eth_service_providers :: "service_provider_row list"
  eth_staked :: "staked_row list"
  eth_funding_rounds :: "funding_round_row list"
  eth_active_proposals :: "proposal_row list"
  eth_fault :: "string \<Rightarrow> bool"

text \<open>The message \<^verbatim>\<open>ServiceEndpoint\<close> that the service answers with and publishes.\<close>

record service_endpoint =
  se_Id :: int64
  se_ServiceType :: string
  se_RegisteredAt :: int
  se_BlockNumber :: int64
  se_Owner :: string
  se_Endpoint :: string
  se_DelegateWallet :: string

record funding_round =
  fm_initialized :: bool
  fm_fundingAmountPerRound :: int64
  fm_totalStakedAmount :: int64

text \<open>
  The service: its tables, the contract addresses looked up so far, the amounts of the funding
  round, the hub of deregistrations and whether it is ready.
\<close>

record eth_service =
  es_db :: eth_db
  es_contracts :: "string \<Rightarrow> bytes option"
  es_fundingRound :: funding_round
  es_deregPubsub :: "service_endpoint pubsub"
  es_isReady :: bool

definition eth_exec :: "string \<Rightarrow> (eth_db \<Rightarrow> eth_db option) \<Rightarrow> (eth_service, unit) go" where
  "eth_exec name upd s =
     (if eth_fault (es_db s) name then (Err (DbErr ErrQuery), s)
      else case upd (es_db s) of
             None \<Rightarrow> (Err (DbErr ErrConstraint), s)
           | Some db \<Rightarrow> (Ok (), s\<lparr>es_db := db\<rparr>))"

definition eth_rows :: "string \<Rightarrow> (eth_db \<Rightarrow> 'a) \<Rightarrow> eth_service \<Rightarrow> 'a result" where
  "eth_rows name q s = (if eth_fault (es_db s) name then Err (DbErr ErrQuery) else Ok (q (es_db s)))"

definition eth_row :: "string \<Rightarrow> (eth_db \<Rightarrow> 'a option) \<Rightarrow> eth_service \<Rightarrow> 'a result" where
  "eth_row name q s =
     bind_result (eth_rows name q s) (\<lambda>r. case r of None \<Rightarrow> Err (DbErr ErrNoRows) | Some a \<Rightarrow> Ok a)"

definition upsert_row :: "('r \<Rightarrow> 'k) \<Rightarrow> 'r \<Rightarrow> 'r list \<Rightarrow> 'r list" where
  "upsert_row key r rows =
     (if key r \<in> key ` set rows then map (\<lambda>r'. if key r' = key r then r else r') rows else rows @ [r])"

definition endpoint_key :: "eth_endpoint_row \<Rightarrow> int \<times> string" where
  "endpoint_key r = (ee_id r, ee_service_type r)"

definition InsertRegisteredEndpoint :: "eth_endpoint_row \<Rightarrow> (eth_service, unit) go" where
  "InsertRegisteredEndpoint r = eth_exec ''InsertRegisteredEndpoint'' (\<lambda>db.
     map_option (\<lambda>rs. db\<lparr>eth_registered_endpoints := rs\<rparr>)
       (insert_unique endpoint_key r (eth_registered_endpoints db)))"

definition DeleteRegisteredEndpoint :: "int \<Rightarrow> string \<Rightarrow> string \<Rightarrow> string \<Rightarrow> (eth_service, unit) go" where
  "DeleteRegisteredEndpoint i endpoint owner st = eth_exec ''DeleteRegisteredEndpoint'' (\<lambda>db.
     Some (db\<lparr>eth_registered_endpoints := filter (\<lambda>r. \<not> (ee_id r = i \<and> ee_endpoint r = endpoint
       \<and> ee_owner r = owner \<and> ee_service_type r = st)) (eth_registered_endpoints db)\<rparr>))"

definition ClearRegisteredEndpoints :: "(eth_service, unit) go" where
  "ClearRegisteredEndpoints = eth_exec ''ClearRegisteredEndpoints'' (\<lambda>db. Some (db\<lparr>eth_registered_endpoints := []\<rparr>))"

definition ClearServiceProviders :: "(eth_service, unit) go" where
  "ClearServiceProviders = eth_exec ''ClearServiceProviders'' (\<lambda>db. Some (db\<lparr>eth_service_providers := []\<rparr>))"

definition InsertServiceProvider :: "service_provider_row \<Rightarrow> (eth_service, unit) go" where
  "InsertServiceProvider r = eth_exec ''InsertServiceProvider'' (\<lambda>db.
     map_option (\<lambda>rs. db\<lparr>eth_service_providers := rs\<rparr>) (insert_unique sv_address r (eth_service_providers db)))"

definition UpsertServiceProvider :: "service_provider_row \<Rightarrow> (eth_service, unit) go" where
  "UpsertServiceProvider r = eth_exec ''UpsertServiceProvider'' (\<lambda>db.
     Some (db\<lparr>eth_service_providers := upsert_row sv_address r (eth_service_providers db)\<rparr>))"

definition UpsertStaked :: "string \<Rightarrow> int64 \<Rightarrow> (eth_service, unit) go" where
  "UpsertStaked address amount = eth_exec ''UpsertStaked'' (\<lambda>db.
     Some (db\<lparr>eth_staked := upsert_row sk_address \<lparr>sk_address = address, sk_total_staked = amount\<rparr> (eth_staked db)\<rparr>))"

definition ClearActiveProposals :: "(eth_service, unit) go" where
  "ClearActiveProposals = eth_exec ''ClearActiveProposals'' (\<lambda>db. Some (db\<lparr>eth_active_proposals := []\<rparr>))"

definition InsertActiveProposal :: "proposal_row \<Rightarrow> (eth_service, unit) go" where
  "InsertActiveProposal r = eth_exec ''InsertActiveProposal'' (\<lambda>db.
     map_option (\<lambda>rs. db\<lparr>eth_active_proposals := rs\<rparr>) (insert_unique pr_id r (eth_active_proposals db)))"

definition DeleteActiveProposal :: "int64 \<Rightarrow> (eth_service, unit) go" where
  "DeleteActiveProposal i = eth_exec ''DeleteActiveProposal'' (\<lambda>db.
     Some (db\<lparr>eth_active_proposals := filter (\<lambda>r. pr_id r \<noteq> i) (eth_active_proposals db)\<rparr>))"

definition GetRegisteredEndpoint :: "string \<Rightarrow> eth_db \<Rightarrow> eth_endpoint_row option" where
  "GetRegisteredEndpoint endpoint db = find_row (\<lambda>r. ee_endpoint r = endpoint) (eth_registered_endpoints db)"

definition GetRegisteredEndpointsForServiceProvider_rows :: "string \<Rightarrow> eth_db \<Rightarrow> eth_endpoint_row list" where
  "GetRegisteredEndpointsForServiceProvider_rows owner db =
     filter (\<lambda>r. ee_owner r = owner) (eth_registered_endpoints db)"

definition GetServiceProvider_row :: "string \<Rightarrow> eth_db \<Rightarrow> service_provider_row option" where
  "GetServiceProvider_row address db = find_row (\<lambda>r. sv_address r = address) (eth_service_providers db)"

definition GetStakedAmountForServiceProvider :: "string \<Rightarrow> eth_db \<Rightarrow> int64 option" where
  "GetStakedAmountForServiceProvider address db =
     map_option sk_total_staked (find_row (\<lambda>r. sk_address r = address) (eth_staked db))"

definition GetLatestFundingRound_row :: "eth_db \<Rightarrow> funding_round_row option" where
  "GetLatestFundingRound_row db = latest_by fr_round_num (eth_funding_rounds db)"

definition GetCountOfEndpointsWithDelegateWallet :: "string \<Rightarrow> eth_db \<Rightarrow> int64" where
  "GetCountOfEndpointsWithDelegateWallet wallet db =
     int (length (filter (\<lambda>r. ee_delegate_wallet r = wallet) (eth_registered_endpoints db)))"

section \<open>The contracts (contracts.go)\<close>

record endpoint_info =
  ei_owner :: bytes
  ei_endpoint :: string
  ei_blockNumber :: int
  ei_delegateOwnerWallet :: bytes

record contract_node =
  cn_Id :: int
  cn_Owner :: bytes
  cn_Endpoint :: string
  cn_Type :: bytes
  cn_BlockNumber :: int
  cn_DelegateOwnerWallet :: bytes

record sp_details =
  sd_deployerStake :: int
  sd_deployerCut :: int
  sd_validBounds :: bool
  sd_numberOfEndpoints :: int
  sd_minAccountStake :: int
  sd_maxAccountStake :: int

record proposal_info =
  pi_proposalId :: int
  pi_proposer :: bytes
  pi_submissionBlockNumber :: int
  pi_targetContractRegistryKey :: bytes
  pi_targetContractAddress :: bytes
  pi_callValue :: int
  pi_functionSignature :: string
  pi_callData :: bytes

text \<open>
  The answers of the Ethereum node at one moment: the address of a contract by its key in the
  registry, the calls of the contracts, and the time in the header of a block.
\<close>

record eth_chain =
  ec_contract :: "string \<Rightarrow> bytes result"
  ec_total :: "bytes \<Rightarrow> int result"
  ec_info :: "bytes \<Rightarrow> int \<Rightarrow> endpoint_info result"
  ec_details :: "bytes \<Rightarrow> sp_details result"
  ec_totalStakedFor :: "bytes \<Rightarrow> int result"
  ec_totalStaked :: "int result"
  ec_fundsPerRound :: "int result"
  ec_headerTime :: "int \<Rightarrow> int result"
  ec_inProgress :: "int list result"
  ec_proposal :: "int \<Rightarrow> proposal_info result"

text \<open>
  The functions of go-ethereum on addresses and call data (\<^verbatim>\<open>Address.Hex\<close>, \<^verbatim>\<open>HexToAddress\<close>, unpacking the
  arguments of \<^verbatim>\<open>slash\<close>), the order in which the goroutines that ask for nodes finish, the order in
  which the map of service providers is walked, and the moment at which the goroutine that a refresh starts
  runs. It touches one table and the cached address of a contract that the refresh does not use, so that where it
  is interleaved with single statements makes no difference.
\<close>

datatype refresh_moment = RefreshFirst | RefreshInside | RefreshLast

record eth_env =
  en_hex :: "bytes \<Rightarrow> string"
  en_address :: "string \<Rightarrow> bytes"
  en_unpackSlash :: "string \<Rightarrow> (bytes \<times> int) result"
  en_finished :: "contract_node list \<Rightarrow> contract_node list"
  en_walk :: "service_provider_row list \<Rightarrow> service_provider_row list"
  en_refresh :: refresh_moment

definition ServiceTypeToString :: "bytes \<Rightarrow> string result" where
  "ServiceTypeToString ty =
     (if ty = Utf8ToHex ''discovery-node'' then Ok ''discovery-node''
      else if ty = Utf8ToHex ''content-node'' then Ok ''content-node''
      else if ty = Utf8ToHex ''validator'' then Ok ''validator''
      else Err (Errorf ''no matching service type found''))"

definition WeiToAudio :: "int \<Rightarrow> int" where
  "WeiToAudio wei = wei div 10 ^ 18"

definition AudioToWei :: "int \<Rightarrow> int" where
  "AudioToWei audio = audio * 10 ^ 18"

text \<open>A contract is looked up in the registry once; later calls use what was found.\<close>

definition get_contract :: "eth_chain \<Rightarrow> string \<Rightarrow> (eth_service, bytes) go" where
  "get_contract c key s =
     (case es_contracts s key of
        Some addr \<Rightarrow> (Ok addr, s)
      | None \<Rightarrow> (case ec_contract c key of
            Ok addr \<Rightarrow> (Ok addr, s\<lparr>es_contracts := (es_contracts s)(key \<mapsto> addr)\<rparr>)
          | r \<Rightarrow> (r, s)))"

definition zero_address :: bytes where
  "zero_address = replicate 20 0"

definition node_of_info :: "bytes \<Rightarrow> int \<Rightarrow> endpoint_info \<Rightarrow> contract_node" where
  "node_of_info ty i info =
     \<lparr>cn_Id = i, cn_Owner = ei_owner info, cn_Endpoint = ei_endpoint info, cn_Type = ty,
      cn_BlockNumber = ei_blockNumber info, cn_DelegateOwnerWallet = ei_delegateOwnerWallet info\<rparr>"

definition GetRegisteredNode :: "eth_chain \<Rightarrow> int \<Rightarrow> bytes \<Rightarrow> (eth_service, contract_node) go" where
  "GetRegisteredNode c i ty =
     go_bind (get_contract c ''ServiceProviderFactory'') (\<lambda>_. go_lift
       (bind_result (ec_info c ty i) (\<lambda>info.
          if ei_delegateOwnerWallet info = zero_address then Err (Errorf ''node not found'')
          else Ok (node_of_info ty i info))))"

primrec collect_nodes :: "eth_chain \<Rightarrow> bytes \<Rightarrow> int list \<Rightarrow> contract_node list result" where
  "collect_nodes c ty [] = Ok []"
| "collect_nodes c ty (i # is) =
     bind_result (ec_info c ty i) (\<lambda>info.
     map_result (\<lambda>nodes. if ei_delegateOwnerWallet info = zero_address then nodes else node_of_info ty i info # nodes)
       (collect_nodes c ty is))"

text \<open>The ids of a type run from 1 to the number the contract reports.\<close>

definition GetAllRegisteredNodesForType :: "eth_chain \<Rightarrow> bytes \<Rightarrow> (eth_service, contract_node list) go" where
  "GetAllRegisteredNodesForType c ty =
     go_bind (get_contract c ''ServiceProviderFactory'') (\<lambda>_. go_lift
       (bind_result (ec_total c ty) (\<lambda>n. collect_nodes c ty [1..n])))"

definition GetAllRegisteredNodes_eth :: "eth_env \<Rightarrow> eth_chain \<Rightarrow> (eth_service, contract_node list) go" where
  "GetAllRegisteredNodes_eth en c =
     go_bind (GetAllRegisteredNodesForType c (Utf8ToHex ''discovery-node'')) (\<lambda>ds.
     go_bind (GetAllRegisteredNodesForType c (Utf8ToHex ''content-node'')) (\<lambda>cs.
     go_bind (GetAllRegisteredNodesForType c (Utf8ToHex ''validator'')) (\<lambda>vs.
     go_return (en_finished en (ds @ cs @ vs)))))"

section \<open>Copying one node or provider\<close>

definition endpoint_row :: "eth_env \<Rightarrow> string \<Rightarrow> int \<Rightarrow> int \<Rightarrow> string \<Rightarrow> bytes \<Rightarrow> contract_node \<Rightarrow> eth_endpoint_row" where
  "endpoint_row en st time spID endpoint owner node =
     \<lparr>ee_id = wrap32 (wrap64 spID), ee_service_type = st, ee_owner = en_hex en owner,
      ee_delegate_wallet = en_hex en (cn_DelegateOwnerWallet node), ee_endpoint = endpoint,
      ee_blocknumber = wrap64 (cn_BlockNumber node), ee_registered_at = wrap64 time\<rparr>"

definition provider_row :: "eth_env \<Rightarrow> bytes \<Rightarrow> sp_details \<Rightarrow> service_provider_row" where
  "provider_row en address d =
     \<lparr>sv_address = en_hex en address, sv_deployer_stake = wrap64 (sd_deployerStake d),
      sv_deployer_cut = wrap64 (sd_deployerCut d), sv_valid_bounds = sd_validBounds d,
      sv_number_of_endpoints = wrap32 (wrap64 (sd_numberOfEndpoints d)),
      sv_min_account_stake = wrap64 (sd_minAccountStake d), sv_max_account_stake = wrap64 (sd_maxAccountStake d)\<rparr>"

definition addRegisteredEndpoint ::
    "eth_env \<Rightarrow> eth_chain \<Rightarrow> int \<Rightarrow> bytes \<Rightarrow> string \<Rightarrow> bytes \<Rightarrow> (eth_service, unit) go" where
  "addRegisteredEndpoint en c spID ty endpoint owner =
     go_bind (go_lift (ServiceTypeToString ty)) (\<lambda>st.
     go_bind (GetRegisteredNode c spID ty) (\<lambda>node.
     go_bind (go_lift (wrap_err ''failed to get block to check registration date''
       (ec_headerTime c (cn_BlockNumber node)))) (\<lambda>time.
     InsertRegisteredEndpoint (endpoint_row en st time spID endpoint owner node))))"

definition dereg_event :: "eth_env \<Rightarrow> string \<Rightarrow> int \<Rightarrow> string \<Rightarrow> bytes \<Rightarrow> eth_endpoint_row \<Rightarrow> service_endpoint" where
  "dereg_event en st spID endpoint owner ep =
     \<lparr>se_Id = wrap64 spID, se_ServiceType = st, se_RegisteredAt = ee_registered_at ep, se_BlockNumber = 0,
      se_Owner = en_hex en owner, se_Endpoint = endpoint, se_DelegateWallet = ee_delegate_wallet ep\<rparr>"

definition publish_dereg :: "service_endpoint \<Rightarrow> (eth_service, unit) go" where
  "publish_dereg e = go_modify (\<lambda>s. s\<lparr>es_deregPubsub := Publish ''deregistration-subscriber'' e (es_deregPubsub s)\<rparr>)"

definition deleteAndDeregisterEndpoint ::
    "eth_env \<Rightarrow> int \<Rightarrow> bytes \<Rightarrow> string \<Rightarrow> bytes \<Rightarrow> (eth_service, unit) go" where
  "deleteAndDeregisterEndpoint en spID ty endpoint owner =
     go_bind (go_lift (ServiceTypeToString ty)) (\<lambda>st.
     go_bind (go_wrap ''could not fetch endpoint from db'' (\<lambda>s.
       (eth_row ''GetRegisteredEndpoint'' (GetRegisteredEndpoint endpoint) s, s))) (\<lambda>ep.
     go_bind (DeleteRegisteredEndpoint (wrap32 (wrap64 spID)) endpoint (en_hex en owner) st) (\<lambda>_.
     publish_dereg (dereg_event en st spID endpoint owner ep))))"

definition updateServiceProvider :: "eth_env \<Rightarrow> eth_chain \<Rightarrow> bytes \<Rightarrow> (eth_service, unit) go" where
  "updateServiceProvider en c address =
     go_bind (go_wrap ''failed to bind service provider factory contract while updating service provider''
       (get_contract c ''ServiceProviderFactory'')) (\<lambda>_.
     go_bind (go_lift (wrap_err ''failed get service provider details for address'' (ec_details c address))) (\<lambda>d.
     go_wrap ''could not upsert service provider into eth service db'' (UpsertServiceProvider (provider_row en address d))))"

definition updateTotalStakedAmount :: "eth_chain \<Rightarrow> (eth_service, unit) go" where
  "updateTotalStakedAmount c =
     go_bind (go_wrap ''failed to bind staking contract'' (get_contract c ''StakingProxy'')) (\<lambda>_.
     go_bind (go_lift (wrap_err ''could not get total staked across all delegators'' (ec_totalStaked c))) (\<lambda>n.
     go_modify (\<lambda>s. s\<lparr>es_fundingRound := (es_fundingRound s)\<lparr>fm_totalStakedAmount := wrap64 (WeiToAudio n)\<rparr>\<rparr>)))"

definition updateStakedAmountForServiceProvider ::
    "eth_env \<Rightarrow> eth_chain \<Rightarrow> bytes \<Rightarrow> int \<Rightarrow> (eth_service, unit) go" where
  "updateStakedAmountForServiceProvider en c address amount =
     go_bind (go_wrap ''could not update service staked amount''
       (UpsertStaked (en_hex en address) (wrap64 (WeiToAudio amount)))) (\<lambda>_.
     go_wrap ''cound not update total staked amount'' (updateTotalStakedAmount c))"

section \<open>Refilling the tables\<close>

fun hydrate_nodes ::
    "eth_env \<Rightarrow> eth_chain \<Rightarrow> contract_node list \<Rightarrow> service_provider_row list
     \<Rightarrow> (eth_service, service_provider_row list) go" where
  "hydrate_nodes en c [] sps = go_return sps"
| "hydrate_nodes en c (node # nodes) sps =
     go_bind (go_lift (wrap_err ''could resolve service type for node'' (ServiceTypeToString (cn_Type node)))) (\<lambda>st.
     go_bind (go_lift (wrap_err ''failed to get block to check registration date''
       (ec_headerTime c (cn_BlockNumber node)))) (\<lambda>time.
     go_bind (go_wrap ''could not insert registered endpoint into eth indexer db''
       (InsertRegisteredEndpoint (endpoint_row en st time (cn_Id node) (cn_Endpoint node) (cn_Owner node) node))) (\<lambda>_.
     go_bind (go_lift (if en_hex en (cn_Owner node) \<in> sv_address ` set sps then Ok sps
       else map_result (\<lambda>d. sps @ [provider_row en (cn_Owner node) d])
              (wrap_err ''failed get service provider details for address'' (ec_details c (cn_Owner node))))) (\<lambda>sps'.
     hydrate_nodes en c nodes sps'))))"

definition hydrate_provider :: "eth_env \<Rightarrow> eth_chain \<Rightarrow> service_provider_row \<Rightarrow> (eth_service, unit) go" where
  "hydrate_provider en c sp =
     go_bind (go_wrap ''could not insert service provider into eth indexer db'' (InsertServiceProvider sp)) (\<lambda>_.
     go_bind (go_lift (wrap_err ''could not get total staked amount for address''
       (ec_totalStakedFor c (en_address en (sv_address sp))))) (\<lambda>n.
     go_wrap ''could not insert staked amount into eth indexer db''
       (UpsertStaked (sv_address sp) (wrap64 (WeiToAudio n)))))"

text \<open>\<open>Begin\<close> and \<open>Commit\<close> may fail; the deferred rollback restores the tables, not the amounts in memory.\<close>

definition hydrate_tx :: "eth_env \<Rightarrow> eth_chain \<Rightarrow> contract_node list \<Rightarrow> (eth_service, unit) go" where
  "hydrate_tx en c nodes =
     go_bind (go_wrap ''could not begin db tx'' (eth_exec ''Begin'' Some)) (\<lambda>_.
     go_bind (go_wrap ''could not clear registered endpoints'' ClearRegisteredEndpoints) (\<lambda>_.
     go_bind (go_wrap ''could not clear registered endpoints'' ClearRegisteredEndpoints) (\<lambda>_.
     go_bind (go_wrap ''could not clear service providers'' ClearServiceProviders) (\<lambda>_.
     go_bind (go_wrap ''failed to bind service provider factory contract'' (get_contract c ''ServiceProviderFactory'')) (\<lambda>_.
     go_bind (go_wrap ''failed to bind staking contract'' (get_contract c ''StakingProxy'')) (\<lambda>_.
     go_bind (go_wrap ''failed to bind claims manager contract'' (get_contract c ''ClaimsManagerProxy'')) (\<lambda>_.
     go_bind (hydrate_nodes en c nodes []) (\<lambda>sps.
     go_bind (go_iter (hydrate_provider en c) (en_walk en sps)) (\<lambda>_.
     go_bind (go_wrap ''could not update total staked amount'' (updateTotalStakedAmount c)) (\<lambda>_.
     go_bind (go_lift (wrap_err ''could not get funding amount per round'' (ec_fundsPerRound c))) (\<lambda>funds.
     go_bind (go_modify (\<lambda>s. s\<lparr>es_fundingRound := (es_fundingRound s)
       \<lparr>fm_fundingAmountPerRound := wrap64 (WeiToAudio funds), fm_initialized := True\<rparr>\<rparr>)) (\<lambda>_.
     eth_exec ''Commit'' Some))))))))))))"

definition log_err :: "('s, 'a) go \<Rightarrow> ('s, unit) go" where
  "log_err m = go_try m (\<lambda>r. case r of Panic p \<Rightarrow> go_lift (Panic p) | _ \<Rightarrow> go_return ())"

definition addActiveProposal :: "eth_env \<Rightarrow> eth_chain \<Rightarrow> int \<Rightarrow> (eth_service, unit) go" where
  "addActiveProposal en c proposalId =
     go_bind (go_lift (wrap_err ''eth could not get proposal by id'' (ec_proposal c proposalId))) (\<lambda>p.
     InsertActiveProposal
       \<lparr>pr_id = wrap64 (pi_proposalId p), pr_proposer = en_hex en (pi_proposer p),
        pr_submission_block_number = wrap64 (pi_submissionBlockNumber p),
        pr_target_contract_registry_key = HexToUtf8 (pi_targetContractRegistryKey p),
        pr_target_contract_address = en_hex en (pi_targetContractAddress p),
        pr_call_value = wrap64 (pi_callValue p), pr_function_signature = pi_functionSignature p,
        pr_call_data = hex_encode (pi_callData p)\<rparr>)"

text \<open>The goroutine that \<^verbatim>\<open>hydrateEthData\<close> starts; a failing clear is ignored, failing proposals are logged.\<close>

definition refreshInProgressProposals :: "eth_env \<Rightarrow> eth_chain \<Rightarrow> (eth_service, unit) go" where
  "refreshInProgressProposals en c =
     go_try ClearActiveProposals (\<lambda>_.
     go_bind (go_wrap ''eth could not get governance contract'' (get_contract c ''Governance'')) (\<lambda>_.
     go_bind (go_lift (wrap_err ''eth could not get in progress proposals'' (ec_inProgress c))) (\<lambda>ids.
     go_each (addActiveProposal en c) ids)))"

text \<open>
  The goroutine runs at its moment, on the pool and not in the transaction; its errors are logged. The rollback
  restores the other tables only.
\<close>

definition refresh_at :: "refresh_moment \<Rightarrow> eth_env \<Rightarrow> eth_chain \<Rightarrow> (eth_service, unit) go" where
  "refresh_at moment en c = (if en_refresh en = moment then log_err (refreshInProgressProposals en c) else go_return ())"

definition hydrateEthData :: "eth_env \<Rightarrow> eth_chain \<Rightarrow> (eth_service, unit) go" where
  "hydrateEthData en c =
     go_bind (refresh_at RefreshFirst en c) (\<lambda>_.
     go_try (go_bind (go_wrap ''could not get registered nodes from contracts'' (GetAllRegisteredNodes_eth en c)) (\<lambda>nodes.
             go_atomic (\<lambda>s s'. s'\<lparr>es_db := (es_db s)\<lparr>eth_active_proposals := eth_active_proposals (es_db s')\<rparr>\<rparr>)
               (go_bind (refresh_at RefreshInside en c) (\<lambda>_. hydrate_tx en c nodes)))) (\<lambda>r.
     go_bind (refresh_at RefreshLast en c) (\<lambda>_. go_lift r)))"

section \<open>Proposals\<close>

text \<open>One turn of the loop of \<^verbatim>\<open>getSlashProposalForAddress\<close>: the best proposal so far with its amount.\<close>

definition slash_candidate ::
    "eth_env \<Rightarrow> bytes \<Rightarrow> string \<Rightarrow> proposal_row \<Rightarrow> int option" where
  "slash_candidate en delegateManager address prop =
     (if \<not> has_prefix (pr_function_signature prop) ''slash('' \<or> pr_target_contract_address prop \<noteq> en_hex en delegateManager
      then None
      else case en_unpackSlash en (pr_call_data prop) of
             Ok (slashAddr, amount) \<Rightarrow> if en_hex en slashAddr \<noteq> address then None else Some amount
           | _ \<Rightarrow> None)"

primrec best_slash ::
    "(proposal_row \<Rightarrow> int option) \<Rightarrow> proposal_row list \<Rightarrow> (proposal_row \<times> int) option \<Rightarrow> (proposal_row \<times> int) option" where
  "best_slash cand [] found = found"
| "best_slash cand (prop # props) found =
     best_slash cand props
       (case cand prop of
          None \<Rightarrow> found
        | Some amount \<Rightarrow> (case found of
              None \<Rightarrow> Some (prop, amount)
            | Some (p, best) \<Rightarrow> if best < amount then Some (prop, amount) else found))"

definition getSlashProposalForAddress ::
    "eth_env \<Rightarrow> eth_chain \<Rightarrow> string \<Rightarrow> (eth_service, proposal_row option) go" where
  "getSlashProposalForAddress en c address =
     go_bind (go_wrap ''could not get slash proposals from db'' (\<lambda>s.
       (eth_rows ''GetActiveProposals'' eth_active_proposals s, s))) (\<lambda>props.
     go_bind (go_wrap ''failed to bind delegate manager contract'' (get_contract c ''DelegateManager'')) (\<lambda>delegateManager.
     go_return (map_option fst (best_slash (slash_candidate en delegateManager address) props None))))"

section \<open>Events\<close>

text \<open>
  The events the service handles one at a time: those of the contracts, and the hourly tick. An error is
  logged, except that a failing refresh ends the manager. Renewing a failed subscription changes
  no state and is left out.
\<close>

datatype eth_event =
    RegisteredServiceProvider int bytes string bytes
  | DeregisteredServiceProvider int bytes string bytes
  | EndpointUpdated int bytes string string bytes
  | StakeChanged bytes int
  | ProposalSubmitted int
  | ProposalOutcomeEvaluated int
  | HourlyTick

definition handle_eth_event :: "eth_env \<Rightarrow> eth_chain \<Rightarrow> eth_event \<Rightarrow> (eth_service, unit) go" where
  "handle_eth_event en c ev =
     (case ev of
        RegisteredServiceProvider spID ty endpoint owner \<Rightarrow> log_err
          (go_bind (addRegisteredEndpoint en c spID ty endpoint owner) (\<lambda>_. updateServiceProvider en c owner))
      | DeregisteredServiceProvider spID ty endpoint owner \<Rightarrow> log_err
          (go_bind (deleteAndDeregisterEndpoint en spID ty endpoint owner) (\<lambda>_. updateServiceProvider en c owner))
      | EndpointUpdated spID ty oldEndpoint newEndpoint owner \<Rightarrow> log_err
          (go_bind (deleteAndDeregisterEndpoint en spID ty oldEndpoint owner) (\<lambda>_.
           go_bind (addRegisteredEndpoint en c spID ty newEndpoint owner) (\<lambda>_. updateServiceProvider en c owner)))
      | StakeChanged user amount \<Rightarrow> log_err (updateStakedAmountForServiceProvider en c user amount)
      | ProposalSubmitted i \<Rightarrow> log_err (addActiveProposal en c i)
      | ProposalOutcomeEvaluated i \<Rightarrow> log_err (DeleteActiveProposal (wrap64 i))
      | HourlyTick \<Rightarrow> go_wrap ''error gathering eth endpoints'' (hydrateEthData en c))"

definition startEthDataManager :: "eth_env \<Rightarrow> eth_chain \<Rightarrow> (eth_chain \<times> eth_event) list \<Rightarrow> (eth_service, unit) go" where
  "startEthDataManager en c evs =
     go_bind (go_wrap ''error hydrating eth data'' (hydrateEthData en c)) (\<lambda>_.
     go_bind (go_modify (\<lambda>s. s\<lparr>es_isReady := True\<rparr>)) (\<lambda>_.
     go_bind (go_wrap ''failed to bind service provider factory contract'' (get_contract c ''ServiceProviderFactory'')) (\<lambda>_.
     go_bind (go_wrap ''failed to bind staking contract'' (get_contract c ''StakingProxy'')) (\<lambda>_.
     go_bind (go_wrap ''eth could not get governance contract'' (get_contract c ''Governance'')) (\<lambda>_.
     go_iter (\<lambda>(c', ev). handle_eth_event en c' ev) evs)))))"

section \<open>Requests (connect.go)\<close>

definition service_endpoint_of :: "eth_endpoint_row \<Rightarrow> service_endpoint" where
  "service_endpoint_of ep =
     \<lparr>se_Id = ee_id ep, se_ServiceType = ee_service_type ep, se_RegisteredAt = ee_registered_at ep,
      se_BlockNumber = ee_blocknumber ep, se_Owner = ee_owner ep, se_Endpoint = ee_endpoint ep,
      se_DelegateWallet = ee_delegate_wallet ep\<rparr>"

definition GetRegisteredEndpoints :: "eth_service \<Rightarrow> service_endpoint list result" where
  "GetRegisteredEndpoints s =
     (case eth_rows ''GetRegisteredEndpoints'' eth_registered_endpoints s of
        Ok eps \<Rightarrow> Ok (map service_endpoint_of eps)
      | _ \<Rightarrow> Err (Errorf ''could not get registered endpoints''))"

definition GetRegisteredEndpointsForServiceProvider :: "string \<Rightarrow> eth_service \<Rightarrow> service_endpoint list result" where
  "GetRegisteredEndpointsForServiceProvider owner s =
     (case eth_rows ''GetRegisteredEndpointsForServiceProvider'' (GetRegisteredEndpointsForServiceProvider_rows owner) s of
        Ok eps \<Rightarrow> Ok (map service_endpoint_of eps)
      | _ \<Rightarrow> Err (Errorf ''could not get registered endpoints for service provider''))"

definition GetRegisteredEndpointInfo :: "eth_service \<Rightarrow> string \<Rightarrow> eth_endpoint eth_answer" where
  "GetRegisteredEndpointInfo s endpoint =
     (case eth_row ''GetRegisteredEndpoint'' (GetRegisteredEndpoint endpoint) s of
        Ok ep \<Rightarrow> EthOk \<lparr>ep_Id = ee_id ep, ep_DelegateWallet = ee_delegate_wallet ep, ep_BlockNumber = ee_blocknumber ep\<rparr>
      | Err e \<Rightarrow> if is_no_rows e then EthNotFound else EthFailed (Errorf ''could not get registered endpoint'')
      | Panic p \<Rightarrow> EthFailed (Errorf p))"

definition GetServiceProvider :: "string \<Rightarrow> eth_service \<Rightarrow> service_provider_row result" where
  "GetServiceProvider address s =
     (case eth_row ''GetServiceProvider'' (GetServiceProvider_row address) s of
        Ok r \<Rightarrow> Ok r | _ \<Rightarrow> Err (Errorf ''could not get service provider''))"

definition GetServiceProviders :: "eth_service \<Rightarrow> service_provider_row list result" where
  "GetServiceProviders s =
     (case eth_rows ''GetServiceProviders'' eth_service_providers s of
        Ok rs \<Rightarrow> Ok rs | _ \<Rightarrow> Err (Errorf ''could not get service providers''))"

definition GetLatestFundingRound :: "eth_service \<Rightarrow> funding_round_row result" where
  "GetLatestFundingRound s =
     (case eth_row ''GetLatestFundingRound'' GetLatestFundingRound_row s of
        Ok r \<Rightarrow> Ok r | _ \<Rightarrow> Err (Errorf ''could not get latest funding round''))"

definition IsDuplicateDelegateWallet :: "string \<Rightarrow> eth_service \<Rightarrow> bool result" where
  "IsDuplicateDelegateWallet wallet s =
     (case eth_rows ''GetCountOfEndpointsWithDelegateWallet'' (GetCountOfEndpointsWithDelegateWallet wallet) s of
        Ok n \<Rightarrow> Ok (1 < n) | _ \<Rightarrow> Err (Errorf ''could not check for duplicate wallet''))"

definition GetStakingMetadataForServiceProvider ::
    "(float64 \<Rightarrow> int64) \<Rightarrow> string \<Rightarrow> eth_service \<Rightarrow> (int64 \<times> int64) result" where
  "GetStakingMetadataForServiceProvider machine address s =
     (case eth_row ''GetStakedAmountForServiceProvider'' (GetStakedAmountForServiceProvider address) s of
        Ok staked \<Rightarrow>
          (let fr = es_fundingRound s in
           Ok (fm_totalStakedAmount fr,
               f_to_int64 machine (f_div (f_mul (f_of_int staked) (f_of_int (fm_fundingAmountPerRound fr)))
                                          (f_of_int (fm_totalStakedAmount fr)))))
      | _ \<Rightarrow> Err (Errorf ''Could not get staking metadata''))"

datatype 'a slash_answer = SlashFound 'a | SlashNotFound | SlashFailed

definition GetActiveSlashProposalForAddress ::
    "eth_env \<Rightarrow> eth_chain \<Rightarrow> string \<Rightarrow> eth_service \<Rightarrow> proposal_row slash_answer \<times> eth_service" where
  "GetActiveSlashProposalForAddress en c address s =
     (case getSlashProposalForAddress en c address s of
        (Ok (Some p), s') \<Rightarrow> (SlashFound p, s')
      | (Ok None, s') \<Rightarrow> (SlashNotFound, s')
      | (_, s') \<Rightarrow> (SlashFailed, s'))"

section \<open>The tables mirror the contracts\<close>

definition service_types :: "bytes set" where
  "service_types = {Utf8ToHex ''discovery-node'', Utf8ToHex ''content-node'', Utf8ToHex ''validator''}"

text \<open>The node the contracts list under a type and an id.\<close>

definition node_at :: "eth_chain \<Rightarrow> bytes \<Rightarrow> int \<Rightarrow> contract_node option" where
  "node_at c ty i =
     (case (ec_total c ty, ec_info c ty i) of
        (Ok n, Ok info) \<Rightarrow>
          if ty \<in> service_types \<and> 1 \<le> i \<and> i \<le> n \<and> ei_delegateOwnerWallet info \<noteq> zero_address
          then Some (node_of_info ty i info) else None
      | _ \<Rightarrow> None)"

definition node_row :: "eth_env \<Rightarrow> eth_chain \<Rightarrow> contract_node \<Rightarrow> eth_endpoint_row result" where
  "node_row en c node =
     bind_result (ServiceTypeToString (cn_Type node)) (\<lambda>st.
     map_result (\<lambda>time. endpoint_row en st time (cn_Id node) (cn_Endpoint node) (cn_Owner node) node)
       (ec_headerTime c (cn_BlockNumber node)))"

definition mirrors :: "eth_env \<Rightarrow> eth_chain \<Rightarrow> eth_db \<Rightarrow> bool" where
  "mirrors en c db \<longleftrightarrow>
     distinct (map endpoint_key (eth_registered_endpoints db))
     \<and> (\<forall>ty i node. node_at c ty i = Some node \<longrightarrow> (\<exists>row \<in> set (eth_registered_endpoints db). node_row en c node = Ok row))
     \<and> (\<forall>row \<in> set (eth_registered_endpoints db). \<exists>ty i node. node_at c ty i = Some node \<and> node_row en c node = Ok row)"

lemma node_at_SomeD:
  assumes "node_at c ty i = Some node"
  shows "ty \<in> service_types" "cn_Id node = i" "cn_Type node = ty" "cn_DelegateOwnerWallet node \<noteq> zero_address" "1 \<le> i"
    and "\<exists>info. ec_info c ty i = Ok info \<and> node = node_of_info ty i info"
  using assms by (auto simp: node_at_def node_of_info_def split: result.splits if_splits)

lemma node_at_iff:
  "node_at c ty i = Some node \<longleftrightarrow> ty \<in> service_types \<and> 1 \<le> i
     \<and> (\<exists>n info. ec_total c ty = Ok n \<and> i \<le> n \<and> ec_info c ty i = Ok info
          \<and> ei_delegateOwnerWallet info \<noteq> zero_address \<and> node = node_of_info ty i info)"
  by (auto simp: node_at_def split: result.splits)

lemma collect_nodes_Ok:
  assumes "collect_nodes c ty is = Ok nodes"
  shows "node \<in> set nodes \<longleftrightarrow> (\<exists>i info. i \<in> set is \<and> ec_info c ty i = Ok info
           \<and> ei_delegateOwnerWallet info \<noteq> zero_address \<and> node = node_of_info ty i info)"
  using assms
proof (induction "is" arbitrary: nodes)
  case (Cons i "is")
  from Cons.prems obtain info ns where "ec_info c ty i = Ok info" "collect_nodes c ty is = Ok ns"
    "nodes = (if ei_delegateOwnerWallet info = zero_address then ns else node_of_info ty i info # ns)"
    by (auto simp: go_simps)
  with Cons.IH [of ns] show ?case by (cases "ei_delegateOwnerWallet info = zero_address") auto
qed simp

lemma get_contract_same:
  assumes "get_contract c key s = (r, s')"
  shows "es_db s' = es_db s" "es_deregPubsub s' = es_deregPubsub s" "es_fundingRound s' = es_fundingRound s"
  using assms by (auto simp: get_contract_def split: option.splits result.splits)

lemma nodes_for_type_Ok:
  assumes "GetAllRegisteredNodesForType c ty s = (Ok nodes, s')" and "ty \<in> service_types"
  shows "set nodes = {node. \<exists>i. node_at c ty i = Some node}" and "es_db s' = es_db s"
proof -
  from assms(1) obtain n where n: "ec_total c ty = Ok n" and nodes: "collect_nodes c ty [1..n] = Ok nodes"
    and db: "es_db s' = es_db s"
    by (auto simp: GetAllRegisteredNodesForType_def go_simps dest: get_contract_same(1))
  show "es_db s' = es_db s" by (fact db)
  show "set nodes = {node. \<exists>i. node_at c ty i = Some node}"
    using collect_nodes_Ok [OF nodes] n assms(2)
    by (auto simp: set_eq_iff node_at_iff)
qed

lemma node_at_types:
  assumes "node_at c ty i = Some node"
  shows "ty = Utf8ToHex ''discovery-node'' \<or> ty = Utf8ToHex ''content-node'' \<or> ty = Utf8ToHex ''validator''"
  using node_at_SomeD(1) [OF assms] by (auto simp: service_types_def)

lemma all_nodes_Ok:
  assumes run: "GetAllRegisteredNodes_eth en c s = (Ok nodes, s')" and order: "\<And>ns. mset (en_finished en ns) = mset ns"
  shows "set nodes = {node. \<exists>ty i. node_at c ty i = Some node}" and "es_db s' = es_db s"
proof -
  have order': "set (en_finished en ns) = set ns" for ns using order [of ns] by (rule mset_eq_setD)
  have types: "Utf8ToHex ''discovery-node'' \<in> service_types" "Utf8ToHex ''content-node'' \<in> service_types"
    "Utf8ToHex ''validator'' \<in> service_types" by (simp_all add: service_types_def)
  from run obtain ds cs vs s1 s2 where
    ds: "GetAllRegisteredNodesForType c (Utf8ToHex ''discovery-node'') s = (Ok ds, s1)"
    and cs: "GetAllRegisteredNodesForType c (Utf8ToHex ''content-node'') s1 = (Ok cs, s2)"
    and vs: "GetAllRegisteredNodesForType c (Utf8ToHex ''validator'') s2 = (Ok vs, s')"
    and nodes: "nodes = en_finished en (ds @ cs @ vs)"
    by (auto simp: GetAllRegisteredNodes_eth_def go_simps)
  show "es_db s' = es_db s"
    using nodes_for_type_Ok(2) [OF ds types(1)] nodes_for_type_Ok(2) [OF cs types(2)] nodes_for_type_Ok(2) [OF vs types(3)] by simp
  show "set nodes = {node. \<exists>ty i. node_at c ty i = Some node}"
    using nodes_for_type_Ok(1) [OF ds types(1)] nodes_for_type_Ok(1) [OF cs types(2)] nodes_for_type_Ok(1) [OF vs types(3)]
    by (simp add: nodes order') (use node_at_types in blast)
qed

lemma eth_exec_Ok [go_simps]:
  "eth_exec name upd s = (Ok (), s') \<longleftrightarrow> \<not> eth_fault (es_db s) name \<and> (\<exists>db. upd (es_db s) = Some db \<and> s' = s\<lparr>es_db := db\<rparr>)"
  by (auto simp: eth_exec_def split: option.splits)

lemma insert_unique_Some_iff: "insert_unique key r rows = Some rows' \<longleftrightarrow> key r \<notin> key ` set rows \<and> rows' = rows @ [r]"
  by (auto simp: insert_unique_def)

lemma hydrate_nodes_Ok:
  assumes "hydrate_nodes en c nodes sps s = (Ok sps', s')"
    and "distinct (map endpoint_key (eth_registered_endpoints (es_db s)))" and "distinct (map sv_address sps)"
  shows "\<exists>rows. map (node_row en c) nodes = map Ok rows
      \<and> es_db s' = (es_db s)\<lparr>eth_registered_endpoints := eth_registered_endpoints (es_db s) @ rows\<rparr>
      \<and> distinct (map endpoint_key (eth_registered_endpoints (es_db s')))
      \<and> distinct (map sv_address sps')
      \<and> sv_address ` set sps' = sv_address ` set sps \<union> (\<lambda>n. en_hex en (cn_Owner n)) ` set nodes
      \<and> (\<forall>sp \<in> set sps'. sp \<in> set sps
           \<or> (\<exists>n \<in> set nodes. \<exists>d. ec_details c (cn_Owner n) = Ok d \<and> sp = provider_row en (cn_Owner n) d))"
  using assms
proof (induction nodes arbitrary: sps s)
  case Nil
  then show ?case by (auto simp: go_simps)
next
  case (Cons node nodes)
  let ?row = "\<lambda>st time. endpoint_row en st time (cn_Id node) (cn_Endpoint node) (cn_Owner node) node"
  from Cons.prems(1) obtain st time sps1 where st: "ServiceTypeToString (cn_Type node) = Ok st"
    and time: "ec_headerTime c (cn_BlockNumber node) = Ok time"
    and fresh: "endpoint_key (?row st time) \<notin> endpoint_key ` set (eth_registered_endpoints (es_db s))"
    and sps1: "(if en_hex en (cn_Owner node) \<in> sv_address ` set sps then Ok sps
       else map_result (\<lambda>d. sps @ [provider_row en (cn_Owner node) d])
              (wrap_err ''failed get service provider details for address'' (ec_details c (cn_Owner node)))) = Ok sps1"
    and rest: "hydrate_nodes en c nodes sps1
        (s\<lparr>es_db := (es_db s)\<lparr>eth_registered_endpoints := eth_registered_endpoints (es_db s) @ [?row st time]\<rparr>\<rparr>) = (Ok sps', s')"
    by (auto simp: go_simps InsertRegisteredEndpoint_def insert_unique_Some_iff split: if_splits)
  have addr: "sv_address (provider_row en a d) = en_hex en a" for a d by (simp add: provider_row_def)
  have d1: "distinct (map sv_address sps1)"
    and a1: "sv_address ` set sps1 = insert (en_hex en (cn_Owner node)) (sv_address ` set sps)"
    and p1: "\<forall>sp \<in> set sps1. sp \<in> set sps
           \<or> (\<exists>d. ec_details c (cn_Owner node) = Ok d \<and> sp = provider_row en (cn_Owner node) d)"
    using sps1 Cons.prems(3) by (auto simp: go_simps addr split: if_splits)
  have row: "node_row en c node = Ok (?row st time)" by (simp add: node_row_def st time)
  from Cons.IH [OF rest _ d1] Cons.prems(2) fresh obtain rows where
    "map (node_row en c) nodes = map Ok rows"
    "es_db s' = (es_db s)\<lparr>eth_registered_endpoints := eth_registered_endpoints (es_db s) @ ?row st time # rows\<rparr>"
    "distinct (map endpoint_key (eth_registered_endpoints (es_db s')))" "distinct (map sv_address sps')"
    "sv_address ` set sps' = sv_address ` set sps1 \<union> (\<lambda>n. en_hex en (cn_Owner n)) ` set nodes"
    "\<forall>sp \<in> set sps'. sp \<in> set sps1
           \<or> (\<exists>n \<in> set nodes. \<exists>d. ec_details c (cn_Owner n) = Ok d \<and> sp = provider_row en (cn_Owner n) d)"
    by auto
  with row a1 p1 show ?case by (intro exI [of _ "?row st time # rows"]) auto
qed

lemma find_upsert_row:
  "find_row (\<lambda>r'. key r' = k) (upsert_row key r rows) = (if k = key r then Some r else find_row (\<lambda>r'. key r' = k) rows)"
proof -
  have append: "find_row p (xs @ ys) = (case find_row p xs of None \<Rightarrow> find_row p ys | Some x \<Rightarrow> Some x)" for p xs ys
    by (induction xs) auto
  have replace: "find_row (\<lambda>r'. key r' = k) (map (\<lambda>r'. if key r' = key r then r else r') rows)
      = (if k = key r \<and> key r \<in> key ` set rows then Some r else find_row (\<lambda>r'. key r' = k) rows)"
    by (induction rows) auto
  show ?thesis
  proof (cases "key r \<in> key ` set rows")
    case True
    then show ?thesis by (simp add: upsert_row_def replace)
  next
    case False
    then have "find_row (\<lambda>r'. key r' = key r) rows = None" by (force simp: find_row_None_iff image_iff)
    with False show ?thesis by (auto simp: upsert_row_def append split: option.split)
  qed
qed

lemma distinct_mset_cong: "mset xs = mset ys \<Longrightarrow> distinct ys \<Longrightarrow> distinct xs"
  by (metis distinct_count_atmost_1 set_mset_mset)

lemma hydrate_provider_Ok:
  assumes "hydrate_provider en c sp s = (Ok (), s')"
  shows "\<exists>n. ec_totalStakedFor c (en_address en (sv_address sp)) = Ok n
      \<and> s' = s\<lparr>es_db := (es_db s)\<lparr>eth_service_providers := eth_service_providers (es_db s) @ [sp],
             eth_staked := upsert_row sk_address \<lparr>sk_address = sv_address sp, sk_total_staked = wrap64 (WeiToAudio n)\<rparr>
               (eth_staked (es_db s))\<rparr>\<rparr>"
  using assms
  by (auto simp: go_simps hydrate_provider_def InsertServiceProvider_def UpsertStaked_def insert_unique_Some_iff)

lemma hydrate_providers_Ok:
  assumes "go_iter (hydrate_provider en c) sps s = (Ok (), s')" and "distinct (map sv_address sps)"
  shows "eth_registered_endpoints (es_db s') = eth_registered_endpoints (es_db s)
      \<and> eth_service_providers (es_db s') = eth_service_providers (es_db s) @ sps
      \<and> (\<forall>a. GetStakedAmountForServiceProvider a (es_db s') =
           (if a \<in> sv_address ` set sps
            then (case ec_totalStakedFor c (en_address en a) of Ok n \<Rightarrow> Some (wrap64 (WeiToAudio n)) | _ \<Rightarrow> None)
            else GetStakedAmountForServiceProvider a (es_db s)))
      \<and> (\<forall>a \<in> sv_address ` set sps. is_ok (ec_totalStakedFor c (en_address en a)))"
  using assms
proof (induction sps arbitrary: s)
  case Nil
  then show ?case by (simp add: go_simps)
next
  case (Cons sp sps)
  let ?row = "\<lambda>n. \<lparr>sk_address = sv_address sp, sk_total_staked = wrap64 (WeiToAudio n)\<rparr>"
  let ?db = "\<lambda>n. (es_db s)\<lparr>eth_service_providers := eth_service_providers (es_db s) @ [sp],
      eth_staked := upsert_row sk_address (?row n) (eth_staked (es_db s))\<rparr>"
  from Cons.prems(1) obtain n where n: "ec_totalStakedFor c (en_address en (sv_address sp)) = Ok n"
    and rest: "go_iter (hydrate_provider en c) sps (s\<lparr>es_db := ?db n\<rparr>) = (Ok (), s')"
    by (auto simp: go_simps dest!: hydrate_provider_Ok)
  have staked: "GetStakedAmountForServiceProvider a (?db n) =
      (if a = sv_address sp then Some (wrap64 (WeiToAudio n)) else GetStakedAmountForServiceProvider a (es_db s))" for a
    using find_upsert_row [of sk_address a "?row n" "eth_staked (es_db s)"]
    by (simp add: GetStakedAmountForServiceProvider_def)
  from Cons.IH [OF rest] Cons.prems(2) show ?case by (auto simp: staked n)
qed

lemma keeps_db_get_contract [go_keeps_intros]: "go_keeps (\<lambda>s. es_db s = db) (get_contract c key)"
  by (auto simp: go_keeps_def get_contract_def split: option.splits result.splits)

lemma keeps_db_all_nodes: "go_keeps (\<lambda>s. es_db s = db) (GetAllRegisteredNodes_eth en c)"
  by (simp add: GetAllRegisteredNodes_eth_def GetAllRegisteredNodesForType_def go_keeps_intros)

lemma hydrate_tx_refills:
  assumes nodes: "GetAllRegisteredNodes_eth en c s0 = (Ok nodes, s00)" and tx: "hydrate_tx en c nodes s1 = (Ok (), s')"
    and finished: "\<And>ns. mset (en_finished en ns) = mset ns" and walk: "\<And>sps. mset (en_walk en sps) = mset sps"
    and hex: "\<And>a. en_address en (en_hex en a) = a"
  shows "mirrors en c (es_db s')
        \<and> distinct (map sv_address (eth_service_providers (es_db s')))
        \<and> (\<forall>ty i node. node_at c ty i = Some node \<longrightarrow> (\<exists>d n. ec_details c (cn_Owner node) = Ok d
             \<and> provider_row en (cn_Owner node) d \<in> set (eth_service_providers (es_db s'))
             \<and> ec_totalStakedFor c (cn_Owner node) = Ok n
             \<and> GetStakedAmountForServiceProvider (en_hex en (cn_Owner node)) (es_db s') = Some (wrap64 (WeiToAudio n))))
        \<and> (\<forall>sp \<in> set (eth_service_providers (es_db s')). \<exists>ty i node d. node_at c ty i = Some node
             \<and> ec_details c (cn_Owner node) = Ok d \<and> sp = provider_row en (cn_Owner node) d)"
proof -
  note all = all_nodes_Ok [OF nodes finished]
  from tx obtain sa sb s2 sps s3 s4 x y z where
    "get_contract c ''ServiceProviderFactory'' (s1\<lparr>es_db := (es_db s1)
       \<lparr>eth_registered_endpoints := [], eth_service_providers := []\<rparr>\<rparr>) = (Ok x, sa)"
    "get_contract c ''StakingProxy'' sa = (Ok y, sb)" "get_contract c ''ClaimsManagerProxy'' sb = (Ok z, s2)"
    and hn: "hydrate_nodes en c nodes [] s2 = (Ok sps, s3)"
    and hp: "go_iter (hydrate_provider en c) (en_walk en sps) s3 = (Ok (), s4)"
    and s': "es_db s' = es_db s4"
    by (auto simp: hydrate_tx_def go_simps ClearRegisteredEndpoints_def ClearServiceProviders_def
        updateTotalStakedAmount_def dest: get_contract_same(1))
  then have s2: "eth_registered_endpoints (es_db s2) = []" "eth_service_providers (es_db s2) = []"
    by (auto dest!: get_contract_same(1))
  from hydrate_nodes_Ok [OF hn] s2 obtain rows where rows: "map (node_row en c) nodes = map Ok rows"
    and db3: "es_db s3 = (es_db s2)\<lparr>eth_registered_endpoints := rows\<rparr>"
    and keys: "distinct (map endpoint_key rows)" and dsps: "distinct (map sv_address sps)"
    and owners: "sv_address ` set sps = (\<lambda>n. en_hex en (cn_Owner n)) ` set nodes"
    and sps: "\<And>sp. sp \<in> set sps \<Longrightarrow> \<exists>n \<in> set nodes. \<exists>d. ec_details c (cn_Owner n) = Ok d \<and> sp = provider_row en (cn_Owner n) d"
    by auto
  have walked: "set (en_walk en sps) = set sps" using walk [of sps] by (rule mset_eq_setD)
  have dwalk: "distinct (map sv_address (en_walk en sps))"
    by (rule distinct_mset_cong [OF _ dsps]) (simp add: walk)
  from hydrate_providers_Ok [OF hp dwalk] db3 s2 have eps: "eth_registered_endpoints (es_db s') = rows"
    and prov: "eth_service_providers (es_db s') = en_walk en sps"
    and staked: "\<And>a. a \<in> sv_address ` set sps \<Longrightarrow> is_ok (ec_totalStakedFor c (en_address en a))
       \<and> GetStakedAmountForServiceProvider a (es_db s') =
         (case ec_totalStakedFor c (en_address en a) of Ok n \<Rightarrow> Some (wrap64 (WeiToAudio n)) | _ \<Rightarrow> None)"
    by (auto simp: s' walked)
  from arg_cong [OF rows, of set] have images: "node_row en c ` set nodes = Ok ` set rows" by simp
  have row_of: "\<exists>row \<in> set rows. node_row en c n = Ok row" if "n \<in> set nodes" for n
    using that images by blast
  have of_row: "\<exists>n \<in> set nodes. node_row en c n = Ok row" if "row \<in> set rows" for row
    using that images by (metis imageE imageI)
  have mir: "mirrors en c (es_db s')" using keys row_of of_row all(1) by (fastforce simp: mirrors_def eps)
  have owner: "\<exists>d n. ec_details c (cn_Owner node) = Ok d
             \<and> provider_row en (cn_Owner node) d \<in> set (eth_service_providers (es_db s'))
             \<and> ec_totalStakedFor c (cn_Owner node) = Ok n
             \<and> GetStakedAmountForServiceProvider (en_hex en (cn_Owner node)) (es_db s') = Some (wrap64 (WeiToAudio n))"
    if "node_at c ty i = Some node" for ty i node
  proof -
    from that all(1) have "node \<in> set nodes" by auto
    with owners have mem: "en_hex en (cn_Owner node) \<in> sv_address ` set sps" by auto
    then obtain sp where sp: "sp \<in> set sps" "sv_address sp = en_hex en (cn_Owner node)" by auto
    from sps [OF sp(1)] obtain m :: contract_node and d where m: "ec_details c (cn_Owner m) = Ok d" "sp = provider_row en (cn_Owner m) d" by blast
    with sp(2) have "en_hex en (cn_Owner m) = en_hex en (cn_Owner node)" by (simp add: provider_row_def)
    then have "cn_Owner m = cn_Owner node" by (metis hex)
    with m sp(1) staked [OF mem] show ?thesis
      by (auto simp: prov walked hex is_ok_iff)
  qed
  have listed: "\<exists>ty i node d. node_at c ty i = Some node \<and> ec_details c (cn_Owner node) = Ok d
      \<and> sp = provider_row en (cn_Owner node) d" if "sp \<in> set (eth_service_providers (es_db s'))" for sp
    using sps [of sp] that all(1) by (auto simp: prov walked)
  from mir owner listed dwalk show ?thesis by (simp add: prov)
qed

text \<open>The tables that a refresh fills in its transaction: all but the active proposals.\<close>

definition sans_proposals :: "eth_db \<Rightarrow> eth_db" where
  "sans_proposals db = db\<lparr>eth_active_proposals := []\<rparr>"

lemma sans_proposals_eqD:
  assumes "sans_proposals db = sans_proposals db'"
  shows "eth_registered_endpoints db = eth_registered_endpoints db'" "eth_service_providers db = eth_service_providers db'"
    "eth_staked db = eth_staked db'" "eth_funding_rounds db = eth_funding_rounds db'"
  using arg_cong [OF assms, of eth_registered_endpoints] arg_cong [OF assms, of eth_service_providers]
    arg_cong [OF assms, of eth_staked] arg_cong [OF assms, of eth_funding_rounds] by (simp_all add: sans_proposals_def)

lemma go_keeps_log_err [go_keeps_intros]: "go_keeps P m \<Longrightarrow> go_keeps P (log_err m)"
  unfolding log_err_def by (intro go_keeps_intros)

lemma eth_exec_keeps:
  assumes "\<And>s db. P s \<Longrightarrow> upd (es_db s) = Some db \<Longrightarrow> P (s\<lparr>es_db := db\<rparr>)"
  shows "go_keeps P (eth_exec name upd)"
  using assms by (auto simp: go_keeps_def eth_exec_def split: option.splits)

lemma get_contract_keeps:
  assumes "\<And>s m. P s \<Longrightarrow> P (s\<lparr>es_contracts := m\<rparr>)"
  shows "go_keeps P (get_contract c key)"
  using assms by (auto simp: go_keeps_def get_contract_def split: option.splits result.splits)

lemma refresh_keeps:
  assumes "\<And>s rows. P s \<Longrightarrow> P (s\<lparr>es_db := (es_db s)\<lparr>eth_active_proposals := rows\<rparr>\<rparr>)"
    and "\<And>s m. P s \<Longrightarrow> P (s\<lparr>es_contracts := m\<rparr>)"
  shows "go_keeps P (refresh_at moment en c)"
  unfolding refresh_at_def refreshInProgressProposals_def addActiveProposal_def ClearActiveProposals_def InsertActiveProposal_def
  by (intro go_keeps_intros eth_exec_keeps get_contract_keeps) (auto intro: assms)

lemma refresh_keeps_tables: "go_keeps (\<lambda>s. sans_proposals (es_db s) = db) (refresh_at moment en c)"
  by (rule refresh_keeps) (simp_all add: sans_proposals_def)

lemma refresh_at_no_Err: "fst (refresh_at moment en c s) \<noteq> Err e"
  by (auto simp: refresh_at_def log_err_def go_try_def go_lift_def go_return_def split: prod.splits result.splits)

lemma hydrate_refills:
  assumes run: "hydrateEthData en c s = (r, s')"
    and finished: "\<And>ns. mset (en_finished en ns) = mset ns" and walk: "\<And>sps. mset (en_walk en sps) = mset sps"
    and hex: "\<And>a. en_address en (en_hex en a) = a"
  shows "(r = Ok () \<longrightarrow> mirrors en c (es_db s')
        \<and> distinct (map sv_address (eth_service_providers (es_db s')))
        \<and> (\<forall>ty i node. node_at c ty i = Some node \<longrightarrow> (\<exists>d n. ec_details c (cn_Owner node) = Ok d
             \<and> provider_row en (cn_Owner node) d \<in> set (eth_service_providers (es_db s'))
             \<and> ec_totalStakedFor c (cn_Owner node) = Ok n
             \<and> GetStakedAmountForServiceProvider (en_hex en (cn_Owner node)) (es_db s') = Some (wrap64 (WeiToAudio n))))
        \<and> (\<forall>sp \<in> set (eth_service_providers (es_db s')). \<exists>ty i node d. node_at c ty i = Some node
             \<and> ec_details c (cn_Owner node) = Ok d \<and> sp = provider_row en (cn_Owner node) d))
      \<and> ((\<exists>e. r = Err e) \<longrightarrow> sans_proposals (es_db s') = sans_proposals (es_db s))"
proof -
  note keep = go_keepsE [OF refresh_keeps_tables refl]
  obtain r0 s0 where first: "refresh_at RefreshFirst en c s = (r0, s0)" by fastforce
  note t0 = keep [OF first]
  let ?undo = "\<lambda>s s'. s'\<lparr>es_db := (es_db s)\<lparr>eth_active_proposals := eth_active_proposals (es_db s')\<rparr>\<rparr>"
  let ?body = "go_bind (go_wrap ''could not get registered nodes from contracts'' (GetAllRegisteredNodes_eth en c)) (\<lambda>nodes.
             go_atomic ?undo (go_bind (refresh_at RefreshInside en c) (\<lambda>_. hydrate_tx en c nodes)))"
  obtain r1 s1 where body: "?body s0 = (r1, s1)" by fastforce
  obtain r2 s2 where after: "refresh_at RefreshLast en c s1 = (r2, s2)" by fastforce
  note t2 = keep [OF after]
  obtain rn sn where q: "GetAllRegisteredNodes_eth en c s0 = (rn, sn)" by fastforce
  then have dbn: "es_db sn = es_db s0" using go_keepsE [OF keeps_db_all_nodes] by blast
  have failed: "sans_proposals (es_db s1) = sans_proposals (es_db s0)" if "r1 \<noteq> Ok ()"
    using body q dbn that
    by (cases rn) (auto simp: go_bind_def [of "go_wrap msg m" for msg m] go_wrap_def go_atomic_def sans_proposals_def
        split: prod.splits result.splits)
  show ?thesis
  proof (rule conjI; rule impI)
    assume True: "r = Ok ()"
    with run first body after have r1: "r1 = Ok ()" and s': "s' = s2"
      by (auto simp: hydrateEthData_def go_bind_def [of "refresh_at m en c" for m] go_try_def go_lift_def split: result.splits)
    from body q r1 obtain nodes where rn: "rn = Ok nodes" by (cases rn) (auto simp: go_bind_def go_wrap_def)
    with body q r1 obtain si where tx: "hydrate_tx en c nodes si = (Ok (), s1)" by (auto simp: go_simps)
    note same = sans_proposals_eqD [OF t2]
    have staked: "GetStakedAmountForServiceProvider a (es_db s2) = GetStakedAmountForServiceProvider a (es_db s1)" for a
      by (simp add: GetStakedAmountForServiceProvider_def same)
    have mirrors: "mirrors en c (es_db s2) \<longleftrightarrow> mirrors en c (es_db s1)" by (simp add: mirrors_def same)
    from hydrate_tx_refills [OF q [unfolded rn] tx finished walk hex] show "mirrors en c (es_db s')
        \<and> distinct (map sv_address (eth_service_providers (es_db s')))
        \<and> (\<forall>ty i node. node_at c ty i = Some node \<longrightarrow> (\<exists>d n. ec_details c (cn_Owner node) = Ok d
             \<and> provider_row en (cn_Owner node) d \<in> set (eth_service_providers (es_db s'))
             \<and> ec_totalStakedFor c (cn_Owner node) = Ok n
             \<and> GetStakedAmountForServiceProvider (en_hex en (cn_Owner node)) (es_db s') = Some (wrap64 (WeiToAudio n))))
        \<and> (\<forall>sp \<in> set (eth_service_providers (es_db s')). \<exists>ty i node d. node_at c ty i = Some node
             \<and> ec_details c (cn_Owner node) = Ok d \<and> sp = provider_row en (cn_Owner node) d)"
      by (simp add: s' same staked mirrors)
  next
    assume "\<exists>e. r = Err e"
    with run first body after refresh_at_no_Err [of RefreshFirst en c s] refresh_at_no_Err [of RefreshLast en c s1]
    have "s' = s2" "r1 \<noteq> Ok ()"
      by (auto simp: hydrateEthData_def go_bind_def [of "refresh_at m en c" for m] go_try_def go_lift_def split: result.splits)
    with failed t0 t2 show "sans_proposals (es_db s') = sans_proposals (es_db s)" by simp
  qed
qed

text \<open>
  (C33) Refilling the tables: whatever they held, and whenever the goroutine that refreshes the proposals runs, after
  a refresh that succeeds they list exactly the nodes of the contracts, the providers that own them and their
  stakes; one that fails with an error leaves them as they were. The table of active proposals is the goroutine's
  and outside of the transaction.
\<close>

theorem hydrate_mirrors_chain:
  assumes run: "hydrateEthData en c s = (r, s')"
    and finished: "\<And>ns. mset (en_finished en ns) = mset ns" and walk: "\<And>sps. mset (en_walk en sps) = mset sps"
    and hex: "\<And>a. en_address en (en_hex en a) = a"
  shows "(r = Ok () \<longrightarrow> mirrors en c (es_db s')
        \<and> distinct (map sv_address (eth_service_providers (es_db s')))
        \<and> (\<forall>ty i node. node_at c ty i = Some node \<longrightarrow> (\<exists>d n. ec_details c (cn_Owner node) = Ok d
             \<and> provider_row en (cn_Owner node) d \<in> set (eth_service_providers (es_db s'))
             \<and> ec_totalStakedFor c (cn_Owner node) = Ok n
             \<and> GetStakedAmountForServiceProvider (en_hex en (cn_Owner node)) (es_db s') = Some (wrap64 (WeiToAudio n))))
        \<and> (\<forall>sp \<in> set (eth_service_providers (es_db s')). \<exists>ty i node d. node_at c ty i = Some node
             \<and> ec_details c (cn_Owner node) = Ok d \<and> sp = provider_row en (cn_Owner node) d))
      \<and> ((\<exists>e. r = Err e) \<longrightarrow> sans_proposals (es_db s') = sans_proposals (es_db s))"
  using hydrate_refills [OF run finished walk hex] .

text \<open>A chain with one content node and one validator of the same owner, for examples.\<close>

definition demo_addr :: "nat \<Rightarrow> bytes" where
  "demo_addr n = replicate 19 0 @ [of_nat n]"

definition demo_info :: "nat \<Rightarrow> string \<Rightarrow> endpoint_info" where
  "demo_info wallet endpoint =
     \<lparr>ei_owner = demo_addr 1, ei_endpoint = endpoint, ei_blockNumber = 100, ei_delegateOwnerWallet = demo_addr wallet\<rparr>"

definition demo_chain :: eth_chain where
  "demo_chain =
     \<lparr>ec_contract = (\<lambda>_. Ok (demo_addr 9)),
      ec_total = (\<lambda>ty. Ok (if ty = Utf8ToHex ''discovery-node'' then 0 else 1)),
      ec_info = (\<lambda>ty _. Ok (if ty = Utf8ToHex ''content-node'' then demo_info 2 ''https://a'' else demo_info 3 ''https://b'')),
      ec_details = (\<lambda>_. Ok \<lparr>sd_deployerStake = 5, sd_deployerCut = 0, sd_validBounds = True, sd_numberOfEndpoints = 2,
                            sd_minAccountStake = 1, sd_maxAccountStake = 9\<rparr>),
      ec_totalStakedFor = (\<lambda>_. Ok (7 * 10 ^ 18)), ec_totalStaked = Ok (7 * 10 ^ 18), ec_fundsPerRound = Ok (3 * 10 ^ 18),
      ec_headerTime = Ok, ec_inProgress = Ok [], ec_proposal = (\<lambda>_. Err (Errorf ''none''))\<rparr>"

definition demo_env :: eth_env where
  "demo_env = \<lparr>en_hex = string_of, en_address = bytes_of, en_unpackSlash = (\<lambda>_. Err (Errorf ''none'')),
     en_finished = rev, en_walk = rev, en_refresh = RefreshInside\<rparr>"

definition demo_service :: eth_service where
  "demo_service =
     \<lparr>es_db = \<lparr>eth_registered_endpoints = [], eth_service_providers = [], eth_staked = [], eth_funding_rounds = [],
                eth_active_proposals = [], eth_fault = (\<lambda>_. False)\<rparr>,
      es_contracts = (\<lambda>_. None),
      es_fundingRound = \<lparr>fm_initialized = False, fm_fundingAmountPerRound = 0, fm_totalStakedAmount = 0\<rparr>,
      es_deregPubsub = NewPubsub, es_isReady = False\<rparr>"

lemma demo_hydrate_ok: "fst (hydrateEthData demo_env demo_chain demo_service) = Ok ()"
  by code_simp

theorem hydrate_mirrors_chain_witness:
  "fst (hydrateEthData demo_env demo_chain demo_service) = Ok ()
   \<and> mirrors demo_env demo_chain (es_db (snd (hydrateEthData demo_env demo_chain demo_service)))"
proof -
  have "bytes_of (string_of a) = a" for a by simp
  then show ?thesis
    using hydrate_mirrors_chain [OF surjective_pairing, of demo_env demo_chain demo_service] demo_hydrate_ok
    by (simp add: demo_env_def)
qed

section \<open>Events keep the mirror\<close>

definition same_elsewhere :: "eth_chain \<Rightarrow> eth_chain \<Rightarrow> bytes \<Rightarrow> int \<Rightarrow> bool" where
  "same_elsewhere c c' ty i \<longleftrightarrow>
     (\<forall>ty' i'. (ty', i') \<noteq> (ty, i) \<longrightarrow> node_at c' ty' i' = node_at c ty' i') \<and> ec_headerTime c' = ec_headerTime c"

text \<open>What an event says of the contracts before and after it.\<close>

fun chain_event :: "eth_event \<Rightarrow> eth_chain \<Rightarrow> eth_chain \<Rightarrow> bool" where
  "chain_event (RegisteredServiceProvider i ty endpoint owner) c c' \<longleftrightarrow>
     same_elsewhere c c' ty i \<and> node_at c ty i = None
     \<and> (\<exists>node. node_at c' ty i = Some node \<and> cn_Endpoint node = endpoint \<and> cn_Owner node = owner)"
| "chain_event (DeregisteredServiceProvider i ty endpoint owner) c c' \<longleftrightarrow>
     same_elsewhere c c' ty i \<and> node_at c' ty i = None
     \<and> (\<exists>node. node_at c ty i = Some node \<and> cn_Endpoint node = endpoint \<and> cn_Owner node = owner)"
| "chain_event (EndpointUpdated i ty old new owner) c c' \<longleftrightarrow>
     same_elsewhere c c' ty i
     \<and> (\<exists>node. node_at c ty i = Some node \<and> cn_Endpoint node = old \<and> cn_Owner node = owner
          \<and> node_at c' ty i = Some (node\<lparr>cn_Endpoint := new\<rparr>))"
| "chain_event HourlyTick c c' \<longleftrightarrow> True"
| "chain_event _ c c' \<longleftrightarrow> (\<forall>ty i. node_at c' ty i = node_at c ty i) \<and> ec_headerTime c' = ec_headerTime c"

definition ids_small :: "eth_chain \<Rightarrow> bool" where
  "ids_small c \<longleftrightarrow> (\<forall>ty i node. node_at c ty i = Some node \<longrightarrow> i < 2 ^ 31)"

lemma ServiceTypeToString_inj:
  "ServiceTypeToString ty = Ok st \<Longrightarrow> ServiceTypeToString ty' = Ok st \<Longrightarrow> ty = ty'"
  by (auto simp: ServiceTypeToString_def split: if_splits)

lemma ServiceTypeToString_ok: "ty \<in> service_types \<Longrightarrow> \<exists>st. ServiceTypeToString ty = Ok st"
  by (auto simp: ServiceTypeToString_def service_types_def)

lemma small_id:
  assumes "ids_small c" and "node_at c ty i = Some node"
  shows "wrap32 (wrap64 i) = i"
proof -
  have "1 \<le> i" "i < 2 ^ 31" using assms node_at_SomeD(5) [OF assms(2)] by (auto simp: ids_small_def)
  then show ?thesis by (simp add: wrap64_small wrap32_small)
qed

lemma node_row_fields:
  assumes "ids_small c" and "node_at c ty i = Some node" and "node_row en c node = Ok row"
  shows "\<exists>st. ServiceTypeToString ty = Ok st \<and> endpoint_key row = (i, st) \<and> ee_endpoint row = cn_Endpoint node
     \<and> ee_owner row = en_hex en (cn_Owner node) \<and> ee_delegate_wallet row = en_hex en (cn_DelegateOwnerWallet node)
     \<and> ee_blocknumber row = wrap64 (cn_BlockNumber node)"
  using assms(3) node_at_SomeD [OF assms(2)] small_id [OF assms(1,2)]
  by (auto simp: node_row_def go_simps endpoint_row_def endpoint_key_def)

lemma mirrors_cong: "eth_registered_endpoints db' = eth_registered_endpoints db \<Longrightarrow> mirrors en c db' = mirrors en c db"
  by (simp add: mirrors_def)

lemma node_row_cong: "ec_headerTime c' = ec_headerTime c \<Longrightarrow> node_row en c' node = node_row en c node"
  by (simp add: node_row_def)

lemma mirrors_same:
  assumes "mirrors en c db" and "\<forall>ty i. node_at c' ty i = node_at c ty i" and "ec_headerTime c' = ec_headerTime c"
    and "eth_registered_endpoints db' = eth_registered_endpoints db"
  shows "mirrors en c' db'"
  using assms node_row_cong [OF assms(3)] by (simp add: mirrors_def)

lemma mirrors_add:
  assumes mir: "mirrors en c db" and same: "same_elsewhere c c' ty i" and none: "node_at c ty i = None"
    and node: "node_at c' ty i = Some node" and row: "node_row en c' node = Ok row" and small: "ids_small c'"
  shows "endpoint_key row \<notin> endpoint_key ` set (eth_registered_endpoints db)"
    and "mirrors en c' (db\<lparr>eth_registered_endpoints := eth_registered_endpoints db @ [row]\<rparr>)"
proof -
  have keep: "node_at c' ty' i' = Some n" if "node_at c ty' i' = Some n" for ty' i' n
    using that same none by (cases "(ty', i') = (ty, i)") (auto simp: same_elsewhere_def)
  have rows: "node_row en c' n = node_row en c n" for n
    by (rule node_row_cong) (use same in \<open>simp add: same_elsewhere_def\<close>)
  show fresh: "endpoint_key row \<notin> endpoint_key ` set (eth_registered_endpoints db)"
  proof
    assume "endpoint_key row \<in> endpoint_key ` set (eth_registered_endpoints db)"
    then obtain r where r: "r \<in> set (eth_registered_endpoints db)" "endpoint_key r = endpoint_key row" by auto
    from mir r(1) obtain ty' i' n where n: "node_at c ty' i' = Some n" "node_row en c n = Ok r"
      unfolding mirrors_def by blast
    from node_row_fields [OF small keep [OF n(1)], of en r] n(2) rows node_row_fields [OF small node row] r(2)
    have "(ty', i') = (ty, i)" by (auto dest: ServiceTypeToString_inj)
    with n(1) none show False by simp
  qed
  have of_row: "\<exists>ty i node. node_at c' ty i = Some node \<and> node_row en c' node = Ok r"
    if "r \<in> set (eth_registered_endpoints db @ [row])" for r
  proof (cases "r = row")
    case True
    with node row show ?thesis by blast
  next
    case False
    with that mir obtain ty' i' n where "node_at c ty' i' = Some n" "node_row en c n = Ok r"
      unfolding mirrors_def by auto
    with keep rows show ?thesis by metis
  qed
  have has_row: "\<exists>r \<in> set (eth_registered_endpoints db @ [row]). node_row en c' n = Ok r"
    if "node_at c' ty' i' = Some n" for ty' i' n
  proof (cases "(ty', i') = (ty, i)")
    case True
    with that node row show ?thesis by auto
  next
    case False
    with that same have "node_at c ty' i' = Some n" by (auto simp: same_elsewhere_def)
    with mir rows show ?thesis unfolding mirrors_def by auto
  qed
  show "mirrors en c' (db\<lparr>eth_registered_endpoints := eth_registered_endpoints db @ [row]\<rparr>)"
    using mir fresh of_row has_row by (simp add: mirrors_def)
qed

lemma mirrors_update:
  "mirrors en c (db\<lparr>eth_registered_endpoints := rows\<rparr>) \<longleftrightarrow>
     distinct (map endpoint_key rows)
     \<and> (\<forall>ty i node. node_at c ty i = Some node \<longrightarrow> (\<exists>row \<in> set rows. node_row en c node = Ok row))
     \<and> (\<forall>row \<in> set rows. \<exists>ty i node. node_at c ty i = Some node \<and> node_row en c node = Ok row)"
  by (simp add: mirrors_def)

lemma mirrors_remove:
  assumes mir: "mirrors en c db" and same: "same_elsewhere c c' ty i" and none: "node_at c' ty i = None"
    and node: "node_at c ty i = Some node" and st: "ServiceTypeToString ty = Ok st" and small: "ids_small c"
  shows "mirrors en c' (db\<lparr>eth_registered_endpoints := filter (\<lambda>r. \<not> (ee_id r = wrap32 (wrap64 i)
       \<and> ee_endpoint r = cn_Endpoint node \<and> ee_owner r = en_hex en (cn_Owner node) \<and> ee_service_type r = st))
       (eth_registered_endpoints db)\<rparr>)" (is "mirrors en c' (db\<lparr>eth_registered_endpoints := filter ?keep _\<rparr>)")
proof -
  have rows: "node_row en c' n = node_row en c n" for n
    by (rule node_row_cong) (use same in \<open>simp add: same_elsewhere_def\<close>)
  have own: "?keep r \<longleftrightarrow> (ty', i') \<noteq> (ty, i)" if "node_at c ty' i' = Some n" "node_row en c n = Ok r" for ty' i' n r
    using node_row_fields [OF small that] node that(1) st small_id [OF small node]
    by (auto simp: endpoint_key_def dest: ServiceTypeToString_inj)
  have of_row: "\<exists>ty i node. node_at c' ty i = Some node \<and> node_row en c' node = Ok r"
    if r: "r \<in> set (eth_registered_endpoints db)" "?keep r" for r
  proof -
    from mir r(1) obtain ty' i' n where n: "node_at c ty' i' = Some n" "node_row en c n = Ok r"
      unfolding mirrors_def by blast
    with own r(2) have "(ty', i') \<noteq> (ty, i)" by blast
    with same n(1) have "node_at c' ty' i' = Some n" by (auto simp: same_elsewhere_def)
    with n(2) rows show ?thesis by metis
  qed
  have has_row: "\<exists>r \<in> set (eth_registered_endpoints db). ?keep r \<and> node_row en c' n = Ok r"
    if n: "node_at c' ty' i' = Some n" for ty' i' n
  proof -
    from n none have ne: "(ty', i') \<noteq> (ty, i)" by auto
    with n same have n': "node_at c ty' i' = Some n" by (auto simp: same_elsewhere_def)
    with mir obtain r where "r \<in> set (eth_registered_endpoints db)" "node_row en c n = Ok r" unfolding mirrors_def by blast
    with own [OF n'] ne rows show ?thesis by auto
  qed
  let ?rows = "filter ?keep (eth_registered_endpoints db)"
  have "distinct (map endpoint_key ?rows)" using mir by (simp add: mirrors_def distinct_map_filter)
  moreover have "\<forall>ty' i' n. node_at c' ty' i' = Some n \<longrightarrow> (\<exists>r \<in> set ?rows. node_row en c' n = Ok r)"
    using has_row by (simp only: set_filter bex_simps Bex_def mem_Collect_eq) blast
  moreover have "\<forall>r \<in> set ?rows. \<exists>ty i node. node_at c' ty i = Some node \<and> node_row en c' node = Ok r"
    using of_row by (simp only: set_filter mem_Collect_eq Ball_def) blast
  ultimately show ?thesis unfolding mirrors_update by blast
qed

definition calm :: "eth_service \<Rightarrow> bool" where
  "calm s \<longleftrightarrow> (\<forall>name. \<not> eth_fault (es_db s) name) \<and> es_contracts s ''ServiceProviderFactory'' \<noteq> None"

lemma updateServiceProvider_keeps:
  "go_keeps (\<lambda>s. eth_registered_endpoints (es_db s) = rows \<and> es_deregPubsub s = hub) (updateServiceProvider en c owner)"
  unfolding updateServiceProvider_def UpsertServiceProvider_def
  by (intro go_keeps_intros) (auto simp: go_keeps_def get_contract_def eth_exec_def split: option.splits result.splits)

lemma GetRegisteredNode_calm:
  assumes "calm s" and "node_at c ty i = Some node"
  shows "GetRegisteredNode c i ty s = (Ok node, s)"
  using assms node_at_SomeD(4,6) [OF assms(2)]
  by (auto simp: GetRegisteredNode_def calm_def get_contract_def go_bind_def go_lift_def node_of_info_def)

lemma addRegisteredEndpoint_mirrors:
  assumes calm: "calm s" and mir: "mirrors en c (es_db s)" and same: "same_elsewhere c c' ty i"
    and none: "node_at c ty i = None" and node: "node_at c' ty i = Some node"
    and time: "ec_headerTime c' (cn_BlockNumber node) = Ok time" and small: "ids_small c'"
  shows "\<exists>s'. addRegisteredEndpoint en c' i ty (cn_Endpoint node) (cn_Owner node) s = (Ok (), s')
      \<and> mirrors en c' (es_db s') \<and> es_deregPubsub s' = es_deregPubsub s"
proof -
  obtain st where st: "ServiceTypeToString ty = Ok st" using ServiceTypeToString_ok node_at_SomeD(1) [OF node] by blast
  let ?row = "endpoint_row en st time i (cn_Endpoint node) (cn_Owner node) node"
  have row: "node_row en c' node = Ok ?row" using node_at_SomeD [OF node] by (simp add: node_row_def st time)
  note add = mirrors_add [OF mir same none node row small]
  have "addRegisteredEndpoint en c' i ty (cn_Endpoint node) (cn_Owner node) s
      = (Ok (), s\<lparr>es_db := (es_db s)\<lparr>eth_registered_endpoints := eth_registered_endpoints (es_db s) @ [?row]\<rparr>\<rparr>)"
    using calm add(1)
    by (simp add: addRegisteredEndpoint_def st go_bind_def go_lift_def GetRegisteredNode_calm [OF calm node] time
        InsertRegisteredEndpoint_def eth_exec_def calm_def insert_unique_def)
  with add(2) show ?thesis by simp
qed

lemma deleteAndDeregisterEndpoint_mirrors:
  assumes calm: "calm s" and mir: "mirrors en c (es_db s)" and same: "same_elsewhere c c' ty i"
    and node: "node_at c ty i = Some node" and none: "node_at c' ty i = None" and small: "ids_small c"
  shows "\<exists>s' e. deleteAndDeregisterEndpoint en i ty (cn_Endpoint node) (cn_Owner node) s = (Ok (), s')
      \<and> mirrors en c' (es_db s') \<and> calm s'
      \<and> es_deregPubsub s' = Publish ''deregistration-subscriber'' e (es_deregPubsub s)
      \<and> se_Endpoint e = cn_Endpoint node \<and> se_Owner e = en_hex en (cn_Owner node)"
proof -
  obtain st where st: "ServiceTypeToString ty = Ok st" using ServiceTypeToString_ok node_at_SomeD(1) [OF node] by blast
  from mir node obtain row where row: "row \<in> set (eth_registered_endpoints (es_db s))" "node_row en c node = Ok row"
    unfolding mirrors_def by blast
  with node_row_fields [OF small node] have "ee_endpoint row = cn_Endpoint node" by blast
  with row(1) obtain ep where ep: "GetRegisteredEndpoint (cn_Endpoint node) (es_db s) = Some ep"
    by (metis (mono_tags, lifting) GetRegisteredEndpoint_def find_row_None_iff not_Some_eq)
  let ?db = "(es_db s)\<lparr>eth_registered_endpoints := filter (\<lambda>r. \<not> (ee_id r = wrap32 (wrap64 i)
       \<and> ee_endpoint r = cn_Endpoint node \<and> ee_owner r = en_hex en (cn_Owner node) \<and> ee_service_type r = st))
       (eth_registered_endpoints (es_db s))\<rparr>"
  let ?e = "dereg_event en st i (cn_Endpoint node) (cn_Owner node) ep"
  let ?s' = "s\<lparr>es_db := ?db, es_deregPubsub := Publish ''deregistration-subscriber'' ?e (es_deregPubsub s)\<rparr>"
  have "deleteAndDeregisterEndpoint en i ty (cn_Endpoint node) (cn_Owner node) s = (Ok (), ?s')"
    using calm by (simp add: deleteAndDeregisterEndpoint_def st go_bind_def go_lift_def go_wrap_def eth_row_def eth_rows_def
        ep DeleteRegisteredEndpoint_def eth_exec_def calm_def publish_dereg_def go_modify_def)
  moreover have "mirrors en c' (es_db ?s')" using mirrors_remove [OF mir same none node st small] by simp
  moreover have "calm ?s'" using calm by (simp add: calm_def)
  moreover have "es_deregPubsub ?s' = Publish ''deregistration-subscriber'' ?e (es_deregPubsub s)" by simp
  moreover have "se_Endpoint ?e = cn_Endpoint node" "se_Owner ?e = en_hex en (cn_Owner node)"
    by (simp_all add: dereg_event_def)
  ultimately show ?thesis by blast
qed

lemma log_err_after:
  assumes "m s = (Ok (), s1)" and "f () s1 = (r, s2)"
  shows "snd (log_err (go_bind m f) s) = s2"
  using assms by (cases r) (simp_all add: log_err_def go_try_def go_bind_def go_return_def go_lift_def)

text \<open>The contracts with one entry struck out.\<close>

definition without :: "bytes \<Rightarrow> int \<Rightarrow> eth_chain \<Rightarrow> eth_chain" where
  "without ty i c = c\<lparr>ec_info := (\<lambda>ty' i'. if (ty', i') = (ty, i) then Err (Errorf ''gone'') else ec_info c ty' i')\<rparr>"

lemma without: "same_elsewhere c (without ty i c) ty i" "node_at (without ty i c) ty i = None"
  by (auto simp: same_elsewhere_def node_at_def without_def split: result.splits)

lemma same_elsewhere_trans:
  "same_elsewhere c c' ty i \<Longrightarrow> same_elsewhere c c'' ty i \<Longrightarrow> same_elsewhere c' c'' ty i"
  by (auto simp: same_elsewhere_def)

lemma hydrate_nodes_keeps:
  assumes "\<And>s rows. P s \<Longrightarrow> P (s\<lparr>es_db := (es_db s)\<lparr>eth_registered_endpoints := rows\<rparr>\<rparr>)"
  shows "go_keeps P (hydrate_nodes en c nodes sps)"
proof (induction nodes arbitrary: sps)
  case (Cons node nodes)
  have "go_keeps P (InsertRegisteredEndpoint row)" for row
    unfolding InsertRegisteredEndpoint_def by (rule eth_exec_keeps) (auto intro: assms)
  then show ?case unfolding hydrate_nodes.simps by (intro go_keeps_intros Cons.IH)
qed (simp add: go_keeps_return)

lemma hydrate_keeps_hub: "go_keeps (\<lambda>s. es_deregPubsub s = hub) (hydrateEthData en c)"
  unfolding hydrateEthData_def hydrate_tx_def hydrate_provider_def GetAllRegisteredNodes_eth_def
    GetAllRegisteredNodesForType_def updateTotalStakedAmount_def ClearRegisteredEndpoints_def
    ClearServiceProviders_def InsertServiceProvider_def UpsertStaked_def
  by (intro go_keeps_intros refresh_keeps go_keeps_atomic hydrate_nodes_keeps eth_exec_keeps get_contract_keeps go_keeps_modify) simp_all

lemma other_events_keep:
  assumes "ev \<noteq> HourlyTick" and "\<nexists>i ty e ow. ev = RegisteredServiceProvider i ty e ow"
    and "\<nexists>i ty e ow. ev = DeregisteredServiceProvider i ty e ow" and "\<nexists>i ty e e' ow. ev = EndpointUpdated i ty e e' ow"
  shows "go_keeps (\<lambda>s. eth_registered_endpoints (es_db s) = rows \<and> es_deregPubsub s = hub) (handle_eth_event en c ev)"
  using assms
  by (cases ev; simp add: handle_eth_event_def updateStakedAmountForServiceProvider_def updateTotalStakedAmount_def
      addActiveProposal_def UpsertStaked_def InsertActiveProposal_def DeleteActiveProposal_def)
    (intro go_keeps_intros eth_exec_keeps get_contract_keeps go_keeps_modify; auto)+

text \<open>
  (C34) Handling an event of the contracts: tables that mirrored the contracts before the event mirror them after
  it, and exactly the deregistrations and changed endpoints are published to the registry bridge.
\<close>

theorem events_keep_mirror:
  assumes mir: "mirrors en c (es_db s)" and ev: "chain_event ev c c'" and calm: "calm s"
    and small: "ids_small c" "ids_small c'"
    and times: "\<And>ty i node. node_at c' ty i = Some node \<Longrightarrow> is_ok (ec_headerTime c' (cn_BlockNumber node))"
    and finished: "\<And>ns. mset (en_finished en ns) = mset ns" and walk: "\<And>sps. mset (en_walk en sps) = mset sps"
    and hex: "\<And>a. en_address en (en_hex en a) = a"
    and run: "handle_eth_event en c' ev s = (Ok (), s')"
  shows "mirrors en c' (es_db s')
    \<and> (case ev of
         DeregisteredServiceProvider i ty endpoint owner \<Rightarrow>
           (\<exists>e. es_deregPubsub s' = Publish ''deregistration-subscriber'' e (es_deregPubsub s)
              \<and> se_Endpoint e = endpoint \<and> se_Owner e = en_hex en owner)
       | EndpointUpdated i ty old new owner \<Rightarrow>
           (\<exists>e. es_deregPubsub s' = Publish ''deregistration-subscriber'' e (es_deregPubsub s)
              \<and> se_Endpoint e = old \<and> se_Owner e = en_hex en owner)
       | _ \<Rightarrow> es_deregPubsub s' = es_deregPubsub s)"
proof -
  have provider: "eth_registered_endpoints (es_db s2) = eth_registered_endpoints (es_db s1) \<and> es_deregPubsub s2 = es_deregPubsub s1"
    if "updateServiceProvider en c' owner s1 = (r, s2)" for owner s1 r s2
    by (rule go_keepsE [OF updateServiceProvider_keeps _ that]) simp
  have after: "mirrors en c' (es_db s') \<and> es_deregPubsub s' = es_deregPubsub s1"
    if "snd (log_err (go_bind m (\<lambda>_. updateServiceProvider en c' owner)) s0) = s'" "m s0 = (Ok (), s1)" "mirrors en c' (es_db s1)"
    for m owner s0 s1
  proof -
    obtain r s2 where r: "updateServiceProvider en c' owner s1 = (r, s2)" by fastforce
    with log_err_after [of m s0 s1 "\<lambda>_. updateServiceProvider en c' owner" r s2] that(1,2) have "s2 = s'" by simp
    with provider [OF r] that(3) show ?thesis by (metis mirrors_cong)
  qed
  have other: "eth_registered_endpoints (es_db s') = eth_registered_endpoints (es_db s) \<and> es_deregPubsub s' = es_deregPubsub s"
    if "\<exists>u n. ev = StakeChanged u n \<or> ev = ProposalSubmitted n \<or> ev = ProposalOutcomeEvaluated n"
    by (rule go_keepsE [OF other_events_keep _ run]) (use that in auto)
  have header: "\<exists>time. ec_headerTime c' (cn_BlockNumber node) = Ok time" if "node_at c' ty i = Some node" for ty i node
    using times [OF that] by (simp add: is_ok_iff)
  show ?thesis
  proof (cases ev)
    case (RegisteredServiceProvider i ty endpoint owner)
    with ev obtain node where same: "same_elsewhere c c' ty i" and none: "node_at c ty i = None"
      and node: "node_at c' ty i = Some node" "cn_Endpoint node = endpoint" "cn_Owner node = owner" by auto
    from header [OF node(1)] obtain time where "ec_headerTime c' (cn_BlockNumber node) = Ok time" by blast
    from addRegisteredEndpoint_mirrors [OF calm mir same none node(1) this small(2)] node(2,3)
    obtain s1 where s1: "addRegisteredEndpoint en c' i ty endpoint owner s = (Ok (), s1)"
      "mirrors en c' (es_db s1)" "es_deregPubsub s1 = es_deregPubsub s" by auto
    from run have "snd (log_err (go_bind (addRegisteredEndpoint en c' i ty endpoint owner) (\<lambda>_. updateServiceProvider en c' owner)) s) = s'"
      by (simp add: RegisteredServiceProvider handle_eth_event_def)
    from after [OF this s1(1,2)] s1(3) show ?thesis by (simp add: RegisteredServiceProvider)
  next
    case (DeregisteredServiceProvider i ty endpoint owner)
    with ev obtain node where same: "same_elsewhere c c' ty i" and none: "node_at c' ty i = None"
      and node: "node_at c ty i = Some node" "cn_Endpoint node = endpoint" "cn_Owner node = owner" by auto
    from deleteAndDeregisterEndpoint_mirrors [OF calm mir same node(1) none small(1)] node(2,3)
    obtain s1 e where s1: "deleteAndDeregisterEndpoint en i ty endpoint owner s = (Ok (), s1)" "mirrors en c' (es_db s1)"
      and e: "es_deregPubsub s1 = Publish ''deregistration-subscriber'' e (es_deregPubsub s)"
        "se_Endpoint e = endpoint" "se_Owner e = en_hex en owner" by auto
    from run have "snd (log_err (go_bind (deleteAndDeregisterEndpoint en i ty endpoint owner) (\<lambda>_. updateServiceProvider en c' owner)) s) = s'"
      by (simp add: DeregisteredServiceProvider handle_eth_event_def)
    from after [OF this s1] e show ?thesis by (auto simp: DeregisteredServiceProvider)
  next
    case (EndpointUpdated i ty old new owner)
    with ev obtain node where same: "same_elsewhere c c' ty i"
      and node: "node_at c ty i = Some node" "cn_Endpoint node = old" "cn_Owner node = owner"
      and node': "node_at c' ty i = Some (node\<lparr>cn_Endpoint := new\<rparr>)" by auto
    note gone = without [where c = c and ty = ty and i = i]
    from deleteAndDeregisterEndpoint_mirrors [OF calm mir gone(1) node(1) gone(2) small(1)] node(2,3)
    obtain s1 e where s1: "deleteAndDeregisterEndpoint en i ty old owner s = (Ok (), s1)"
        "mirrors en (without ty i c) (es_db s1)" "calm s1"
      and e: "es_deregPubsub s1 = Publish ''deregistration-subscriber'' e (es_deregPubsub s)"
        "se_Endpoint e = old" "se_Owner e = en_hex en owner" by auto
    from header [OF node'] obtain time where "ec_headerTime c' (cn_BlockNumber (node\<lparr>cn_Endpoint := new\<rparr>)) = Ok time" by blast
    from addRegisteredEndpoint_mirrors [OF s1(3,2) same_elsewhere_trans [OF gone(1) same] gone(2) node' this small(2)] node(3)
    obtain s2 where s2: "addRegisteredEndpoint en c' i ty new owner s1 = (Ok (), s2)"
      "mirrors en c' (es_db s2)" "es_deregPubsub s2 = es_deregPubsub s1" by auto
    let ?m = "go_bind (deleteAndDeregisterEndpoint en i ty old owner) (\<lambda>_. addRegisteredEndpoint en c' i ty new owner)"
    have "?m s = (Ok (), s2)" using s1(1) s2(1) by (simp add: go_bind_def)
    moreover from run have "snd (log_err (go_bind ?m (\<lambda>_. updateServiceProvider en c' owner)) s) = s'"
      by (simp add: EndpointUpdated handle_eth_event_def go_bind_assoc)
    ultimately show ?thesis using after [of ?m owner s s2] s2(2,3) e by (auto simp: EndpointUpdated)
  next
    case HourlyTick
    with run have "hydrateEthData en c' s = (Ok (), s')" by (simp add: handle_eth_event_def go_simps)
    with hydrate_refills [OF this finished walk hex] go_keepsE [OF hydrate_keeps_hub refl this]
    show ?thesis by (simp add: HourlyTick)
  next
    case (StakeChanged user amount)
    with other ev mir show ?thesis by (auto intro: mirrors_same)
  next
    case (ProposalSubmitted i)
    with other ev mir show ?thesis by (auto intro: mirrors_same)
  next
    case (ProposalOutcomeEvaluated i)
    with other ev mir show ?thesis by (auto intro: mirrors_same)
  qed
qed

definition demo_chain' :: eth_chain where
  "demo_chain' = demo_chain\<lparr>ec_info := (\<lambda>ty _. Ok (if ty = Utf8ToHex ''content-node'' then demo_info 2 ''https://c''
     else demo_info 3 ''https://b''))\<rparr>"

definition demo_hydrated :: eth_service where
  "demo_hydrated = snd (hydrateEthData demo_env demo_chain demo_service)"

lemma demo_hydrated_mirrors: "mirrors demo_env demo_chain (es_db demo_hydrated)"
proof -
  have "hydrateEthData demo_env demo_chain demo_service = (Ok (), demo_hydrated)"
    using demo_hydrate_ok by (simp add: demo_hydrated_def prod_eq_iff)
  from hydrate_refills [OF this] show ?thesis by (simp add: demo_env_def)
qed

lemma demo_node_at:
  "node_at demo_chain ty i = (if i = 1 \<and> (ty = Utf8ToHex ''content-node'' \<or> ty = Utf8ToHex ''validator'')
     then Some (node_of_info ty i (if ty = Utf8ToHex ''content-node'' then demo_info 2 ''https://a'' else demo_info 3 ''https://b''))
     else None)"
  "node_at demo_chain' ty i = (if i = 1 \<and> (ty = Utf8ToHex ''content-node'' \<or> ty = Utf8ToHex ''validator'')
     then Some (node_of_info ty i (if ty = Utf8ToHex ''content-node'' then demo_info 2 ''https://c'' else demo_info 3 ''https://b''))
     else None)"
proof -
  have names: "Utf8ToHex ''content-node'' \<noteq> Utf8ToHex ''discovery-node''" "Utf8ToHex ''validator'' \<noteq> Utf8ToHex ''discovery-node''"
    "demo_addr 2 \<noteq> zero_address" "demo_addr 3 \<noteq> zero_address" by code_simp+
  show "node_at demo_chain ty i = (if i = 1 \<and> (ty = Utf8ToHex ''content-node'' \<or> ty = Utf8ToHex ''validator'')
     then Some (node_of_info ty i (if ty = Utf8ToHex ''content-node'' then demo_info 2 ''https://a'' else demo_info 3 ''https://b''))
     else None)"
    using names by (auto simp: node_at_def demo_chain_def service_types_def demo_info_def)
  show "node_at demo_chain' ty i = (if i = 1 \<and> (ty = Utf8ToHex ''content-node'' \<or> ty = Utf8ToHex ''validator'')
     then Some (node_of_info ty i (if ty = Utf8ToHex ''content-node'' then demo_info 2 ''https://c'' else demo_info 3 ''https://b''))
     else None)"
    using names by (auto simp: node_at_def demo_chain'_def demo_chain_def service_types_def demo_info_def)
qed

lemma demo_calm: "calm demo_hydrated"
proof -
  have "\<not> eth_fault (es_db demo_hydrated) name" for name by code_simp
  moreover have "es_contracts demo_hydrated ''ServiceProviderFactory'' \<noteq> None" by code_simp
  ultimately show ?thesis by (simp add: calm_def)
qed

theorem events_keep_mirror_witness:
  "mirrors demo_env demo_chain' (es_db (snd (handle_eth_event demo_env demo_chain'
     (EndpointUpdated 1 (Utf8ToHex ''content-node'') ''https://a'' ''https://c'' (demo_addr 1)) demo_hydrated)))"
proof -
  let ?ev = "EndpointUpdated 1 (Utf8ToHex ''content-node'') ''https://a'' ''https://c'' (demo_addr 1)"
  have "chain_event ?ev demo_chain demo_chain'"
    by (auto simp: same_elsewhere_def demo_node_at node_of_info_def demo_info_def) (simp add: demo_chain'_def)
  moreover have "ids_small demo_chain" "ids_small demo_chain'" by (auto simp: ids_small_def demo_node_at split: if_splits)
  moreover have "is_ok (ec_headerTime demo_chain' b)" for b by (simp add: demo_chain'_def demo_chain_def)
  moreover have "fst (handle_eth_event demo_env demo_chain' ?ev demo_hydrated) = Ok ()" by code_simp
  then have "handle_eth_event demo_env demo_chain' ?ev demo_hydrated
      = (Ok (), snd (handle_eth_event demo_env demo_chain' ?ev demo_hydrated))" by (simp add: prod_eq_iff)
  ultimately show ?thesis
    using events_keep_mirror [OF demo_hydrated_mirrors, of ?ev demo_chain'] demo_calm by (simp add: demo_env_def)
qed

section \<open>What the registry bridge learns\<close>

definition endpoints_unique :: "eth_chain \<Rightarrow> bool" where
  "endpoints_unique c \<longleftrightarrow> (\<forall>ty i node ty' i' node'. node_at c ty i = Some node \<longrightarrow> node_at c ty' i' = Some node'
     \<longrightarrow> cn_Endpoint node = cn_Endpoint node' \<longrightarrow> ty = ty' \<and> i = i')"

definition on_chain :: "eth_env \<Rightarrow> eth_chain \<Rightarrow> string \<Rightarrow> string \<Rightarrow> int64 \<Rightarrow> bool" where
  "on_chain en c endpoint wallet ethBlock \<longleftrightarrow>
     (\<exists>ty i node. node_at c ty i = Some node \<and> cn_Endpoint node = endpoint
        \<and> en_hex en (cn_DelegateOwnerWallet node) = wallet \<and> wrap64 (cn_BlockNumber node) = ethBlock)"

lemma registered_on_ethereum:
  assumes mir: "mirrors en c (es_db s)" and calm: "calm s" and small: "ids_small c" and unique: "endpoints_unique c"
  shows "IsNodeRegisteredOnEthereum (GetRegisteredEndpointInfo s) endpoint wallet ethBlock = Ok (on_chain en c endpoint wallet ethBlock)"
proof (cases "GetRegisteredEndpoint endpoint (es_db s)")
  case None
  have "\<not> on_chain en c endpoint wallet ethBlock"
  proof
    assume "on_chain en c endpoint wallet ethBlock"
    then obtain ty i node where node: "node_at c ty i = Some node" "cn_Endpoint node = endpoint" by (auto simp: on_chain_def)
    with mir obtain row where "row \<in> set (eth_registered_endpoints (es_db s))" "node_row en c node = Ok row"
      unfolding mirrors_def by blast
    with node_row_fields [OF small node(1)] node(2) None show False by (fastforce simp: GetRegisteredEndpoint_def find_row_None_iff)
  qed
  with None calm show ?thesis
    by (simp add: IsNodeRegisteredOnEthereum_def GetRegisteredEndpointInfo_def eth_row_def eth_rows_def calm_def is_no_rows_def)
next
  case (Some row)
  then have row: "row \<in> set (eth_registered_endpoints (es_db s))" "ee_endpoint row = endpoint"
    by (auto simp: GetRegisteredEndpoint_def dest: find_row_SomeD)
  with mir obtain ty i node where node: "node_at c ty i = Some node" "node_row en c node = Ok row" unfolding mirrors_def by blast
  note f = node_row_fields [OF small node]
  have "on_chain en c endpoint wallet ethBlock \<longleftrightarrow> ee_delegate_wallet row = wallet \<and> ee_blocknumber row = ethBlock"
  proof
    assume "on_chain en c endpoint wallet ethBlock"
    then obtain ty' i' node' where n': "node_at c ty' i' = Some node'" "cn_Endpoint node' = endpoint"
      "en_hex en (cn_DelegateOwnerWallet node') = wallet" "wrap64 (cn_BlockNumber node') = ethBlock" by (auto simp: on_chain_def)
    with unique node(1) f row(2) have "ty' = ty \<and> i' = i" unfolding endpoints_unique_def by metis
    with n'(1) node(1) have "node' = node" by simp
    with n' f show "ee_delegate_wallet row = wallet \<and> ee_blocknumber row = ethBlock" by auto
  next
    assume "ee_delegate_wallet row = wallet \<and> ee_blocknumber row = ethBlock"
    with node(1) f row(2) show "on_chain en c endpoint wallet ethBlock" unfolding on_chain_def by metis
  qed
  with Some calm show ?thesis
    by (auto simp: IsNodeRegisteredOnEthereum_def GetRegisteredEndpointInfo_def eth_row_def eth_rows_def calm_def)
qed

text \<open>
  (C35) The registry bridge and the service together: while the tables mirror the contracts, a node signs a
  registration only if the contracts list it with that endpoint, wallet and block, and signs the
  deregistration of a validator the contracts still list only if it is to be purged.
\<close>

theorem attested_nodes_on_chain:
  assumes mir: "mirrors en c (es_db s)" and calm: "calm s" and small: "ids_small c" and unique: "endpoints_unique c"
  shows "(GetRegistrationAttestation x cfg db h (GetRegisteredEndpointInfo s) (Some reg) = Ok (sig, reg')
      \<longrightarrow> on_chain en c (vr_endpoint reg) (vr_delegate_wallet reg) (vr_eth_block reg))
    \<and> (GetDeregistrationAttestation x cfg db (GetRegisteredEndpointInfo s) (Some dereg) = Ok (sig', dereg')
      \<longrightarrow> (\<exists>node n. GetRegisteredNodeByCometAddress (vd_comet_address dereg) db = Some node
            \<and> big_SetString (v_eth_block node) = Some n
            \<and> (on_chain en c (v_endpoint node) (v_eth_address node) (wrap64 n)
               \<longrightarrow> ShouldPurgeValidatorForUnderperformance db (vd_comet_address dereg) = Ok True)))"
proof
  note reg = registered_on_ethereum [OF mir calm small unique]
  show "GetRegistrationAttestation x cfg db h (GetRegisteredEndpointInfo s) (Some reg) = Ok (sig, reg')
      \<longrightarrow> on_chain en c (vr_endpoint reg) (vr_delegate_wallet reg) (vr_eth_block reg)"
    by (auto simp: GetRegistrationAttestation_def reg split: if_splits)
  show "GetDeregistrationAttestation x cfg db (GetRegisteredEndpointInfo s) (Some dereg) = Ok (sig', dereg')
      \<longrightarrow> (\<exists>node n. GetRegisteredNodeByCometAddress (vd_comet_address dereg) db = Some node
            \<and> big_SetString (v_eth_block node) = Some n
            \<and> (on_chain en c (v_endpoint node) (v_eth_address node) (wrap64 n)
               \<longrightarrow> ShouldPurgeValidatorForUnderperformance db (vd_comet_address dereg) = Ok True))"
    by (auto simp: GetDeregistrationAttestation_def reg go_simps db_row_def split: if_splits option.splits)
qed

definition demo_reg :: validator_registration where
  "demo_reg = \<lparr>vr_delegate_wallet = string_of (demo_addr 2), vr_endpoint = ''https://a'', vr_node_type = ''content-node'',
     vr_sp_id = ''1'', vr_eth_block = 100, vr_comet_address = ''C'', vr_pub_key = [], vr_power = 10, vr_deadline = 50\<rparr>"

theorem attested_nodes_on_chain_witness:
  "is_ok (GetRegistrationAttestation demo_ext demo_config empty_db 10 (GetRegisteredEndpointInfo demo_hydrated) (Some demo_reg))
   \<and> on_chain demo_env demo_chain ''https://a'' (string_of (demo_addr 2)) 100"
proof -
  let ?r = "GetRegistrationAttestation demo_ext demo_config empty_db 10 (GetRegisteredEndpointInfo demo_hydrated) (Some demo_reg)"
  have ok: "is_ok ?r" by code_simp
  then obtain sig reg' where "?r = Ok (sig, reg')" by (auto simp: is_ok_iff)
  moreover have "ids_small demo_chain" "endpoints_unique demo_chain"
    by (auto simp: ids_small_def endpoints_unique_def demo_node_at node_of_info_def demo_info_def split: if_splits)
  ultimately have "on_chain demo_env demo_chain (vr_endpoint demo_reg) (vr_delegate_wallet demo_reg) (vr_eth_block demo_reg)"
    using attested_nodes_on_chain [OF demo_hydrated_mirrors demo_calm] by blast
  with ok show ?thesis by (simp add: demo_reg_def)
qed

section \<open>Slash proposals and restarts\<close>

lemma best_slash_from:
  "case best_slash cand props found of
     None \<Rightarrow> found = None \<and> (\<forall>p \<in> set props. cand p = None)
   | Some (p, a) \<Rightarrow> (found = Some (p, a) \<or> p \<in> set props \<and> cand p = Some a)
       \<and> (\<forall>q b. found = Some (q, b) \<longrightarrow> b \<le> a) \<and> (\<forall>q \<in> set props. \<forall>b. cand q = Some b \<longrightarrow> b \<le> a)"
proof (induction props arbitrary: found)
  case Nil
  then show ?case by (auto split: option.splits)
next
  case (Cons p props)
  let ?found = "case cand p of None \<Rightarrow> found
        | Some amount \<Rightarrow> (case found of None \<Rightarrow> Some (p, amount)
            | Some (q, best) \<Rightarrow> if best < amount then Some (p, amount) else found)"
  show ?case using Cons.IH [of ?found]
    by (cases "cand p"; cases found) (force split: option.splits prod.splits if_splits)+
qed

text \<open>The proposal answered for an address is one with the highest amount, and none is answered only if there is none.\<close>

theorem slash_proposal_highest:
  assumes "getSlashProposalForAddress en c address s = (Ok found, s')"
  shows "\<exists>delegateManager. es_contracts s' ''DelegateManager'' = Some delegateManager
    \<and> (case found of
         None \<Rightarrow> \<forall>p \<in> set (eth_active_proposals (es_db s)). slash_candidate en delegateManager address p = None
       | Some p \<Rightarrow> p \<in> set (eth_active_proposals (es_db s))
           \<and> (\<exists>a. slash_candidate en delegateManager address p = Some a
                \<and> (\<forall>q \<in> set (eth_active_proposals (es_db s)). \<forall>b. slash_candidate en delegateManager address q = Some b \<longrightarrow> b \<le> a)))"
proof -
  from assms obtain dm where dm: "get_contract c ''DelegateManager'' s = (Ok dm, s')"
    and found: "found = map_option fst (best_slash (slash_candidate en dm address) (eth_active_proposals (es_db s)) None)"
    by (auto simp: getSlashProposalForAddress_def go_simps eth_rows_def split: if_splits)
  from dm have "es_contracts s' ''DelegateManager'' = Some dm" by (auto simp: get_contract_def split: option.splits result.splits)
  with best_slash_from [where cand = "slash_candidate en dm address" and props = "eth_active_proposals (es_db s)" and found = None] found show ?thesis
    by (intro exI [of _ dm]) (auto split: option.splits prod.splits)
qed

text \<open>
  The loop of \<^verbatim>\<open>Run\<close> over the outcomes of the data manager, with the delay in seconds before the next start;
  None is a service that still runs. The delay is never reset.
\<close>

fun eth_run :: "int \<Rightarrow> unit result list \<Rightarrow> unit result option" where
  "eth_run delay [] = None"
| "eth_run delay (r # rs) =
     (case r of
        Err e \<Rightarrow> if 2 * delay > 30 * 60 then Some (Err (Errorf ''eth service shutting down, too many retries''))
                 else eth_run (2 * delay) rs
      | _ \<Rightarrow> Some r)"

lemma eth_run_errors:
  assumes "0 < delay" and "\<forall>r \<in> set rs. \<exists>e. r = Err e"
  shows "eth_run delay rs = (if rs = [] \<or> delay * 2 ^ length rs \<le> 1800 then None
           else Some (Err (Errorf ''eth service shutting down, too many retries'')))"
  using assms
proof (induction rs arbitrary: delay)
  case (Cons r rs)
  have "delay * 1 \<le> delay * 2 ^ length rs" using Cons.prems(1) by (intro mult_left_mono) simp_all
  then have "900 < delay \<Longrightarrow> \<not> delay * 2 ^ length rs \<le> 900" by linarith
  with Cons show ?case by (auto simp: algebra_simps)
qed simp

text \<open>
  The eleventh failure of the data manager ends the service for good, however long the manager ran
  between the failures.
\<close>

theorem eleventh_failure_ends_service:
  assumes "\<forall>r \<in> set rs. \<exists>e. r = Err e"
  shows "eth_run 1 rs \<noteq> None \<longleftrightarrow> 11 \<le> length rs"
proof -
  have "(2 :: int) ^ length rs \<le> 1800 \<longleftrightarrow> length rs \<le> 10"
  proof
    show "length rs \<le> 10" if "(2 :: int) ^ length rs \<le> 1800"
    proof (rule ccontr)
      assume "\<not> length rs \<le> 10"
      then have "(2 :: int) ^ 11 \<le> 2 ^ length rs" by (intro power_increasing) simp_all
      with that show False by simp
    qed
    show "(2 :: int) ^ length rs \<le> 1800" if "length rs \<le> 10"
    proof -
      have "(2 :: int) ^ length rs \<le> 2 ^ 10" using that by (intro power_increasing) simp_all
      then show ?thesis by simp
    qed
  qed
  with eth_run_errors [of 1 rs] assms show ?thesis by (cases "rs = []") auto
qed

text \<open>No statement of the service writes the table of funding rounds, so that asking for the latest fails for ever.\<close>

lemma events_keep_funding_rounds:
  "go_keeps (\<lambda>s. eth_funding_rounds (es_db s) = frs) (handle_eth_event en c ev)"
proof -
  have "go_keeps (\<lambda>s. eth_funding_rounds (es_db s) = frs) (hydrateEthData en c)"
    unfolding hydrateEthData_def hydrate_tx_def hydrate_provider_def GetAllRegisteredNodes_eth_def
      GetAllRegisteredNodesForType_def updateTotalStakedAmount_def ClearRegisteredEndpoints_def
      ClearServiceProviders_def InsertServiceProvider_def UpsertStaked_def
    by (intro go_keeps_intros refresh_keeps go_keeps_atomic hydrate_nodes_keeps eth_exec_keeps get_contract_keeps go_keeps_modify; auto)
  then show ?thesis
    by (cases ev; simp add: handle_eth_event_def updateStakedAmountForServiceProvider_def updateTotalStakedAmount_def
        addActiveProposal_def UpsertStaked_def InsertActiveProposal_def DeleteActiveProposal_def addRegisteredEndpoint_def
        GetRegisteredNode_def InsertRegisteredEndpoint_def updateServiceProvider_def UpsertServiceProvider_def
        deleteAndDeregisterEndpoint_def DeleteRegisteredEndpoint_def publish_dereg_def)
      (intro go_keeps_intros eth_exec_keeps get_contract_keeps go_keeps_modify; auto simp: go_keeps_def)+
qed

theorem funding_rounds_never_answered:
  assumes "eth_funding_rounds (es_db s) = []" and "go_iter (\<lambda>(c, ev). handle_eth_event en c ev) evs s = (r, s')"
  shows "GetLatestFundingRound s' = Err (Errorf ''could not get latest funding round'')"
proof -
  have "go_keeps (\<lambda>s. eth_funding_rounds (es_db s) = []) (go_iter (\<lambda>(c, ev). handle_eth_event en c ev) evs)"
    by (intro go_keeps_intros) (auto intro: events_keep_funding_rounds)
  from go_keepsE [OF this assms] show ?thesis
    by (simp add: GetLatestFundingRound_def eth_row_def eth_rows_def GetLatestFundingRound_row_def latest_by_def)
qed

end
