(* ===== verification/Slashing.thy ===== *)
theory Slashing
  imports Eth_Service
begin

text \<open>
  Recommendations to slash a service provider (\<^verbatim>\<open>pkg/core/server/slash.go\<close>) and the page that computes them
  (\<^verbatim>\<open>pkg/core/console/adjudicate.go\<close>, \<^verbatim>\<open>uptime.go\<close>): the SLA reports of a provider's endpoints in a period are
  counted, an amount is computed in floating point, and a validator signs a recommendation whose amount it
  computes as well.
\<close>

record slash_recommendation =
  sh_Address :: string
  sh_Start :: "timestamp option"
  sh_End :: "timestamp option"
  sh_MissedSLAs :: int
  sh_Amount :: int64

section \<open>Reports of a period\<close>

record rollup_report =
  rr_rollup :: sla_rollup_row
  rr_blocks_proposed :: "int option"
  rr_validator_count :: int64

text \<open>A left join: a rollup of the period without a report of the address still yields a row.\<close>

definition GetRollupReportsForNodeInTimeRange :: "string \<Rightarrow> int \<Rightarrow> int \<Rightarrow> core_db \<Rightarrow> rollup_report list" where
  "GetRollupReportsForNodeInTimeRange address start stop db =
     concat (map (\<lambda>sr.
       let own = filter (\<lambda>r. nr_sla_rollup_id r = Some (sl_id sr) \<and> nr_address r = address) (sla_node_reports db);
           count = int (card (nr_address ` set (filter (\<lambda>r. nr_sla_rollup_id r = Some (sl_id sr)) (sla_node_reports db))))
       in if own = [] then [\<lparr>rr_rollup = sr, rr_blocks_proposed = None, rr_validator_count = count\<rparr>]
          else map (\<lambda>r. \<lparr>rr_rollup = sr, rr_blocks_proposed = Some (nr_blocks_proposed r), rr_validator_count = count\<rparr>) own)
       (sort_key sl_time (filter (\<lambda>sr. start < sl_time sr \<and> sl_time sr \<le> stop) (sla_rollups db))))"

text \<open>The field \<^verbatim>\<open>Int32\<close> of a NULL column is 0.\<close>

definition blocks_of :: "rollup_report \<Rightarrow> int" where
  "blocks_of r = (case rr_blocks_proposed r of None \<Rightarrow> 0 | Some n \<Rightarrow> n)"

definition GetValidatorHistoryForID :: "int64 \<Rightarrow> string \<Rightarrow> core_db \<Rightarrow> validator_history_row option" where
  "GetValidatorHistoryForID spID st db =
     latest_by vh_event_time (filter (\<lambda>r. vh_sp_id r = spID \<and> vh_service_type r = st) (validator_history db))"

text \<open>The CometBFT address of an endpoint: of the validator, or of its last entry in the history, or empty.\<close>

definition comet_address_of :: "core_db \<Rightarrow> service_endpoint \<Rightarrow> string result" where
  "comet_address_of db ep =
     (case db_row ''GetNodeByEndpoint'' (GetNodeByEndpoint (se_Endpoint ep)) db of
        Ok validator \<Rightarrow> Ok (v_comet_address validator)
      | Panic p \<Rightarrow> Panic p
      | Err e \<Rightarrow> if \<not> is_no_rows e then Err e
          else (case db_row ''GetValidatorHistoryForID'' (GetValidatorHistoryForID (se_Id ep) (se_ServiceType ep)) db of
                  Ok history \<Rightarrow> Ok (vh_comet_address history)
                | Err e' \<Rightarrow> if is_no_rows e' then Ok [] else Err e'
                | Panic p \<Rightarrow> Panic p))"

definition endpoint_reports :: "core_db \<Rightarrow> int \<Rightarrow> int \<Rightarrow> service_endpoint \<Rightarrow> rollup_report list result" where
  "endpoint_reports db start stop ep =
     bind_result (comet_address_of db ep) (\<lambda>cometAddress.
     db_rows ''GetRollupReportsForNodeInTimeRange'' (GetRollupReportsForNodeInTimeRange cometAddress start stop) db)"

text \<open>The missed and all reports over the endpoints.\<close>

primrec slash_totals :: "core_db \<Rightarrow> int \<Rightarrow> int \<Rightarrow> service_endpoint list \<Rightarrow> (int \<times> int) result" where
  "slash_totals db start stop [] = Ok (0, 0)"
| "slash_totals db start stop (ep # eps) =
     bind_result (endpoint_reports db start stop ep) (\<lambda>reports.
     map_result (\<lambda>(missed, n). (int (length (filter (\<lambda>r. blocks_of r = 0) reports)) + missed, int (length reports) + n))
       (slash_totals db start stop eps))"

section \<open>The amount\<close>

definition time_ns :: "timestamp option \<Rightarrow> int" where
  "time_ns t = (case t of None \<Rightarrow> 0 | Some ts \<Rightarrow> ts_seconds ts * 10 ^ 9 + ts_nanos ts)"

text \<open>\<^verbatim>\<open>Time.Sub\<close> stays within the range of a \<^verbatim>\<open>Duration\<close>, and \<^verbatim>\<open>Duration.Hours\<close> adds the whole hours and the rest.\<close>

definition time_sub :: "int \<Rightarrow> int \<Rightarrow> int64" where
  "time_sub t u = max (- (2 ^ 63)) (min (2 ^ 63 - 1) (t - u))"

definition hour_ns :: int where
  "hour_ns = 3600 * 10 ^ 9"

definition duration_hours :: "int64 \<Rightarrow> float64" where
  "duration_hours d = f_add (f_of_int (go_div d hour_ns)) (f_div (f_of_int (go_mod d hour_ns)) (FFin (of_int hour_ns)))"

definition period_days :: "(float64 \<Rightarrow> int64) \<Rightarrow> int \<Rightarrow> int \<Rightarrow> int64" where
  "period_days machine startTime endTime = f_to_int64 machine (f_div (duration_hours (time_sub endTime startTime)) (FFin 24))"

definition slash_amount :: "(float64 \<Rightarrow> int64) \<Rightarrow> int \<Rightarrow> int \<Rightarrow> int \<Rightarrow> int \<Rightarrow> int64" where
  "slash_amount machine days totalEndpoints totalSlas missedSlas =
     f_to_int64 machine (f_mul (f_mul (f_mul (FFin 200000) (f_of_int totalEndpoints)) (f_div (f_of_int days) (FFin 365)))
                               (f_div (f_of_int missedSlas) (f_of_int totalSlas)))"

definition CalculateSlashRecommendation :: "(float64 \<Rightarrow> int64) \<Rightarrow> int \<Rightarrow> int \<Rightarrow> int \<Rightarrow> int \<Rightarrow> int \<Rightarrow> int64" where
  "CalculateSlashRecommendation machine startTime endTime totalEndpoints totalSlas missedSlas =
     slash_amount machine (period_days machine startTime endTime) totalEndpoints totalSlas missedSlas"

section \<open>Attesting\<close>

definition SignSlashRecommendation ::
    "ext \<Rightarrow> (slash_recommendation \<Rightarrow> bytes option) \<Rightarrow> string option \<Rightarrow> slash_recommendation option \<Rightarrow> string result" where
  "SignSlashRecommendation x marshal_slash ethKey slash =
     (case slash of
        None \<Rightarrow> Err (Errorf ''empty slash recommendation'')
      | Some sl \<Rightarrow> (case ethKey of
            None \<Rightarrow> Err (Errorf ''empty eth key'')
          | Some key \<Rightarrow>
              bind_result (wrap_err ''could not marshal slash recommendation'' (marshal marshal_slash sl)) (\<lambda>slashBytes.
              wrap_err ''failed to sign slash recommendation'' (EthSign x key slashBytes))))"

definition getSlashAttestation ::
    "ext \<Rightarrow> core_config \<Rightarrow> (float64 \<Rightarrow> int64) \<Rightarrow> (slash_recommendation \<Rightarrow> bytes option) \<Rightarrow> eth_service \<Rightarrow> core_db
     \<Rightarrow> slash_recommendation option \<Rightarrow> string result" where
  "getSlashAttestation x cfg machine marshal_slash eth db slash =
     (case slash of
        None \<Rightarrow> Err (Errorf ''nil slash recommendation'')
      | Some sl \<Rightarrow>
          bind_result (GetRegisteredEndpointsForServiceProvider (sh_Address sl) eth) (\<lambda>endpoints.
          bind_result (slash_totals db (pg_time (sh_Start sl)) (pg_time (sh_End sl)) endpoints) (\<lambda>(missed, n).
          if sh_Amount sl \<noteq> CalculateSlashRecommendation machine (time_ns (sh_Start sl)) (time_ns (sh_End sl))
                 (int (length endpoints)) n missed
          then Err (Errorf ''slash amounts do not match'')
          else SignSlashRecommendation x marshal_slash (Some (cfg_EthereumKey cfg)) slash)))"

text \<open>
  The signatures of the rendezvous that the amount selects, by the endpoint of the validator that
  answered; a peer without a client or with an error is left out. \<open>walk\<close> is the order of a map.
\<close>

definition gatherSlashAttestations ::
    "ext \<Rightarrow> core_config \<Rightarrow> (string set \<Rightarrow> string list) \<Rightarrow> (string \<times> (slash_recommendation \<Rightarrow> string result)) list \<Rightarrow> core_db
     \<Rightarrow> slash_recommendation option \<Rightarrow> (string \<times> string) list result" where
  "gatherSlashAttestations x cfg walk peers db slash =
     (case slash of
        None \<Rightarrow> Err (Errorf ''empty slash recommendation data provided for gathering attestations'')
      | Some sl \<Rightarrow>
          bind_result (wrap_err ''failed to get all registered nodes'' (db_rows ''GetAllRegisteredNodes'' GetAllRegisteredNodes db)) (\<lambda>validators.
          let rendezvous = GetAttestorRendezvous x (map v_eth_address validators) (put_uint64_be (uwrap64 (sh_Amount sl)))
                 (cfg_AttRegistrationRSize cfg);
              endpoint = (\<lambda>addr. v_endpoint (the (find_row (\<lambda>v. v_eth_address v = addr) (rev validators))))
          in Ok (fold (\<lambda>addr atts. case map_of peers addr of
                   None \<Rightarrow> atts
                 | Some peer \<Rightarrow> (case peer sl of Ok sig \<Rightarrow> AList.update (endpoint addr) sig atts | _ \<Rightarrow> atts))
               (walk rendezvous) [])))"

section \<open>The page (console)\<close>

datatype sla_status = SlaDead | SlaPartial | SlaMet | SlaExempt

fun f_less :: "float64 \<Rightarrow> float64 \<Rightarrow> bool" where
  "f_less (FFin x) (FFin y) \<longleftrightarrow> x < y"
| "f_less (FInf s) (FInf t) \<longleftrightarrow> s \<and> \<not> t"
| "f_less (FInf s) (FFin y) \<longleftrightarrow> s"
| "f_less (FFin x) (FInf t) \<longleftrightarrow> \<not> t"
| "f_less _ _ \<longleftrightarrow> False"

text \<open>Registration times are in seconds, those of rollups in microseconds.\<close>

definition endpointIsExemptForSlaReport :: "service_endpoint \<Rightarrow> rollup_report \<Rightarrow> bool" where
  "endpointIsExemptForSlaReport ep r \<longleftrightarrow> se_RegisteredAt ep * 10 ^ 6 > sl_time (rr_rollup r)"

text \<open>The blocks a validator should have proposed: the range of the rollup over the number of validators.\<close>

definition report_quota :: "rollup_report \<Rightarrow> int result" where
  "report_quota r =
     (let count = wrap32 (if rr_validator_count r = 0 then 1 else rr_validator_count r);
          range = wrap32 (wrap64 (wrap64 (sl_block_end (rr_rollup r) - sl_block_start (rr_rollup r)) + 1));
          quota = wrap32 (go_div range count)
      in if count = 0 then Panic ''integer divide by zero'' else Ok (if quota = 0 then 1 else quota))"

definition setSlaReportStatus :: "service_endpoint \<Rightarrow> rollup_report \<Rightarrow> sla_status result" where
  "setSlaReportStatus ep r =
     (if endpointIsExemptForSlaReport ep r then Ok SlaExempt
      else map_result (\<lambda>quota.
             let faultRatio = f_div (f_of_int (blocks_of r)) (f_of_int quota)
             in if f_less faultRatio (FFin (fl53 (8 / 10))) \<and> f_less (FFin 0) faultRatio then SlaPartial
                else if faultRatio = FFin 0 then SlaDead else SlaMet) (report_quota r))"

primrec count_dead :: "service_endpoint \<Rightarrow> rollup_report list \<Rightarrow> int result" where
  "count_dead ep [] = Ok 0"
| "count_dead ep (r # rs) =
     bind_result (setSlaReportStatus ep r) (\<lambda>status.
     map_result (\<lambda>n. (if status = SlaDead then 1 else 0) + n) (count_dead ep rs))"

text \<open>The failed and all storage proofs of a node in a range of blocks; without one there is no row.\<close>

definition GetStorageProofRollupForNode :: "string \<Rightarrow> int64 \<Rightarrow> int64 \<Rightarrow> core_db \<Rightarrow> (int64 \<times> int64) option" where
  "GetStorageProofRollupForNode address first_block last_block db =
     (case filter (\<lambda>r. spr_address r = address \<and> first_block \<le> spr_block_height r \<and> spr_block_height r \<le> last_block) (storage_proofs db) of
        [] \<Rightarrow> None
      | rs \<Rightarrow> Some (int (length (filter (\<lambda>r. spr_status r = ProofFail) rs)), int (length rs)))"

definition proof_counts :: "core_db \<Rightarrow> string \<Rightarrow> rollup_report list \<Rightarrow> (int64 \<times> int64) result" where
  "proof_counts db cometAddress reports =
     (if cometAddress = [] \<or> reports = [] then Ok (0, 0)
      else case db_row ''GetStorageProofRollupForNode'' (GetStorageProofRollupForNode cometAddress
                  (sl_block_start (rr_rollup (hd reports))) (sl_block_end (rr_rollup (last reports)))) db of
             Err e \<Rightarrow> if is_no_rows e then Ok (0, 0) else Err e
           | r \<Rightarrow> r)"

text \<open>The counts of storage proofs are displayed only, but an error of their query ends the page.\<close>

primrec adjudicate_totals :: "core_db \<Rightarrow> int \<Rightarrow> int \<Rightarrow> service_endpoint list \<Rightarrow> (int \<times> int) result" where
  "adjudicate_totals db start stop [] = Ok (0, 0)"
| "adjudicate_totals db start stop (ep # eps) =
     bind_result (comet_address_of db ep) (\<lambda>cometAddress.
     bind_result (db_rows ''GetRollupReportsForNodeInTimeRange'' (GetRollupReportsForNodeInTimeRange cometAddress start stop) db) (\<lambda>reports.
     bind_result (count_dead ep reports) (\<lambda>dead.
     bind_result (proof_counts db cometAddress reports) (\<lambda>_.
     map_result (\<lambda>(d, n). (dead + d, int (length reports) + n)) (adjudicate_totals db start stop eps)))))"

definition adjudicate_recommendation ::
    "(float64 \<Rightarrow> int64) \<Rightarrow> eth_service \<Rightarrow> core_db \<Rightarrow> string \<Rightarrow> timestamp \<Rightarrow> timestamp \<Rightarrow> slash_recommendation result" where
  "adjudicate_recommendation machine eth db address startTime endTime =
     bind_result (GetServiceProvider address eth) (\<lambda>_.
     bind_result (GetRegisteredEndpointsForServiceProvider address eth) (\<lambda>endpoints.
     bind_result (adjudicate_totals db (pg_time (Some startTime)) (pg_time (Some endTime)) endpoints) (\<lambda>(dead, n).
     let slashAmount = CalculateSlashRecommendation machine (time_ns (Some startTime)) (time_ns (Some endTime))
           (int (length endpoints)) n dead
     in bind_result (GetStakingMetadataForServiceProvider machine address eth) (\<lambda>_.
     Ok \<lparr>sh_Address = address, sh_Start = Some startTime, sh_End = Some endTime, sh_MissedSLAs = wrap32 dead,
         sh_Amount = slashAmount\<rparr>))))"

section \<open>Bounds of the amount\<close>

lemma fl53_eq_0_iff: "fl53 x = 0 \<longleftrightarrow> x = 0"
  using fl53_pos_gt_0 [of x] fl53_pos_gt_0 [of "- x"] by (auto simp: fl53_def)

lemma fl53_unit: "0 \<le> x \<Longrightarrow> x \<le> 1 \<Longrightarrow> 0 \<le> fl53 x \<and> fl53 x \<le> 1"
  using fl53_nonneg [of x] fl53_le_int [of x 1] by simp

lemma fl53_mult_unit:
  assumes "0 \<le> a" "a \<le> of_int k" "\<bar>k\<bar> \<le> 2 ^ 53" "0 \<le> b" "b \<le> 1"
  shows "0 \<le> fl53 (a * b) \<and> fl53 (a * b) \<le> of_int k"
proof -
  have "a * b \<le> a" using assms by (simp add: mult_left_le)
  with assms show ?thesis by (auto intro!: fl53_nonneg fl53_le_int)
qed

lemma fl53_mult_le:
  assumes "0 \<le> a" "0 \<le> b" "a * b \<le> of_int k" "\<bar>k\<bar> \<le> 2 ^ 53"
  shows "0 \<le> fl53 (a * b) \<and> fl53 (a * b) \<le> of_int k"
  using assms by (auto intro!: fl53_nonneg fl53_le_int)

lemma slash_amount_bounds:
  assumes days: "0 \<le> days" "days \<le> 365 * y" and n: "0 \<le> n" and y: "0 \<le> y" "y \<le> 300" "200000 * n * y \<le> 2 ^ 53" "200000 * n \<le> 2 ^ 53"
    and slas: "0 < total_slas" "0 \<le> missed" "missed \<le> total_slas" "total_slas \<le> 2 ^ 53"
  shows "0 \<le> slash_amount machine days n total_slas missed \<and> slash_amount machine days n total_slas missed \<le> 200000 * n * y"
    and "missed = 0 \<Longrightarrow> slash_amount machine days n total_slas missed = 0"
    and "missed = total_slas \<Longrightarrow> days = 365 * y \<Longrightarrow> slash_amount machine days n total_slas missed = 200000 * n * y"
proof -
  define b where "b = fl53 (of_int days / 365)"
  define c where "c = fl53 (of_int missed / of_int total_slas)"
  have "(of_int days :: rat) \<le> of_int (365 * y)" using days(2) by (simp only: of_int_le_iff)
  then have "(of_int days :: rat) / 365 \<le> of_int y" by simp
  then have b: "0 \<le> b" "b \<le> of_int y" using days(1) y by (auto simp: b_def intro: fl53_nonneg fl53_le_int)
  have c: "0 \<le> c" "c \<le> 1" using slas fl53_unit [of "of_int missed / of_int total_slas"] by (simp_all add: c_def)
  define A where "A = 200000 * n"
  have A: "0 \<le> A" "\<bar>A\<bar> \<le> 2 ^ 53" "\<bar>A * y\<bar> \<le> 2 ^ 53" using n y by (simp_all add: A_def)
  have a: "fl53 (200000 * of_int n) = of_int A" using fl53_int [OF A(2)] by (simp add: A_def)
  define z where "z = fl53 (fl53 (of_int A * b) * c)"
  have "\<bar>days\<bar> \<le> 2 ^ 53" "\<bar>n\<bar> \<le> 2 ^ 53" "\<bar>missed\<bar> \<le> 2 ^ 53" "\<bar>total_slas\<bar> \<le> 2 ^ 53" using days n slas y by simp_all
  with slas a have amount: "slash_amount machine days n total_slas missed = f_to_int64 machine (FFin z)"
    by (simp add: slash_amount_def z_def b_def c_def)
  have "(of_int A :: rat) * b \<le> of_int (A * y)" using A(1) b by (simp add: mult_left_mono)
  then have ab: "0 \<le> fl53 (of_int A * b)" "fl53 (of_int A * b) \<le> of_int (A * y)"
    using fl53_mult_le [of "of_int A" b "A * y"] A b by simp_all
  then have z: "0 \<le> z" "z \<le> of_int (A * y)"
    using fl53_mult_unit [OF ab A(3) c] by (simp_all add: z_def)
  have t: "0 \<le> trunc z" "trunc z \<le> A * y"
    using trunc_nonneg [OF z(1)] trunc_mono [OF z] trunc_of_int [of "A * y"] by simp_all
  with A(3) have "in_int64 (trunc z)" by (simp add: in_int64_def)
  then have eq: "slash_amount machine days n total_slas missed = trunc z" by (simp add: amount f_to_int64_def)
  with t show "0 \<le> slash_amount machine days n total_slas missed \<and> slash_amount machine days n total_slas missed \<le> 200000 * n * y"
    by (simp add: A_def)
  show "slash_amount machine days n total_slas missed = 0" if "missed = 0"
    using that eq by (simp add: z_def c_def trunc_def)
  show "slash_amount machine days n total_slas missed = 200000 * n * y" if "missed = total_slas" "days = 365 * y"
  proof -
    have "b = of_int y" using that y fl53_int [of y] by (simp add: b_def)
    moreover have "c = 1" using that slas fl53_int [of 1] by (simp add: c_def)
    moreover have "fl53 (of_int (A * y)) = of_int (A * y)" by (rule fl53_int [OF A(3)])
    ultimately have "z = of_int (A * y)" by (simp add: z_def)
    then show ?thesis by (simp only: eq trunc_of_int A_def)
  qed
qed

text \<open>A duration of at most \<open>h\<close> hours has no more hours, whatever is lost in rounding.\<close>

lemma duration_hours_bounds:
  assumes "0 \<le> d" and "d \<le> h * hour_ns" and "h \<le> 2 ^ 53"
  shows "\<exists>t. duration_hours d = FFin t \<and> 0 \<le> t \<and> t \<le> of_int h"
proof -
  have pos: "0 < hour_ns" by (simp add: hour_ns_def)
  define q r where "q = d div hour_ns" and "r = d mod hour_ns"
  have "q \<le> (h * hour_ns) div hour_ns" unfolding q_def using assms(2) pos by (intro zdiv_mono1)
  with assms(1) pos have q: "0 \<le> q" "q \<le> h" by (simp_all add: q_def pos_imp_zdiv_nonneg_iff)
  have r: "0 \<le> r" "r < hour_ns" using pos by (simp_all add: r_def)
  have qr: "d = q * hour_ns + r" by (simp add: q_def r_def)
  have "\<bar>q\<bar> \<le> 2 ^ 53" "\<bar>r\<bar> \<le> 2 ^ 53" using q r assms(3) by (simp_all add: hour_ns_def)
  then have eq: "duration_hours d = FFin (fl53 (of_int q + fl53 (of_int r / of_int hour_ns)))"
    using assms(1) pos by (simp add: duration_hours_def go_div_nonneg go_mod_nonneg q_def [symmetric] r_def [symmetric])
  have frac: "0 \<le> fl53 (of_int r / of_int hour_ns)" "fl53 (of_int r / of_int hour_ns) \<le> 1"
    using fl53_unit [of "of_int r / of_int hour_ns"] r pos by simp_all
  have "of_int q + fl53 (of_int r / of_int hour_ns) \<le> of_int h"
  proof (cases "q = h")
    case True
    with qr r assms(2) have "r = 0" by simp
    with True show ?thesis by simp
  next
    case False
    with q have "q + 1 \<le> h" by simp
    then have "(of_int (q + 1) :: rat) \<le> of_int h" by (simp only: of_int_le_iff)
    with frac show ?thesis by simp
  qed
  then have "fl53 (of_int q + fl53 (of_int r / of_int hour_ns)) \<le> of_int h" using q assms(3) by (intro fl53_le_int) simp_all
  moreover have "0 \<le> fl53 (of_int q + fl53 (of_int r / of_int hour_ns))" using q frac by (intro fl53_nonneg) simp
  ultimately show ?thesis using eq by blast
qed

lemma period_days_bounds:
  assumes "startTime \<le> endTime" and "endTime - startTime \<le> k * (24 * hour_ns)" and "0 \<le> k" and "k \<le> 2 ^ 40"
  shows "0 \<le> period_days machine startTime endTime \<and> period_days machine startTime endTime \<le> k"
proof -
  have "0 \<le> time_sub endTime startTime" "time_sub endTime startTime \<le> 24 * k * hour_ns"
    using assms by (auto simp: time_sub_def)
  then obtain t where t: "duration_hours (time_sub endTime startTime) = FFin t" "0 \<le> t" "t \<le> of_int (24 * k)"
    using duration_hours_bounds [of "time_sub endTime startTime" "24 * k"] assms by auto
  have "0 \<le> fl53 (t / 24)" "fl53 (t / 24) \<le> of_int k" using t assms by (auto intro!: fl53_nonneg fl53_le_int)
  then have "0 \<le> trunc (fl53 (t / 24))" "trunc (fl53 (t / 24)) \<le> k"
    using trunc_mono [of "fl53 (t / 24)" "of_int k"] by (simp_all add: trunc_nonneg)
  moreover from this assms(4) have "in_int64 (trunc (fl53 (t / 24)))" by (simp add: in_int64_def)
  ultimately show ?thesis by (simp add: period_days_def t f_to_int64_def)
qed

lemma period_of_whole_days:
  assumes "0 \<le> k" and "k \<le> 106751"
  shows "period_days machine startTime (startTime + k * (24 * hour_ns)) = k"
proof -
  have d: "time_sub (startTime + k * (24 * hour_ns)) startTime = k * (24 * hour_ns)"
    using assms by (simp add: time_sub_def hour_ns_def)
  have "go_div (k * (24 * hour_ns)) hour_ns = 24 * k" "go_mod (k * (24 * hour_ns)) hour_ns = 0"
    using assms by (simp_all add: go_div_nonneg go_mod_nonneg hour_ns_def)
  moreover have "fl53 (24 * of_int k) = 24 * of_int k" using assms fl53_int [of "24 * k"] by simp
  ultimately have "duration_hours (k * (24 * hour_ns)) = FFin (24 * of_int k)"
    using assms by (simp add: duration_hours_def hour_ns_def)
  moreover have "fl53 (of_int k) = of_int k" using assms by (intro fl53_int) simp
  moreover have "in_int64 k" using assms by (simp add: in_int64_def)
  ultimately show ?thesis by (simp add: period_days_def d f_to_int64_def)
qed

text \<open>
  (C36) The recommended amount, for a period that does not end before it starts and in which there is a report: over
  at most \<open>years\<close> years of 365 days it lies between nothing and 200000 for each endpoint and year, whatever is
  lost in rounding; it is nothing when no report is missed, and exactly that much when all are and the period is
  so many whole years. (Without a report it is whatever the machine makes of converting NaN,
  \<open>slash_without_reports\<close>; for a period that ends before it starts, it is negative, \<open>reversed_period_negative\<close>.)
\<close>

theorem slash_recommendation_bounds:
  fixes machine :: "float64 \<Rightarrow> int64" and startTime endTime :: int
  assumes "startTime \<le> endTime" and "endTime - startTime \<le> years * (365 * (24 * hour_ns))"
    and "1 \<le> years" and "years \<le> 292" and "0 \<le> n" and "200000 * n * years \<le> 2 ^ 53"
    and "0 < slas" and "0 \<le> missed" and "missed \<le> slas" and "slas \<le> 2 ^ 53"
  defines "amount \<equiv> CalculateSlashRecommendation machine startTime endTime n slas missed"
  shows "0 \<le> amount \<and> amount \<le> 200000 * n * years \<and> (missed = 0 \<longrightarrow> amount = 0)
    \<and> (missed = slas \<and> endTime - startTime = years * (365 * (24 * hour_ns)) \<longrightarrow> amount = 200000 * n * years)"
proof -
  let ?days = "period_days machine startTime endTime"
  have days: "0 \<le> ?days" "?days \<le> 365 * years"
    using period_days_bounds [of startTime endTime "365 * years" machine] assms by (simp_all add: algebra_simps)
  have whole: "?days = 365 * years" if "endTime - startTime = years * (365 * (24 * hour_ns))"
  proof -
    have "endTime = startTime + 365 * years * (24 * hour_ns)" using that by (simp add: algebra_simps)
    with period_of_whole_days [of "365 * years" machine startTime] assms(3,4) show ?thesis by simp
  qed
  have "200000 * n \<le> 200000 * n * years" using assms(3,5) by (simp add: mult_le_cancel_left1)
  with assms have n: "200000 * n \<le> 2 ^ 53" by simp
  have y: "0 \<le> years" "years \<le> 300" using assms(3,4) by simp_all
  note bounds = slash_amount_bounds [OF days assms(5) y assms(6) n assms(7-10), of machine]
  show ?thesis unfolding amount_def CalculateSlashRecommendation_def using bounds whole by simp
qed

theorem slash_recommendation_bounds_witness:
  "CalculateSlashRecommendation (\<lambda>_. - (2 ^ 63)) 0 (365 * (24 * hour_ns)) 3 7 7 = 600000
   \<and> CalculateSlashRecommendation (\<lambda>_. - (2 ^ 63)) 0 (30 * (24 * hour_ns) + 12345) 3 7 0 = 0
   \<and> 0 \<le> CalculateSlashRecommendation (\<lambda>_. - (2 ^ 63)) 0 (500 * (24 * hour_ns) + 1) 3 7 5
   \<and> CalculateSlashRecommendation (\<lambda>_. - (2 ^ 63)) 0 (500 * (24 * hour_ns) + 1) 3 7 5 \<le> 1200000"
  using slash_recommendation_bounds [of 0 "365 * (24 * hour_ns)" 1 3 7 7 "\<lambda>_. - (2 ^ 63)"]
    slash_recommendation_bounds [of 0 "30 * (24 * hour_ns) + 12345" 1 3 7 0 "\<lambda>_. - (2 ^ 63)"]
    slash_recommendation_bounds [of 0 "500 * (24 * hour_ns) + 1" 2 3 7 5 "\<lambda>_. - (2 ^ 63)"]
  by (simp add: hour_ns_def)

text \<open>A request may name a period that ends before it starts; its amount is negative.\<close>

theorem reversed_period_negative:
  "CalculateSlashRecommendation machine (365 * (24 * hour_ns)) 0 1 1 1 = - 200000"
proof -
  have "duration_hours (- (365 * (24 * hour_ns))) = FFin (- 8760)"
    using fl53_int [of "- 8760"] by (simp add: duration_hours_def go_div_def go_mod_def hour_ns_def)
  moreover have "time_sub 0 (365 * (24 * hour_ns)) = - (365 * (24 * hour_ns))" by (simp add: time_sub_def hour_ns_def)
  ultimately have "period_days machine (365 * (24 * hour_ns)) 0 = - 365"
    using fl53_int [of "- 365"] trunc_of_int [of "- 365"] by (simp add: period_days_def f_to_int64_def in_int64_def)
  moreover have "slash_amount machine (- 365) 1 1 1 = - 200000"
    using fl53_int [of "- 1"] fl53_int [of 1] fl53_int [of "- 200000"] fl53_int [of 200000] trunc_of_int [of "- 200000"]
    by (simp add: slash_amount_def f_to_int64_def in_int64_def)
  ultimately show ?thesis by (simp add: CalculateSlashRecommendation_def)
qed

section \<open>Attestations of recommended amounts\<close>

lemma setSlaReportStatus_dead:
  assumes "setSlaReportStatus ep r = Ok status"
  shows "status = SlaDead \<longleftrightarrow> \<not> endpointIsExemptForSlaReport ep r \<and> blocks_of r = 0"
proof -
  have zero: "f_div (f_of_int b) (f_of_int q) = FFin 0 \<longleftrightarrow> b = 0" if "q \<noteq> 0" for b q
    using that by (simp add: f_of_int_def fl53_eq_0_iff)
  show ?thesis
  proof (cases "endpointIsExemptForSlaReport ep r")
    case True
    with assms show ?thesis by (auto simp: setSlaReportStatus_def)
  next
    case False
    with assms obtain q where "report_quota r = Ok q"
      and st: "status = (if f_less (f_div (f_of_int (blocks_of r)) (f_of_int q)) (FFin (fl53 (8 / 10)))
             \<and> f_less (FFin 0) (f_div (f_of_int (blocks_of r)) (f_of_int q)) then SlaPartial
           else if f_div (f_of_int (blocks_of r)) (f_of_int q) = FFin 0 then SlaDead else SlaMet)"
      by (auto simp: setSlaReportStatus_def Let_def go_simps)
    then have "q \<noteq> 0" by (auto simp: report_quota_def Let_def split: if_splits)
    with False st zero [of q "blocks_of r"] show ?thesis by (cases "blocks_of r = 0") auto
  qed
qed

lemma count_dead_Ok:
  "count_dead ep rs = Ok n \<Longrightarrow> n = int (length (filter (\<lambda>r. \<not> endpointIsExemptForSlaReport ep r \<and> blocks_of r = 0) rs))"
  by (induction rs arbitrary: n) (auto simp: go_simps dest: setSlaReportStatus_dead split: if_splits)

definition no_exempt_misses :: "core_db \<Rightarrow> int \<Rightarrow> int \<Rightarrow> service_endpoint list \<Rightarrow> bool" where
  "no_exempt_misses db start stop eps \<longleftrightarrow>
     (\<forall>ep \<in> set eps. case endpoint_reports db start stop ep of
        Ok reports \<Rightarrow> \<forall>r \<in> set reports. blocks_of r = 0 \<longrightarrow> \<not> endpointIsExemptForSlaReport ep r | _ \<Rightarrow> True)"

lemma totals_agree:
  assumes "adjudicate_totals db start stop eps = Ok (d, n)" and "no_exempt_misses db start stop eps"
  shows "slash_totals db start stop eps = Ok (d, n)"
  using assms
proof (induction eps arbitrary: d n)
  case (Cons ep eps)
  from Cons.prems(1) obtain reports dead d' n' where reports: "endpoint_reports db start stop ep = Ok reports"
    and dead: "count_dead ep reports = Ok dead" and rest: "adjudicate_totals db start stop eps = Ok (d', n')"
    and dn: "d = dead + d'" "n = int (length reports) + n'" by (auto simp: go_simps endpoint_reports_def)
  from Cons.prems(2) reports have "\<forall>r \<in> set reports. blocks_of r = 0 \<longrightarrow> \<not> endpointIsExemptForSlaReport ep r"
    and rest_ok: "no_exempt_misses db start stop eps" by (auto simp: no_exempt_misses_def)
  then have "filter (\<lambda>r. \<not> endpointIsExemptForSlaReport ep r \<and> blocks_of r = 0) reports = filter (\<lambda>r. blocks_of r = 0) reports"
    by (intro filter_cong) auto
  with Cons.IH [OF rest rest_ok] reports count_dead_Ok [OF dead] dn show ?case by simp
qed simp

text \<open>
  (C37) A recommendation of the page is attested by every validator with the same tables, as long as no report
  without blocks is older than the registration of its endpoint.
\<close>

theorem recommended_slash_attested:
  assumes page: "adjudicate_recommendation machine eth db address startTime endTime = Ok sl"
    and eps: "GetRegisteredEndpointsForServiceProvider address eth = Ok eps"
    and misses: "no_exempt_misses db (pg_time (Some startTime)) (pg_time (Some endTime)) eps"
    and signed: "marshal_slash sl = Some b" "EthSign x (cfg_EthereumKey cfg) b = Ok sig"
  shows "getSlashAttestation x cfg machine marshal_slash eth db (Some sl) = Ok sig"
proof -
  from page eps obtain d n where tot: "adjudicate_totals db (pg_time (Some startTime)) (pg_time (Some endTime)) eps = Ok (d, n)"
    and sl: "sl = \<lparr>sh_Address = address, sh_Start = Some startTime, sh_End = Some endTime, sh_MissedSLAs = wrap32 d,
         sh_Amount = CalculateSlashRecommendation machine (time_ns (Some startTime)) (time_ns (Some endTime))
           (int (length eps)) n d\<rparr>"
    by (auto simp: adjudicate_recommendation_def Let_def go_simps)
  from totals_agree [OF tot misses] eps signed show ?thesis
    by (simp add: getSlashAttestation_def sl SignSlashRecommendation_def marshal_def)
qed

text \<open>A provider whose one endpoint was registered after \<open>t\<close> seconds, and a rollup of the day after the start.\<close>

definition demo_slash_service :: "int \<Rightarrow> eth_service" where
  "demo_slash_service t = demo_service\<lparr>es_db := (es_db demo_service)
     \<lparr>eth_registered_endpoints := [\<lparr>ee_id = 1, ee_service_type = ''validator'', ee_owner = ''0xowner'',
        ee_delegate_wallet = ''0xa'', ee_endpoint = ''https://a'', ee_blocknumber = 100, ee_registered_at = t\<rparr>],
      eth_service_providers := [\<lparr>sv_address = ''0xowner'', sv_deployer_stake = 0, sv_deployer_cut = 0, sv_valid_bounds = True,
        sv_number_of_endpoints = 1, sv_min_account_stake = 0, sv_max_account_stake = 0\<rparr>],
      eth_staked := [\<lparr>sk_address = ''0xowner'', sk_total_staked = 200000\<rparr>]\<rparr>\<rparr>"

definition demo_slash_db :: core_db where
  "demo_slash_db = empty_db\<lparr>sla_rollups := [\<lparr>sl_id = 1, sl_tx_hash = ''h'', sl_block_start = 1, sl_block_end = 100,
     sl_time = 86400 * 10 ^ 6\<rparr>]\<rparr>"

definition demo_slash :: "int64 \<Rightarrow> int \<Rightarrow> slash_recommendation" where
  "demo_slash amount missed =
     \<lparr>sh_Address = ''0xowner'', sh_Start = Some \<lparr>ts_seconds = 0, ts_nanos = 0\<rparr>,
      sh_End = Some \<lparr>ts_seconds = 31536000, ts_nanos = 0\<rparr>, sh_MissedSLAs = missed, sh_Amount = amount\<rparr>"

lemma demo_year: "time_ns (Some \<lparr>ts_seconds = 31536000, ts_nanos = 0\<rparr>) = 8760 * hour_ns"
  by (simp add: time_ns_def hour_ns_def)

lemma demo_start: "time_ns (Some \<lparr>ts_seconds = 0, ts_nanos = 0\<rparr>) = 0"
  by (simp add: time_ns_def)

lemma demo_year_amount:
  "CalculateSlashRecommendation machine 0 (8760 * hour_ns) 1 1 missed = (if missed = 1 then 200000 else 0)"
  if "missed = 0 \<or> missed = 1"
  using that slash_amount_bounds(2,3) [of 365 1 1 1 missed machine] period_of_whole_days [of 365 machine 0]
  by (auto simp: CalculateSlashRecommendation_def)

lemma demo_totals:
  "adjudicate_totals demo_slash_db (pg_time (Some \<lparr>ts_seconds = 0, ts_nanos = 0\<rparr>))
     (pg_time (Some \<lparr>ts_seconds = 31536000, ts_nanos = 0\<rparr>)) (map service_endpoint_of (eth_registered_endpoints (es_db (demo_slash_service 0)))) = Ok (1, 1)"
  "adjudicate_totals demo_slash_db (pg_time (Some \<lparr>ts_seconds = 0, ts_nanos = 0\<rparr>))
     (pg_time (Some \<lparr>ts_seconds = 31536000, ts_nanos = 0\<rparr>)) (map service_endpoint_of (eth_registered_endpoints (es_db (demo_slash_service 200000)))) = Ok (0, 1)"
  "slash_totals demo_slash_db (pg_time (Some \<lparr>ts_seconds = 0, ts_nanos = 0\<rparr>))
     (pg_time (Some \<lparr>ts_seconds = 31536000, ts_nanos = 0\<rparr>)) (map service_endpoint_of (eth_registered_endpoints (es_db (demo_slash_service 200000)))) = Ok (1, 1)"
  "no_exempt_misses demo_slash_db (pg_time (Some \<lparr>ts_seconds = 0, ts_nanos = 0\<rparr>))
     (pg_time (Some \<lparr>ts_seconds = 31536000, ts_nanos = 0\<rparr>)) (map service_endpoint_of (eth_registered_endpoints (es_db (demo_slash_service 0))))"
  by code_simp+

lemma demo_endpoints:
  "GetRegisteredEndpointsForServiceProvider ''0xowner'' (demo_slash_service t)
     = Ok (map service_endpoint_of (eth_registered_endpoints (es_db (demo_slash_service t))))"
  "is_ok (GetServiceProvider ''0xowner'' (demo_slash_service t))"
  "length (eth_registered_endpoints (es_db (demo_slash_service t))) = 1"
  "is_ok (GetStakingMetadataForServiceProvider machine ''0xowner'' (demo_slash_service t))"
  by (simp_all add: GetStakingMetadataForServiceProvider_def GetStakedAmountForServiceProvider_def Let_def GetRegisteredEndpointsForServiceProvider_def eth_rows_def GetRegisteredEndpointsForServiceProvider_rows_def
      demo_slash_service_def demo_service_def GetServiceProvider_def eth_row_def GetServiceProvider_row_def)

lemma demo_page:
  assumes "adjudicate_totals demo_slash_db (pg_time (Some \<lparr>ts_seconds = 0, ts_nanos = 0\<rparr>))
     (pg_time (Some \<lparr>ts_seconds = 31536000, ts_nanos = 0\<rparr>))
     (map service_endpoint_of (eth_registered_endpoints (es_db (demo_slash_service t)))) = Ok (d, 1)"
    and "d = 0 \<or> d = 1"
  shows "adjudicate_recommendation machine (demo_slash_service t) demo_slash_db ''0xowner''
      \<lparr>ts_seconds = 0, ts_nanos = 0\<rparr> \<lparr>ts_seconds = 31536000, ts_nanos = 0\<rparr> = Ok (demo_slash (if d = 1 then 200000 else 0) d)"
proof -
  from demo_endpoints(2) obtain sp where "GetServiceProvider ''0xowner'' (demo_slash_service t) = Ok sp" by (auto simp: is_ok_iff)
  moreover from demo_endpoints(4) obtain sm where "GetStakingMetadataForServiceProvider machine ''0xowner'' (demo_slash_service t) = Ok sm"
    unfolding is_ok_iff by blast
  moreover have "wrap32 d = d" using assms(2) by (auto simp: wrap32_def)
  ultimately show ?thesis using demo_year_amount [OF assms(2), of machine] assms
    by (simp add: adjudicate_recommendation_def demo_endpoints(1,3) demo_slash_def demo_start demo_year)
qed

theorem recommended_slash_attested_witness:
  "adjudicate_recommendation (\<lambda>_. 0) (demo_slash_service 0) demo_slash_db ''0xowner''
      \<lparr>ts_seconds = 0, ts_nanos = 0\<rparr> \<lparr>ts_seconds = 31536000, ts_nanos = 0\<rparr> = Ok (demo_slash 200000 1)
   \<and> is_ok (getSlashAttestation demo_ext demo_config (\<lambda>_. 0) (\<lambda>sl. Some (bytes_of (sh_Address sl))) (demo_slash_service 0)
       demo_slash_db (Some (demo_slash 200000 1)))"
proof -
  have page: "adjudicate_recommendation (\<lambda>_. 0) (demo_slash_service 0) demo_slash_db ''0xowner''
      \<lparr>ts_seconds = 0, ts_nanos = 0\<rparr> \<lparr>ts_seconds = 31536000, ts_nanos = 0\<rparr> = Ok (demo_slash 200000 1)"
    using demo_page [OF demo_totals(1), of "\<lambda>_. 0"] by simp
  have "is_ok (EthSign demo_ext (cfg_EthereumKey demo_config) (bytes_of ''0xowner''))" by code_simp
  then obtain sig where "EthSign demo_ext (cfg_EthereumKey demo_config) (bytes_of ''0xowner'') = Ok sig" by (auto simp: is_ok_iff)
  then have "getSlashAttestation demo_ext demo_config (\<lambda>_. 0) (\<lambda>sl. Some (bytes_of (sh_Address sl))) (demo_slash_service 0)
       demo_slash_db (Some (demo_slash 200000 1)) = Ok sig"
    by (intro recommended_slash_attested [OF page demo_endpoints(1) demo_totals(4)]) (auto simp: demo_slash_def)
  with page show ?thesis by simp
qed

text \<open>
  A report older than the registration of its endpoint is exempt on the page but counts as missed
  for the validators, and they refuse to attest the amount of the page.
\<close>

theorem exempt_report_refused:
  "adjudicate_recommendation machine (demo_slash_service 200000) demo_slash_db ''0xowner''
      \<lparr>ts_seconds = 0, ts_nanos = 0\<rparr> \<lparr>ts_seconds = 31536000, ts_nanos = 0\<rparr> = Ok (demo_slash 0 0)
   \<and> getSlashAttestation x cfg machine marshal_slash (demo_slash_service 200000) demo_slash_db (Some (demo_slash 0 0))
     = Err (Errorf ''slash amounts do not match'')"
proof -
  have "getSlashAttestation x cfg machine marshal_slash (demo_slash_service 200000) demo_slash_db (Some (demo_slash 0 0))
     = Err (Errorf ''slash amounts do not match'')"
    using demo_totals(3) demo_year_amount [of 1 machine]
    by (simp add: getSlashAttestation_def demo_slash_def demo_endpoints(1,3) demo_start demo_year)
  with demo_page [OF demo_totals(2), of machine] show ?thesis by simp
qed

text \<open>The answer to a request that no report can support depends on the machine.\<close>

theorem slash_without_reports:
  assumes "GetRegisteredEndpointsForServiceProvider (sh_Address sl) eth = Ok eps"
    and "slash_totals db (pg_time (sh_Start sl)) (pg_time (sh_End sl)) eps = Ok (0, 0)"
  shows "getSlashAttestation x cfg machine marshal_slash eth db (Some sl) =
    (if sh_Amount sl = machine FNaN then SignSlashRecommendation x marshal_slash (Some (cfg_EthereumKey cfg)) (Some sl)
     else Err (Errorf ''slash amounts do not match''))"
proof -
  have mul: "f_mul v FNaN = FNaN" for v by (cases v) auto
  have "CalculateSlashRecommendation machine t u n 0 0 = machine FNaN" for t u n
    by (simp add: CalculateSlashRecommendation_def slash_amount_def f_to_int64_def mul)
  with assms show ?thesis by (simp add: getSlashAttestation_def)
qed

end
