(* ===== verification/Lifecycle.thy ===== *)
theory Lifecycle
  imports Prelude
begin

text \<open>
  The package \<^verbatim>\<open>pkg/lifecycle\<close>: lifecycles form a tree, each with the routines it manages, and shutting one
  down cancels its context, shuts its children down and waits for its routines, up to a timeout. Its
  goroutines are steps of a relation: adding a routine or a child first looks at the flag and then
  acts, each call of \<^verbatim>\<open>ShutdownWithTimeout\<close> starts, spawns calls on the children and returns later.
\<close>

section \<open>State\<close>

text \<open>A context is cancelled with its lifecycle's or with that of its parent.\<close>

record lifecycle =
  lc_parent :: "nat option"
  lc_cancelled :: bool
  lc_isShutDown :: bool
  lc_wg :: nat
  lc_children :: "nat list"

text \<open>
  A call of \<^verbatim>\<open>ShutdownWithTimeout\<close>: the calls it has spawned on the children, whether its \<^verbatim>\<open>wg.Wait\<close> has
  returned, and whether it returned nil.
\<close>

record shutdown_call =
  sc_lc :: nat
  sc_begun :: bool
  sc_subs :: "nat list"
  sc_waited :: bool
  sc_ret :: "bool option"

text \<open>
  \<open>lw_adding\<close> and \<open>lw_deriving\<close> are the calls that have passed the check of the flag and not acted yet. The
  ghost lists \<open>lw_lateRoutines\<close> and \<open>lw_lateChildren\<close> record the lifecycles that got a routine or a child
  after their flag was set; no step reads them.
\<close>

record lifecycle_world =
  lw_lcs :: "lifecycle list"
  lw_calls :: "shutdown_call list"
  lw_adding :: "nat list"
  lw_deriving :: "nat list"
  lw_panicked :: bool
  lw_lateRoutines :: "nat list"
  lw_lateChildren :: "nat list"

definition NewLifecycle :: "nat option \<Rightarrow> lifecycle" where
  "NewLifecycle parent =
     \<lparr>lc_parent = parent, lc_cancelled = False, lc_isShutDown = False, lc_wg = 0, lc_children = []\<rparr>"

definition initial_world :: lifecycle_world where
  "initial_world = \<lparr>lw_lcs = [NewLifecycle None], lw_calls = [], lw_adding = [], lw_deriving = [], lw_panicked = False,
     lw_lateRoutines = [], lw_lateChildren = []\<rparr>"

definition upd_lc :: "nat \<Rightarrow> (lifecycle \<Rightarrow> lifecycle) \<Rightarrow> lifecycle_world \<Rightarrow> lifecycle_world" where
  "upd_lc l f w = w\<lparr>lw_lcs := (lw_lcs w)[l := f (lw_lcs w ! l)]\<rparr>"

definition upd_call :: "nat \<Rightarrow> (shutdown_call \<Rightarrow> shutdown_call) \<Rightarrow> lifecycle_world \<Rightarrow> lifecycle_world" where
  "upd_call i f w = w\<lparr>lw_calls := (lw_calls w)[i := f (lw_calls w ! i)]\<rparr>"

definition new_call :: "nat \<Rightarrow> shutdown_call" where
  "new_call l = \<lparr>sc_lc = l, sc_begun = False, sc_subs = [], sc_waited = False, sc_ret = None\<rparr>"

section \<open>Steps\<close>

definition AddManagedRoutine_check :: "nat \<Rightarrow> lifecycle_world \<Rightarrow> lifecycle_world" where
  "AddManagedRoutine_check l w =
     (if lc_isShutDown (lw_lcs w ! l) then w\<lparr>lw_panicked := True\<rparr> else w\<lparr>lw_adding := l # lw_adding w\<rparr>)"

definition AddManagedRoutine_act :: "nat \<Rightarrow> lifecycle_world \<Rightarrow> lifecycle_world" where
  "AddManagedRoutine_act l w =
     (upd_lc l (\<lambda>c. c\<lparr>lc_wg := Suc (lc_wg c)\<rparr>) w)
       \<lparr>lw_adding := remove1 l (lw_adding w),
        lw_lateRoutines := (if lc_isShutDown (lw_lcs w ! l) then l # lw_lateRoutines w else lw_lateRoutines w)\<rparr>"

definition NewFromLifecycle_check :: "nat \<Rightarrow> lifecycle_world \<Rightarrow> lifecycle_world" where
  "NewFromLifecycle_check l w =
     (if lc_isShutDown (lw_lcs w ! l) then w\<lparr>lw_panicked := True\<rparr> else w\<lparr>lw_deriving := l # lw_deriving w\<rparr>)"

definition NewFromLifecycle_act :: "nat \<Rightarrow> lifecycle_world \<Rightarrow> lifecycle_world" where
  "NewFromLifecycle_act l w =
     (let new = length (lw_lcs w); w' = upd_lc l (\<lambda>c. c\<lparr>lc_children := lc_children c @ [new]\<rparr>) w
      in w'\<lparr>lw_lcs := lw_lcs w' @ [NewLifecycle (Some l)], lw_deriving := remove1 l (lw_deriving w),
            lw_lateChildren := (if lc_isShutDown (lw_lcs w ! l) then l # lw_lateChildren w else lw_lateChildren w)\<rparr>)"

definition routine_done :: "nat \<Rightarrow> lifecycle_world \<Rightarrow> lifecycle_world" where
  "routine_done l w = upd_lc l (\<lambda>c. c\<lparr>lc_wg := lc_wg c - 1\<rparr>) w"

definition ShutdownWithTimeout_call :: "nat \<Rightarrow> lifecycle_world \<Rightarrow> lifecycle_world" where
  "ShutdownWithTimeout_call l w = w\<lparr>lw_calls := lw_calls w @ [new_call l]\<rparr>"

text \<open>
  A call cancels the context, sets the flag and reads the children in one step; a child that is added between
  the flag and the reading counts as late.
\<close>

definition ShutdownWithTimeout_begin :: "nat \<Rightarrow> lifecycle_world \<Rightarrow> lifecycle_world" where
  "ShutdownWithTimeout_begin i w =
     (let l = sc_lc (lw_calls w ! i); children = lc_children (lw_lcs w ! l); n = length (lw_calls w);
          w' = upd_call i (\<lambda>c. c\<lparr>sc_begun := True, sc_subs := [n ..< n + length children]\<rparr>)
                 (upd_lc l (\<lambda>c. c\<lparr>lc_cancelled := True, lc_isShutDown := True\<rparr>) w)
      in w'\<lparr>lw_calls := lw_calls w' @ map new_call children\<rparr>)"

text \<open>The goroutine that waits for the managed routines returns at a moment when none is running.\<close>

definition can_wait :: "nat \<Rightarrow> lifecycle_world \<Rightarrow> bool" where
  "can_wait i w \<longleftrightarrow> (let c = lw_calls w ! i in sc_begun c \<and> lc_wg (lw_lcs w ! sc_lc c) = 0)"

definition ShutdownWithTimeout_waited :: "nat \<Rightarrow> lifecycle_world \<Rightarrow> lifecycle_world" where
  "ShutdownWithTimeout_waited i w = upd_call i (\<lambda>c. c\<lparr>sc_waited := True\<rparr>) w"

text \<open>\<^verbatim>\<open>eg.Wait\<close> returns once all children have returned and the wait is over, with an error if a child had one.\<close>

definition can_complete :: "nat \<Rightarrow> lifecycle_world \<Rightarrow> bool" where
  "can_complete i w \<longleftrightarrow>
     (let c = lw_calls w ! i
      in sc_begun c \<and> sc_ret c = None \<and> sc_waited c \<and> (\<forall>j \<in> set (sc_subs c). sc_ret (lw_calls w ! j) \<noteq> None))"

definition ShutdownWithTimeout_complete :: "nat \<Rightarrow> lifecycle_world \<Rightarrow> lifecycle_world" where
  "ShutdownWithTimeout_complete i w =
     upd_call i (\<lambda>c. c\<lparr>sc_ret := Some (\<forall>j \<in> set (sc_subs c). sc_ret (lw_calls w ! j) = Some True)\<rparr>) w"

definition ShutdownWithTimeout_timeout :: "nat \<Rightarrow> lifecycle_world \<Rightarrow> lifecycle_world" where
  "ShutdownWithTimeout_timeout i w = upd_call i (\<lambda>c. c\<lparr>sc_ret := Some False\<rparr>) w"

inductive lc_step :: "lifecycle_world \<Rightarrow> lifecycle_world \<Rightarrow> bool" where
  StepAddCheck: "\<not> lw_panicked w \<Longrightarrow> l < length (lw_lcs w) \<Longrightarrow> lc_step w (AddManagedRoutine_check l w)"
| StepAdd: "\<not> lw_panicked w \<Longrightarrow> l \<in> set (lw_adding w) \<Longrightarrow> lc_step w (AddManagedRoutine_act l w)"
| StepDeriveCheck: "\<not> lw_panicked w \<Longrightarrow> l < length (lw_lcs w) \<Longrightarrow> lc_step w (NewFromLifecycle_check l w)"
| StepDerive: "\<not> lw_panicked w \<Longrightarrow> l \<in> set (lw_deriving w) \<Longrightarrow> lc_step w (NewFromLifecycle_act l w)"
| StepDone: "\<not> lw_panicked w \<Longrightarrow> l < length (lw_lcs w) \<Longrightarrow> 0 < lc_wg (lw_lcs w ! l) \<Longrightarrow> lc_step w (routine_done l w)"
| StepCall: "\<not> lw_panicked w \<Longrightarrow> l < length (lw_lcs w) \<Longrightarrow> lc_step w (ShutdownWithTimeout_call l w)"
| StepBegin: "\<not> lw_panicked w \<Longrightarrow> i < length (lw_calls w) \<Longrightarrow> \<not> sc_begun (lw_calls w ! i)
    \<Longrightarrow> lc_step w (ShutdownWithTimeout_begin i w)"
| StepWaited: "\<not> lw_panicked w \<Longrightarrow> i < length (lw_calls w) \<Longrightarrow> can_wait i w \<Longrightarrow> lc_step w (ShutdownWithTimeout_waited i w)"
| StepComplete: "\<not> lw_panicked w \<Longrightarrow> i < length (lw_calls w) \<Longrightarrow> can_complete i w
    \<Longrightarrow> lc_step w (ShutdownWithTimeout_complete i w)"
| StepTimeout: "\<not> lw_panicked w \<Longrightarrow> i < length (lw_calls w) \<Longrightarrow> sc_begun (lw_calls w ! i) \<Longrightarrow> sc_ret (lw_calls w ! i) = None
    \<Longrightarrow> lc_step w (ShutdownWithTimeout_timeout i w)"

inductive lc_reachable :: "lifecycle_world \<Rightarrow> bool" where
  LcInitial: "lc_reachable initial_world"
| LcStep: "lc_reachable w \<Longrightarrow> lc_step w w' \<Longrightarrow> lc_reachable w'"

text \<open>Runs of the relation, computed.\<close>

datatype lc_op = OpAddCheck nat | OpAdd nat | OpDeriveCheck nat | OpDerive nat | OpDone nat | OpCall nat
  | OpBegin nat | OpWaited nat | OpComplete nat | OpTimeout nat

fun lc_enabled :: "lifecycle_world \<Rightarrow> lc_op \<Rightarrow> bool" where
  "lc_enabled w (OpAddCheck l) = (l < length (lw_lcs w))"
| "lc_enabled w (OpAdd l) = (l \<in> set (lw_adding w))"
| "lc_enabled w (OpDeriveCheck l) = (l < length (lw_lcs w))"
| "lc_enabled w (OpDerive l) = (l \<in> set (lw_deriving w))"
| "lc_enabled w (OpDone l) = (l < length (lw_lcs w) \<and> 0 < lc_wg (lw_lcs w ! l))"
| "lc_enabled w (OpCall l) = (l < length (lw_lcs w))"
| "lc_enabled w (OpBegin i) = (i < length (lw_calls w) \<and> \<not> sc_begun (lw_calls w ! i))"
| "lc_enabled w (OpWaited i) = (i < length (lw_calls w) \<and> can_wait i w)"
| "lc_enabled w (OpComplete i) = (i < length (lw_calls w) \<and> can_complete i w)"
| "lc_enabled w (OpTimeout i) = (i < length (lw_calls w) \<and> sc_begun (lw_calls w ! i) \<and> sc_ret (lw_calls w ! i) = None)"

fun lc_apply :: "lc_op \<Rightarrow> lifecycle_world \<Rightarrow> lifecycle_world" where
  "lc_apply (OpAddCheck l) w = AddManagedRoutine_check l w"
| "lc_apply (OpAdd l) w = AddManagedRoutine_act l w"
| "lc_apply (OpDeriveCheck l) w = NewFromLifecycle_check l w"
| "lc_apply (OpDerive l) w = NewFromLifecycle_act l w"
| "lc_apply (OpDone l) w = routine_done l w"
| "lc_apply (OpCall l) w = ShutdownWithTimeout_call l w"
| "lc_apply (OpBegin i) w = ShutdownWithTimeout_begin i w"
| "lc_apply (OpWaited i) w = ShutdownWithTimeout_waited i w"
| "lc_apply (OpComplete i) w = ShutdownWithTimeout_complete i w"
| "lc_apply (OpTimeout i) w = ShutdownWithTimeout_timeout i w"

fun lc_run :: "lc_op list \<Rightarrow> lifecycle_world \<Rightarrow> lifecycle_world option" where
  "lc_run [] w = Some w"
| "lc_run (x # xs) w = (if lw_panicked w \<or> \<not> lc_enabled w x then None else lc_run xs (lc_apply x w))"

lemma lc_enabled_step: "\<not> lw_panicked w \<Longrightarrow> lc_enabled w x \<Longrightarrow> lc_step w (lc_apply x w)"
  by (cases x) (simp_all add: lc_step.intros)

lemma lc_run_reachable_from: "lc_reachable w \<Longrightarrow> lc_run xs w = Some w' \<Longrightarrow> lc_reachable w'"
  by (induction xs arbitrary: w) (auto split: if_splits intro: lc_enabled_step LcStep)

lemmas lc_run_reachable = lc_run_reachable_from [OF LcInitial]

lemmas lc_ops = AddManagedRoutine_check_def AddManagedRoutine_act_def NewFromLifecycle_check_def NewFromLifecycle_act_def
  routine_done_def ShutdownWithTimeout_call_def ShutdownWithTimeout_begin_def ShutdownWithTimeout_waited_def
  ShutdownWithTimeout_complete_def ShutdownWithTimeout_timeout_def can_wait_def can_complete_def upd_lc_def upd_call_def
  new_call_def NewLifecycle_def initial_world_def

section \<open>Invariant\<close>

definition lc_wf :: "lifecycle_world \<Rightarrow> bool" where
  "lc_wf w \<longleftrightarrow>
     (\<forall>l < length (lw_lcs w). \<forall>c \<in> set (lc_children (lw_lcs w ! l)). c < length (lw_lcs w))
     \<and> (\<forall>i < length (lw_calls w). sc_lc (lw_calls w ! i) < length (lw_lcs w)
          \<and> (\<forall>j \<in> set (sc_subs (lw_calls w ! i)). j < length (lw_calls w)))
     \<and> (\<forall>l \<in> set (lw_adding w) \<union> set (lw_deriving w). l < length (lw_lcs w))"

definition lc_begun :: "lifecycle_world \<Rightarrow> bool" where
  "lc_begun w \<longleftrightarrow> (\<forall>i < length (lw_calls w). sc_begun (lw_calls w ! i) \<longrightarrow>
     lc_isShutDown (lw_lcs w ! sc_lc (lw_calls w ! i))
     \<and> (sc_lc (lw_calls w ! i) \<notin> set (lw_lateChildren w) \<longrightarrow>
          map (\<lambda>j. sc_lc (lw_calls w ! j)) (sc_subs (lw_calls w ! i)) = lc_children (lw_lcs w ! sc_lc (lw_calls w ! i))))"

definition lc_waited :: "lifecycle_world \<Rightarrow> bool" where
  "lc_waited w \<longleftrightarrow> (\<forall>i < length (lw_calls w). sc_waited (lw_calls w ! i) \<longrightarrow>
     sc_begun (lw_calls w ! i)
     \<and> (sc_lc (lw_calls w ! i) \<notin> set (lw_lateRoutines w) \<longrightarrow> lc_wg (lw_lcs w ! sc_lc (lw_calls w ! i)) = 0))"

definition lc_returned :: "lifecycle_world \<Rightarrow> bool" where
  "lc_returned w \<longleftrightarrow> (\<forall>i < length (lw_calls w). sc_ret (lw_calls w ! i) = Some True \<longrightarrow>
     sc_waited (lw_calls w ! i) \<and> (\<forall>j \<in> set (sc_subs (lw_calls w ! i)). sc_ret (lw_calls w ! j) = Some True))"

definition lc_inv :: "lifecycle_world \<Rightarrow> bool" where
  "lc_inv w \<longleftrightarrow> lc_wf w \<and> lc_begun w \<and> lc_waited w \<and> lc_returned w"

lemmas lc_inv_defs = lc_wf_def lc_begun_def lc_waited_def lc_returned_def

lemma lc_inv_initial: "lc_inv initial_world"
  by (simp add: lc_inv_def lc_inv_defs initial_world_def NewLifecycle_def)

lemma lc_invD:
  assumes "lc_inv w" and "i < length (lw_calls w)"
  shows "sc_lc (lw_calls w ! i) < length (lw_lcs w)"
    and "j \<in> set (sc_subs (lw_calls w ! i)) \<Longrightarrow> j < length (lw_calls w)"
    and "sc_begun (lw_calls w ! i) \<Longrightarrow> lc_isShutDown (lw_lcs w ! sc_lc (lw_calls w ! i))"
    and "sc_begun (lw_calls w ! i) \<Longrightarrow> sc_lc (lw_calls w ! i) \<notin> set (lw_lateChildren w) \<Longrightarrow>
      map (\<lambda>j. sc_lc (lw_calls w ! j)) (sc_subs (lw_calls w ! i)) = lc_children (lw_lcs w ! sc_lc (lw_calls w ! i))"
    and "sc_waited (lw_calls w ! i) \<Longrightarrow> sc_begun (lw_calls w ! i)"
    and "sc_waited (lw_calls w ! i) \<Longrightarrow> sc_lc (lw_calls w ! i) \<notin> set (lw_lateRoutines w) \<Longrightarrow>
      lc_wg (lw_lcs w ! sc_lc (lw_calls w ! i)) = 0"
    and "sc_ret (lw_calls w ! i) = Some True \<Longrightarrow> sc_waited (lw_calls w ! i)"
    and "sc_ret (lw_calls w ! i) = Some True \<Longrightarrow> j \<in> set (sc_subs (lw_calls w ! i)) \<Longrightarrow> sc_ret (lw_calls w ! j) = Some True"
  using assms unfolding lc_inv_def lc_inv_defs by blast+

text \<open>
  Steps that change no call: a lifecycle that is shut down stays so, and gets a child or a routine only when it
  is recorded as late.
\<close>

lemma lc_inv_same_calls:
  assumes inv: "lc_inv w" and calls: "lw_calls w' = lw_calls w" and wf: "lc_wf w'"
    and flag: "\<And>l. l < length (lw_lcs w) \<Longrightarrow> lc_isShutDown (lw_lcs w ! l) \<Longrightarrow> lc_isShutDown (lw_lcs w' ! l)"
    and children: "\<And>l. l < length (lw_lcs w) \<Longrightarrow> lc_isShutDown (lw_lcs w ! l) \<Longrightarrow> l \<notin> set (lw_lateChildren w') \<Longrightarrow>
        l \<notin> set (lw_lateChildren w) \<and> lc_children (lw_lcs w' ! l) = lc_children (lw_lcs w ! l)"
    and wg: "\<And>l. l < length (lw_lcs w) \<Longrightarrow> lc_isShutDown (lw_lcs w ! l) \<Longrightarrow> l \<notin> set (lw_lateRoutines w') \<Longrightarrow>
        l \<notin> set (lw_lateRoutines w) \<and> lc_wg (lw_lcs w' ! l) \<le> lc_wg (lw_lcs w ! l)"
  shows "lc_inv w'"
proof -
  have "lc_begun w'"
    unfolding lc_begun_def calls
  proof (intro allI impI conjI)
    fix i
    assume i: "i < length (lw_calls w)" and b: "sc_begun (lw_calls w ! i)"
    note len = lc_invD(1) [OF inv i] and sd = lc_invD(3) [OF inv i b]
    from flag [OF len sd] show "lc_isShutDown (lw_lcs w' ! sc_lc (lw_calls w ! i))" .
    show "map (\<lambda>j. sc_lc (lw_calls w ! j)) (sc_subs (lw_calls w ! i)) = lc_children (lw_lcs w' ! sc_lc (lw_calls w ! i))"
      if "sc_lc (lw_calls w ! i) \<notin> set (lw_lateChildren w')"
      using children [OF len sd that] lc_invD(4) [OF inv i b] by simp
  qed
  moreover have "lc_waited w'"
    unfolding lc_waited_def calls
  proof (intro allI impI conjI)
    fix i
    assume i: "i < length (lw_calls w)" and x: "sc_waited (lw_calls w ! i)"
    from lc_invD(5) [OF inv i x] show b: "sc_begun (lw_calls w ! i)" .
    show "lc_wg (lw_lcs w' ! sc_lc (lw_calls w ! i)) = 0" if "sc_lc (lw_calls w ! i) \<notin> set (lw_lateRoutines w')"
      using wg [OF lc_invD(1) [OF inv i] lc_invD(3) [OF inv i b] that] lc_invD(6) [OF inv i x] by simp
  qed
  moreover have "lc_returned w'" using inv by (simp add: lc_inv_def lc_returned_def calls)
  ultimately show ?thesis using wf by (simp add: lc_inv_def)
qed

lemma lc_inv_panic: "lc_inv (w\<lparr>lw_panicked := b\<rparr>) \<longleftrightarrow> lc_inv w"
  by (cases w) (simp only: lc_inv_def lc_inv_defs lifecycle_world.simps lifecycle_world.update_convs)

lemma lc_inv_add_check:
  assumes "lc_inv w" and "l < length (lw_lcs w)"
  shows "lc_inv (AddManagedRoutine_check l w)"
proof (cases "lc_isShutDown (lw_lcs w ! l)")
  case False
  have "lc_inv (w\<lparr>lw_adding := l # lw_adding w\<rparr>)"
    by (rule lc_inv_same_calls [OF assms(1)]) (use assms in \<open>simp_all add: lc_inv_def lc_wf_def\<close>)
  with False show ?thesis by (simp add: AddManagedRoutine_check_def)
qed (simp add: AddManagedRoutine_check_def lc_inv_panic assms)

lemma lc_inv_derive_check:
  assumes "lc_inv w" and "l < length (lw_lcs w)"
  shows "lc_inv (NewFromLifecycle_check l w)"
proof (cases "lc_isShutDown (lw_lcs w ! l)")
  case False
  have "lc_inv (w\<lparr>lw_deriving := l # lw_deriving w\<rparr>)"
    by (rule lc_inv_same_calls [OF assms(1)]) (use assms in \<open>simp_all add: lc_inv_def lc_wf_def\<close>)
  with False show ?thesis by (simp add: NewFromLifecycle_check_def)
qed (simp add: NewFromLifecycle_check_def lc_inv_panic assms)

lemma nth_update: "j < length xs \<Longrightarrow> xs[i := x] ! j = (if i = j then x else xs ! j)"
  by (simp add: nth_list_update)

text \<open>Changing one lifecycle, its children apart.\<close>

lemma lc_wf_upd:
  assumes "lc_wf w" and "\<And>c. lc_children (f c) = lc_children c"
  shows "lc_wf (upd_lc l f w)"
  using assms unfolding lc_wf_def upd_lc_def
  by (cases "l < length (lw_lcs w)") (simp_all add: nth_list_update list_update_beyond)

lemma lc_wf_adding: "lc_wf w \<Longrightarrow> lc_wf (w\<lparr>lw_adding := remove1 l xs, lw_lateRoutines := ys\<rparr>)" if "set xs \<subseteq> set (lw_adding w)"
  using that set_remove1_subset [of l xs] unfolding lc_wf_def by auto

lemma lc_inv_add:
  assumes inv: "lc_inv w" and l: "l \<in> set (lw_adding w)"
  shows "lc_inv (AddManagedRoutine_act l w)"
proof (rule lc_inv_same_calls [OF inv])
  from inv l have len: "l < length (lw_lcs w)" by (simp add: lc_inv_def lc_wf_def)
  show "lc_wf (AddManagedRoutine_act l w)"
    unfolding AddManagedRoutine_act_def
    by (rule lc_wf_adding) (use inv in \<open>auto simp: lc_inv_def upd_lc_def intro: lc_wf_upd [unfolded upd_lc_def]\<close>)
qed (auto simp: AddManagedRoutine_act_def upd_lc_def nth_update split: if_splits)

lemma lc_inv_derive:
  assumes inv: "lc_inv w" and l: "l \<in> set (lw_deriving w)"
  shows "lc_inv (NewFromLifecycle_act l w)"
proof (rule lc_inv_same_calls [OF inv])
  from inv l have len: "l < length (lw_lcs w)" by (simp add: lc_inv_def lc_wf_def)
  have sub: "x \<in> set (remove1 l (lw_deriving w)) \<Longrightarrow> x \<in> set (lw_deriving w)" for x
    using set_remove1_subset [of l "lw_deriving w"] by blast
  let ?w = "NewFromLifecycle_act l w"
  have lcs: "lw_lcs ?w ! k = (if k = l then (lw_lcs w ! l)\<lparr>lc_children := lc_children (lw_lcs w ! l) @ [length (lw_lcs w)]\<rparr>
      else if k < length (lw_lcs w) then lw_lcs w ! k else NewLifecycle (Some l))" if "k < Suc (length (lw_lcs w))" for k
    using that len by (auto simp: NewFromLifecycle_act_def upd_lc_def Let_def nth_append nth_list_update)
  have more: "length (lw_lcs ?w) = Suc (length (lw_lcs w))" "lw_calls ?w = lw_calls w" "lw_adding ?w = lw_adding w"
    "lw_deriving ?w = remove1 l (lw_deriving w)" "lw_lateRoutines ?w = lw_lateRoutines w"
    "lw_lateChildren ?w = (if lc_isShutDown (lw_lcs w ! l) then l # lw_lateChildren w else lw_lateChildren w)"
    by (simp_all add: NewFromLifecycle_act_def upd_lc_def Let_def)
  show "lw_calls ?w = lw_calls w" by (rule more)
  show "lc_wf ?w"
    unfolding lc_wf_def more
  proof (intro conjI allI impI ballI)
    fix k c
    assume k: "k < Suc (length (lw_lcs w))" and c: "c \<in> set (lc_children (lw_lcs ?w ! k))"
    have "\<forall>d \<in> set (lc_children (lw_lcs w ! k)). d < length (lw_lcs w)" if "k < length (lw_lcs w)"
      using inv that by (simp add: lc_inv_def lc_wf_def)
    with c k len show "c < Suc (length (lw_lcs w))"
      by (cases "k < length (lw_lcs w)") (auto simp: lcs NewLifecycle_def split: if_splits)
  qed (use inv lc_invD(1,2) [OF inv] sub in \<open>auto simp: lc_inv_def lc_wf_def less_SucI\<close>)
qed (auto simp: NewFromLifecycle_act_def upd_lc_def Let_def nth_append nth_update split: if_splits)

lemma lc_inv_done:
  assumes inv: "lc_inv w"
  shows "lc_inv (routine_done l w)"
proof (rule lc_inv_same_calls [OF inv])
  show "lc_wf (routine_done l w)" unfolding routine_done_def using inv by (intro lc_wf_upd) (simp_all add: lc_inv_def)
qed (auto simp: routine_done_def upd_lc_def nth_update)

text \<open>
  Steps that append calls not begun yet: the calls and lifecycles before stay as they are, apart from the
  flags of one lifecycle whose shutdown begins.
\<close>

lemma lc_inv_call:
  assumes inv: "lc_inv w" and l: "l < length (lw_lcs w)"
  shows "lc_inv (ShutdownWithTimeout_call l w)"
proof -
  let ?w = "ShutdownWithTimeout_call l w" and ?n = "length (lw_calls w)"
  have call: "lw_calls ?w ! k = (if k < ?n then lw_calls w ! k else new_call l)" if "k < Suc ?n" for k
    using that by (auto simp: ShutdownWithTimeout_call_def nth_append less_Suc_eq)
  have more: "lw_lcs ?w = lw_lcs w" "lw_adding ?w = lw_adding w" "lw_deriving ?w = lw_deriving w"
    "lw_lateRoutines ?w = lw_lateRoutines w" "lw_lateChildren ?w = lw_lateChildren w" "length (lw_calls ?w) = Suc ?n"
    by (simp_all add: ShutdownWithTimeout_call_def)
  note old = lc_invD [OF inv]
  have "lc_wf ?w"
    unfolding lc_wf_def more
  proof (intro conjI allI impI ballI)
    fix k j
    assume k: "k < Suc ?n"
    show "sc_lc (lw_calls ?w ! k) < length (lw_lcs w)"
      using l old(1) [of k] k by (cases "k < ?n") (simp_all add: call new_call_def)
    show "j < Suc ?n" if "j \<in> set (sc_subs (lw_calls ?w ! k))"
      using that k old(2) [of k j] by (cases "k < ?n") (simp_all add: call new_call_def)
  qed (use inv in \<open>simp_all add: lc_inv_def lc_wf_def\<close>)
  moreover have "lc_begun ?w"
    unfolding lc_begun_def more
  proof (intro allI impI)
    fix k
    assume "k < Suc ?n" and "sc_begun (lw_calls ?w ! k)"
    then have k: "k < ?n" "sc_begun (lw_calls w ! k)" by (simp_all add: call new_call_def split: if_splits)
    have "map (\<lambda>j. sc_lc (lw_calls ?w ! j)) (sc_subs (lw_calls w ! k)) = map (\<lambda>j. sc_lc (lw_calls w ! j)) (sc_subs (lw_calls w ! k))"
      using old(2) [OF k(1)] by (intro map_cong refl) (simp add: call less_SucI)
    with old(3,4) [OF k] k show "lc_isShutDown (lw_lcs w ! sc_lc (lw_calls ?w ! k))
        \<and> (sc_lc (lw_calls ?w ! k) \<notin> set (lw_lateChildren w) \<longrightarrow>
            map (\<lambda>j. sc_lc (lw_calls ?w ! j)) (sc_subs (lw_calls ?w ! k)) = lc_children (lw_lcs w ! sc_lc (lw_calls ?w ! k)))"
      by (simp add: call del: map_eq_conv)
  qed
  moreover have "lc_waited ?w"
    unfolding lc_waited_def more using old(5,6) by (auto simp: call new_call_def split: if_splits)
  moreover have "lc_returned ?w"
    unfolding lc_returned_def more using old(2,7,8) by (auto simp: call new_call_def less_SucI split: if_splits)
  ultimately show ?thesis by (simp add: lc_inv_def)
qed

text \<open>Recording that the wait is over, or the outcome of a call.\<close>

lemma lc_inv_upd_call:
  assumes inv: "lc_inv w" and i: "i < length (lw_calls w)"
    and same: "\<And>c. sc_lc (f c) = sc_lc c" "\<And>c. sc_begun (f c) = sc_begun c" "\<And>c. sc_subs (f c) = sc_subs c"
    and waited: "sc_waited (f (lw_calls w ! i)) \<Longrightarrow> sc_begun (lw_calls w ! i)
        \<and> (sc_lc (lw_calls w ! i) \<notin> set (lw_lateRoutines w) \<longrightarrow> lc_wg (lw_lcs w ! sc_lc (lw_calls w ! i)) = 0)"
    and stays: "sc_ret (lw_calls w ! i) = Some True \<Longrightarrow> sc_ret (f (lw_calls w ! i)) = Some True"
    and ret: "sc_ret (f (lw_calls w ! i)) = Some True \<Longrightarrow> sc_waited (f (lw_calls w ! i))
        \<and> (\<forall>j \<in> set (sc_subs (lw_calls w ! i)). sc_ret (lw_calls w ! j) = Some True)"
  shows "lc_inv (upd_call i f w)"
proof -
  let ?w = "upd_call i f w"
  have call: "lw_calls ?w ! k = (if k = i then f (lw_calls w ! i) else lw_calls w ! k)" for k
    using i by (simp add: upd_call_def nth_list_update)
  then have eqs: "sc_lc (lw_calls ?w ! k) = sc_lc (lw_calls w ! k)" "sc_begun (lw_calls ?w ! k) = sc_begun (lw_calls w ! k)"
    "sc_subs (lw_calls ?w ! k) = sc_subs (lw_calls w ! k)" for k by (simp_all add: same)
  have more: "lw_lcs ?w = lw_lcs w" "lw_adding ?w = lw_adding w" "lw_deriving ?w = lw_deriving w"
    "lw_lateRoutines ?w = lw_lateRoutines w" "lw_lateChildren ?w = lw_lateChildren w"
    "length (lw_calls ?w) = length (lw_calls w)" by (simp_all add: upd_call_def)
  have "lc_wf ?w" using inv unfolding lc_inv_def lc_wf_def eqs more by blast
  moreover have "lc_begun ?w" using inv unfolding lc_inv_def lc_begun_def eqs more by blast
  moreover have "lc_waited ?w"
    unfolding lc_waited_def eqs more using lc_invD(5,6) [OF inv] waited by (auto simp: call)
  moreover have "lc_returned ?w"
    unfolding lc_returned_def eqs more
  proof (intro allI impI conjI ballI)
    fix k j
    assume k: "k < length (lw_calls w)" and r: "sc_ret (lw_calls ?w ! k) = Some True"
    show "sc_waited (lw_calls ?w ! k)" using lc_invD(7) [OF inv k] ret r by (auto simp: call split: if_splits)
    assume "j \<in> set (sc_subs (lw_calls w ! k))"
    then have "sc_ret (lw_calls w ! j) = Some True"
      using lc_invD(8) [OF inv k] ret r by (auto simp: call split: if_splits)
    with stays show "sc_ret (lw_calls ?w ! j) = Some True" by (auto simp: call)
  qed
  ultimately show ?thesis by (simp add: lc_inv_def)
qed

lemma lc_inv_waited:
  assumes "lc_inv w" and "i < length (lw_calls w)" and "can_wait i w"
  shows "lc_inv (ShutdownWithTimeout_waited i w)"
  unfolding ShutdownWithTimeout_waited_def
  using assms by (intro lc_inv_upd_call) (auto simp: can_wait_def Let_def intro: lc_invD)

lemma lc_inv_timeout:
  assumes "lc_inv w" and "i < length (lw_calls w)" and "sc_ret (lw_calls w ! i) = None"
  shows "lc_inv (ShutdownWithTimeout_timeout i w)"
  unfolding ShutdownWithTimeout_timeout_def
  using assms by (intro lc_inv_upd_call) (auto intro: lc_invD)

lemma lc_inv_complete:
  assumes "lc_inv w" and "i < length (lw_calls w)" and "can_complete i w"
  shows "lc_inv (ShutdownWithTimeout_complete i w)"
  unfolding ShutdownWithTimeout_complete_def
  using assms by (intro lc_inv_upd_call) (auto simp: can_complete_def Let_def intro: lc_invD)

lemma lc_inv_begin:
  assumes inv: "lc_inv w" and i: "i < length (lw_calls w)" and new: "\<not> sc_begun (lw_calls w ! i)"
  shows "lc_inv (ShutdownWithTimeout_begin i w)"
proof -
  let ?w = "ShutdownWithTimeout_begin i w" and ?l = "sc_lc (lw_calls w ! i)" and ?n = "length (lw_calls w)"
  let ?cs = "lc_children (lw_lcs w ! ?l)"
  note old = lc_invD [OF inv]
  have len: "?l < length (lw_lcs w)" by (rule old(1) [OF i])
  with inv have cs: "\<forall>c \<in> set ?cs. c < length (lw_lcs w)" by (simp add: lc_inv_def lc_wf_def)
  have lcs: "lw_lcs ?w ! k = (if k = ?l then (lw_lcs w ! ?l)\<lparr>lc_cancelled := True, lc_isShutDown := True\<rparr> else lw_lcs w ! k)" for k
    using len by (auto simp: ShutdownWithTimeout_begin_def upd_lc_def upd_call_def Let_def nth_list_update)
  have more: "length (lw_lcs ?w) = length (lw_lcs w)" "lw_adding ?w = lw_adding w" "lw_deriving ?w = lw_deriving w"
    "lw_lateRoutines ?w = lw_lateRoutines w" "lw_lateChildren ?w = lw_lateChildren w" "length (lw_calls ?w) = ?n + length ?cs"
    by (simp_all add: ShutdownWithTimeout_begin_def upd_lc_def upd_call_def Let_def)
  have call: "lw_calls ?w ! k = (if k = i then (lw_calls w ! i)\<lparr>sc_begun := True, sc_subs := [?n ..< ?n + length ?cs]\<rparr>
      else if k < ?n then lw_calls w ! k else new_call (?cs ! (k - ?n)))" if "k < ?n + length ?cs" for k
    using that i by (auto simp: ShutdownWithTimeout_begin_def upd_lc_def upd_call_def Let_def nth_append nth_list_update)
  have lc_of: "sc_lc (lw_calls ?w ! k) = (if k < ?n then sc_lc (lw_calls w ! k) else ?cs ! (k - ?n))"
    if "k < ?n + length ?cs" for k using call [OF that] i by (auto simp: new_call_def)
  have keep: "lc_wg (lw_lcs ?w ! k) = lc_wg (lw_lcs w ! k)" "lc_children (lw_lcs ?w ! k) = lc_children (lw_lcs w ! k)"
    "lc_isShutDown (lw_lcs ?w ! k) \<longleftrightarrow> k = ?l \<or> lc_isShutDown (lw_lcs w ! k)" for k by (simp_all add: lcs)
  from old(5) [OF i] old(7) [OF i] new
  have fresh: "\<not> sc_waited (lw_calls w ! i)" "sc_ret (lw_calls w ! i) \<noteq> Some True" by blast+
  have "lc_wf ?w"
    unfolding lc_wf_def more
  proof (intro conjI allI impI ballI)
    fix k j
    assume k: "k < ?n + length ?cs"
    show "sc_lc (lw_calls ?w ! k) < length (lw_lcs w)" using lc_of [OF k] cs old(1) [of k] k by auto
    show "j < ?n + length ?cs" if "j \<in> set (sc_subs (lw_calls ?w ! k))"
      using that call [OF k] old(2) [of k j] by (auto simp: new_call_def split: if_splits)
  qed (use inv in \<open>auto simp: keep lc_inv_def lc_wf_def\<close>)
  moreover have "lc_begun ?w"
    unfolding lc_begun_def more
  proof (intro allI impI)
    fix k
    assume k: "k < ?n + length ?cs" and b: "sc_begun (lw_calls ?w ! k)"
    show "lc_isShutDown (lw_lcs ?w ! sc_lc (lw_calls ?w ! k))
        \<and> (sc_lc (lw_calls ?w ! k) \<notin> set (lw_lateChildren w) \<longrightarrow>
           map (\<lambda>j. sc_lc (lw_calls ?w ! j)) (sc_subs (lw_calls ?w ! k)) = lc_children (lw_lcs ?w ! sc_lc (lw_calls ?w ! k)))"
    proof (cases "k = i")
      case True
      have "map (\<lambda>j. sc_lc (lw_calls ?w ! j)) [?n ..< ?n + length ?cs] = ?cs"
        by (rule nth_equalityI) (simp_all add: lc_of)
      with True call [OF k] lc_of [OF k] i show ?thesis by (simp add: keep)
    next
      case False
      with b call [OF k] have kn: "k < ?n" and b': "sc_begun (lw_calls w ! k)" by (auto simp: new_call_def split: if_splits)
      have "map (\<lambda>j. sc_lc (lw_calls ?w ! j)) (sc_subs (lw_calls w ! k)) = map (\<lambda>j. sc_lc (lw_calls w ! j)) (sc_subs (lw_calls w ! k))"
        using old(2) [OF kn] by (intro map_cong refl) (simp add: lc_of trans_less_add1)
      with False call [OF k] kn old(3,4) [OF kn b'] show ?thesis by (simp add: keep del: map_eq_conv)
    qed
  qed
  moreover have "lc_waited ?w"
    unfolding lc_waited_def more
  proof (intro allI impI)
    fix k
    assume k: "k < ?n + length ?cs" and x: "sc_waited (lw_calls ?w ! k)"
    with call [OF k] fresh have "k \<noteq> i" "k < ?n" "lw_calls ?w ! k = lw_calls w ! k" by (auto simp: new_call_def split: if_splits)
    with old(5,6) [of k] x show "sc_begun (lw_calls ?w ! k)
        \<and> (sc_lc (lw_calls ?w ! k) \<notin> set (lw_lateRoutines w) \<longrightarrow> lc_wg (lw_lcs ?w ! sc_lc (lw_calls ?w ! k)) = 0)"
      by (simp add: keep)
  qed
  moreover have "lc_returned ?w"
    unfolding lc_returned_def more
  proof (intro allI impI conjI ballI)
    fix k j
    assume k: "k < ?n + length ?cs" and r: "sc_ret (lw_calls ?w ! k) = Some True"
    with call [OF k] fresh have kn: "k < ?n" and eq: "lw_calls ?w ! k = lw_calls w ! k" by (auto simp: new_call_def split: if_splits)
    from old(7) [OF kn] r show "sc_waited (lw_calls ?w ! k)" by (simp add: eq)
    assume "j \<in> set (sc_subs (lw_calls ?w ! k))"
    with old(2,8) [OF kn] r have "j < ?n" "sc_ret (lw_calls w ! j) = Some True" by (simp_all add: eq)
    with fresh(2) call [of j] show "sc_ret (lw_calls ?w ! j) = Some True" by auto
  qed
  ultimately show ?thesis by (simp add: lc_inv_def)
qed

lemma lc_inv_reachable: "lc_reachable w \<Longrightarrow> lc_inv w"
proof (induction rule: lc_reachable.induct)
  case LcInitial
  then show ?case by (rule lc_inv_initial)
next
  case (LcStep w w')
  from LcStep.hyps(2) LcStep.IH show ?case
    by (cases rule: lc_step.cases)
      (auto intro: lc_inv_add_check lc_inv_add lc_inv_derive_check lc_inv_derive lc_inv_done lc_inv_call
        lc_inv_begin lc_inv_waited lc_inv_complete lc_inv_timeout)
qed

section \<open>Shutting down\<close>

text \<open>The children a lifecycle had when its shutdown began: those of a lifecycle that got none afterwards.\<close>

definition lc_below :: "lifecycle_world \<Rightarrow> (nat \<times> nat) set" where
  "lc_below w = {(p, c). p < length (lw_lcs w) \<and> c \<in> set (lc_children (lw_lcs w ! p)) \<and> p \<notin> set (lw_lateChildren w)}"

text \<open>Below a call that returned nil, every lifecycle has a call of its own that returned nil.\<close>

lemma returned_below:
  assumes inv: "lc_inv w" and i: "i < length (lw_calls w)" "sc_ret (lw_calls w ! i) = Some True"
    and below: "(sc_lc (lw_calls w ! i), l) \<in> (lc_below w)\<^sup>*"
  shows "\<exists>j < length (lw_calls w). sc_lc (lw_calls w ! j) = l \<and> sc_ret (lw_calls w ! j) = Some True"
  using below
proof (induction rule: rtrancl_induct)
  case base
  from i show ?case by blast
next
  case (step y z)
  then obtain j where j: "j < length (lw_calls w)" "sc_lc (lw_calls w ! j) = y" "sc_ret (lw_calls w ! j) = Some True" by blast
  from step.hyps(2) have z: "z \<in> set (lc_children (lw_lcs w ! y))" and y: "y \<notin> set (lw_lateChildren w)"
    by (simp_all add: lc_below_def)
  note waited = lc_invD(7) [OF inv j(1) j(3)]
  from lc_invD(4) [OF inv j(1) lc_invD(5) [OF inv j(1) waited]] y
  have "set (lc_children (lw_lcs w ! y)) = (\<lambda>k. sc_lc (lw_calls w ! k)) ` set (sc_subs (lw_calls w ! j))"
    by (metis j(2) set_map)
  with z obtain k where "k \<in> set (sc_subs (lw_calls w ! j))" "sc_lc (lw_calls w ! k) = z" by auto
  with lc_invD(2,8) [OF inv j(1)] j(3) show ?case by blast
qed

text \<open>
  (C38) In every state the goroutines reach, a call of \<^verbatim>\<open>ShutdownWithTimeout\<close> that has returned nil has shut down its
  lifecycle and every one below it, at any depth, through lifecycles that got no child after their own flag was
  set; and each of them has no managed routine running, then and from there on, unless a routine was added to
  it after its flag was set. The flag is checked without a lock, so that both exceptions occur
  (\<open>late_routine_survives_shutdown\<close>, \<open>late_child_survives_shutdown\<close>).
\<close>

theorem shutdown_leaves_nothing_running:
  assumes "lc_reachable w" and "i < length (lw_calls w)" and "sc_ret (lw_calls w ! i) = Some True"
    and "(sc_lc (lw_calls w ! i), l) \<in> (lc_below w)\<^sup>*"
  shows "lc_isShutDown (lw_lcs w ! l) \<and> (l \<notin> set (lw_lateRoutines w) \<longrightarrow> lc_wg (lw_lcs w ! l) = 0)"
proof -
  from assms(1) have inv: "lc_inv w" by (rule lc_inv_reachable)
  with assms(2-4) obtain j where j: "j < length (lw_calls w)" "sc_lc (lw_calls w ! j) = l" "sc_ret (lw_calls w ! j) = Some True"
    using returned_below by blast
  note waited = lc_invD(7) [OF inv j(1) j(3)]
  from lc_invD(3) [OF inv j(1) lc_invD(5) [OF inv j(1) waited]] lc_invD(6) [OF inv j(1) waited] show ?thesis
    by (simp add: j(2))
qed

text \<open>A lifecycle with two children, a routine on each, and one more routine added late to the second child.\<close>

definition shutdown_script :: "lc_op list" where
  "shutdown_script = [OpDeriveCheck 0, OpDerive 0, OpDeriveCheck 0, OpDerive 0, OpAddCheck 1, OpAdd 1, OpAddCheck 2, OpCall 0,
     OpBegin 0, OpWaited 0, OpBegin 1, OpBegin 2, OpWaited 2, OpAdd 2, OpDone 1, OpWaited 1, OpComplete 1, OpComplete 2, OpComplete 0]"

definition shutdown_script_end :: lifecycle_world where
  "shutdown_script_end =
     \<lparr>lw_lcs = [\<lparr>lc_parent = None, lc_cancelled = True, lc_isShutDown = True, lc_wg = 0, lc_children = [1, 2]\<rparr>,
                \<lparr>lc_parent = Some 0, lc_cancelled = True, lc_isShutDown = True, lc_wg = 0, lc_children = []\<rparr>,
                \<lparr>lc_parent = Some 0, lc_cancelled = True, lc_isShutDown = True, lc_wg = 1, lc_children = []\<rparr>],
      lw_calls = [\<lparr>sc_lc = 0, sc_begun = True, sc_subs = [1, 2], sc_waited = True, sc_ret = Some True\<rparr>,
                  \<lparr>sc_lc = 1, sc_begun = True, sc_subs = [], sc_waited = True, sc_ret = Some True\<rparr>,
                  \<lparr>sc_lc = 2, sc_begun = True, sc_subs = [], sc_waited = True, sc_ret = Some True\<rparr>],
      lw_adding = [], lw_deriving = [], lw_panicked = False, lw_lateRoutines = [2], lw_lateChildren = []\<rparr>"

lemma shutdown_script_runs: "lc_run shutdown_script initial_world = Some shutdown_script_end"
  by code_simp

theorem shutdown_leaves_nothing_running_witness:
  "lc_reachable shutdown_script_end \<and> sc_ret (lw_calls shutdown_script_end ! 0) = Some True
   \<and> lc_isShutDown (lw_lcs shutdown_script_end ! 1) \<and> lc_wg (lw_lcs shutdown_script_end ! 1) = 0
   \<and> lc_isShutDown (lw_lcs shutdown_script_end ! 2) \<and> lc_wg (lw_lcs shutdown_script_end ! 2) = 1"
proof -
  have r: "lc_reachable shutdown_script_end" by (rule lc_run_reachable [OF shutdown_script_runs])
  moreover have "sc_ret (lw_calls shutdown_script_end ! 0) = Some True" by (simp add: shutdown_script_end_def)
  moreover have "(0, 1) \<in> (lc_below shutdown_script_end)\<^sup>*" "(0, 2) \<in> (lc_below shutdown_script_end)\<^sup>*"
    by (rule r_into_rtrancl, simp add: lc_below_def shutdown_script_end_def)+
  ultimately show ?thesis
    using shutdown_leaves_nothing_running [OF r, of 0 1] shutdown_leaves_nothing_running [OF r, of 0 2]
    by (simp add: shutdown_script_end_def)
qed

text \<open>
  The exceptions occur: a routine or a child may be added between the check of the flag and the addition, after
  the shutdown has returned nil.
\<close>

theorem late_routine_survives_shutdown:
  "\<exists>w. lc_reachable w \<and> sc_ret (lw_calls w ! 0) = Some True \<and> sc_lc (lw_calls w ! 0) = 0 \<and> 0 < lc_wg (lw_lcs w ! 0)"
proof -
  have "\<exists>w. lc_run [OpAddCheck 0, OpCall 0, OpBegin 0, OpWaited 0, OpComplete 0, OpAdd 0] initial_world = Some w
      \<and> sc_ret (lw_calls w ! 0) = Some True \<and> sc_lc (lw_calls w ! 0) = 0 \<and> 0 < lc_wg (lw_lcs w ! 0)"
    by (simp add: lc_ops Let_def)
  then show ?thesis using lc_run_reachable by blast
qed

theorem late_child_survives_shutdown:
  "\<exists>w. lc_reachable w \<and> sc_ret (lw_calls w ! 0) = Some True \<and> sc_lc (lw_calls w ! 0) = 0
     \<and> lc_children (lw_lcs w ! 0) = [1] \<and> \<not> lc_isShutDown (lw_lcs w ! 1)"
proof -
  have "\<exists>w. lc_run [OpDeriveCheck 0, OpCall 0, OpBegin 0, OpWaited 0, OpComplete 0, OpDerive 0] initial_world = Some w
      \<and> sc_ret (lw_calls w ! 0) = Some True \<and> sc_lc (lw_calls w ! 0) = 0
      \<and> lc_children (lw_lcs w ! 0) = [1] \<and> \<not> lc_isShutDown (lw_lcs w ! 1)"
    by (simp add: lc_ops Let_def)
  then show ?thesis using lc_run_reachable by blast
qed

end
