(* ===== verification/Routines.thy ===== *)
theory Routines
  imports Prelude "HOL-Library.Multiset"
begin

text \<open>
  Goroutines that share a state: a routine is done, never returns, or acts once on the state (a statement
  of the database, a read or a write of a shared variable) and goes on. Routines run in any
  interleaving of their acts. Such a run always comes to rest, and what it adds to a table is the sum of what each
  routine adds, when no other routine can change that.
\<close>

datatype 's routine = Done | Stuck | Act "'s \<Rightarrow> 's routine \<times> 's"

definition act :: "('s \<Rightarrow> 'a \<times> 's) \<Rightarrow> ('a \<Rightarrow> 's routine) \<Rightarrow> 's routine" where
  "act f k = Act (\<lambda>s. case f s of (a, s') \<Rightarrow> (k a, s'))"

primrec act_each :: "('a \<Rightarrow> 's routine \<Rightarrow> 's routine) \<Rightarrow> 'a list \<Rightarrow> 's routine \<Rightarrow> 's routine" where
  "act_each f [] k = k"
| "act_each f (x # xs) k = f x (act_each f xs k)"

inductive r_step :: "'s routine list \<times> 's \<Rightarrow> 's routine list \<times> 's \<Rightarrow> bool" where
  RStep: "i < length rs \<Longrightarrow> rs ! i = Act f \<Longrightarrow> f s = (r, s') \<Longrightarrow> r_step (rs, s) (rs[i := r], s')"

inductive_cases r_stepE: "r_step c c'"

text \<open>A schedule, computed: the routines to act next, in order.\<close>

definition r_pick :: "nat \<Rightarrow> 's routine list \<times> 's \<Rightarrow> 's routine list \<times> 's" where
  "r_pick i c = (case c of (rs, s) \<Rightarrow>
     if i < length rs then case rs ! i of Act f \<Rightarrow> (rs[i := fst (f s)], snd (f s)) | _ \<Rightarrow> c else c)"

fun is_done :: "'s routine \<Rightarrow> bool" where
  "is_done Done = True"
| "is_done _ = False"

lemma is_done_iff: "is_done r \<longleftrightarrow> r = Done"
  by (cases r) simp_all

lemma r_pick_step: "r_pick i c = c \<or> r_step c (r_pick i c)"
proof -
  obtain rs s where c: "c = (rs, s)" by (cases c)
  show ?thesis
  proof (cases "\<exists>f. i < length rs \<and> rs ! i = Act f")
    case True
    then obtain f where f: "i < length rs" "rs ! i = Act f" by blast
    then have "r_step (rs, s) (rs[i := fst (f s)], snd (f s))" by (intro RStep) simp_all
    with f show ?thesis by (simp add: r_pick_def c)
  qed (auto simp: r_pick_def c split: routine.splits)
qed

section \<open>Runs come to rest\<close>

definition r_sub :: "('s routine \<times> 's routine) set" where
  "r_sub = {(fst (f s), Act f) | f s. True}"

lemma wf_r_sub: "wf (r_sub :: ('s routine \<times> 's routine) set)"
proof (rule wfUNIVI)
  fix P :: "'s routine \<Rightarrow> bool" and x
  assume ih: "\<forall>x. (\<forall>y. (y, x) \<in> r_sub \<longrightarrow> P y) \<longrightarrow> P x"
  show "P x"
  proof (induction x)
    case (Act f)
    have "P (fst (f s))" for s by (rule Act) (auto simp: prod_set_simps intro: fsts.intros rangeI)
    then have "\<forall>y. (y, Act f) \<in> r_sub \<longrightarrow> P y" by (auto simp: r_sub_def)
    with ih show ?case by blast
  qed (use ih in \<open>auto simp: r_sub_def\<close>)
qed

lemma mset_update_mult:
  assumes "i < length rs" and "(r, rs ! i) \<in> R"
  shows "(mset (rs[i := r]), mset rs) \<in> mult R"
proof -
  have old: "mset rs = (mset rs - {#rs ! i#}) + {#rs ! i#}" using assms(1) by simp
  have new: "mset (rs[i := r]) = (mset rs - {#rs ! i#}) + {#r#}" using assms(1) by (simp add: mset_update)
  from assms(2) show ?thesis by (subst old, subst new, intro one_step_implies_mult) auto
qed

theorem routines_come_to_rest: "wfP (\<lambda>c' c. r_step c (c' :: 's routine list \<times> 's))"
proof -
  have "{(c', c :: 's routine list \<times> 's). r_step c c'} \<subseteq> inv_image (mult r_sub) (\<lambda>(rs, s). mset rs)"
  proof safe
    fix rs rs' and s s' :: 's
    assume "r_step (rs, s) (rs', s')"
    then obtain i f r where i: "i < length rs" "rs ! i = Act f" "f s = (r, s')" and rs': "rs' = rs[i := r]"
      by (auto elim!: r_stepE)
    from i(2,3) have "(r, rs ! i) \<in> r_sub" unfolding r_sub_def by (metis (mono_tags, lifting) fst_conv mem_Collect_eq)
    with i(1) rs' show "((rs', s'), (rs, s)) \<in> inv_image (mult r_sub) (\<lambda>(rs, s). mset rs)" by (simp add: mset_update_mult)
  qed
  then show ?thesis unfolding wfp_def by (rule wf_subset [OF wf_inv_image [OF wf_mult [OF wf_r_sub]]])
qed

lemma routines_rest: "(\<nexists>c. r_step (rs, s) c) \<longleftrightarrow> (\<forall>r \<in> set rs. r = Done \<or> r = Stuck)"
proof
  assume rest: "\<nexists>c. r_step (rs, s) c"
  show "\<forall>r \<in> set rs. r = Done \<or> r = Stuck"
  proof
    fix r
    assume "r \<in> set rs"
    then obtain i where "i < length rs" "rs ! i = r" by (auto simp: in_set_conv_nth)
    with RStep [of i rs _ s, OF _ _ surjective_pairing] rest show "r = Done \<or> r = Stuck" by (cases r) blast+
  qed
next
  assume fin: "\<forall>r \<in> set rs. r = Done \<or> r = Stuck"
  have "rs ! i \<noteq> Act f" if "i < length rs" for i f using fin nth_mem [OF that] by auto
  then show "\<nexists>c. r_step (rs, s) c" by (auto elim!: r_stepE)
qed

section \<open>What a run keeps\<close>

inductive r_keeps :: "('s \<Rightarrow> bool) \<Rightarrow> 's routine \<Rightarrow> bool" for P where
  KeepsDone: "r_keeps P Done"
| KeepsStuck: "r_keeps P Stuck"
| KeepsAct: "(\<And>s. P s \<Longrightarrow> P (snd (f s)) \<and> r_keeps P (fst (f s))) \<Longrightarrow> r_keeps P (Act f)"

inductive_simps r_keeps_Act: "r_keeps P (Act f)"

lemma r_keeps_act: "(\<And>s. P s \<Longrightarrow> P (snd (f s)) \<and> r_keeps P (k (fst (f s)))) \<Longrightarrow> r_keeps P (act f k)"
  unfolding act_def by (rule KeepsAct) (simp add: case_prod_unfold)

lemma r_keeps_each: "(\<And>x k. x \<in> set xs \<Longrightarrow> r_keeps P k \<Longrightarrow> r_keeps P (f x k)) \<Longrightarrow> r_keeps P k \<Longrightarrow> r_keeps P (act_each f xs k)"
  by (induction xs) simp_all

lemma r_keeps_const: "r_keeps (\<lambda>_. c) r"
proof (induction r)
  case (Act f)
  have "r_keeps (\<lambda>_. c) (fst (f s))" for s by (rule Act) (auto simp: prod_set_simps intro: fsts.intros rangeI)
  then show ?case by (intro KeepsAct conjI)
qed (auto intro: KeepsDone KeepsStuck)

lemma r_keeps_conj: "r_keeps P r \<Longrightarrow> r_keeps Q r \<Longrightarrow> r_keeps (\<lambda>s. P s \<and> Q s) r"
proof (induction rule: r_keeps.induct)
  case (KeepsAct f)
  from KeepsAct.prems have Q: "Q (snd (f s)) \<and> r_keeps Q (fst (f s))" if "Q s" for s using that unfolding r_keeps_Act by blast
  show ?case
  proof (rule r_keeps.KeepsAct)
    fix s
    assume "P s \<and> Q s"
    with KeepsAct.IH [of s] Q [of s] show "(P (snd (f s)) \<and> Q (snd (f s))) \<and> r_keeps (\<lambda>s. P s \<and> Q s) (fst (f s))" by blast
  qed
qed (auto intro: KeepsDone KeepsStuck)

lemma r_step_keeps:
  assumes "r_step (rs, s) (rs', s')" and "\<forall>r \<in> set rs. r_keeps P r" and "P s"
  shows "(\<forall>r \<in> set rs'. r_keeps P r) \<and> P s'"
  using assms(1)
proof (cases rule: r_step.cases)
  case (RStep i f r)
  from assms(2) nth_mem [OF RStep(2)] RStep(3) have "r_keeps P (Act f)" by auto
  then have "P (snd (f s)) \<and> r_keeps P (fst (f s))" using assms(3) unfolding r_keeps_Act by blast
  with RStep(4) have "P s'" "r_keeps P r" by simp_all
  moreover have "set (rs[i := r]) \<subseteq> insert r (set rs)" by (rule set_update_subset_insert)
  ultimately show ?thesis using assms(2) RStep(1) by blast
qed

lemma r_steps_keep:
  assumes "r_step\<^sup>*\<^sup>* (rs, s) (rs', s')" and "\<forall>r \<in> set rs. r_keeps P r" and "P s"
  shows "(\<forall>r \<in> set rs'. r_keeps P r) \<and> P s'"
  using assms
proof (induction rule: rtranclp_induct2)
  case (step rs1 s1 rs2 s2)
  then show ?case using r_step_keeps [of rs1 s1 rs2 s2 P] by blast
qed simp

section \<open>What a run adds to a table\<close>

text \<open>
  The amount is computed routine by routine, as in rely-guarantee reasoning: every act of every routine moves the
  state along the relation \<open>R\<close>, so that a routine may rely on what \<open>R\<close> has preserved since the state \<open>s0\<close> of its last act.
\<close>

inductive r_adds ::
    "('b \<Rightarrow> 'b \<Rightarrow> 'b) \<Rightarrow> 'b \<Rightarrow> ('s \<Rightarrow> bool) \<Rightarrow> ('s \<Rightarrow> 's \<Rightarrow> bool) \<Rightarrow> ('s \<Rightarrow> 'b) \<Rightarrow> 's \<Rightarrow> 's routine \<Rightarrow> 'b \<Rightarrow> bool"
  for join none P R t where
  AddsDone: "r_adds join none P R t s0 Done none"
| AddsStuck: "r_adds join none P R t s0 Stuck c"
| AddsAct: "(\<And>s. P s \<Longrightarrow> R s0 s \<Longrightarrow> \<exists>d c'. R s (snd (f s)) \<and> t (snd (f s)) = join (t s) d \<and> c = join d c'
      \<and> r_adds join none P R t (snd (f s)) (fst (f s)) c')
    \<Longrightarrow> r_adds join none P R t s0 (Act f) c"

inductive_simps r_adds_Act: "r_adds join none P R t s0 (Act f) c"

lemma r_adds_act:
  "(\<And>s. P s \<Longrightarrow> R s0 s \<Longrightarrow> \<exists>d c'. R s (snd (f s)) \<and> t (snd (f s)) = join (t s) d \<and> c = join d c'
      \<and> r_adds join none P R t (snd (f s)) (k (fst (f s))) c')
   \<Longrightarrow> r_adds join none P R t s0 (act f k) c"
  unfolding act_def by (rule AddsAct) (simp add: case_prod_unfold)

text \<open>What is known of an earlier state is known of a later one.\<close>

lemma r_adds_later: "r_adds join none P R t s0 r c \<Longrightarrow> transp R \<Longrightarrow> R s0 s1 \<Longrightarrow> r_adds join none P R t s1 r c"
proof (induction rule: r_adds.induct)
  case (AddsAct s0 f c)
  have "R s0 s" if "R s1 s" for s using AddsAct.prems that by (blast dest: transpD)
  with AddsAct.IH show ?case by (intro r_adds.AddsAct) blast
qed (auto intro: r_adds.intros)

text \<open>The contract of a table: rows are added in an order that does not matter.\<close>

locale shared_table =
  fixes join :: "'b \<Rightarrow> 'b \<Rightarrow> 'b" and none :: 'b
  assumes plus_assoc: "join (join a b) c = join a (join b c)"
    and plus_commute: "join a b = join b a"
    and plus_zero: "join a none = a"
begin

lemma plus_left_commute: "join a (join b c) = join b (join a c)"
  by (metis plus_assoc plus_commute)

definition total :: "'b list \<Rightarrow> 'b" where
  "total cs = foldr join cs none"

lemma total_append: "total (xs @ ys) = join (total xs) (total ys)"
  by (induction xs) (simp_all add: total_def plus_assoc plus_commute [of none] plus_zero)

lemma total_update: "i < length cs \<Longrightarrow> cs ! i = join d c \<Longrightarrow> total cs = join d (total (cs[i := c]))"
proof (induction cs arbitrary: i)
  case (Cons x xs)
  then show ?case by (cases i) (simp_all add: total_def plus_assoc plus_left_commute)
qed simp

lemma r_step_adds:
  assumes step: "r_step (rs, s) (rs', s')" and "P s" and R: "reflp R" "transp R"
    and all: "list_all2 (\<lambda>r c. \<exists>s0. R s0 s \<and> r_adds join none P R t s0 r c) rs cs"
  shows "\<exists>cs'. list_all2 (\<lambda>r c. \<exists>s0. R s0 s' \<and> r_adds join none P R t s0 r c) rs' cs' \<and> join (t s) (total cs) = join (t s') (total cs')"
  using step
proof (cases rule: r_step.cases)
  case (RStep i f r)
  from all RStep(2) have len: "i < length cs" by (simp add: list_all2_lengthD [symmetric])
  with list_all2_nthD [OF all RStep(2)] RStep(3)
  obtain s0 where i: "i < length cs" "R s0 s" "r_adds join none P R t s0 (Act f) (cs ! i)" by auto
  then have "\<exists>d c'. R s (snd (f s)) \<and> t (snd (f s)) = join (t s) d \<and> cs ! i = join d c' \<and> r_adds join none P R t (snd (f s)) (fst (f s)) c'"
    using \<open>P s\<close> unfolding r_adds_Act by blast
  then obtain d c' where d: "R s s'" "t s' = join (t s) d" "cs ! i = join d c'" "r_adds join none P R t s' r c'"
    using RStep(4) by auto
  have "list_all2 (\<lambda>r c. \<exists>s0. R s0 s' \<and> r_adds join none P R t s0 r c) rs cs"
    using all by (rule list_all2_mono) (use d(1) R(2) in \<open>blast dest: transpD\<close>)
  then have "list_all2 (\<lambda>r c. \<exists>s0. R s0 s' \<and> r_adds join none P R t s0 r c) rs' (cs[i := c'])"
    unfolding RStep(1) using d(4) reflpD [OF R(1)] by (blast intro: list_all2_update_cong)
  moreover have "join (t s) (total cs) = join (t s') (total (cs[i := c']))"
    using total_update [OF i(1) d(3)] d(2) by (simp add: plus_assoc)
  ultimately show ?thesis by blast
qed

text \<open>Whatever the interleaving, a run that finishes has added the sum of its routines' rows.\<close>

lemma run_adds:
  assumes "r_step\<^sup>*\<^sup>* (rs, s) (rs', s')" and "P s" and "\<forall>r \<in> set rs. r_keeps P r" and R: "reflp R" "transp R"
    and "list_all2 (r_adds join none P R t s) rs cs" and "\<forall>r \<in> set rs'. r = Done"
  shows "t s' = join (t s) (total cs)"
proof -
  let ?adds = "\<lambda>s r c. \<exists>s0. R s0 s \<and> r_adds join none P R t s0 r c"
  have "list_all2 (?adds s) rs cs" using assms(6) by (rule list_all2_mono) (use reflpD [OF R(1)] in blast)
  with assms(1-3) have "P s' \<and> (\<forall>r \<in> set rs'. r_keeps P r)
      \<and> (\<exists>cs'. list_all2 (?adds s') rs' cs' \<and> join (t s) (total cs) = join (t s') (total cs'))"
  proof (induction rule: rtranclp_induct2)
    case (step rs1 s1 rs2 s2)
    from step.IH [OF step.prems] obtain cs1 where ok: "P s1" "\<forall>r \<in> set rs1. r_keeps P r"
      and cs1: "list_all2 (?adds s1) rs1 cs1" "join (t s) (total cs) = join (t s1) (total cs1)" by blast
    from r_step_adds [OF step.hyps(2) ok(1) R cs1(1)] cs1(2)
    have "\<exists>cs'. list_all2 (?adds s2) rs2 cs' \<and> join (t s) (total cs) = join (t s2) (total cs')" by simp
    with r_step_keeps [OF step.hyps(2) ok(2,1)] show ?case by blast
  qed auto
  then obtain cs' where cs': "list_all2 (?adds s') rs' cs'" "join (t s) (total cs) = join (t s') (total cs')" by blast
  from cs'(1) assms(7) have "total cs' = none"
  proof (induction rs' cs' rule: list_all2_induct)
    case (Cons x xs y ys)
    then obtain s0 where "r_adds join none P R t s0 Done y" by auto
    then have "y = none" by (cases rule: r_adds.cases) simp_all
    with Cons show ?case by (simp add: total_def plus_zero)
  qed (simp add: total_def)
  with cs'(2) show ?thesis by (simp add: plus_zero)
qed

end

interpretation rows_added: shared_table "(+) :: 'a multiset \<Rightarrow> 'a multiset \<Rightarrow> 'a multiset" "{#}"
  by unfold_locales (simp_all add: ac_simps)

interpretation keys_added: shared_table "(\<union>) :: 'a set \<Rightarrow> 'a set \<Rightarrow> 'a set" "{}"
  by unfold_locales auto

end
