(* ===== verification/Etl.thy ===== *)
theory Etl
  imports Routines Endpoints Slashing
begin

text \<open>
  The indexer \<^verbatim>\<open>pkg/etl\<close> (\<^verbatim>\<open>indexer.go\<close>, its tables and statements in \<^verbatim>\<open>db\<close>): it asks the core for block after
  block, records the block and then starts one goroutine per transaction, each of which issues its own
  statements. The goroutines assign the error of a statement to one variable they share. Statements are
  the acts of a routine; faults of the database and restarts may come at any moment.
\<close>

section \<open>Tables\<close>

record etl_block_row =
  xb_proposer_address :: string
  xb_block_height :: int64
  xb_block_time :: int

record etl_transaction_row =
  xt_tx_hash :: string
  xt_block_height :: int64
  xt_tx_index :: int
  xt_tx_type :: string
  xt_address :: "string option"
  xt_created_at :: int

record etl_play_row =
  xp_user_id :: string
  xp_track_id :: string
  xp_city :: string
  xp_region :: string
  xp_country :: string
  xp_played_at :: int
  xp_block_height :: int64
  xp_tx_hash :: string
  xp_listened_at :: int
  xp_recorded_at :: int

record etl_address_row =
  xa_address :: string
  xa_first_seen_block_height :: int64
  xa_created_at :: int

record etl_manage_entity_row =
  xm_address :: string
  xm_entity_type :: string
  xm_entity_id :: int64
  xm_action :: string
  xm_metadata :: "string option"
  xm_signature :: string
  xm_signer :: string
  xm_nonce :: string
  xm_block_height :: int64
  xm_tx_hash :: string
  xm_created_at :: int

record etl_registration_row =
  xr_address :: string
  xr_endpoint :: string
  xr_comet_address :: string
  xr_eth_block :: string
  xr_node_type :: string
  xr_spid :: string
  xr_comet_pubkey :: bytes
  xr_voting_power :: int64
  xr_block_height :: int64
  xr_tx_hash :: string

record etl_deregistration_row =
  xd_comet_address :: string
  xd_comet_pubkey :: bytes
  xd_block_height :: int64
  xd_tx_hash :: string

record etl_misbehavior_row =
  xg_comet_address :: string
  xg_pub_key :: bytes
  xg_block_height :: int64
  xg_tx_hash :: string
  xg_created_at :: int

record etl_sla_rollup_row =
  xl_id :: int
  xl_block_start :: int64
  xl_block_end :: int64
  xl_block_height :: int64
  xl_validator_count :: int
  xl_block_quota :: int
  xl_bps :: float64
  xl_tps :: float64
  xl_tx_hash :: string
  xl_created_at :: int

record etl_sla_node_report_row =
  xn_sla_rollup_id :: int
  xn_address :: string
  xn_num_blocks_proposed :: int
  xn_challenges_received :: int
  xn_challenges_failed :: int
  xn_block_height :: int64
  xn_tx_hash :: string
  xn_created_at :: int

datatype etl_proof_status = EtlUnresolved | EtlPass | EtlFail

text \<open>A missing byte string, which is NULL, is the empty one.\<close>

record etl_storage_proof_row =
  xs_height :: int64
  xs_address :: string
  xs_prover_addresses :: "string list"
  xs_cid :: string
  xs_proof_signature :: bytes
  xs_proof :: bytes
  xs_status :: etl_proof_status
  xs_block_height :: int64
  xs_tx_hash :: string
  xs_created_at :: int

record etl_verification_row =
  xv_height :: int64
  xv_proof :: bytes
  xv_block_height :: int64
  xv_tx_hash :: string
  xv_created_at :: int

record etl_validator_row =
  xw_address :: string
  xw_endpoint :: string
  xw_comet_address :: string
  xw_node_type :: string
  xw_spid :: string
  xw_voting_power :: int64
  xw_status :: string
  xw_registered_at :: int64
  xw_deregistered_at :: "int64 option"
  xw_created_at :: int
  xw_updated_at :: int

text \<open>
  Rows in the order of their serial numbers; a statement fails while \<open>etl_fault\<close> holds of its name. The serial numbers of
  rollups matter, because reports refer to them: \<open>etl_rollup_seq\<close> is the next number of their sequence. Serial numbers
  are taken not to run out, and strings to have no zero byte.
\<close>

record etl_db =
  etl_blocks :: "etl_block_row list"
  etl_transactions :: "etl_transaction_row list"
  etl_plays :: "etl_play_row list"
  etl_addresses :: "etl_address_row list"
  etl_manage_entities :: "etl_manage_entity_row list"
  etl_validator_registrations :: "etl_registration_row list"
  etl_validator_deregistrations :: "etl_deregistration_row list"
  etl_misbehavior_deregistrations :: "etl_misbehavior_row list"
  etl_sla_rollups :: "etl_sla_rollup_row list"
  etl_sla_node_reports :: "etl_sla_node_report_row list"
  etl_storage_proofs :: "etl_storage_proof_row list"
  etl_storage_proof_verifications :: "etl_verification_row list"
  etl_validators :: "etl_validator_row list"
  etl_rollup_seq :: int
  etl_fault :: "string \<Rightarrow> bool"

text \<open>What the goroutines share: the database and the variable \<^verbatim>\<open>err\<close>, of which only nil or not matters.\<close>

record etl_state =
  ix_db :: etl_db
  ix_err :: bool
  ix_panicked :: bool

definition empty_etl_db :: etl_db where
  "empty_etl_db = \<lparr>etl_blocks = [], etl_transactions = [], etl_plays = [], etl_addresses = [], etl_manage_entities = [],
     etl_validator_registrations = [], etl_validator_deregistrations = [], etl_misbehavior_deregistrations = [],
     etl_sla_rollups = [], etl_sla_node_reports = [], etl_storage_proofs = [], etl_storage_proof_verifications = [],
     etl_validators = [], etl_rollup_seq = 1, etl_fault = (\<lambda>_. False)\<rparr>"

section \<open>Statements\<close>

definition etl_exec :: "string \<Rightarrow> (etl_db \<Rightarrow> etl_db option) \<Rightarrow> (etl_state, unit) go" where
  "etl_exec name upd s =
     (if etl_fault (ix_db s) name then (Err (DbErr ErrQuery), s)
      else case upd (ix_db s) of
             None \<Rightarrow> (Err (DbErr ErrConstraint), s)
           | Some db \<Rightarrow> (Ok (), s\<lparr>ix_db := db\<rparr>))"

definition etl_query :: "string \<Rightarrow> (etl_db \<Rightarrow> 'a) \<Rightarrow> (etl_state, 'a) go" where
  "etl_query name q s = (if etl_fault (ix_db s) name then Err (DbErr ErrQuery) else Ok (q (ix_db s)), s)"

definition InsertBlock :: "etl_block_row \<Rightarrow> (etl_state, unit) go" where
  "InsertBlock r = etl_exec ''InsertBlock'' (\<lambda>db. Some (db\<lparr>etl_blocks := etl_blocks db @ [r]\<rparr>))"

definition InsertTransaction :: "etl_transaction_row \<Rightarrow> (etl_state, unit) go" where
  "InsertTransaction r = etl_exec ''InsertTransaction''
     (\<lambda>db. map_option (\<lambda>rows. db\<lparr>etl_transactions := rows\<rparr>) (insert_unique xt_tx_hash r (etl_transactions db)))"

definition InsertPlays :: "etl_play_row list \<Rightarrow> (etl_state, unit) go" where
  "InsertPlays rs = etl_exec ''InsertPlays'' (\<lambda>db. Some (db\<lparr>etl_plays := etl_plays db @ rs\<rparr>))"

text \<open>The clause \<^verbatim>\<open>on conflict do nothing\<close> has no effect: the table has no unique column but its serial number.\<close>

definition InsertAddress :: "etl_address_row \<Rightarrow> (etl_state, unit) go" where
  "InsertAddress r = etl_exec ''InsertAddress'' (\<lambda>db. Some (db\<lparr>etl_addresses := etl_addresses db @ [r]\<rparr>))"

definition InsertManageEntity :: "etl_manage_entity_row \<Rightarrow> (etl_state, unit) go" where
  "InsertManageEntity r = etl_exec ''InsertManageEntity''
     (\<lambda>db. Some (db\<lparr>etl_manage_entities := etl_manage_entities db @ [r]\<rparr>))"

definition InsertValidatorRegistration :: "etl_registration_row \<Rightarrow> (etl_state, unit) go" where
  "InsertValidatorRegistration r = etl_exec ''InsertValidatorRegistration''
     (\<lambda>db. if xr_comet_pubkey r = [] then None
           else Some (db\<lparr>etl_validator_registrations := etl_validator_registrations db @ [r]\<rparr>))"

definition InsertValidatorDeregistration :: "etl_deregistration_row \<Rightarrow> (etl_state, unit) go" where
  "InsertValidatorDeregistration r = etl_exec ''InsertValidatorDeregistration''
     (\<lambda>db. if xd_comet_pubkey r = [] then None
           else Some (db\<lparr>etl_validator_deregistrations := etl_validator_deregistrations db @ [r]\<rparr>))"

definition InsertValidatorMisbehaviorDeregistration :: "etl_misbehavior_row \<Rightarrow> (etl_state, unit) go" where
  "InsertValidatorMisbehaviorDeregistration r = etl_exec ''InsertValidatorMisbehaviorDeregistration''
     (\<lambda>db. if xg_pub_key r = [] then None
           else Some (db\<lparr>etl_misbehavior_deregistrations := etl_misbehavior_deregistrations db @ [r]\<rparr>))"

text \<open>\<^verbatim>\<open>returning id\<close>: the row gets the next number of the sequence.\<close>

definition InsertSlaRollupReturningId :: "(int \<Rightarrow> etl_sla_rollup_row) \<Rightarrow> (etl_state, int) go" where
  "InsertSlaRollupReturningId row s =
     (let i = etl_rollup_seq (ix_db s)
      in case etl_exec ''InsertSlaRollupReturningId''
             (\<lambda>db. Some (db\<lparr>etl_sla_rollups := etl_sla_rollups db @ [row i], etl_rollup_seq := i + 1\<rparr>)) s of
           (r, s') \<Rightarrow> (map_result (\<lambda>_. i) r, s'))"

definition InsertSlaNodeReport :: "etl_sla_node_report_row \<Rightarrow> (etl_state, unit) go" where
  "InsertSlaNodeReport r = etl_exec ''InsertSlaNodeReport''
     (\<lambda>db. if xn_sla_rollup_id r \<in> xl_id ` set (etl_sla_rollups db)
           then Some (db\<lparr>etl_sla_node_reports := etl_sla_node_reports db @ [r]\<rparr>) else None)"

definition InsertStorageProof_etl :: "etl_storage_proof_row \<Rightarrow> (etl_state, unit) go" where
  "InsertStorageProof_etl r = etl_exec ''InsertStorageProof''
     (\<lambda>db. if xs_prover_addresses r = [] then None
           else Some (db\<lparr>etl_storage_proofs := etl_storage_proofs db @ [r]\<rparr>))"

definition InsertStorageProofVerification :: "etl_verification_row \<Rightarrow> (etl_state, unit) go" where
  "InsertStorageProofVerification r = etl_exec ''InsertStorageProofVerification''
     (\<lambda>db. if xv_proof r = [] then None
           else Some (db\<lparr>etl_storage_proof_verifications := etl_storage_proof_verifications db @ [r]\<rparr>))"

definition UpdateStorageProofStatus :: "etl_proof_status \<Rightarrow> bytes \<Rightarrow> int64 \<Rightarrow> string \<Rightarrow> (etl_state, unit) go" where
  "UpdateStorageProofStatus status proof height address = etl_exec ''UpdateStorageProofStatus''
     (\<lambda>db. Some (db\<lparr>etl_storage_proofs := map (\<lambda>r. if xs_height r = height \<and> xs_address r = address
        then r\<lparr>xs_status := status, xs_proof := proof\<rparr> else r) (etl_storage_proofs db)\<rparr>))"

definition failed_proof_row :: "int64 \<Rightarrow> string \<Rightarrow> int64 \<Rightarrow> string \<Rightarrow> int \<Rightarrow> etl_storage_proof_row" where
  "failed_proof_row height address blockHeight txHash created =
     \<lparr>xs_height = height, xs_address = address, xs_prover_addresses = [], xs_cid = '''', xs_proof_signature = [],
      xs_proof = [], xs_status = EtlFail, xs_block_height = blockHeight, xs_tx_hash = txHash, xs_created_at = created\<rparr>"

definition InsertFailedStorageProof_etl :: "int64 \<Rightarrow> string \<Rightarrow> int64 \<Rightarrow> string \<Rightarrow> int \<Rightarrow> (etl_state, unit) go" where
  "InsertFailedStorageProof_etl height address blockHeight txHash created = etl_exec ''InsertFailedStorageProof''
     (\<lambda>db. Some (db\<lparr>etl_storage_proofs := etl_storage_proofs db @ [failed_proof_row height address blockHeight txHash created]\<rparr>))"

definition RegisterValidator :: "etl_validator_row \<Rightarrow> (etl_state, unit) go" where
  "RegisterValidator r = etl_exec ''RegisterValidator''
     (\<lambda>db. if xw_endpoint r \<in> xw_endpoint ` set (etl_validators db) then Some db
           else Some (db\<lparr>etl_validators := etl_validators db @ [r]\<rparr>))"

definition DeregisterValidator :: "int64 \<Rightarrow> int \<Rightarrow> string \<Rightarrow> string \<Rightarrow> (etl_state, unit) go" where
  "DeregisterValidator height updated status comet = etl_exec ''DeregisterValidator''
     (\<lambda>db. Some (db\<lparr>etl_validators := map (\<lambda>r. if xw_comet_address r = comet
        then r\<lparr>xw_deregistered_at := Some height, xw_updated_at := updated, xw_status := status\<rparr> else r) (etl_validators db)\<rparr>))"

definition GetLatestIndexedBlock :: "etl_db \<Rightarrow> int64 option" where
  "GetLatestIndexedBlock db = (if etl_blocks db = [] then None else Some (xb_block_height (last (etl_blocks db))))"

definition GetBlockTransactionCount :: "int64 \<Rightarrow> etl_db \<Rightarrow> int64" where
  "GetBlockTransactionCount h db = int (length (filter (\<lambda>r. xt_block_height r = h) (etl_transactions db)))"

definition GetLatestSlaRollup_etl :: "etl_db \<Rightarrow> etl_sla_rollup_row option" where
  "GetLatestSlaRollup_etl db = latest_by (\<lambda>r. (xl_block_height r, xl_id r)) (etl_sla_rollups db)"

definition GetStorageProofsForHeight :: "int64 \<Rightarrow> etl_db \<Rightarrow> etl_storage_proof_row list" where
  "GetStorageProofsForHeight h db = filter (\<lambda>r. xs_height r = h) (etl_storage_proofs db)"

text \<open>The statistics of \<^verbatim>\<open>GetChallengeStatisticsForBlockRange\<close>, as the map of \<^verbatim>\<open>calculateChallengeStatistics\<close>.\<close>

definition calculateChallengeStatistics :: "int64 \<Rightarrow> int64 \<Rightarrow> etl_db \<Rightarrow> string \<Rightarrow> int \<times> int" where
  "calculateChallengeStatistics blockStart blockEnd db address =
     (let rows = filter (\<lambda>r. blockStart \<le> xs_height r \<and> xs_height r \<le> blockEnd \<and> xs_address r = address) (etl_storage_proofs db)
      in (wrap32 (int (length rows)), wrap32 (int (length (filter (\<lambda>r. xs_status r = EtlFail) rows)))))"

section \<open>A transaction\<close>

text \<open>The message \<^verbatim>\<open>Block\<close> of the core; times from its database are microseconds.\<close>

record core_block =
  bk_Height :: int64
  bk_Hash :: string
  bk_ChainId :: string
  bk_Proposer :: string
  bk_Timestamp :: int
  bk_Transactions :: "tx_response list"

text \<open>\<^verbatim>\<open>err = ...\<close> on the shared variable, and reading it back.\<close>

definition assign_err :: "(etl_state, unit) go \<Rightarrow> etl_state routine \<Rightarrow> etl_state routine" where
  "assign_err m k = act (\<lambda>s. case m s of (r, s') \<Rightarrow> ((), s'\<lparr>ix_err := (r \<noteq> Ok ())\<rparr>)) (\<lambda>_. k)"

definition read_err :: "(bool \<Rightarrow> etl_state routine) \<Rightarrow> etl_state routine" where
  "read_err k = act (\<lambda>s. (ix_err s, s)) k"

definition log_only :: "(etl_state, 'a) go \<Rightarrow> etl_state routine \<Rightarrow> etl_state routine" where
  "log_only m k = act m (\<lambda>_. k)"

primrec mark_passed ::
    "int64 \<Rightarrow> bytes \<Rightarrow> etl_storage_proof_row list \<Rightarrow> string set \<Rightarrow> (string set \<Rightarrow> etl_state routine) \<Rightarrow> etl_state routine" where
  "mark_passed height proof [] passed k = k passed"
| "mark_passed height proof (sp # sps) passed k =
     (if xs_address sp \<noteq> '''' \<and> xs_proof_signature sp \<noteq> []
      then act (UpdateStorageProofStatus EtlPass proof height (xs_address sp))
             (\<lambda>r. mark_passed height proof sps (if r = Ok () then insert (xs_address sp) passed else passed) k)
      else mark_passed height proof sps passed k)"

text \<open>The map of votes is walked in an order of Go's choice.\<close>

definition expected_provers :: "(string list \<Rightarrow> string list) \<Rightarrow> etl_storage_proof_row list \<Rightarrow> string set \<Rightarrow> string list" where
  "expected_provers walk proofs passed =
     (let votes = concat (map xs_prover_addresses proofs)
      in filter (\<lambda>a. length proofs div 2 < count_list votes a \<and> a \<notin> passed) (walk (remdups votes)))"

definition processStorageProofConsensus ::
    "(string list \<Rightarrow> string list) \<Rightarrow> int64 \<Rightarrow> bytes \<Rightarrow> int64 \<Rightarrow> string \<Rightarrow> int \<Rightarrow> (unit result \<Rightarrow> etl_state routine) \<Rightarrow> etl_state routine" where
  "processStorageProofConsensus walk height proof blockHeight txHash blockTime k =
     act (etl_query ''GetStorageProofsForHeight'' (GetStorageProofsForHeight height)) (\<lambda>r.
       case r of
         Ok proofs \<Rightarrow>
           if proofs = [] then k (Ok ())
           else mark_passed height proof proofs {} (\<lambda>passed.
             act_each (\<lambda>a. log_only (InsertFailedStorageProof_etl height a blockHeight txHash blockTime))
               (expected_provers walk proofs passed) (k (Ok ())))
       | Err e \<Rightarrow> k (Err e)
       | Panic p \<Rightarrow> k (Panic p))"

primrec count_txs :: "int64 list \<Rightarrow> int64 \<Rightarrow> (int64 \<Rightarrow> etl_state routine) \<Rightarrow> etl_state routine" where
  "count_txs [] n k = k n"
| "count_txs (h # hs) n k = act (etl_query ''GetBlockTransactionCount'' (GetBlockTransactionCount h))
     (\<lambda>r. count_txs hs (case r of Ok c \<Rightarrow> wrap64 (n + c) | _ \<Rightarrow> n) k)"

definition duration_seconds :: "int64 \<Rightarrow> float64" where
  "duration_seconds d = f_add (f_of_int (go_div d (10 ^ 9))) (f_div (f_of_int (go_mod d (10 ^ 9))) (FFin (10 ^ 9)))"

fun f_positive :: "float64 \<Rightarrow> bool" where
  "f_positive (FFin x) = (0 < x)"
| "f_positive (FInf s) = s"
| "f_positive FNaN = False"

definition rollup_rates ::
    "int64 \<Rightarrow> int64 \<Rightarrow> timestamp option \<Rightarrow> etl_sla_rollup_row option \<Rightarrow> float64 \<times> float64" where
  "rollup_rates blockRange txCount rollupTime latest =
     (let duration = (case latest of
            None \<Rightarrow> FFin 0
          | Some l \<Rightarrow> duration_seconds (time_sub (time_ns rollupTime) (xl_created_at l * 1000)));
          duration' = (if f_positive duration then duration else f_mul (f_of_int blockRange) (FFin 2))
      in if f_positive duration' then (f_div (f_of_int blockRange) duration', f_div (f_of_int txCount) duration') else (FFin 0, FFin 0))"

definition block_quota :: "sla_rollup_msg \<Rightarrow> int" where
  "block_quota sr =
     (let validatorCount = wrap32 (int (length (sr_reports sr)))
      in if sr_block_start sr < sr_block_end sr \<and> 0 < validatorCount
         then go_div (wrap32 (wrap64 (sr_block_end sr - sr_block_start sr))) validatorCount else 0)"

definition report_row ::
    "core_block \<Rightarrow> string \<Rightarrow> sla_rollup_msg \<Rightarrow> int \<Rightarrow> (string \<Rightarrow> int \<times> int) \<Rightarrow> sla_node_report_msg \<Rightarrow> etl_sla_node_report_row" where
  "report_row block txHash sr rollupId stats report =
     \<lparr>xn_sla_rollup_id = rollupId, xn_address = snr_address report, xn_num_blocks_proposed = snr_num_blocks_proposed report,
      xn_challenges_received = fst (stats (snr_address report)), xn_challenges_failed = snd (stats (snr_address report)),
      xn_block_height = bk_Height block, xn_tx_hash = txHash, xn_created_at = pg_time (sr_timestamp sr)\<rparr>"

definition insert_reports ::
    "core_block \<Rightarrow> string \<Rightarrow> sla_rollup_msg \<Rightarrow> int \<Rightarrow> (string \<Rightarrow> int \<times> int) \<Rightarrow> etl_state routine \<Rightarrow> etl_state routine" where
  "insert_reports block txHash sr rollupId stats k =
     act_each (\<lambda>report. log_only (InsertSlaNodeReport (report_row block txHash sr rollupId stats report))) (sr_reports sr) k"

definition rollup_row :: "core_block \<Rightarrow> string \<Rightarrow> sla_rollup_msg \<Rightarrow> float64 \<times> float64 \<Rightarrow> int \<Rightarrow> etl_sla_rollup_row" where
  "rollup_row block txHash sr rates i =
     \<lparr>xl_id = i, xl_block_start = sr_block_start sr, xl_block_end = sr_block_end sr, xl_block_height = bk_Height block,
      xl_validator_count = wrap32 (int (length (sr_reports sr))), xl_block_quota = block_quota sr,
      xl_bps = fst rates, xl_tps = snd rates, xl_tx_hash = txHash, xl_created_at = pg_time (sr_timestamp sr)\<rparr>"

definition store_rollup ::
    "core_block \<Rightarrow> string \<Rightarrow> sla_rollup_msg \<Rightarrow> float64 \<times> float64 \<Rightarrow> etl_state routine \<Rightarrow> etl_state routine" where
  "store_rollup block txHash sr rates k =
     act (InsertSlaRollupReturningId (rollup_row block txHash sr rates)) (\<lambda>r.
     case r of
       Ok rollupId \<Rightarrow>
         act (etl_query ''GetChallengeStatisticsForBlockRange''
               (calculateChallengeStatistics (sr_block_start sr) (sr_block_end sr))) (\<lambda>stats.
         insert_reports block txHash sr rollupId (case stats of Ok f \<Rightarrow> f | _ \<Rightarrow> (\<lambda>_. (0, 0))) k)
     | _ \<Rightarrow> k)"

text \<open>The loop over the heights of the rollup does not end when the last is the greatest number of its type.\<close>

definition index_rollup :: "core_block \<Rightarrow> string \<Rightarrow> sla_rollup_msg \<Rightarrow> etl_state routine \<Rightarrow> etl_state routine" where
  "index_rollup block txHash sr k =
     (let blockRange = wrap64 (sr_block_end sr - sr_block_start sr)
      in if 0 < blockRange then
           if sr_block_end sr = 2 ^ 63 - 1 then Stuck
           else count_txs [sr_block_start sr .. sr_block_end sr] 0 (\<lambda>txCount.
             act (etl_query ''GetLatestSlaRollup'' GetLatestSlaRollup_etl) (\<lambda>latest.
             store_rollup block txHash sr
               (rollup_rates blockRange txCount (sr_timestamp sr) (case latest of Ok l \<Rightarrow> l | _ \<Rightarrow> None)) k))
         else store_rollup block txHash sr (FFin 0, FFin 0) k)"

definition play_row :: "core_block \<Rightarrow> string \<Rightarrow> track_play \<Rightarrow> etl_play_row" where
  "play_row block txHash p =
     \<lparr>xp_user_id = tp_user_id p, xp_track_id = tp_track_id p, xp_city = tp_city p, xp_region = tp_region p,
      xp_country = tp_country p, xp_played_at = pg_time (tp_timestamp p), xp_block_height = bk_Height block,
      xp_tx_hash = txHash, xp_listened_at = pg_time (tp_timestamp p), xp_recorded_at = bk_Timestamp block\<rparr>"

definition manage_entity_row :: "core_block \<Rightarrow> string \<Rightarrow> manage_entity_legacy \<Rightarrow> etl_manage_entity_row" where
  "manage_entity_row block txHash me =
     \<lparr>xm_address = me_signer me, xm_entity_type = me_entity_type me, xm_entity_id = me_entity_id me, xm_action = me_action me,
      xm_metadata = (if me_metadata me = '''' then None else Some (me_metadata me)), xm_signature = me_signature me,
      xm_signer = me_signer me, xm_nonce = me_nonce me, xm_block_height = bk_Height block, xm_tx_hash = txHash,
      xm_created_at = bk_Timestamp block\<rparr>"

definition proof_row :: "core_block \<Rightarrow> string \<Rightarrow> storage_proof_msg \<Rightarrow> etl_storage_proof_row" where
  "proof_row block txHash sp =
     \<lparr>xs_height = sp_height sp, xs_address = sp_address sp, xs_prover_addresses = sp_prover_addresses sp, xs_cid = sp_cid sp,
      xs_proof_signature = sp_proof_signature sp, xs_proof = [], xs_status = EtlUnresolved, xs_block_height = bk_Height block,
      xs_tx_hash = txHash, xs_created_at = bk_Timestamp block\<rparr>"

definition registration_row :: "core_block \<Rightarrow> string \<Rightarrow> validator_registration \<Rightarrow> etl_registration_row" where
  "registration_row block txHash vr =
     \<lparr>xr_address = vr_delegate_wallet vr, xr_endpoint = vr_endpoint vr, xr_comet_address = vr_comet_address vr,
      xr_eth_block = format_int (vr_eth_block vr), xr_node_type = vr_node_type vr, xr_spid = vr_sp_id vr,
      xr_comet_pubkey = vr_pub_key vr, xr_voting_power = vr_power vr, xr_block_height = bk_Height block, xr_tx_hash = txHash\<rparr>"

definition active_validator_row :: "core_block \<Rightarrow> validator_registration \<Rightarrow> etl_validator_row" where
  "active_validator_row block vr =
     \<lparr>xw_address = vr_delegate_wallet vr, xw_endpoint = vr_endpoint vr, xw_comet_address = vr_comet_address vr,
      xw_node_type = vr_node_type vr, xw_spid = vr_sp_id vr, xw_voting_power = vr_power vr, xw_status = ''active'',
      xw_registered_at = bk_Height block, xw_deregistered_at = None, xw_created_at = bk_Timestamp block,
      xw_updated_at = bk_Timestamp block\<rparr>"

definition address_row :: "core_block \<Rightarrow> manage_entity_legacy \<Rightarrow> etl_address_row" where
  "address_row block me = \<lparr>xa_address = me_signer me, xa_first_seen_block_height = bk_Height block, xa_created_at = bk_Timestamp block\<rparr>"

definition deregistration_row :: "core_block \<Rightarrow> string \<Rightarrow> validator_deregistration \<Rightarrow> etl_deregistration_row" where
  "deregistration_row block txHash vd = \<lparr>xd_comet_address = vd_comet_address vd, xd_comet_pubkey = vd_pub_key vd,
     xd_block_height = bk_Height block, xd_tx_hash = txHash\<rparr>"

definition misbehavior_row :: "core_block \<Rightarrow> string \<Rightarrow> misbehavior_deregistration \<Rightarrow> etl_misbehavior_row" where
  "misbehavior_row block txHash vd = \<lparr>xg_comet_address = vmd_comet_address vd, xg_pub_key = vmd_pub_key vd, xg_block_height = bk_Height block,
     xg_tx_hash = txHash, xg_created_at = bk_Timestamp block\<rparr>"

definition verification_row :: "core_block \<Rightarrow> string \<Rightarrow> storage_proof_verification_msg \<Rightarrow> etl_verification_row" where
  "verification_row block txHash spv = \<lparr>xv_height = spv_height spv, xv_proof = spv_proof spv, xv_block_height = bk_Height block,
     xv_tx_hash = txHash, xv_created_at = bk_Timestamp block\<rparr>"

definition index_attestation :: "core_block \<Rightarrow> string \<Rightarrow> attestation \<Rightarrow> etl_state routine \<Rightarrow> etl_state routine" where
  "index_attestation block txHash att k =
     (case att_body att of
        Some (AttRegistration vr) \<Rightarrow>
          assign_err (InsertValidatorRegistration (registration_row block txHash vr))
            (assign_err (RegisterValidator (active_validator_row block vr)) k)
      | Some (AttDeregistration vd) \<Rightarrow>
          assign_err (InsertValidatorDeregistration (deregistration_row block txHash vd))
            (assign_err (DeregisterValidator (bk_Height block) (bk_Timestamp block) ''deregistered'' (vd_comet_address vd)) k)
      | None \<Rightarrow> k)"

definition index_body :: "(string list \<Rightarrow> string list) \<Rightarrow> core_block \<Rightarrow> string \<Rightarrow> tx_body \<Rightarrow> etl_state routine \<Rightarrow> etl_state routine" where
  "index_body walk block txHash body k =
     (case body of
        TxPlays plays \<Rightarrow> if plays = [] then k else assign_err (InsertPlays (map (play_row block txHash) plays)) k
      | TxManageEntity me \<Rightarrow>
          log_only (InsertAddress (address_row block me))
            (log_only (InsertManageEntity (manage_entity_row block txHash me)) k)
      | TxMisbehaviorDeregistration vd \<Rightarrow>
          assign_err (InsertValidatorMisbehaviorDeregistration (misbehavior_row block txHash vd)) k
      | TxSlaRollup sr \<Rightarrow> index_rollup block txHash sr k
      | TxStorageProof sp \<Rightarrow> assign_err (InsertStorageProof_etl (proof_row block txHash sp)) k
      | TxStorageProofVerification spv \<Rightarrow>
          assign_err (InsertStorageProofVerification (verification_row block txHash spv))
            (read_err (\<lambda>failed. if failed then k
               else processStorageProofConsensus walk (spv_height spv) (spv_proof spv) (bk_Height block) txHash (bk_Timestamp block)
                      (\<lambda>r. assign_err (go_lift r) k)))
      | TxAttestation att \<Rightarrow> index_attestation block txHash att k
      | _ \<Rightarrow> k)"

text \<open>The type and the address the transaction is filed under.\<close>

definition tx_filing :: "tx_body option \<Rightarrow> string \<times> string option" where
  "tx_filing body =
     (case body of
        Some (TxPlays plays) \<Rightarrow> (''play'', case plays of [] \<Rightarrow> None | p # _ \<Rightarrow> Some (tp_user_id p))
      | Some (TxManageEntity me) \<Rightarrow> (''manage_entity'', Some (me_signer me))
      | Some (TxLegacyRegistration _) \<Rightarrow> (''validator_registration_legacy'', None)
      | Some (TxMisbehaviorDeregistration vd) \<Rightarrow> (''validator_misbehavior_deregistration'', Some (vmd_comet_address vd))
      | Some (TxSlaRollup _) \<Rightarrow> (''sla_rollup'', None)
      | Some (TxStorageProof sp) \<Rightarrow> (''storage_proof'', Some (sp_address sp))
      | Some (TxStorageProofVerification _) \<Rightarrow> (''storage_proof_verification'', None)
      | Some (TxAttestation att) \<Rightarrow>
          (case att_body att of
             Some (AttRegistration vr) \<Rightarrow> (''validator_registration'', Some (vr_delegate_wallet vr))
           | Some (AttDeregistration vd) \<Rightarrow> (''validator_deregistration'', Some (vd_comet_address vd))
           | None \<Rightarrow> ('''', None))
      | _ \<Rightarrow> ('''', None))"

definition filed_row :: "core_block \<Rightarrow> nat \<Rightarrow> tx_response \<Rightarrow> tx_body option \<Rightarrow> etl_transaction_row" where
  "filed_row block index tx body =
     \<lparr>xt_tx_hash = txr_Hash tx, xt_block_height = bk_Height block, xt_tx_index = wrap32 (int index),
      xt_tx_type = fst (tx_filing body), xt_address = snd (tx_filing body), xt_created_at = bk_Timestamp block\<rparr>"

text \<open>The goroutine of one transaction; a response without a transaction is dereferenced.\<close>

definition index_tx :: "(string list \<Rightarrow> string list) \<Rightarrow> core_block \<Rightarrow> nat \<Rightarrow> tx_response \<Rightarrow> etl_state routine" where
  "index_tx walk block index tx =
     (case txr_Transaction tx of
        None \<Rightarrow> act (\<lambda>s. ((), s\<lparr>ix_panicked := True\<rparr>)) (\<lambda>_. Done)
      | Some st \<Rightarrow>
          let k = assign_err (InsertTransaction (filed_row block index tx (st_transaction st))) Done
          in case st_transaction st of
               None \<Rightarrow> k
             | Some body \<Rightarrow> index_body walk block (txr_Hash tx) body k)"

section \<open>The loop\<close>

record etl_world =
  wo_state :: etl_state
  wo_running :: "etl_state routine list"
  wo_block :: "core_block option"
  wo_stopped :: bool

definition next_height :: "int64 \<Rightarrow> etl_db \<Rightarrow> int64" where
  "next_height startingBlockHeight db =
     (case GetLatestIndexedBlock db of
        Some h \<Rightarrow> wrap64 (h + 1)
      | None \<Rightarrow> (if 0 < startingBlockHeight then startingBlockHeight else 1))"

definition block_row_of :: "core_block \<Rightarrow> etl_block_row" where
  "block_row_of b = \<lparr>xb_proposer_address = bk_Proposer b, xb_block_height = bk_Height b, xb_block_time = bk_Timestamp b\<rparr>"

definition index_next :: "(string list \<Rightarrow> string list) \<Rightarrow> int64 \<Rightarrow> (int64 \<Rightarrow> core_block result) \<Rightarrow> etl_world \<Rightarrow> etl_world" where
  "index_next walk startingBlockHeight ask w =
     (let s = wo_state w
      in if etl_fault (ix_db s) ''GetLatestIndexedBlock'' then w
         else case ask (next_height startingBlockHeight (ix_db s)) of
                Ok b \<Rightarrow>
                  if bk_Height b < 0 then w
                  else (case InsertBlock (block_row_of b) s of
                          (Ok _, s') \<Rightarrow>
                            w\<lparr>wo_state := s'\<lparr>ix_err := False\<rparr>, wo_block := Some b,
                              wo_running := map (\<lambda>(i, tx). index_tx walk b i tx) (List.enumerate 0 (bk_Transactions b))\<rparr>
                        | _ \<Rightarrow> w)
              | _ \<Rightarrow> w)"

text \<open>\<^verbatim>\<open>wg.Wait\<close> has returned.\<close>

definition index_finish :: "int64 \<Rightarrow> etl_world \<Rightarrow> etl_world" where
  "index_finish endingBlockHeight w =
     (case wo_block w of
        None \<Rightarrow> w
      | Some b \<Rightarrow> w\<lparr>wo_block := None, wo_running := [],
                    wo_stopped := (0 < endingBlockHeight \<and> endingBlockHeight \<le> bk_Height b)\<rparr>)"

definition restart :: "etl_world \<Rightarrow> etl_world" where
  "restart w = w\<lparr>wo_state := (wo_state w)\<lparr>ix_err := False, ix_panicked := False\<rparr>, wo_running := [], wo_block := None,
     wo_stopped := False\<rparr>"

definition initial_etl :: etl_world where
  "initial_etl = \<lparr>wo_state = \<lparr>ix_db = empty_etl_db, ix_err = False, ix_panicked = False\<rparr>, wo_running = [], wo_block = None,
     wo_stopped = False\<rparr>"

text \<open>An answer of the core: the block of that height, one of height -1 when it is not there yet, or an error.\<close>

definition answers :: "(int64 \<Rightarrow> core_block) \<Rightarrow> (int64 \<Rightarrow> core_block result) \<Rightarrow> bool" where
  "answers chain ask \<longleftrightarrow> (\<forall>h b. ask h = Ok b \<longrightarrow> bk_Height b < 0 \<or> b = chain h)"

text \<open>
  The indexer on a chain; with \<open>rough\<close>, faults of the database come and go, numbers of a sequence are lost with
  them, and the process restarts.
\<close>

inductive ix_step ::
    "bool \<Rightarrow> (string list \<Rightarrow> string list) \<Rightarrow> int64 \<Rightarrow> int64 \<Rightarrow> (int64 \<Rightarrow> core_block) \<Rightarrow> etl_world \<Rightarrow> etl_world \<Rightarrow> bool"
  for rough walk start stop chain where
  IxNext: "wo_block w = None \<Longrightarrow> \<not> wo_stopped w \<Longrightarrow> answers chain ask
    \<Longrightarrow> ix_step rough walk start stop chain w (index_next walk start ask w)"
| IxRun: "\<not> ix_panicked (wo_state w) \<Longrightarrow> r_step (wo_running w, wo_state w) (rs, s)
    \<Longrightarrow> ix_step rough walk start stop chain w (w\<lparr>wo_running := rs, wo_state := s\<rparr>)"
| IxFinish: "\<not> ix_panicked (wo_state w) \<Longrightarrow> wo_block w \<noteq> None \<Longrightarrow> \<forall>r \<in> set (wo_running w). r = Done
    \<Longrightarrow> ix_step rough walk start stop chain w (index_finish stop w)"
| IxRestart: "rough \<Longrightarrow> ix_step rough walk start stop chain w (restart w)"
| IxFault: "rough \<Longrightarrow> ix_step rough walk start stop chain w
    (w\<lparr>wo_state := (wo_state w)\<lparr>ix_db := (ix_db (wo_state w))\<lparr>etl_fault := f\<rparr>\<rparr>\<rparr>)"
| IxSkip: "rough \<Longrightarrow> ix_step rough walk start stop chain w
    (w\<lparr>wo_state := (wo_state w)\<lparr>ix_db := (ix_db (wo_state w))\<lparr>etl_rollup_seq := etl_rollup_seq (ix_db (wo_state w)) + int lost\<rparr>\<rparr>\<rparr>)"

inductive ix_reachable ::
    "bool \<Rightarrow> (string list \<Rightarrow> string list) \<Rightarrow> int64 \<Rightarrow> int64 \<Rightarrow> (int64 \<Rightarrow> core_block) \<Rightarrow> etl_world \<Rightarrow> bool"
  for rough walk start stop chain where
  IxInitial: "ix_reachable rough walk start stop chain initial_etl"
| IxStep: "ix_reachable rough walk start stop chain w \<Longrightarrow> ix_step rough walk start stop chain w w'
    \<Longrightarrow> ix_reachable rough walk start stop chain w'"

section \<open>What the rows of a block are\<close>

definition body_of :: "tx_response \<Rightarrow> tx_body option" where
  "body_of tx = Option.bind (txr_Transaction tx) st_transaction"

definition rows_of_txs :: "(core_block \<Rightarrow> nat \<Rightarrow> tx_response \<Rightarrow> 'r list) \<Rightarrow> core_block \<Rightarrow> 'r list" where
  "rows_of_txs f b = concat (map (\<lambda>(i, tx). f b i tx) (List.enumerate 0 (bk_Transactions b)))"

definition filed_rows :: "core_block \<Rightarrow> etl_transaction_row list" where
  "filed_rows = rows_of_txs (\<lambda>b i tx. case txr_Transaction tx of None \<Rightarrow> [] | Some st \<Rightarrow> [filed_row b i tx (st_transaction st)])"

definition play_rows :: "core_block \<Rightarrow> etl_play_row list" where
  "play_rows = rows_of_txs (\<lambda>b i tx. case body_of tx of Some (TxPlays ps) \<Rightarrow> map (play_row b (txr_Hash tx)) ps | _ \<Rightarrow> [])"

definition managed_rows :: "core_block \<Rightarrow> etl_manage_entity_row list" where
  "managed_rows = rows_of_txs (\<lambda>b i tx. case body_of tx of Some (TxManageEntity me) \<Rightarrow> [manage_entity_row b (txr_Hash tx) me] | _ \<Rightarrow> [])"

definition attested :: "tx_response \<Rightarrow> attestation_body option" where
  "attested tx = (case body_of tx of Some (TxAttestation att) \<Rightarrow> att_body att | _ \<Rightarrow> None)"

definition registration_rows :: "core_block \<Rightarrow> etl_registration_row list" where
  "registration_rows = rows_of_txs (\<lambda>b i tx. case attested tx of
     Some (AttRegistration vr) \<Rightarrow> if vr_pub_key vr = [] then [] else [registration_row b (txr_Hash tx) vr] | _ \<Rightarrow> [])"

definition heights :: "int64 \<Rightarrow> nat \<Rightarrow> int64 list" where
  "heights start n = map (\<lambda>i. (if 0 < start then start else 1) + int i) [0 ..< n]"

section \<open>Soundness\<close>

text \<open>
  The blocks are those of the chain, once each and without a gap; transactions, plays and registrations
  are rows of indexed blocks, a hash is filed once; validators have one row per endpoint, whose status agrees with the
  height of its deregistration; rollups have numbers of their own, and reports belong to a rollup.
\<close>

definition rows_in :: "(int64 \<Rightarrow> core_block) \<Rightarrow> int64 list \<Rightarrow> (core_block \<Rightarrow> 'r list) \<Rightarrow> 'r set" where
  "rows_in chain hs rows = (\<Union>h \<in> set hs. set (rows (chain h)))"

definition validator_ok :: "etl_validator_row \<Rightarrow> bool" where
  "validator_ok r \<longleftrightarrow> xw_status r = (if xw_deregistered_at r = None then ''active'' else ''deregistered'')"

definition etl_sound :: "(int64 \<Rightarrow> core_block) \<Rightarrow> int64 list \<Rightarrow> etl_db \<Rightarrow> bool" where
  "etl_sound chain hs db \<longleftrightarrow>
     etl_blocks db = map (\<lambda>h. block_row_of (chain h)) hs
     \<and> distinct (map xt_tx_hash (etl_transactions db)) \<and> set (etl_transactions db) \<subseteq> rows_in chain hs filed_rows
     \<and> set (etl_plays db) \<subseteq> rows_in chain hs play_rows
     \<and> set (etl_manage_entities db) \<subseteq> rows_in chain hs managed_rows
     \<and> set (etl_validator_registrations db) \<subseteq> rows_in chain hs registration_rows
     \<and> distinct (map xw_endpoint (etl_validators db)) \<and> (\<forall>r \<in> set (etl_validators db). validator_ok r)
     \<and> distinct (map xl_id (etl_sla_rollups db)) \<and> (\<forall>r \<in> set (etl_sla_rollups db). xl_id r < etl_rollup_seq db)
     \<and> (\<forall>r \<in> set (etl_sla_node_reports db). xn_sla_rollup_id r \<in> xl_id ` set (etl_sla_rollups db))"

definition stmt_keeps :: "(etl_db \<Rightarrow> bool) \<Rightarrow> (etl_state, 'a) go \<Rightarrow> bool" where
  "stmt_keeps Q m \<longleftrightarrow> (\<forall>s. Q (ix_db s) \<longrightarrow> Q (ix_db (snd (m s))))"

abbreviation kept :: "(etl_db \<Rightarrow> bool) \<Rightarrow> etl_state routine \<Rightarrow> bool" where
  "kept Q \<equiv> r_keeps (\<lambda>s. Q (ix_db s))"

lemma stmt_keeps_exec: "(\<And>db db'. Q db \<Longrightarrow> upd db = Some db' \<Longrightarrow> Q db') \<Longrightarrow> stmt_keeps Q (etl_exec name upd)"
  by (auto simp: stmt_keeps_def etl_exec_def split: option.splits)

lemma stmt_keeps_query: "stmt_keeps Q (etl_query name q)"
  by (simp add: stmt_keeps_def etl_query_def)

lemma kept_act: "stmt_keeps Q m \<Longrightarrow> (\<And>r. kept Q (k r)) \<Longrightarrow> kept Q (act m k)"
  by (rule r_keeps_act) (simp add: stmt_keeps_def)

lemma kept_assign: "stmt_keeps Q m \<Longrightarrow> kept Q k \<Longrightarrow> kept Q (assign_err m k)"
  unfolding assign_err_def by (rule r_keeps_act) (simp add: stmt_keeps_def case_prod_unfold)

lemma kept_log: "stmt_keeps Q m \<Longrightarrow> kept Q k \<Longrightarrow> kept Q (log_only m k)"
  unfolding log_only_def by (rule kept_act)

lemma kept_read: "(\<And>b. kept Q (k b)) \<Longrightarrow> kept Q (read_err k)"
  unfolding read_err_def by (rule r_keeps_act) simp

lemma stmt_keeps_lift: "stmt_keeps Q (go_lift r)"
  by (simp add: stmt_keeps_def go_lift_def)

lemmas kept_intros = kept_act kept_assign kept_log kept_read stmt_keeps_query stmt_keeps_lift

lemma kept_mark_passed:
  assumes "\<And>a. stmt_keeps Q (UpdateStorageProofStatus EtlPass proof height a)" and "\<And>p. kept Q (k p)"
  shows "kept Q (mark_passed height proof sps passed k)"
  using assms by (induction sps arbitrary: passed) (auto intro!: kept_act)

lemma kept_count: "(\<And>n. kept Q (k n)) \<Longrightarrow> kept Q (count_txs hs n k)"
  by (induction hs arbitrary: n) (auto intro!: kept_intros)

text \<open>Statements on tables that soundness says nothing about.\<close>

lemma etl_sound_other [simp]:
  "etl_sound chain hs (db\<lparr>etl_addresses := a\<rparr>) = etl_sound chain hs db"
  "etl_sound chain hs (db\<lparr>etl_validator_deregistrations := b\<rparr>) = etl_sound chain hs db"
  "etl_sound chain hs (db\<lparr>etl_misbehavior_deregistrations := c\<rparr>) = etl_sound chain hs db"
  "etl_sound chain hs (db\<lparr>etl_storage_proofs := d\<rparr>) = etl_sound chain hs db"
  "etl_sound chain hs (db\<lparr>etl_storage_proof_verifications := e\<rparr>) = etl_sound chain hs db"
  "etl_sound chain hs (db\<lparr>etl_fault := f\<rparr>) = etl_sound chain hs db"
  by (simp_all add: etl_sound_def)

lemma stmts_keep_sound:
  "stmt_keeps (etl_sound chain hs) (InsertAddress ra)"
  "stmt_keeps (etl_sound chain hs) (InsertValidatorDeregistration rd)"
  "stmt_keeps (etl_sound chain hs) (InsertValidatorMisbehaviorDeregistration rm)"
  "stmt_keeps (etl_sound chain hs) (InsertStorageProof_etl rp)"
  "stmt_keeps (etl_sound chain hs) (InsertStorageProofVerification rv)"
  "stmt_keeps (etl_sound chain hs) (UpdateStorageProofStatus st pf ht ad)"
  "stmt_keeps (etl_sound chain hs) (InsertFailedStorageProof_etl ht ad bh tx cr)"
  by (auto simp: InsertAddress_def InsertValidatorDeregistration_def InsertValidatorMisbehaviorDeregistration_def
      InsertStorageProof_etl_def InsertStorageProofVerification_def UpdateStorageProofStatus_def InsertFailedStorageProof_etl_def
      intro!: stmt_keeps_exec split: if_splits)

lemma report_keeps_sound: "stmt_keeps (etl_sound chain hs) (InsertSlaNodeReport rr)"
  unfolding InsertSlaNodeReport_def by (rule stmt_keeps_exec) (auto simp: etl_sound_def split: if_splits)

lemma rollup_keeps_sound: "(\<And>i. xl_id (row i) = i) \<Longrightarrow> stmt_keeps (etl_sound chain hs) (InsertSlaRollupReturningId row)"
  unfolding stmt_keeps_def InsertSlaRollupReturningId_def etl_exec_def
  by (fastforce simp: Let_def etl_sound_def)

lemma rollup_row_id: "xl_id (rollup_row b hash sr rates i) = i"
  by (simp add: rollup_row_def)

lemma etl_sound_skip: "etl_sound chain hs db \<Longrightarrow> etl_sound chain hs (db\<lparr>etl_rollup_seq := etl_rollup_seq db + int lost\<rparr>)"
  by (fastforce simp: etl_sound_def)

lemma etl_sound_validators:
  "etl_sound chain hs db \<Longrightarrow> map xw_endpoint vs = map xw_endpoint (etl_validators db) \<Longrightarrow> (\<And>r. r \<in> set vs \<Longrightarrow> validator_ok r)
   \<Longrightarrow> etl_sound chain hs (db\<lparr>etl_validators := vs\<rparr>)"
  by (simp add: etl_sound_def)

lemma dereg_keeps_sound: "stmt_keeps (etl_sound chain hs) (DeregisterValidator h u ''deregistered'' c)"
  unfolding DeregisterValidator_def
proof (rule stmt_keeps_exec)
  let ?f = "\<lambda>r. if xw_comet_address r = c then r\<lparr>xw_deregistered_at := Some h, xw_updated_at := u, xw_status := ''deregistered''\<rparr> else r"
  fix db db'
  assume db: "etl_sound chain hs db" and db': "Some (db\<lparr>etl_validators := map ?f (etl_validators db)\<rparr>) = Some db'"
  have "etl_sound chain hs (db\<lparr>etl_validators := map ?f (etl_validators db)\<rparr>)"
  proof (rule etl_sound_validators [OF db])
    show "map xw_endpoint (map ?f (etl_validators db)) = map xw_endpoint (etl_validators db)" by simp
    fix r
    assume "r \<in> set (map ?f (etl_validators db))"
    then obtain r0 where r0: "r0 \<in> set (etl_validators db)" "r = ?f r0" by auto
    with db have "validator_ok r0" by (simp add: etl_sound_def)
    with r0(2) show "validator_ok r" by (simp add: validator_ok_def split: if_splits)
  qed
  with db' show "etl_sound chain hs db'" by simp
qed

lemma register_keeps_sound: "validator_ok r \<Longrightarrow> stmt_keeps (etl_sound chain hs) (RegisterValidator r)"
  unfolding RegisterValidator_def by (rule stmt_keeps_exec) (auto simp: etl_sound_def split: if_splits)

lemma filed_keeps_sound: "r \<in> rows_in chain hs filed_rows \<Longrightarrow> stmt_keeps (etl_sound chain hs) (InsertTransaction r)"
  unfolding InsertTransaction_def by (rule stmt_keeps_exec) (auto simp add: etl_sound_def insert_unique_def split: if_splits)

lemma plays_keep_sound: "set ps \<subseteq> rows_in chain hs play_rows \<Longrightarrow> stmt_keeps (etl_sound chain hs) (InsertPlays ps)"
  unfolding InsertPlays_def by (rule stmt_keeps_exec) (clarsimp simp add: etl_sound_def)

lemma entity_keeps_sound: "me \<in> rows_in chain hs managed_rows \<Longrightarrow> stmt_keeps (etl_sound chain hs) (InsertManageEntity me)"
  unfolding InsertManageEntity_def by (rule stmt_keeps_exec) (clarsimp simp add: etl_sound_def)

lemma registration_keeps_sound:
  "(xr_comet_pubkey vr \<noteq> [] \<Longrightarrow> vr \<in> rows_in chain hs registration_rows)
   \<Longrightarrow> stmt_keeps (etl_sound chain hs) (InsertValidatorRegistration vr)"
  unfolding InsertValidatorRegistration_def
  by (rule stmt_keeps_exec) (clarsimp simp add: etl_sound_def split: if_split_asm)

lemma rows_of_txs_in:
  assumes "h \<in> set hs" and "i < length (bk_Transactions (chain h))" and "tx = bk_Transactions (chain h) ! i"
    and "r \<in> set (f (chain h) i tx)"
  shows "r \<in> rows_in chain hs (rows_of_txs f)"
proof -
  from assms(2,3) have "(i, tx) \<in> set (List.enumerate 0 (bk_Transactions (chain h)))"
    by (simp add: in_set_enumerate_eq)
  with assms(1,4) show ?thesis by (fastforce simp: rows_in_def rows_of_txs_def)
qed

lemma index_body_keeps_sound:
  assumes h: "h \<in> set hs" and i: "i < length (bk_Transactions (chain h))" and tx: "tx = bk_Transactions (chain h) ! i"
    and body: "body_of tx = Some body" and k: "kept (etl_sound chain hs) k"
  shows "kept (etl_sound chain hs) (index_body walk (chain h) (txr_Hash tx) body k)"
proof (cases body)
  case (TxPlays ps)
  have "set (map (play_row (chain h) (txr_Hash tx)) ps) \<subseteq> rows_in chain hs play_rows"
    unfolding play_rows_def by (rule subsetI, rule rows_of_txs_in [of h hs i chain tx, OF h i tx]) (simp add: body TxPlays)
  with TxPlays k show ?thesis by (simp add: index_body_def kept_assign plays_keep_sound del: set_map)
next
  case (TxManageEntity me)
  have "manage_entity_row (chain h) (txr_Hash tx) me \<in> rows_in chain hs managed_rows"
    unfolding managed_rows_def by (rule rows_of_txs_in [of h hs i chain tx, OF h i tx]) (simp add: body TxManageEntity)
  with TxManageEntity k show ?thesis by (simp add: index_body_def kept_log entity_keeps_sound stmts_keep_sound)
next
  case (TxAttestation att)
  have "registration_row (chain h) (txr_Hash tx) vr \<in> rows_in chain hs registration_rows"
    if "att_body att = Some (AttRegistration vr)" "vr_pub_key vr \<noteq> []" for vr
    unfolding registration_rows_def by (rule rows_of_txs_in [of h hs i chain tx, OF h i tx]) (simp add: attested_def body TxAttestation that)
  then have "stmt_keeps (etl_sound chain hs) (InsertValidatorRegistration (registration_row (chain h) (txr_Hash tx) vr))"
    if "att_body att = Some (AttRegistration vr)" for vr
    using that by (intro registration_keeps_sound) (simp add: registration_row_def)
  with TxAttestation k show ?thesis
    by (auto simp: index_body_def index_attestation_def kept_assign stmts_keep_sound dereg_keeps_sound register_keeps_sound
        validator_ok_def active_validator_row_def split: option.splits attestation_body.splits)
next
  case (TxSlaRollup sr)
  have store: "kept (etl_sound chain hs) (store_rollup (chain h) (txr_Hash tx) sr rates k)" for rates
    unfolding store_rollup_def insert_reports_def
    by (intro kept_act rollup_keeps_sound rollup_row_id)
      (auto split: result.splits intro!: kept_act stmt_keeps_query r_keeps_each kept_log report_keeps_sound k)
  have "kept (etl_sound chain hs) (index_rollup (chain h) (txr_Hash tx) sr k)"
    unfolding index_rollup_def Let_def by (simp, intro impI conjI kept_count kept_act stmt_keeps_query KeepsStuck store)
  then show ?thesis by (simp add: index_body_def TxSlaRollup)
next
  case (TxStorageProofVerification spv)
  then show ?thesis
    by (auto simp: index_body_def processStorageProofConsensus_def
        intro!: kept_assign stmts_keep_sound kept_read kept_act stmt_keeps_query kept_mark_passed r_keeps_each kept_log
          stmt_keeps_lift k split: result.splits)
qed (simp_all add: index_body_def k kept_assign stmts_keep_sound)

lemma index_tx_keeps_sound:
  assumes h: "h \<in> set hs" and i: "i < length (bk_Transactions (chain h))" and tx: "tx = bk_Transactions (chain h) ! i"
  shows "kept (etl_sound chain hs) (index_tx walk (chain h) i tx)"
proof (cases "txr_Transaction tx")
  case None
  then show ?thesis by (simp add: index_tx_def r_keeps_act KeepsDone)
next
  case (Some st)
  have "filed_row (chain h) i tx (st_transaction st) \<in> rows_in chain hs filed_rows"
    unfolding filed_rows_def by (rule rows_of_txs_in [of h hs i chain tx, OF h i tx]) (simp add: Some)
  then have k: "kept (etl_sound chain hs) (assign_err (InsertTransaction (filed_row (chain h) i tx (st_transaction st))) Done)"
    by (intro kept_assign filed_keeps_sound KeepsDone)
  show ?thesis
  proof (cases "st_transaction st")
    case None
    with Some k show ?thesis by (simp add: index_tx_def)
  next
    case body: (Some body)
    then have "body_of tx = Some body" by (simp add: body_of_def Some)
    from index_body_keeps_sound [OF h i tx this k] show ?thesis by (simp add: index_tx_def Some body)
  qed
qed

definition ix_sound :: "int64 \<Rightarrow> (int64 \<Rightarrow> core_block) \<Rightarrow> nat \<Rightarrow> etl_world \<Rightarrow> bool" where
  "ix_sound start chain n w \<longleftrightarrow>
     (if 0 < start then start else 1) + int n \<le> 2 ^ 63 \<and> etl_sound chain (heights start n) (ix_db (wo_state w))
     \<and> (\<forall>r \<in> set (wo_running w). kept (etl_sound chain (heights start n)) r)"

lemma heights_Suc: "heights start (Suc n) = heights start n @ [(if 0 < start then start else 1) + int n]"
  by (simp add: heights_def)

lemma rows_in_mono: "A \<subseteq> rows_in chain hs rows \<Longrightarrow> A \<subseteq> rows_in chain (hs @ [h]) rows"
  by (auto simp: rows_in_def)

lemma etl_sound_next:
  "etl_sound chain hs db \<Longrightarrow> etl_sound chain (hs @ [h]) (db\<lparr>etl_blocks := etl_blocks db @ [block_row_of (chain h)]\<rparr>)"
  unfolding etl_sound_def by (simp add: rows_in_mono)

lemma next_height_is:
  assumes sound: "etl_sound chain (heights start n) db" and range: "(if 0 < start then start else 1) + int n \<le> 2 ^ 63"
    and chain: "\<And>h. bk_Height (chain h) = h" and pos: "0 \<le> next_height start db"
    and start: "start < 2 ^ 63"
  shows "next_height start db = (if 0 < start then start else 1) + int n \<and> next_height start db < 2 ^ 63"
proof (cases n)
  case 0
  with sound start show ?thesis by (simp add: next_height_def GetLatestIndexedBlock_def etl_sound_def heights_def)
next
  case (Suc m)
  let ?l = "(if 0 < start then start else 1) + int m"
  from sound Suc chain have "next_height start db = wrap64 (?l + 1)"
    by (simp add: next_height_def GetLatestIndexedBlock_def etl_sound_def heights_Suc block_row_of_def)
  moreover have "?l + 1 \<noteq> 2 ^ 63"
  proof
    assume "?l + 1 = 2 ^ 63"
    with calculation pos show False by (simp add: wrap64_def)
  qed
  moreover have "0 \<le> ?l + 1" "?l + 1 \<le> 2 ^ 63" using range Suc by simp_all
  ultimately show ?thesis using Suc by (simp add: wrap64_small)
qed

lemma enumerate_nth: "(i, tx) \<in> set (List.enumerate 0 txs) \<longleftrightarrow> i < length txs \<and> tx = txs ! i"
  by (auto simp: in_set_enumerate_eq)

text \<open>What asking for the next block does when the block comes: it is recorded, and its goroutines start.\<close>

lemma index_next_cases:
  assumes "answers chain ask" and "\<And>h. bk_Height (chain h) = h"
  shows "index_next walk start ask w = w
    \<or> (\<exists>h. h = next_height start (ix_db (wo_state w)) \<and> 0 \<le> h \<and> \<not> etl_fault (ix_db (wo_state w)) ''InsertBlock''
        \<and> index_next walk start ask w = w\<lparr>wo_state := (wo_state w)\<lparr>ix_db := (ix_db (wo_state w))
              \<lparr>etl_blocks := etl_blocks (ix_db (wo_state w)) @ [block_row_of (chain h)]\<rparr>, ix_err := False\<rparr>,
            wo_block := Some (chain h),
            wo_running := map (\<lambda>(i, tx). index_tx walk (chain h) i tx) (List.enumerate 0 (bk_Transactions (chain h)))\<rparr>)"
proof (cases "ask (next_height start (ix_db (wo_state w)))")
  case (Ok b)
  with assms(1) have "0 \<le> bk_Height b \<Longrightarrow> b = chain (next_height start (ix_db (wo_state w)))" by (force simp: answers_def)
  with Ok assms(2) show ?thesis
    by (cases "bk_Height b < 0") (auto simp: index_next_def Let_def InsertBlock_def etl_exec_def)
qed (simp_all add: index_next_def Let_def)

lemma ix_sound_next:
  assumes inv: "ix_sound start chain n w" and ans: "answers chain ask" and chain: "\<And>h. bk_Height (chain h) = h"
    and start: "start < 2 ^ 63"
  shows "\<exists>m. ix_sound start chain m (index_next walk start ask w)"
  using index_next_cases [OF ans chain, of walk start w]
proof
  assume "index_next walk start ask w = w"
  with inv show ?thesis by metis
next
  let ?db = "ix_db (wo_state w)" and ?h = "next_height start (ix_db (wo_state w))"
  assume "\<exists>h. h = ?h \<and> 0 \<le> h \<and> \<not> etl_fault ?db ''InsertBlock'' \<and> index_next walk start ask w =
      w\<lparr>wo_state := (wo_state w)\<lparr>ix_db := ?db\<lparr>etl_blocks := etl_blocks ?db @ [block_row_of (chain h)]\<rparr>, ix_err := False\<rparr>,
        wo_block := Some (chain h),
        wo_running := map (\<lambda>(i, tx). index_tx walk (chain h) i tx) (List.enumerate 0 (bk_Transactions (chain h)))\<rparr>"
  then have pos: "0 \<le> ?h" and w': "index_next walk start ask w =
      w\<lparr>wo_state := (wo_state w)\<lparr>ix_db := ?db\<lparr>etl_blocks := etl_blocks ?db @ [block_row_of (chain ?h)]\<rparr>, ix_err := False\<rparr>,
        wo_block := Some (chain ?h),
        wo_running := map (\<lambda>(i, tx). index_tx walk (chain ?h) i tx) (List.enumerate 0 (bk_Transactions (chain ?h)))\<rparr>" by auto
  from inv have sound: "etl_sound chain (heights start n) ?db" and range: "(if 0 < start then start else 1) + int n \<le> 2 ^ 63"
    by (simp_all add: ix_sound_def)
  from next_height_is [OF sound range chain pos start]
  have h: "?h = (if 0 < start then start else 1) + int n" "?h < 2 ^ 63" by simp_all
  have hs: "heights start (Suc n) = heights start n @ [?h]" by (simp add: heights_Suc h(1))
  have "kept (etl_sound chain (heights start (Suc n))) r" if "r \<in> set (wo_running (index_next walk start ask w))" for r
    using that unfolding w' by (auto simp: enumerate_nth hs intro!: index_tx_keeps_sound)
  moreover have "etl_sound chain (heights start (Suc n)) (ix_db (wo_state (index_next walk start ask w)))"
    using etl_sound_next [OF sound, of ?h] by (simp add: w' hs)
  ultimately have "ix_sound start chain (Suc n) (index_next walk start ask w)" using h by (simp add: ix_sound_def)
  then show ?thesis by blast
qed

lemma ix_sound_run:
  assumes inv: "ix_sound start chain n w" and step: "r_step (wo_running w, wo_state w) (rs, s)"
  shows "ix_sound start chain n (w\<lparr>wo_running := rs, wo_state := s\<rparr>)"
  using r_step_keeps [OF step, of "\<lambda>s. etl_sound chain (heights start n) (ix_db s)"] inv by (simp add: ix_sound_def)

lemma ix_sound_reachable:
  assumes "ix_reachable rough walk start stop chain w" and "\<And>h. bk_Height (chain h) = h" and "start < 2 ^ 63"
  shows "\<exists>n. ix_sound start chain n w"
  using assms(1)
proof (induction rule: ix_reachable.induct)
  case IxInitial
  have "ix_sound start chain 0 initial_etl"
    using assms(3) by (simp add: ix_sound_def initial_etl_def heights_def empty_etl_db_def etl_sound_def)
  then show ?case by blast
next
  case (IxStep w w')
  then obtain n where n: "ix_sound start chain n w" by blast
  from IxStep.hyps(2) show ?case
  proof (cases rule: ix_step.cases)
    case (IxNext ask)
    with ix_sound_next [OF n _ assms(2,3)] show ?thesis by blast
  next
    case (IxRun rs s)
    with ix_sound_run [OF n] show ?thesis by blast
  next
    case IxFinish
    with n show ?thesis by (auto simp: ix_sound_def index_finish_def split: option.splits intro!: exI [of _ n])
  next
    case IxRestart
    with n show ?thesis by (auto simp: ix_sound_def restart_def intro!: exI [of _ n])
  next
    case (IxFault f)
    with n show ?thesis by (auto simp: ix_sound_def intro!: exI [of _ n])
  next
    case (IxSkip lost)
    with n show ?thesis by (auto simp: ix_sound_def intro!: exI [of _ n] etl_sound_skip)
  qed
qed

text \<open>
  (C40) Whatever faults and restarts happen and however the goroutines interleave, the tables are well formed: the
  blocks are those of the chain from the first on, each once and without a gap; every transaction, play, entity
  and registration is a row of an indexed block and a hash is filed once; every endpoint has one
  validator whose status agrees with its deregistration; every report belongs to a rollup.
\<close>

theorem indexed_rows_genuine:
  assumes "ix_reachable rough walk start stop chain w" and "\<And>h. bk_Height (chain h) = h" and "start < 2 ^ 63"
  shows "\<exists>n. etl_sound chain (heights start n) (ix_db (wo_state w))"
  using ix_sound_reachable [OF assms] by (auto simp: ix_sound_def)

section \<open>Completeness\<close>

text \<open>No statement changes which statements fail.\<close>

lemma stmts_keep_fault:
  "stmt_keeps (\<lambda>db. etl_fault db = F) (InsertAddress ra)"
  "stmt_keeps (\<lambda>db. etl_fault db = F) (InsertPlays rl)"
  "stmt_keeps (\<lambda>db. etl_fault db = F) (InsertManageEntity re)"
  "stmt_keeps (\<lambda>db. etl_fault db = F) (InsertTransaction rt)"
  "stmt_keeps (\<lambda>db. etl_fault db = F) (InsertValidatorRegistration rr)"
  "stmt_keeps (\<lambda>db. etl_fault db = F) (InsertValidatorDeregistration rd)"
  "stmt_keeps (\<lambda>db. etl_fault db = F) (InsertValidatorMisbehaviorDeregistration rm)"
  "stmt_keeps (\<lambda>db. etl_fault db = F) (InsertStorageProof_etl rp)"
  "stmt_keeps (\<lambda>db. etl_fault db = F) (InsertStorageProofVerification rv)"
  "stmt_keeps (\<lambda>db. etl_fault db = F) (UpdateStorageProofStatus st pf ht ad)"
  "stmt_keeps (\<lambda>db. etl_fault db = F) (InsertFailedStorageProof_etl ht ad bh tx cr)"
  "stmt_keeps (\<lambda>db. etl_fault db = F) (InsertSlaNodeReport rn)"
  "stmt_keeps (\<lambda>db. etl_fault db = F) (RegisterValidator rw)"
  "stmt_keeps (\<lambda>db. etl_fault db = F) (DeregisterValidator h u s c)"
  unfolding InsertAddress_def InsertPlays_def InsertManageEntity_def InsertTransaction_def InsertValidatorRegistration_def
      InsertValidatorDeregistration_def InsertValidatorMisbehaviorDeregistration_def InsertStorageProof_etl_def
      InsertStorageProofVerification_def UpdateStorageProofStatus_def InsertFailedStorageProof_etl_def InsertSlaNodeReport_def
      RegisterValidator_def DeregisterValidator_def
  by (rule stmt_keeps_exec; auto split: if_splits)+

lemma rollup_keeps_fault: "stmt_keeps (\<lambda>db. etl_fault db = F) (InsertSlaRollupReturningId row)"
  unfolding stmt_keeps_def InsertSlaRollupReturningId_def etl_exec_def by (auto simp: Let_def)

lemma index_body_keeps_fault:
  assumes k: "kept (\<lambda>db. etl_fault db = F) k"
  shows "kept (\<lambda>db. etl_fault db = F) (index_body walk b hash body k)"
proof (cases body)
  case (TxSlaRollup sr)
  have store: "kept (\<lambda>db. etl_fault db = F) (store_rollup b hash sr rates k)" for rates
    unfolding store_rollup_def insert_reports_def
    by (intro kept_act rollup_keeps_fault)
      (auto split: result.splits intro!: kept_act stmt_keeps_query r_keeps_each kept_log stmts_keep_fault k)
  have "kept (\<lambda>db. etl_fault db = F) (index_rollup b hash sr k)"
    unfolding index_rollup_def Let_def by (simp, intro impI conjI kept_count kept_act stmt_keeps_query KeepsStuck store)
  then show ?thesis by (simp add: index_body_def TxSlaRollup)
next
  case (TxStorageProofVerification spv)
  then show ?thesis
    by (auto simp: index_body_def processStorageProofConsensus_def
        intro!: kept_assign stmts_keep_fault kept_read kept_act stmt_keeps_query kept_mark_passed r_keeps_each kept_log
          stmt_keeps_lift k split: result.splits)
qed (auto simp: index_body_def index_attestation_def k
    intro!: kept_assign kept_log stmts_keep_fault split: option.splits attestation_body.splits)

lemma index_tx_keeps_fault: "kept (\<lambda>db. etl_fault db = F) (index_tx walk b i tx)"
  unfolding index_tx_def Let_def
  by (auto intro!: index_body_keeps_fault kept_assign stmts_keep_fault KeepsDone r_keeps_act split: option.splits)

text \<open>The rows the statements of a transaction add when nothing fails; a report with the rollup it belongs to.\<close>

datatype etl_row =
    PlayRows "etl_play_row list"
  | EntityRow etl_manage_entity_row
  | AddressRow etl_address_row
  | RegistrationRow etl_registration_row
  | DeregistrationRow etl_deregistration_row
  | MisbehaviorRow etl_misbehavior_row
  | RollupRow etl_sla_rollup_row
  | ReportRow etl_sla_rollup_row etl_sla_node_report_row
  | ProofRow etl_storage_proof_row
  | VerificationRow etl_verification_row
  | ValidatorRow etl_validator_row
  | FiledRow etl_transaction_row

text \<open>A rollup and a report without what depends on the interleaving: numbers, rates and statistics.\<close>

definition bare_rollup :: "core_block \<Rightarrow> string \<Rightarrow> sla_rollup_msg \<Rightarrow> etl_sla_rollup_row" where
  "bare_rollup b hash sr = rollup_row b hash sr (FFin 0, FFin 0) 0"

definition bare_report :: "core_block \<Rightarrow> string \<Rightarrow> sla_rollup_msg \<Rightarrow> sla_node_report_msg \<Rightarrow> etl_sla_node_report_row" where
  "bare_report b hash sr = report_row b hash sr 0 (\<lambda>_. (0, 0))"

definition body_rows :: "core_block \<Rightarrow> string \<Rightarrow> tx_body \<Rightarrow> etl_row list" where
  "body_rows b hash body =
     (case body of
        TxPlays ps \<Rightarrow> if ps = [] then [] else [PlayRows (map (play_row b hash) ps)]
      | TxManageEntity me \<Rightarrow> [AddressRow (address_row b me), EntityRow (manage_entity_row b hash me)]
      | TxMisbehaviorDeregistration vd \<Rightarrow> if vmd_pub_key vd = [] then [] else [MisbehaviorRow (misbehavior_row b hash vd)]
      | TxSlaRollup sr \<Rightarrow> RollupRow (bare_rollup b hash sr) # map (\<lambda>r. ReportRow (bare_rollup b hash sr) (bare_report b hash sr r)) (sr_reports sr)
      | TxStorageProof sp \<Rightarrow> if sp_prover_addresses sp = [] then [] else [ProofRow (proof_row b hash sp)]
      | TxStorageProofVerification spv \<Rightarrow> if spv_proof spv = [] then [] else [VerificationRow (verification_row b hash spv)]
      | TxAttestation att \<Rightarrow>
          (case att_body att of
             Some (AttRegistration vr) \<Rightarrow>
               (if vr_pub_key vr = [] then [] else [RegistrationRow (registration_row b hash vr)]) @ [ValidatorRow (active_validator_row b vr)]
           | Some (AttDeregistration vd) \<Rightarrow> if vd_pub_key vd = [] then [] else [DeregistrationRow (deregistration_row b hash vd)]
           | None \<Rightarrow> [])
      | _ \<Rightarrow> [])"

definition tx_rows :: "core_block \<Rightarrow> nat \<Rightarrow> tx_response \<Rightarrow> etl_row list" where
  "tx_rows b i tx =
     (case txr_Transaction tx of
        None \<Rightarrow> []
      | Some st \<Rightarrow> (case st_transaction st of None \<Rightarrow> [] | Some body \<Rightarrow> body_rows b (txr_Hash tx) body)
          @ [FiledRow (filed_row b i tx (st_transaction st))])"

text \<open>Rollups are never removed, which the goroutine that inserts the reports of one relies on.\<close>

definition rollups_stay :: "etl_state \<Rightarrow> etl_state \<Rightarrow> bool" where
  "rollups_stay s s' \<longleftrightarrow> set (etl_sla_rollups (ix_db s)) \<subseteq> set (etl_sla_rollups (ix_db s'))"

lemma rollups_stay_refl: "reflp rollups_stay"
  by (simp add: reflp_def rollups_stay_def)

lemma rollups_stay_trans: "transp rollups_stay"
  unfolding transp_def rollups_stay_def by blast

text \<open>The contract of a table: what a row of each kind gives it; the laws say which statements touch it.\<close>

locale etl_table = shared_table join none for join :: "'b \<Rightarrow> 'b \<Rightarrow> 'b" and none +
  fixes T :: "etl_db \<Rightarrow> 'b" and P :: "etl_db \<Rightarrow> bool" and okrow :: "etl_transaction_row \<Rightarrow> bool" and give :: "etl_row \<Rightarrow> 'b"
  assumes calm: "P db \<Longrightarrow> \<not> etl_fault db name"
    and plays: "T (db\<lparr>etl_plays := etl_plays db @ ps\<rparr>) = join (T db) (give (PlayRows ps))"
    and entity: "T (db\<lparr>etl_manage_entities := etl_manage_entities db @ [me]\<rparr>) = join (T db) (give (EntityRow me))"
    and address: "T (db\<lparr>etl_addresses := etl_addresses db @ [a]\<rparr>) = join (T db) (give (AddressRow a))"
    and registration: "T (db\<lparr>etl_validator_registrations := etl_validator_registrations db @ [vr]\<rparr>)
      = join (T db) (give (RegistrationRow vr))"
    and deregistration: "T (db\<lparr>etl_validator_deregistrations := etl_validator_deregistrations db @ [vd]\<rparr>)
      = join (T db) (give (DeregistrationRow vd))"
    and misbehavior: "T (db\<lparr>etl_misbehavior_deregistrations := etl_misbehavior_deregistrations db @ [md]\<rparr>)
      = join (T db) (give (MisbehaviorRow md))"
    and rollup: "P db \<Longrightarrow> xl_id l = etl_rollup_seq db \<Longrightarrow>
      T (db\<lparr>etl_sla_rollups := etl_sla_rollups db @ [l], etl_rollup_seq := n\<rparr>) = join (T db) (give (RollupRow l))"
    and report: "P db \<Longrightarrow> l \<in> set (etl_sla_rollups db) \<Longrightarrow> xn_sla_rollup_id r = xl_id l \<Longrightarrow>
      T (db\<lparr>etl_sla_node_reports := etl_sla_node_reports db @ [r]\<rparr>) = join (T db) (give (ReportRow l r))"
    and storage_proof: "xs_prover_addresses p \<noteq> [] \<Longrightarrow> xs_status p = EtlUnresolved \<Longrightarrow> xs_proof p = [] \<Longrightarrow>
      T (db\<lparr>etl_storage_proofs := etl_storage_proofs db @ [p]\<rparr>) = join (T db) (give (ProofRow p))"
    and failed_proof: "xs_prover_addresses p = [] \<Longrightarrow> T (db\<lparr>etl_storage_proofs := etl_storage_proofs db @ [p]\<rparr>) = T db"
    and proof_status: "T (db\<lparr>etl_storage_proofs := map (\<lambda>r. if Q r then r\<lparr>xs_status := st, xs_proof := pf\<rparr> else r) (etl_storage_proofs db)\<rparr>) = T db"
    and verification: "T (db\<lparr>etl_storage_proof_verifications := etl_storage_proof_verifications db @ [v]\<rparr>)
      = join (T db) (give (VerificationRow v))"
    and validator: "(if xw_endpoint w \<in> xw_endpoint ` set (etl_validators db) then T db else T (db\<lparr>etl_validators := etl_validators db @ [w]\<rparr>))
      = join (T db) (give (ValidatorRow w))"
    and validator_status: "T (db\<lparr>etl_validators := map (\<lambda>r. if C r then r\<lparr>xw_deregistered_at := dh, xw_updated_at := up, xw_status := ws\<rparr> else r)
        (etl_validators db)\<rparr>) = T db"
    and filing: "P db \<Longrightarrow> okrow t \<Longrightarrow> (case insert_unique xt_tx_hash t (etl_transactions db) of
        None \<Rightarrow> T db | Some rows \<Rightarrow> T (db\<lparr>etl_transactions := rows\<rparr>)) = join (T db) (give (FiledRow t))"
    and any_rollup: "give (RollupRow (rollup_row b hash sr rates i)) = give (RollupRow (bare_rollup b hash sr))"
    and any_report: "give (ReportRow (rollup_row b hash sr rates i) (report_row b hash sr i stats rep))
      = give (ReportRow (bare_rollup b hash sr) (bare_report b hash sr rep))"
begin

definition gain :: "etl_row list \<Rightarrow> 'b" where
  "gain rows = total (map give rows)"

lemma gain_append: "gain (rows @ rows') = join (gain rows) (gain rows')"
  by (simp add: gain_def total_append)

lemma gain_Nil: "gain [] = none"
  by (simp add: gain_def total_def)

lemma gain_one: "gain [row] = give row"
  by (simp add: gain_def total_def plus_zero)

abbreviation gains_from :: "etl_state \<Rightarrow> etl_state routine \<Rightarrow> etl_row list \<Rightarrow> bool" where
  "gains_from s0 r rows \<equiv> r_adds join none (\<lambda>s. P (ix_db s)) rollups_stay (\<lambda>s. T (ix_db s)) s0 r (gain rows)"

abbreviation gains :: "etl_state routine \<Rightarrow> etl_row list \<Rightarrow> bool" where
  "gains r rows \<equiv> (\<forall>s0. gains_from s0 r rows)"

definition gives :: "(etl_state \<Rightarrow> 'a \<times> etl_state) \<Rightarrow> etl_row list \<Rightarrow> bool" where
  "gives m rows \<longleftrightarrow> (\<forall>s. P (ix_db s) \<longrightarrow> rollups_stay s (snd (m s)) \<and> T (ix_db (snd (m s))) = join (T (ix_db s)) (gain rows))"

lemma gains_done: "gains Done []"
  by (simp add: gain_Nil AddsDone)

lemma gains_stuck: "gains Stuck rows"
  by (simp add: AddsStuck)

lemma gains_step:
  assumes "\<And>s. P (ix_db s) \<Longrightarrow> rollups_stay s0 s \<Longrightarrow> rollups_stay s (snd (m s)) \<and> T (ix_db (snd (m s))) = join (T (ix_db s)) (gain rows)
    \<and> gains_from (snd (m s)) (k (fst (m s))) rows'"
  shows "gains_from s0 (act m k) (rows @ rows')"
  by (rule r_adds_act, drule (1) assms) (auto simp: gain_append)

lemma gains_act_from:
  assumes m: "gives m []" and k: "\<And>r. gains_from s0 (k r) rows"
  shows "gains_from s0 (act m k) rows"
  using gains_step [of s0 m "[]" k rows] m r_adds_later [OF k rollups_stay_trans] transpD [OF rollups_stay_trans]
  by (simp add: gives_def)

lemma gains_act: "gives m [] \<Longrightarrow> (\<And>r. gains (k r) rows) \<Longrightarrow> gains (act m k) rows"
  by (blast intro: gains_act_from)

lemma gains_act_rows: "gives m rows \<Longrightarrow> (\<And>r. gains (k r) rows') \<Longrightarrow> gains (act m k) (rows @ rows')"
  by (auto simp: gives_def intro!: gains_step)

lemma gains_log: "gives m rows \<Longrightarrow> gains k rows' \<Longrightarrow> gains (log_only m k) (rows @ rows')"
  unfolding log_only_def by (rule gains_act_rows)

lemma gains_assign: "gives m rows \<Longrightarrow> gains k rows' \<Longrightarrow> gains (assign_err m k) (rows @ rows')"
  unfolding assign_err_def by (rule gains_act_rows) (simp_all add: gives_def rollups_stay_def case_prod_unfold)

lemmas gains_assign_none = gains_assign [where rows = "[]", simplified append_Nil]
  and gains_log_none = gains_log [where rows = "[]", simplified append_Nil]

lemma gains_read: "(\<And>b. gains (k b) rows) \<Longrightarrow> gains (read_err k) rows"
  unfolding read_err_def by (rule gains_act) (simp_all add: gives_def gain_Nil plus_zero rollups_stay_def)

lemma gains_each_none:
  "(\<And>x k. x \<in> set xs \<Longrightarrow> gains k rows \<Longrightarrow> gains (f x k) rows) \<Longrightarrow> gains k rows \<Longrightarrow> gains (act_each f xs k) rows"
  by (induction xs) simp_all

lemma gives_none:
  "gives (UpdateStorageProofStatus st pf ht ad) []" "gives (InsertFailedStorageProof_etl ht ad bh tx cr) []"
  "gives (DeregisterValidator hh uu ss cc) []" "gives (etl_query name q) []" "gives (go_lift res) []"
  by (simp_all add: gives_def gain_Nil plus_zero rollups_stay_def UpdateStorageProofStatus_def InsertFailedStorageProof_etl_def
      DeregisterValidator_def etl_exec_def etl_query_def go_lift_def calm proof_status failed_proof failed_proof_row_def validator_status)

lemma gives_row:
  "gives (InsertPlays ps) [PlayRows ps]" "gives (InsertManageEntity me) [EntityRow me]" "gives (InsertAddress a) [AddressRow a]"
  by (simp_all add: gives_def gain_one rollups_stay_def InsertPlays_def InsertManageEntity_def InsertAddress_def etl_exec_def
      calm plays entity address)

lemma gives_row_unless:
  "gives (InsertValidatorRegistration vr) (if xr_comet_pubkey vr = [] then [] else [RegistrationRow vr])"
  "gives (InsertValidatorDeregistration vd) (if xd_comet_pubkey vd = [] then [] else [DeregistrationRow vd])"
  "gives (InsertValidatorMisbehaviorDeregistration md) (if xg_pub_key md = [] then [] else [MisbehaviorRow md])"
  "gives (InsertStorageProofVerification v) (if xv_proof v = [] then [] else [VerificationRow v])"
  by (simp_all add: gives_def gain_one gain_Nil plus_zero rollups_stay_def InsertValidatorRegistration_def InsertValidatorDeregistration_def
      InsertValidatorMisbehaviorDeregistration_def InsertStorageProofVerification_def etl_exec_def calm registration deregistration
      misbehavior verification)

lemma gives_proof: "gives (InsertStorageProof_etl (proof_row b hash sp)) (if sp_prover_addresses sp = [] then [] else [ProofRow (proof_row b hash sp)])"
  by (simp add: gives_def gain_one gain_Nil plus_zero rollups_stay_def InsertStorageProof_etl_def etl_exec_def calm proof_row_def storage_proof)

lemma gives_validator: "gives (RegisterValidator w) [ValidatorRow w]"
  by (simp add: gives_def gain_one rollups_stay_def RegisterValidator_def etl_exec_def calm validator [symmetric])

lemma gives_filing: "okrow r \<Longrightarrow> gives (InsertTransaction r) [FiledRow r]"
  by (auto simp: gives_def gain_one rollups_stay_def InsertTransaction_def etl_exec_def calm filing [symmetric] split: option.splits)

lemma gives_report:
  assumes "P (ix_db s)" and "l \<in> set (etl_sla_rollups (ix_db s))" and "xn_sla_rollup_id r = xl_id l"
  shows "rollups_stay s (snd (InsertSlaNodeReport r s)) \<and> T (ix_db (snd (InsertSlaNodeReport r s))) = join (T (ix_db s)) (gain [ReportRow l r])"
  using assms report [OF assms] by (auto simp: gain_one rollups_stay_def InsertSlaNodeReport_def etl_exec_def calm)

lemma gains_reports:
  assumes "rollup_row b hash sr rates i \<in> set (etl_sla_rollups (ix_db s0))" and k: "gains k rows"
  shows "gains_from s0 (act_each (\<lambda>report. log_only (InsertSlaNodeReport (report_row b hash sr i stats report))) reports k)
    (map (\<lambda>r. ReportRow (bare_rollup b hash sr) (bare_report b hash sr r)) reports @ rows)"
  using assms(1)
proof (induction reports arbitrary: s0)
  case (Cons rep reports)
  let ?l = "rollup_row b hash sr rates i" and ?m = "InsertSlaNodeReport (report_row b hash sr i stats rep)"
  let ?row = "ReportRow (bare_rollup b hash sr) (bare_report b hash sr rep)"
  let ?k = "act_each (\<lambda>report. log_only (InsertSlaNodeReport (report_row b hash sr i stats report))) reports k"
  let ?rows = "map (\<lambda>r. ReportRow (bare_rollup b hash sr) (bare_report b hash sr r)) reports @ rows"
  have "gains_from s0 (act ?m (\<lambda>_. ?k)) ([?row] @ ?rows)"
  proof (rule gains_step)
    fix s
    assume s: "P (ix_db s)" "rollups_stay s0 s"
    then have l: "?l \<in> set (etl_sla_rollups (ix_db s))" using Cons.prems by (auto simp: rollups_stay_def)
    have "xn_sla_rollup_id (report_row b hash sr i stats rep) = xl_id ?l" by (simp add: rollup_row_def report_row_def)
    from gives_report [OF s(1) l this]
    have ins: "rollups_stay s (snd (?m s))" "T (ix_db (snd (?m s))) = join (T (ix_db s)) (gain [?row])"
      by (simp_all add: gain_one any_report)
    with l have "?l \<in> set (etl_sla_rollups (ix_db (snd (?m s))))" by (auto simp: rollups_stay_def)
    with ins Cons.IH show "rollups_stay s (snd (?m s)) \<and> T (ix_db (snd (?m s))) = join (T (ix_db s)) (gain [?row])
        \<and> gains_from (snd (?m s)) ?k ?rows" by blast
  qed
  then show ?case by (simp add: log_only_def [of ?m])
qed (use k in simp)

lemma gains_rollup:
  assumes k: "gains k rows"
  shows "gains (store_rollup b hash sr rates k) (body_rows b hash (TxSlaRollup sr) @ rows)"
proof
  fix s0
  let ?m = "InsertSlaRollupReturningId (rollup_row b hash sr rates)"
  let ?rows = "map (\<lambda>r. ReportRow (bare_rollup b hash sr) (bare_report b hash sr r)) (sr_reports sr) @ rows"
  let ?stats = "etl_query ''GetChallengeStatisticsForBlockRange'' (calculateChallengeStatistics (sr_block_start sr) (sr_block_end sr))"
  have "gains_from s0 (store_rollup b hash sr rates k) ([RollupRow (bare_rollup b hash sr)] @ ?rows)"
    unfolding store_rollup_def
  proof (rule gains_step)
    fix s :: etl_state
    assume s: "P (ix_db s)"
    let ?i = "etl_rollup_seq (ix_db s)"
    have m: "?m s = (Ok ?i, s\<lparr>ix_db := (ix_db s)\<lparr>etl_sla_rollups := etl_sla_rollups (ix_db s) @ [rollup_row b hash sr rates ?i],
        etl_rollup_seq := ?i + 1\<rparr>\<rparr>)"
      using s by (simp add: InsertSlaRollupReturningId_def Let_def etl_exec_def calm)
    have "T (ix_db (snd (?m s))) = join (T (ix_db s)) (gain [RollupRow (bare_rollup b hash sr)])"
      using rollup [OF s, of "rollup_row b hash sr rates ?i"] by (simp add: m gain_one rollup_row_id any_rollup)
    moreover have "gains_from (snd (?m s)) (act ?stats (\<lambda>st. insert_reports b hash sr ?i (case st of Ok f \<Rightarrow> f | _ \<Rightarrow> (\<lambda>_. (0, 0))) k)) ?rows"
      unfolding insert_reports_def by (rule gains_act_from [OF gives_none(4) gains_reports [of b hash sr rates, OF _ k]]) (simp add: m)
    ultimately show "rollups_stay s (snd (?m s)) \<and> T (ix_db (snd (?m s))) = join (T (ix_db s)) (gain [RollupRow (bare_rollup b hash sr)])
        \<and> gains_from (snd (?m s)) (case fst (?m s) of Ok rollupId \<Rightarrow>
            act ?stats (\<lambda>st. insert_reports b hash sr rollupId (case st of Ok f \<Rightarrow> f | _ \<Rightarrow> (\<lambda>_. (0, 0))) k) | _ \<Rightarrow> k) ?rows"
      by (simp add: m rollups_stay_def subset_insertI)
  qed
  then show "gains_from s0 (store_rollup b hash sr rates k) (body_rows b hash (TxSlaRollup sr) @ rows)" by (simp add: body_rows_def)
qed

lemma gains_count: "(\<And>n. gains (k n) rows) \<Longrightarrow> gains (count_txs hs n k) rows"
proof (induction hs arbitrary: n)
  case (Cons h hs)
  show ?case unfolding count_txs.simps by (rule gains_act [OF gives_none(4)]) (rule Cons.IH [OF Cons.prems])
qed simp

lemma gains_mark: "(\<And>p. gains (k p) rows) \<Longrightarrow> gains (mark_passed height proof sps passed k) rows"
proof (induction sps arbitrary: passed)
  case (Cons sp sps)
  then show ?case using gains_act [OF gives_none(1)] by simp
qed simp

lemma gains_consensus:
  assumes k: "gains k rows"
  shows "gains (processStorageProofConsensus walk height proof bh hash bt (\<lambda>r. assign_err (go_lift r) k)) rows"
proof -
  have lift: "gains (assign_err (go_lift r) k) rows" for r by (rule gains_assign_none [OF gives_none(5) k])
  have failed: "gains (act_each (\<lambda>a. log_only (InsertFailedStorageProof_etl height a bh hash bt)) as (assign_err (go_lift r) k)) rows" for as r
    by (rule gains_each_none [OF gains_log_none [OF gives_none(2)] lift])
  show ?thesis
    unfolding processStorageProofConsensus_def
    by (rule gains_act [OF gives_none(4)]) (simp add: lift failed gains_mark split: result.split)
qed

lemma index_body_gains:
  assumes k: "gains k rows"
  shows "gains (index_body walk b hash body k) (body_rows b hash body @ rows)"
proof (cases body)
  case (TxSlaRollup sr)
  have "gains (count_txs hs n (\<lambda>txCount. act (etl_query ''GetLatestSlaRollup'' GetLatestSlaRollup_etl)
      (\<lambda>latest. store_rollup b hash sr (f txCount latest) k))) (body_rows b hash (TxSlaRollup sr) @ rows)" for f hs n
    by (rule gains_count, rule gains_act [OF gives_none(4) gains_rollup [OF k]])
  then show ?thesis
    unfolding TxSlaRollup index_body_def index_rollup_def Let_def
    by (simp add: gains_stuck gains_rollup [OF k])
next
  case (TxStorageProofVerification spv)
  then show ?thesis
    using gains_assign [OF gives_row_unless(4) gains_read, of "\<lambda>failed. if failed then k else
        processStorageProofConsensus walk (spv_height spv) (spv_proof spv) (bk_Height b) hash (bk_Timestamp b) (\<lambda>r. assign_err (go_lift r) k)"
        rows "verification_row b hash spv"] k gains_consensus [OF k]
    by (simp add: index_body_def body_rows_def verification_row_def)
next
  case (TxAttestation att)
  then show ?thesis
    using k gains_assign [OF gives_row_unless(1) gains_assign [OF gives_validator k], of "registration_row b hash _" "active_validator_row b _"]
      gains_assign [OF gives_row_unless(2) gains_assign_none [OF gives_none(3) k], of "deregistration_row b hash _"]
    by (simp add: index_body_def index_attestation_def body_rows_def registration_row_def deregistration_row_def
        split: option.split attestation_body.split)
next
  case (TxPlays ps)
  with k show ?thesis
    using gains_assign [OF gives_row(1) k] by (simp add: index_body_def body_rows_def)
next
  case (TxManageEntity me)
  with gains_log [OF gives_row(3) gains_log [OF gives_row(2) k]] show ?thesis
    by (simp add: index_body_def body_rows_def address_row_def)
next
  case (TxMisbehaviorDeregistration vd)
  with gains_assign [OF gives_row_unless(3) k, of "misbehavior_row b hash vd"] show ?thesis
    by (simp add: index_body_def body_rows_def misbehavior_row_def)
next
  case (TxStorageProof sp)
  with gains_assign [OF gives_proof k] show ?thesis by (simp add: index_body_def body_rows_def)
qed (use k in \<open>simp_all add: index_body_def body_rows_def\<close>)

lemma index_tx_gains:
  assumes "\<And>st. txr_Transaction tx = Some st \<Longrightarrow> okrow (filed_row b i tx (st_transaction st))"
  shows "gains (index_tx walk b i tx) (tx_rows b i tx)"
proof (cases "txr_Transaction tx")
  case None
  have "gains (act (\<lambda>s. ((), s\<lparr>ix_panicked := True\<rparr>)) (\<lambda>_. Done)) []"
    by (rule gains_act) (simp_all add: gives_def gain_Nil plus_zero rollups_stay_def gains_done AddsDone)
  with None show ?thesis by (simp add: index_tx_def tx_rows_def)
next
  case (Some st)
  have k: "gains (assign_err (InsertTransaction (filed_row b i tx (st_transaction st))) Done) [FiledRow (filed_row b i tx (st_transaction st))]"
    using gains_assign [OF gives_filing [OF assms [OF Some]] gains_done] by simp
  show ?thesis
  proof (cases "st_transaction st")
    case None
    with Some k show ?thesis by (simp add: index_tx_def tx_rows_def)
  next
    case body: (Some body)
    with Some index_body_gains [OF k] show ?thesis by (simp add: index_tx_def tx_rows_def)
  qed
qed

text \<open>When the goroutines of a block have finished, the table has gained the rows of its transactions, in whatever order they ran.\<close>

lemma block_gains:
  assumes run: "r_step\<^sup>*\<^sup>* (map (\<lambda>(i, tx). index_tx walk b i tx) (List.enumerate 0 (bk_Transactions b)), s) (rs', s')"
    and s: "P (ix_db s)" and keep: "\<And>i tx. (i, tx) \<in> set (List.enumerate 0 (bk_Transactions b)) \<Longrightarrow> kept P (index_tx walk b i tx)"
    and ok: "\<And>i tx st. (i, tx) \<in> set (List.enumerate 0 (bk_Transactions b)) \<Longrightarrow> txr_Transaction tx = Some st
      \<Longrightarrow> okrow (filed_row b i tx (st_transaction st))"
    and rest: "\<forall>r \<in> set rs'. r = Done"
  shows "T (ix_db s') = join (T (ix_db s)) (gain (rows_of_txs tx_rows b))"
proof -
  let ?txs = "List.enumerate 0 (bk_Transactions b)"
  have adds: "list_all2 (r_adds join none (\<lambda>s. P (ix_db s)) rollups_stay (\<lambda>s. T (ix_db s)) s) (map (\<lambda>(i, tx). index_tx walk b i tx) ?txs)
      (map (\<lambda>(i, tx). gain (tx_rows b i tx)) ?txs)"
    using index_tx_gains ok by (auto simp: list_all2_map1 list_all2_map2 case_prod_unfold intro!: list.rel_refl_strong)
  have keeps: "\<forall>r \<in> set (map (\<lambda>(i, tx). index_tx walk b i tx) ?txs). kept P r" using keep by auto
  have "T (ix_db s') = join (T (ix_db s)) (total (map (\<lambda>(i, tx). gain (tx_rows b i tx)) ?txs))"
    by (rule run_adds [where P = "\<lambda>s. P (ix_db s)", OF run s keeps rollups_stay_refl rollups_stay_trans adds rest])
  moreover have "total (map (\<lambda>(i, tx). gain (tx_rows b i tx)) txs) = gain (concat (map (\<lambda>(i, tx). tx_rows b i tx) txs))" for txs
    by (induction txs) (auto simp: gain_append gain_Nil, simp_all add: total_def)
  ultimately show ?thesis by (simp add: rows_of_txs_def)
qed

end

definition hashes_unique :: "(int64 \<Rightarrow> core_block) \<Rightarrow> bool" where
  "hashes_unique chain \<longleftrightarrow> (\<forall>h h'. \<forall>r \<in> set (filed_rows (chain h)). \<forall>r' \<in> set (filed_rows (chain h')).
     xt_tx_hash r = xt_tx_hash r' \<longrightarrow> r = r')"

definition etl_calm :: "(int64 \<Rightarrow> core_block) \<Rightarrow> int64 list \<Rightarrow> etl_db \<Rightarrow> bool" where
  "etl_calm chain hs db \<longleftrightarrow> etl_sound chain hs db \<and> etl_fault db = (\<lambda>_. False) \<and> hashes_unique chain"

text \<open>What is compared of rollups, of reports with their rollup, and of proofs other than those recorded for a missing prover.\<close>

definition without_rates :: "etl_sla_rollup_row \<Rightarrow> etl_sla_rollup_row" where
  "without_rates l = l\<lparr>xl_id := 0, xl_bps := FFin 0, xl_tps := FFin 0\<rparr>"

definition with_rollup ::
    "etl_sla_rollup_row list \<Rightarrow> etl_sla_node_report_row \<Rightarrow> etl_sla_rollup_row list \<times> etl_sla_node_report_row" where
  "with_rollup ls r = (map without_rates (filter (\<lambda>l. xl_id l = xn_sla_rollup_id r) ls),
     r\<lparr>xn_sla_rollup_id := 0, xn_challenges_received := 0, xn_challenges_failed := 0\<rparr>)"

definition submitted_proofs :: "etl_storage_proof_row list \<Rightarrow> etl_storage_proof_row list" where
  "submitted_proofs ps = map (\<lambda>p. p\<lparr>xs_status := EtlUnresolved, xs_proof := []\<rparr>) (filter (\<lambda>p. xs_prover_addresses p \<noteq> []) ps)"

lemma bare_rows:
  "without_rates (rollup_row b hash sr rates i) = bare_rollup b hash sr" "without_rates (bare_rollup b hash sr) = bare_rollup b hash sr"
  "with_rollup [rollup_row b hash sr rates i] (report_row b hash sr i stats rep) = ([bare_rollup b hash sr], bare_report b hash sr rep)"
  "with_rollup [bare_rollup b hash sr] (bare_report b hash sr rep) = ([bare_rollup b hash sr], bare_report b hash sr rep)"
  by (simp_all add: without_rates_def with_rollup_def rollup_row_def report_row_def bare_rollup_def bare_report_def)

lemma filter_own_rollup: "distinct (map xl_id ls) \<Longrightarrow> l \<in> set ls \<Longrightarrow> filter (\<lambda>l'. xl_id l' = xl_id l) ls = [l]"
proof (induction ls)
  case (Cons x ls)
  show ?case
  proof (cases "l = x")
    case True
    with Cons.prems(1) have "filter (\<lambda>l'. xl_id l' = xl_id l) ls = []" by (simp add: filter_empty_conv image_iff) metis
    with True show ?thesis by simp
  next
    case False
    with Cons.prems have "l \<in> set ls" "xl_id x \<noteq> xl_id l" by force+
    with Cons show ?thesis by simp
  qed
qed simp

lemma with_own_rollup: "distinct (map xl_id ls) \<Longrightarrow> l \<in> set ls \<Longrightarrow> xn_sla_rollup_id r = xl_id l \<Longrightarrow> with_rollup ls r = with_rollup [l] r"
  by (simp add: with_rollup_def filter_own_rollup)

lemma with_later_rollup:
  assumes "etl_calm chain hs db" and "xl_id l = etl_rollup_seq db"
  shows "map (with_rollup (etl_sla_rollups db @ [l])) (etl_sla_node_reports db) = map (with_rollup (etl_sla_rollups db)) (etl_sla_node_reports db)"
proof (rule map_cong [OF refl])
  fix r
  assume "r \<in> set (etl_sla_node_reports db)"
  with assms(1) obtain l' where "l' \<in> set (etl_sla_rollups db)" "xn_sla_rollup_id r = xl_id l'"
    unfolding etl_calm_def etl_sound_def by blast
  with assms have "xl_id l \<noteq> xn_sla_rollup_id r" unfolding etl_calm_def etl_sound_def by fastforce
  then show "with_rollup (etl_sla_rollups db @ [l]) r = with_rollup (etl_sla_rollups db) r" by (simp add: with_rollup_def)
qed

lemma submitted_marked:
  "submitted_proofs (map (\<lambda>r. if Q r then r\<lparr>xs_status := st, xs_proof := pf\<rparr> else r) ps) = submitted_proofs ps"
  by (induction ps) (simp_all add: submitted_proofs_def)

lemma endpoints_marked:
  "xw_endpoint ` set (map (\<lambda>r. if C r then r\<lparr>xw_deregistered_at := d, xw_updated_at := u, xw_status := st\<rparr> else r) vs) = xw_endpoint ` set vs"
  by (induction vs) simp_all

lemma calm_fault: "etl_calm chain hs db \<Longrightarrow> \<not> etl_fault db name"
  by (simp add: etl_calm_def)

interpretation play_table: etl_table "(+)" "{#}" "\<lambda>db. mset (etl_plays db)" "etl_calm chain hs" "\<lambda>_. True"
    "\<lambda>row. case row of PlayRows ps \<Rightarrow> mset ps | _ \<Rightarrow> {#}" for chain hs
  by unfold_locales (auto simp: calm_fault split: option.splits)

interpretation entity_table: etl_table "(+)" "{#}" "\<lambda>db. mset (etl_manage_entities db)" "etl_calm chain hs" "\<lambda>_. True"
    "\<lambda>row. case row of EntityRow r \<Rightarrow> {#r#} | _ \<Rightarrow> {#}" for chain hs
  by unfold_locales (auto simp: calm_fault split: option.splits)

interpretation address_table: etl_table "(+)" "{#}" "\<lambda>db. mset (etl_addresses db)" "etl_calm chain hs" "\<lambda>_. True"
    "\<lambda>row. case row of AddressRow r \<Rightarrow> {#r#} | _ \<Rightarrow> {#}" for chain hs
  by unfold_locales (auto simp: calm_fault split: option.splits)

interpretation registration_table: etl_table "(+)" "{#}" "\<lambda>db. mset (etl_validator_registrations db)" "etl_calm chain hs" "\<lambda>_. True"
    "\<lambda>row. case row of RegistrationRow r \<Rightarrow> {#r#} | _ \<Rightarrow> {#}" for chain hs
  by unfold_locales (auto simp: calm_fault split: option.splits)

interpretation deregistration_table: etl_table "(+)" "{#}" "\<lambda>db. mset (etl_validator_deregistrations db)" "etl_calm chain hs" "\<lambda>_. True"
    "\<lambda>row. case row of DeregistrationRow r \<Rightarrow> {#r#} | _ \<Rightarrow> {#}" for chain hs
  by unfold_locales (auto simp: calm_fault split: option.splits)

interpretation misbehavior_table: etl_table "(+)" "{#}" "\<lambda>db. mset (etl_misbehavior_deregistrations db)" "etl_calm chain hs" "\<lambda>_. True"
    "\<lambda>row. case row of MisbehaviorRow r \<Rightarrow> {#r#} | _ \<Rightarrow> {#}" for chain hs
  by unfold_locales (auto simp: calm_fault split: option.splits)

interpretation verification_table: etl_table "(+)" "{#}" "\<lambda>db. mset (etl_storage_proof_verifications db)" "etl_calm chain hs" "\<lambda>_. True"
    "\<lambda>row. case row of VerificationRow r \<Rightarrow> {#r#} | _ \<Rightarrow> {#}" for chain hs
  by unfold_locales (auto simp: calm_fault split: option.splits)

interpretation rollup_table: etl_table "(+)" "{#}" "\<lambda>db. mset (map without_rates (etl_sla_rollups db))" "etl_calm chain hs" "\<lambda>_. True"
    "\<lambda>row. case row of RollupRow l \<Rightarrow> {#without_rates l#} | _ \<Rightarrow> {#}" for chain hs
  by unfold_locales (auto simp: calm_fault bare_rows split: option.splits)

interpretation report_table: etl_table "(+)" "{#}" "\<lambda>db. mset (map (with_rollup (etl_sla_rollups db)) (etl_sla_node_reports db))"
    "etl_calm chain hs" "\<lambda>_. True" "\<lambda>row. case row of ReportRow l r \<Rightarrow> {#with_rollup [l] r#} | _ \<Rightarrow> {#}" for chain hs
proof unfold_locales
  fix db :: etl_db and l :: etl_sla_rollup_row and n
  assume "etl_calm chain hs db" and "xl_id l = etl_rollup_seq db"
  then show "mset (map (with_rollup (etl_sla_rollups (db\<lparr>etl_sla_rollups := etl_sla_rollups db @ [l], etl_rollup_seq := n\<rparr>)))
        (etl_sla_node_reports (db\<lparr>etl_sla_rollups := etl_sla_rollups db @ [l], etl_rollup_seq := n\<rparr>)))
      = mset (map (with_rollup (etl_sla_rollups db)) (etl_sla_node_reports db))
        + (case RollupRow l of ReportRow l r \<Rightarrow> {#with_rollup [l] r#} | _ \<Rightarrow> {#})"
    by (simp add: with_later_rollup del: mset_map)
next
  fix db :: etl_db and l :: etl_sla_rollup_row and r :: etl_sla_node_report_row
  assume "etl_calm chain hs db" and "l \<in> set (etl_sla_rollups db)" and "xn_sla_rollup_id r = xl_id l"
  then show "mset (map (with_rollup (etl_sla_rollups (db\<lparr>etl_sla_node_reports := etl_sla_node_reports db @ [r]\<rparr>)))
        (etl_sla_node_reports (db\<lparr>etl_sla_node_reports := etl_sla_node_reports db @ [r]\<rparr>)))
      = mset (map (with_rollup (etl_sla_rollups db)) (etl_sla_node_reports db))
        + (case ReportRow l r of ReportRow l r \<Rightarrow> {#with_rollup [l] r#} | _ \<Rightarrow> {#})"
    using with_own_rollup [of "etl_sla_rollups db" l r] by (simp add: etl_calm_def etl_sound_def)
qed (auto simp: calm_fault bare_rows split: option.splits)

interpretation proof_table: etl_table "(+)" "{#}" "\<lambda>db. mset (submitted_proofs (etl_storage_proofs db))" "etl_calm chain hs" "\<lambda>_. True"
    "\<lambda>row. case row of ProofRow p \<Rightarrow> {#p\<lparr>xs_status := EtlUnresolved, xs_proof := []\<rparr>#} | _ \<Rightarrow> {#}" for chain hs
  by unfold_locales (simp_all add: calm_fault submitted_marked del: mset_map, auto simp: submitted_proofs_def split: option.splits)

interpretation validator_table: etl_table "(\<union>)" "{}" "\<lambda>db. xw_endpoint ` set (etl_validators db)" "etl_calm chain hs" "\<lambda>_. True"
    "\<lambda>row. case row of ValidatorRow v \<Rightarrow> {xw_endpoint v} | _ \<Rightarrow> {}" for chain hs
  by unfold_locales (simp_all add: calm_fault endpoints_marked del: set_map, auto split: option.splits)

lemma filed_again:
  assumes "etl_calm chain hs db" and "r \<in> rows_in chain hs filed_rows" and "xt_tx_hash r \<in> xt_tx_hash ` set (etl_transactions db)"
  shows "r \<in> set (etl_transactions db)"
proof -
  from assms(3) obtain r' where r': "r' \<in> set (etl_transactions db)" "xt_tx_hash r' = xt_tx_hash r" by auto
  from r'(1) assms(1) have "r' \<in> rows_in chain hs filed_rows" unfolding etl_calm_def etl_sound_def by blast
  with assms(1,2) r'(2) have "r' = r" unfolding etl_calm_def hashes_unique_def rows_in_def by blast
  with r'(1) show ?thesis by simp
qed

interpretation filing_table: etl_table "(\<union>)" "{}" "\<lambda>db. set (etl_transactions db)" "etl_calm chain hs" "\<lambda>r. r \<in> rows_in chain hs filed_rows"
    "\<lambda>row. case row of FiledRow r \<Rightarrow> {r} | _ \<Rightarrow> {}" for chain hs
  by unfold_locales (auto simp: calm_fault insert_unique_def split: option.splits dest: filed_again)

text \<open>The rows of a block for the other tables.\<close>

definition address_rows :: "core_block \<Rightarrow> etl_address_row list" where
  "address_rows = rows_of_txs (\<lambda>b i tx. case body_of tx of Some (TxManageEntity me) \<Rightarrow> [address_row b me] | _ \<Rightarrow> [])"

definition deregistration_rows :: "core_block \<Rightarrow> etl_deregistration_row list" where
  "deregistration_rows = rows_of_txs (\<lambda>b i tx. case attested tx of
     Some (AttDeregistration vd) \<Rightarrow> if vd_pub_key vd = [] then [] else [deregistration_row b (txr_Hash tx) vd] | _ \<Rightarrow> [])"

definition misbehavior_rows :: "core_block \<Rightarrow> etl_misbehavior_row list" where
  "misbehavior_rows = rows_of_txs (\<lambda>b i tx. case body_of tx of
     Some (TxMisbehaviorDeregistration vd) \<Rightarrow> if vmd_pub_key vd = [] then [] else [misbehavior_row b (txr_Hash tx) vd] | _ \<Rightarrow> [])"

definition verification_rows :: "core_block \<Rightarrow> etl_verification_row list" where
  "verification_rows = rows_of_txs (\<lambda>b i tx. case body_of tx of
     Some (TxStorageProofVerification spv) \<Rightarrow> if spv_proof spv = [] then [] else [verification_row b (txr_Hash tx) spv] | _ \<Rightarrow> [])"

definition proof_rows :: "core_block \<Rightarrow> etl_storage_proof_row list" where
  "proof_rows = rows_of_txs (\<lambda>b i tx. case body_of tx of
     Some (TxStorageProof sp) \<Rightarrow> if sp_prover_addresses sp = [] then [] else [proof_row b (txr_Hash tx) sp] | _ \<Rightarrow> [])"

definition rollup_rows :: "core_block \<Rightarrow> etl_sla_rollup_row list" where
  "rollup_rows = rows_of_txs (\<lambda>b i tx. case body_of tx of Some (TxSlaRollup sr) \<Rightarrow> [bare_rollup b (txr_Hash tx) sr] | _ \<Rightarrow> [])"

definition report_rows :: "core_block \<Rightarrow> (etl_sla_rollup_row list \<times> etl_sla_node_report_row) list" where
  "report_rows = rows_of_txs (\<lambda>b i tx. case body_of tx of
     Some (TxSlaRollup sr) \<Rightarrow> map (\<lambda>rep. ([bare_rollup b (txr_Hash tx) sr], bare_report b (txr_Hash tx) sr rep)) (sr_reports sr) | _ \<Rightarrow> [])"

definition registered_endpoints :: "core_block \<Rightarrow> string list" where
  "registered_endpoints = rows_of_txs (\<lambda>b i tx. case attested tx of Some (AttRegistration vr) \<Rightarrow> [vr_endpoint vr] | _ \<Rightarrow> [])"

definition rows_upto :: "(int64 \<Rightarrow> core_block) \<Rightarrow> int64 list \<Rightarrow> (core_block \<Rightarrow> 'r list) \<Rightarrow> 'r multiset" where
  "rows_upto chain hs rows = mset (concat (map (\<lambda>h. rows (chain h)) hs))"

text \<open>
  The tables hold the rows of the blocks: of transactions one each, of the others with their multiplicity. Rollups are
  compared without their serial number and rates, reports together with the rollup they refer to and without
  statistics, submitted proofs without their status, and of the validators there is one for each endpoint registered.
\<close>

definition etl_complete :: "(int64 \<Rightarrow> core_block) \<Rightarrow> int64 list \<Rightarrow> etl_db \<Rightarrow> bool" where
  "etl_complete chain hs db \<longleftrightarrow>
     set (etl_transactions db) = rows_in chain hs filed_rows
     \<and> mset (etl_plays db) = rows_upto chain hs play_rows
     \<and> mset (etl_manage_entities db) = rows_upto chain hs managed_rows
     \<and> mset (etl_addresses db) = rows_upto chain hs address_rows
     \<and> mset (etl_validator_registrations db) = rows_upto chain hs registration_rows
     \<and> mset (etl_validator_deregistrations db) = rows_upto chain hs deregistration_rows
     \<and> mset (etl_misbehavior_deregistrations db) = rows_upto chain hs misbehavior_rows
     \<and> mset (etl_storage_proof_verifications db) = rows_upto chain hs verification_rows
     \<and> mset (submitted_proofs (etl_storage_proofs db)) = rows_upto chain hs proof_rows
     \<and> mset (map without_rates (etl_sla_rollups db)) = rows_upto chain hs rollup_rows
     \<and> mset (map (with_rollup (etl_sla_rollups db)) (etl_sla_node_reports db)) = rows_upto chain hs report_rows
     \<and> xw_endpoint ` set (etl_validators db) = rows_in chain hs registered_endpoints"

lemma gain_block:
  assumes "g [] = z" and "\<And>xs ys. g (xs @ ys) = j (g xs) (g ys)" and "c [] = z" and "\<And>xs ys. c (xs @ ys) = j (c xs) (c ys)"
    and "\<And>i tx. g (tx_rows b i tx) = c (f b i tx)"
  shows "g (rows_of_txs tx_rows b) = c (rows_of_txs f b)"
proof -
  have "g (concat (map (\<lambda>(i, tx). tx_rows b i tx) txs)) = c (concat (map (\<lambda>(i, tx). f b i tx) txs))" for txs
    by (induction txs) (auto simp: assms)
  then show ?thesis by (simp add: rows_of_txs_def)
qed

lemma total_simps [simp]:
  "rows_added.total [] = {#}" "rows_added.total (x # xs) = x + rows_added.total xs" "rows_added.total (xs @ ys) = rows_added.total xs + rows_added.total ys"
  "rows_added.total (map (\<lambda>_. {#}) us) = {#}" "rows_added.total (map (\<lambda>u. {#f u#}) us) = mset (map f us)"
  "keys_added.total [] = {}" "keys_added.total (k # ks) = k \<union> keys_added.total ks" "keys_added.total (ks @ ks') = keys_added.total ks \<union> keys_added.total ks'"
  "keys_added.total (map (\<lambda>_. {}) us) = {}"
  by (simp_all add: rows_added.total_append keys_added.total_append)
    (induction us; simp add: rows_added.total_def keys_added.total_def)+

lemmas gain_block_mset = gain_block [where c = mset and j = "(+)" and z = "{#}"]
  and gain_block_set = gain_block [where c = set and j = "(\<union>)" and z = "{}"]

lemmas gain_defs = play_table.gain_def entity_table.gain_def address_table.gain_def registration_table.gain_def deregistration_table.gain_def misbehavior_table.gain_def verification_table.gain_def proof_table.gain_def rollup_table.gain_def report_table.gain_def validator_table.gain_def filing_table.gain_def

lemma block_gains_rows:
  "play_table.gain (rows_of_txs tx_rows b) = mset (play_rows b)"
  "entity_table.gain (rows_of_txs tx_rows b) = mset (managed_rows b)"
  "address_table.gain (rows_of_txs tx_rows b) = mset (address_rows b)"
  "registration_table.gain (rows_of_txs tx_rows b) = mset (registration_rows b)"
  "deregistration_table.gain (rows_of_txs tx_rows b) = mset (deregistration_rows b)"
  "misbehavior_table.gain (rows_of_txs tx_rows b) = mset (misbehavior_rows b)"
  "verification_table.gain (rows_of_txs tx_rows b) = mset (verification_rows b)"
  "proof_table.gain (rows_of_txs tx_rows b) = mset (proof_rows b)"
  "rollup_table.gain (rows_of_txs tx_rows b) = mset (rollup_rows b)"
  "report_table.gain (rows_of_txs tx_rows b) = mset (report_rows b)"
  "validator_table.gain (rows_of_txs tx_rows b) = set (registered_endpoints b)"
  "filing_table.gain (rows_of_txs tx_rows b) = set (filed_rows b)"
  unfolding play_rows_def managed_rows_def address_rows_def registration_rows_def deregistration_rows_def misbehavior_rows_def
    verification_rows_def proof_rows_def rollup_rows_def report_rows_def registered_endpoints_def filed_rows_def
  by (rule gain_block_mset gain_block_set;
      auto simp: gain_defs tx_rows_def body_rows_def body_of_def attested_def comp_def bare_rows proof_row_def active_validator_row_def
        split: option.splits tx_body.splits attestation_body.splits)+

lemma index_tx_keeps_calm:
  assumes "h \<in> set hs" and "i < length (bk_Transactions (chain h))"
  shows "kept (etl_calm chain hs) (index_tx walk (chain h) i (bk_Transactions (chain h) ! i))"
  unfolding etl_calm_def
  by (intro r_keeps_conj index_tx_keeps_sound index_tx_keeps_fault r_keeps_const assms refl)

abbreviation block_routines :: "(string list \<Rightarrow> string list) \<Rightarrow> core_block \<Rightarrow> etl_state routine list" where
  "block_routines walk b \<equiv> map (\<lambda>(i, tx). index_tx walk b i tx) (List.enumerate 0 (bk_Transactions b))"

lemma rows_upto_append: "rows_upto chain (hs @ [h]) rows = rows_upto chain hs rows + mset (rows (chain h))"
  by (simp add: rows_upto_def)

lemma rows_in_append: "rows_in chain (hs @ [h]) rows = rows_in chain hs rows \<union> set (rows (chain h))"
  by (auto simp: rows_in_def)

text \<open>When the goroutines of a block have finished without a fault, its rows are all there, in whatever order they ran.\<close>

lemma block_run_complete:
  assumes calm: "etl_calm chain (hs @ [h]) (ix_db s)" and comp: "etl_complete chain hs (ix_db s)"
    and run: "r_step\<^sup>*\<^sup>* (block_routines walk (chain h), s) (rs', s')" and rest: "\<forall>r \<in> set rs'. r = Done"
  shows "etl_complete chain (hs @ [h]) (ix_db s')"
proof -
  have keep: "kept (etl_calm chain (hs @ [h])) (index_tx walk (chain h) i tx)" if "(i, tx) \<in> set (List.enumerate 0 (bk_Transactions (chain h)))" for i tx
    using that by (auto simp: enumerate_nth intro!: index_tx_keeps_calm)
  have ok: "filed_row (chain h) i tx (st_transaction st) \<in> rows_in chain (hs @ [h]) filed_rows"
    if "(i, tx) \<in> set (List.enumerate 0 (bk_Transactions (chain h)))" "txr_Transaction tx = Some st" for i tx st
    unfolding filed_rows_def using that
    by (intro rows_of_txs_in [of h "hs @ [h]" i chain tx]) (simp_all add: enumerate_nth)
  note gains = play_table.block_gains entity_table.block_gains address_table.block_gains registration_table.block_gains
    deregistration_table.block_gains misbehavior_table.block_gains verification_table.block_gains proof_table.block_gains
    rollup_table.block_gains report_table.block_gains validator_table.block_gains filing_table.block_gains
  note gained = gains [OF run calm keep _ rest, unfolded block_gains_rows]
  show ?thesis
    unfolding etl_complete_def rows_upto_append rows_in_append
    using comp unfolding etl_complete_def by (intro conjI) (simp_all only: gained ok)
qed

definition ix_calm :: "(string list \<Rightarrow> string list) \<Rightarrow> int64 \<Rightarrow> (int64 \<Rightarrow> core_block) \<Rightarrow> nat \<Rightarrow> etl_world \<Rightarrow> bool" where
  "ix_calm walk start chain n w \<longleftrightarrow>
     (if 0 < start then start else 1) + int n \<le> 2 ^ 63
     \<and> (case wo_block w of
          None \<Rightarrow> wo_running w = [] \<and> etl_calm chain (heights start n) (ix_db (wo_state w))
            \<and> etl_complete chain (heights start n) (ix_db (wo_state w))
        | Some b \<Rightarrow> \<exists>m h s0. heights start n = heights start m @ [h] \<and> b = chain h
            \<and> etl_calm chain (heights start n) (ix_db s0) \<and> etl_complete chain (heights start m) (ix_db s0)
            \<and> r_step\<^sup>*\<^sup>* (block_routines walk b, s0) (wo_running w, wo_state w))"

lemma ix_calm_next:
  assumes inv: "ix_calm walk start chain n w" and idle: "wo_block w = None" and ans: "answers chain ask"
    and chain: "\<And>h. bk_Height (chain h) = h" and start: "start < 2 ^ 63"
  shows "\<exists>m. ix_calm walk start chain m (index_next walk start ask w)"
  using index_next_cases [OF ans chain, of walk start w]
proof
  assume "index_next walk start ask w = w"
  with inv show ?thesis by metis
next
  let ?db = "ix_db (wo_state w)" and ?h = "next_height start (ix_db (wo_state w))"
  let ?s0 = "(wo_state w)\<lparr>ix_db := ?db\<lparr>etl_blocks := etl_blocks ?db @ [block_row_of (chain ?h)]\<rparr>, ix_err := False\<rparr>"
  assume "\<exists>h. h = ?h \<and> 0 \<le> h \<and> \<not> etl_fault ?db ''InsertBlock'' \<and> index_next walk start ask w =
      w\<lparr>wo_state := (wo_state w)\<lparr>ix_db := ?db\<lparr>etl_blocks := etl_blocks ?db @ [block_row_of (chain h)]\<rparr>, ix_err := False\<rparr>,
        wo_block := Some (chain h), wo_running := block_routines walk (chain h)\<rparr>"
  then have pos: "0 \<le> ?h" and w': "index_next walk start ask w =
      w\<lparr>wo_state := ?s0, wo_block := Some (chain ?h), wo_running := block_routines walk (chain ?h)\<rparr>" by auto
  from inv idle have calm: "etl_calm chain (heights start n) ?db" and comp: "etl_complete chain (heights start n) ?db"
    and range: "(if 0 < start then start else 1) + int n \<le> 2 ^ 63" by (simp_all add: ix_calm_def)
  then have sound: "etl_sound chain (heights start n) ?db" by (simp add: etl_calm_def)
  from next_height_is [OF sound range chain pos start]
  have h: "?h = (if 0 < start then start else 1) + int n" "?h < 2 ^ 63" by simp_all
  have hs: "heights start (Suc n) = heights start n @ [?h]" by (simp add: heights_Suc h(1))
  have "etl_calm chain (heights start (Suc n)) (ix_db ?s0)"
    using calm etl_sound_next [OF sound, of ?h] by (simp add: etl_calm_def hs)
  moreover have "etl_complete chain (heights start n) (ix_db ?s0)" using comp by (simp add: etl_complete_def)
  ultimately have "ix_calm walk start chain (Suc n) (index_next walk start ask w)"
    unfolding ix_calm_def w' using h hs by (auto intro!: exI [of _ n] exI [of _ ?h] exI [of _ ?s0])
  then show ?thesis by blast
qed

lemma ix_calm_finish:
  assumes inv: "ix_calm walk start chain n w" and rest: "\<forall>r \<in> set (wo_running w). r = Done"
  shows "ix_calm walk start chain n (index_finish stop w)"
proof (cases "wo_block w")
  case None
  with inv show ?thesis by (simp add: index_finish_def)
next
  case (Some b)
  with inv obtain m h s0 where hs: "heights start n = heights start m @ [h]" and b: "b = chain h"
    and calm: "etl_calm chain (heights start n) (ix_db s0)" and comp: "etl_complete chain (heights start m) (ix_db s0)"
    and run: "r_step\<^sup>*\<^sup>* (block_routines walk b, s0) (wo_running w, wo_state w)" by (auto simp: ix_calm_def)
  have "\<forall>r \<in> set (block_routines walk b). kept (etl_calm chain (heights start n)) r"
    by (auto simp: b enumerate_nth hs intro!: index_tx_keeps_calm)
  from r_steps_keep [OF run this] calm have "etl_calm chain (heights start n) (ix_db (wo_state w))" by blast
  moreover from block_run_complete [OF _ comp _ rest] calm run
  have "etl_complete chain (heights start n) (ix_db (wo_state w))" by (simp add: hs b)
  ultimately show ?thesis using inv Some by (simp add: ix_calm_def index_finish_def)
qed

lemma ix_calm_reachable:
  assumes "ix_reachable False walk start stop chain w" and "\<And>h. bk_Height (chain h) = h" and "start < 2 ^ 63"
    and unique: "hashes_unique chain"
  shows "\<exists>n. ix_calm walk start chain n w"
  using assms(1)
proof (induction rule: ix_reachable.induct)
  case IxInitial
  have "ix_calm walk start chain 0 initial_etl" using assms(3) unique
    by (simp add: ix_calm_def initial_etl_def heights_def empty_etl_db_def etl_sound_def etl_calm_def etl_complete_def rows_in_def rows_upto_def
        submitted_proofs_def)
  then show ?case by blast
next
  case (IxStep w w')
  then obtain n where n: "ix_calm walk start chain n w" by blast
  from IxStep.hyps(2) show ?case
  proof (cases rule: ix_step.cases)
    case (IxNext ask)
    with ix_calm_next [OF n _ _ assms(2,3)] show ?thesis by blast
  next
    case (IxRun rs s)
    have "ix_calm walk start chain n w'"
    proof (cases "wo_block w")
      case None
      with n IxRun(3) show ?thesis by (auto simp: ix_calm_def elim!: r_stepE)
    next
      case (Some b)
      with n IxRun(3) show ?thesis unfolding ix_calm_def IxRun(1) by simp (blast intro: rtranclp.rtrancl_into_rtrancl)
    qed
    then show ?thesis by blast
  next
    case IxFinish
    with ix_calm_finish [OF n] show ?thesis by blast
  qed simp_all
qed

text \<open>
  (C39) While no statement fails, the process does not restart and no two transactions of the chain share a hash, the
  indexer mirrors the chain: between two blocks, however the goroutines of every block interleaved, its thirteen
  tables hold the rows of the blocks indexed, all of them and no other. Blocks come in their order; of
  transactions there is one row each; plays, entities, addresses, registrations, deregistrations,
  misbehaviours, verifications, submitted proofs, rollups and reports have their multiplicity, and a report refers to the
  rollup of its own transaction; there is one validator for each endpoint registered. Left out is what depends on
  the interleaving or is derived: serial numbers, rates and statistics of rollups, the status of proofs and the proofs
  recorded as failed, and the columns of a validator other than its endpoint.
\<close>

theorem index_complete:
  assumes "ix_reachable False walk start stop chain w" and "\<And>h. bk_Height (chain h) = h" and "start < 2 ^ 63"
    and "hashes_unique chain" and "wo_block w = None"
  shows "\<exists>n. etl_blocks (ix_db (wo_state w)) = map (\<lambda>h. block_row_of (chain h)) (heights start n)
    \<and> etl_complete chain (heights start n) (ix_db (wo_state w)) \<and> distinct (map xt_tx_hash (etl_transactions (ix_db (wo_state w))))
    \<and> distinct (map xw_endpoint (etl_validators (ix_db (wo_state w))))"
  using ix_calm_reachable [OF assms(1-4)] assms(5) by (auto simp: ix_calm_def etl_calm_def etl_sound_def)

section \<open>Runs\<close>

definition run_pick :: "nat \<Rightarrow> etl_world \<Rightarrow> etl_world" where
  "run_pick i w = (if ix_panicked (wo_state w) then w
     else case r_pick i (wo_running w, wo_state w) of (rs, s) \<Rightarrow> w\<lparr>wo_running := rs, wo_state := s\<rparr>)"

lemma run_pick_reachable:
  assumes "ix_reachable rough walk start stop chain w"
  shows "ix_reachable rough walk start stop chain (run_pick i w)"
proof (cases "ix_panicked (wo_state w)")
  case False
  obtain rs s where rs: "r_pick i (wo_running w, wo_state w) = (rs, s)" by (cases "r_pick i (wo_running w, wo_state w)")
  with r_pick_step [of i "(wo_running w, wo_state w)"] consider "rs = wo_running w" "s = wo_state w"
    | "r_step (wo_running w, wo_state w) (rs, s)" by auto
  then show ?thesis
  proof cases
    case 1
    with False rs assms show ?thesis by (simp add: run_pick_def)
  next
    case 2
    from IxStep [OF assms IxRun [OF False 2]] False rs show ?thesis by (simp add: run_pick_def)
  qed
qed (simp add: run_pick_def assms)

definition try_finish :: "int64 \<Rightarrow> etl_world \<Rightarrow> etl_world" where
  "try_finish stop w = (if \<not> ix_panicked (wo_state w) \<and> list_all is_done (wo_running w) then index_finish stop w else w)"

lemma try_finish_reachable:
  "ix_reachable rough walk start stop chain w \<Longrightarrow> ix_reachable rough walk start stop chain (try_finish stop w)"
  by (cases "wo_block w") (auto simp: try_finish_def list_all_iff is_done_iff intro: IxStep [OF _ IxFinish], simp add: index_finish_def)

definition try_next ::
    "(string list \<Rightarrow> string list) \<Rightarrow> int64 \<Rightarrow> (int64 \<Rightarrow> core_block) \<Rightarrow> etl_world \<Rightarrow> etl_world" where
  "try_next walk start chain w = (if wo_block w = None \<and> \<not> wo_stopped w then index_next walk start (\<lambda>h. Ok (chain h)) w else w)"

lemma try_next_reachable:
  "ix_reachable rough walk start stop chain w \<Longrightarrow> ix_reachable rough walk start stop chain (try_next walk start chain w)"
  by (auto simp: try_next_def answers_def intro!: IxNext elim!: IxStep)

lemmas run_reachable = IxInitial try_next_reachable run_pick_reachable try_finish_reachable

text \<open>
  A chain whose first block has plays and a registration, and whose second has a rollup with a report, the
  deregistration, a storage proof and an entity.
\<close>

definition demo_tx :: "string \<Rightarrow> tx_body \<Rightarrow> tx_response" where
  "demo_tx hash body = \<lparr>txr_Hash = hash, txr_BlockHash = '''', txr_ChainId = '''', txr_Height = 1, txr_Timestamp = 0,
     txr_Transaction = Some \<lparr>st_signature = '''', st_request_id = '''', st_transaction = Some body\<rparr>, txr_Transactionv2 = None\<rparr>"

definition demo_block :: "(int64 \<Rightarrow> tx_response list) \<Rightarrow> int64 \<Rightarrow> core_block" where
  "demo_block txs h = \<lparr>bk_Height = h, bk_Hash = '''', bk_ChainId = '''', bk_Proposer = ''p'', bk_Timestamp = 0, bk_Transactions = txs h\<rparr>"

definition demo_play :: track_play where
  "demo_play = \<lparr>tp_user_id = ''u'', tp_track_id = ''t'', tp_timestamp = None, tp_signature = '''', tp_city = '''', tp_region = '''',
     tp_country = ''''\<rparr>"

definition demo_entity :: manage_entity_legacy where
  "demo_entity = \<lparr>me_user_id = 1, me_entity_type = ''Track'', me_entity_id = 2, me_action = ''Create'', me_metadata = '''', me_signature = '''',
     me_signer = ''w'', me_nonce = ''''\<rparr>"

definition demo_txs :: "int64 \<Rightarrow> tx_response list" where
  "demo_txs h = (if h = 1 then [demo_tx ''a'' (TxPlays [demo_play, demo_play]),
     demo_tx ''b'' (TxAttestation \<lparr>att_signatures = [], att_body = Some (AttRegistration \<lparr>vr_delegate_wallet = ''w'', vr_endpoint = ''e'',
        vr_node_type = ''validator'', vr_sp_id = ''1'', vr_eth_block = 5, vr_comet_address = ''c'', vr_pub_key = [1], vr_power = 10, vr_deadline = 9\<rparr>)\<rparr>)]
     else if h = 2 then [demo_tx ''c'' (TxSlaRollup \<lparr>sr_timestamp = None, sr_block_start = 1, sr_block_end = 1,
         sr_reports = [\<lparr>snr_address = ''w'', snr_num_blocks_proposed = 1\<rparr>]\<rparr>),
       demo_tx ''d'' (TxAttestation \<lparr>att_signatures = [], att_body = Some (AttDeregistration \<lparr>vd_comet_address = ''c'', vd_pub_key = [1], vd_deadline = 9\<rparr>)\<rparr>),
       demo_tx ''e'' (TxStorageProof \<lparr>sp_height = 1, sp_address = ''A'', sp_prover_addresses = [''A''], sp_cid = ''c'', sp_proof_signature = [1]\<rparr>),
       demo_tx ''f'' (TxManageEntity demo_entity)]
     else [])"

definition demo_indexed :: etl_world where
  "demo_indexed = try_finish 0 (fold run_pick [3, 0, 1, 2, 0, 1, 3, 0, 2, 1, 3, 0] (try_next id 0 (demo_block demo_txs)
     (try_finish 0 (fold run_pick [1, 0, 1, 0, 1] (try_next id 0 (demo_block demo_txs) initial_etl)))))"

lemma demo_indexed_reachable: "ix_reachable False id 0 0 (demo_block demo_txs) demo_indexed"
  unfolding demo_indexed_def by (simp, intro run_reachable)

lemma demo_indexed_eval:
  "wo_block demo_indexed = None" "length (etl_blocks (ix_db (wo_state demo_indexed))) = 2"
  "map xt_tx_hash (etl_transactions (ix_db (wo_state demo_indexed))) = [''a'', ''b'', ''e'', ''d'', ''f'', ''c'']"
  "map xn_sla_rollup_id (etl_sla_node_reports (ix_db (wo_state demo_indexed))) = [1]"
  "map xw_status (etl_validators (ix_db (wo_state demo_indexed))) = [''deregistered'']"
  by code_simp+

lemma demo_heights: "bk_Height (demo_block txs h) = h"
  by (simp add: demo_block_def)

lemma demo_unique: "hashes_unique (demo_block demo_txs)"
  by (auto simp: hashes_unique_def filed_rows_def rows_of_txs_def demo_block_def demo_txs_def demo_tx_def filed_row_def split: if_splits)

theorem index_complete_witness:
  "ix_reachable False id 0 0 (demo_block demo_txs) demo_indexed
   \<and> (\<exists>n. etl_blocks (ix_db (wo_state demo_indexed)) = map (\<lambda>h. block_row_of (demo_block demo_txs h)) (heights 0 n)
        \<and> etl_complete (demo_block demo_txs) (heights 0 n) (ix_db (wo_state demo_indexed)))
   \<and> map xt_tx_hash (etl_transactions (ix_db (wo_state demo_indexed))) = [''a'', ''b'', ''e'', ''d'', ''f'', ''c'']
   \<and> map xn_sla_rollup_id (etl_sla_node_reports (ix_db (wo_state demo_indexed))) = [1]
   \<and> map xw_status (etl_validators (ix_db (wo_state demo_indexed))) = [''deregistered'']"
  using index_complete [OF demo_indexed_reachable demo_heights _ demo_unique demo_indexed_eval(1)]
    demo_indexed_reachable demo_indexed_eval(3-5) by auto

text \<open>
  A restart in the middle of a block: the block is recorded before its transactions, so that the indexer goes on
  behind it, and the transactions that were not filed yet never will be.
\<close>

definition demo_restarted :: etl_world where
  "demo_restarted = restart (run_pick 0 (try_next id 0 (demo_block demo_txs) initial_etl))"

lemma demo_restarted_reachable: "ix_reachable True id 0 0 (demo_block demo_txs) demo_restarted"
  unfolding demo_restarted_def by (intro IxStep [OF _ IxRestart] run_reachable) simp

theorem indexed_rows_genuine_witness:
  "ix_reachable True id 0 0 (demo_block demo_txs) demo_restarted
   \<and> (\<exists>n. etl_sound (demo_block demo_txs) (heights 0 n) (ix_db (wo_state demo_restarted)))"
  using indexed_rows_genuine [OF demo_restarted_reachable demo_heights] demo_restarted_reachable by simp

theorem restart_loses_transactions:
  "\<exists>w. ix_reachable True id 0 0 (demo_block demo_txs) w \<and> wo_block w = None \<and> length (bk_Transactions (demo_block demo_txs 1)) = 2
     \<and> etl_transactions (ix_db (wo_state w)) = [] \<and> next_height 0 (ix_db (wo_state w)) = 2"
proof -
  have "wo_block demo_restarted = None \<and> length (bk_Transactions (demo_block demo_txs 1)) = 2
      \<and> map xt_tx_hash (etl_transactions (ix_db (wo_state demo_restarted))) = [] \<and> next_height 0 (ix_db (wo_state demo_restarted)) = 2"
    by code_simp
  with demo_restarted_reachable show ?thesis by auto
qed

text \<open>
  The shared variable: when the plays of another transaction cannot be stored at the wrong moment, a
  verification that was stored is taken for a failed one, and the proofs it reveals stay unresolved.
\<close>

definition race_txs :: "int64 \<Rightarrow> tx_response list" where
  "race_txs h = (if h = 1 then [demo_tx ''a'' (TxStorageProof \<lparr>sp_height = 1, sp_address = ''A'', sp_prover_addresses = [''A''], sp_cid = ''c'',
       sp_proof_signature = [1]\<rparr>)]
     else if h = 2 then [demo_tx ''b'' (TxPlays [demo_play]), demo_tx ''c'' (TxStorageProofVerification \<lparr>spv_height = 1, spv_proof = [2]\<rparr>)]
     else [])"

definition race_world :: "nat list \<Rightarrow> etl_world" where
  "race_world picks =
     (let w1 = try_finish 0 (fold run_pick [0, 0] (try_next id 0 (demo_block race_txs) initial_etl));
          w2 = w1\<lparr>wo_state := (wo_state w1)\<lparr>ix_db := (ix_db (wo_state w1))\<lparr>etl_fault := (\<lambda>n. n = ''InsertPlays'')\<rparr>\<rparr>\<rparr>
      in try_finish 0 (fold run_pick picks (try_next id 0 (demo_block race_txs) w2)))"

lemma fold_pick_reachable:
  "ix_reachable rough walk start stop chain w \<Longrightarrow> ix_reachable rough walk start stop chain (fold run_pick is w)"
  by (induction "is" arbitrary: w) (simp_all add: run_pick_reachable)

lemma race_world_reachable: "ix_reachable True id 0 0 (demo_block race_txs) (race_world picks)"
  unfolding race_world_def Let_def
  by (intro try_finish_reachable fold_pick_reachable try_next_reachable IxStep [OF _ IxFault] IxInitial) simp

theorem shared_error_skips_verification:
  "\<exists>w w'. ix_reachable True id 0 0 (demo_block race_txs) w \<and> wo_block w = None \<and> ix_reachable True id 0 0 (demo_block race_txs) w' \<and> wo_block w' = None
     \<and> length (etl_storage_proof_verifications (ix_db (wo_state w))) = 1 \<and> length (etl_storage_proof_verifications (ix_db (wo_state w'))) = 1
     \<and> map xs_status (etl_storage_proofs (ix_db (wo_state w))) = [EtlPass]
     \<and> map xs_status (etl_storage_proofs (ix_db (wo_state w'))) = [EtlUnresolved]"
proof -
  have "wo_block (race_world [0, 0, 1, 1, 1, 1, 1, 1]) = None
      \<and> length (etl_storage_proof_verifications (ix_db (wo_state (race_world [0, 0, 1, 1, 1, 1, 1, 1])))) = 1
      \<and> map xs_status (etl_storage_proofs (ix_db (wo_state (race_world [0, 0, 1, 1, 1, 1, 1, 1])))) = [EtlPass]" by code_simp
  moreover have "wo_block (race_world [1, 0, 1, 0, 1]) = None
      \<and> length (etl_storage_proof_verifications (ix_db (wo_state (race_world [1, 0, 1, 0, 1])))) = 1
      \<and> map xs_status (etl_storage_proofs (ix_db (wo_state (race_world [1, 0, 1, 0, 1])))) = [EtlUnresolved]" by code_simp
  ultimately show ?thesis
    using race_world_reachable [of "[0, 0, 1, 1, 1, 1, 1, 1]"] race_world_reachable [of "[1, 0, 1, 0, 1]"]
    by (intro exI [of _ "race_world [0, 0, 1, 1, 1, 1, 1, 1]"] exI [of _ "race_world [1, 0, 1, 0, 1]"]) simp
qed

text \<open>
  The table of validators: a registration for an endpoint that has a row changes nothing, so that a validator
  that registers again stays deregistered, and one that is removed for misbehaviour stays active.
\<close>

theorem registration_again_ignored:
  "xw_endpoint r \<in> xw_endpoint ` set (etl_validators (ix_db s)) \<Longrightarrow> ix_db (snd (RegisterValidator r s)) = ix_db s"
  by (simp add: RegisterValidator_def etl_exec_def)

theorem misbehaving_validator_stays:
  "kept (\<lambda>db. etl_validators db = vs) (index_body walk b hash (TxMisbehaviorDeregistration vd) Done)"
proof -
  have "stmt_keeps (\<lambda>db. etl_validators db = vs) (InsertValidatorMisbehaviorDeregistration r)" for r
    unfolding InsertValidatorMisbehaviorDeregistration_def by (rule stmt_keeps_exec) (auto split: if_split_asm)
  then show ?thesis by (simp add: index_body_def kept_assign [where Q = "\<lambda>db. etl_validators db = vs"] KeepsDone)
qed

section \<open>The blocks the core answers with\<close>

definition GetBlockTransactions :: "int64 \<Rightarrow> core_db \<Rightarrow> transaction_row list" where
  "GetBlockTransactions h db = filter (\<lambda>r. t_block_id r = h) (core_transactions db)"

primrec tx_responses :: "ext \<Rightarrow> core_config \<Rightarrow> block_row \<Rightarrow> transaction_row list \<Rightarrow> tx_response list result" where
  "tx_responses x cfg block [] = Ok []"
| "tx_responses x cfg block (r # rs) =
     (case x_unmarshal_signed x (t_transaction r) of
        None \<Rightarrow> Err (Errorf ''proto: cannot parse invalid wire-format data'')
      | Some st \<Rightarrow> map_result ((#) \<lparr>txr_Hash = t_tx_hash r, txr_BlockHash = b_hash block, txr_ChainId = cfg_ChainID cfg,
            txr_Height = b_height block, txr_Timestamp = b_created_at block, txr_Transaction = Some st, txr_Transactionv2 = None\<rparr>)
          (tx_responses x cfg block rs))"

text \<open>
  \<^verbatim>\<open>CoreService.GetBlock\<close>. The rows come in descending order of their times, which are equal within a block, and are
  then sorted by a comparison that is no weak order: \<open>arrange\<close> is what becomes of their order.
\<close>

definition core_GetBlock ::
    "ext \<Rightarrow> core_config \<Rightarrow> (tx_response list \<Rightarrow> tx_response list) \<Rightarrow> (int64 \<Rightarrow> core_block result) \<Rightarrow> int64 \<Rightarrow> core_db \<Rightarrow> int64 \<Rightarrow> core_block result" where
  "core_GetBlock x cfg arrange rpc currentHeight db h =
     (if currentHeight < h then Ok \<lparr>bk_Height = - 1, bk_Hash = '''', bk_ChainId = cfg_ChainID cfg, bk_Proposer = '''', bk_Timestamp = 0,
        bk_Transactions = []\<rparr>
      else case db_row ''GetBlock'' (GetBlock h) db of
             Ok block \<Rightarrow>
               bind_result (db_rows ''GetBlockTransactions'' (GetBlockTransactions h) db) (\<lambda>rows.
               map_result (\<lambda>txs. \<lparr>bk_Height = b_height block, bk_Hash = b_hash block, bk_ChainId = cfg_ChainID cfg,
                   bk_Proposer = b_proposer block, bk_Timestamp = b_created_at block, bk_Transactions = arrange txs\<rparr>)
                 (tx_responses x cfg block rows))
           | Err e \<Rightarrow> if e = DbErr ErrNoRows then rpc h else Err e
           | Panic p \<Rightarrow> Panic p)"

lemma tx_responses_Ok:
  "tx_responses x cfg block rows = Ok txs \<Longrightarrow>
   map txr_Hash txs = map t_tx_hash rows \<and> (\<forall>tx \<in> set txs. txr_Transaction tx \<noteq> None)"
  by (induction rows arbitrary: txs) (auto simp: go_simps split: option.splits)

lemma filed_hashes:
  assumes "\<forall>tx \<in> set (bk_Transactions b). txr_Transaction tx \<noteq> None"
  shows "xt_tx_hash ` set (filed_rows b) = txr_Hash ` set (bk_Transactions b)"
proof -
  let ?f = "\<lambda>(i, tx). case txr_Transaction tx of None \<Rightarrow> [] | Some st \<Rightarrow> [filed_row b i tx (st_transaction st)]"
  have f: "xt_tx_hash ` set (?f p) = {txr_Hash (snd p)}" if "p \<in> set (List.enumerate 0 (bk_Transactions b))" for p
  proof -
    obtain i tx where p: "p = (i, tx)" by (cases p)
    with that have "tx \<in> set (bk_Transactions b)" by (auto simp: enumerate_nth)
    with assms p show ?thesis by (auto simp: filed_row_def)
  qed
  have "xt_tx_hash ` set (filed_rows b) = (\<Union>p \<in> set (List.enumerate 0 (bk_Transactions b)). xt_tx_hash ` set (?f p))"
    unfolding filed_rows_def rows_of_txs_def by (simp only: set_concat set_map image_UN image_image)
  also have "\<dots> = (\<Union>p \<in> set (List.enumerate 0 (bk_Transactions b)). {txr_Hash (snd p)})" using f by (intro SUP_cong) simp_all
  also have "\<dots> = txr_Hash ` set (map snd (List.enumerate 0 (bk_Transactions b)))" unfolding set_map by blast
  finally show ?thesis by simp
qed

text \<open>The hashes an indexer has filed are those the core has stored, for the blocks it has indexed.\<close>

theorem filed_hashes_stored:
  assumes complete: "etl_complete chain hs db" and arrange: "\<And>txs. mset (arrange txs) = mset txs"
    and stored: "\<And>h. h \<in> set hs \<Longrightarrow> core_GetBlock x cfg arrange rpc currentHeight core h = Ok (chain h)
      \<and> h \<le> currentHeight \<and> GetBlock h core \<noteq> None"
  shows "xt_tx_hash ` set (etl_transactions db) = t_tx_hash ` {r \<in> set (core_transactions core). t_block_id r \<in> set hs}"
proof -
  have "xt_tx_hash ` set (filed_rows (chain h)) = t_tx_hash ` {r \<in> set (core_transactions core). t_block_id r = h}" if "h \<in> set hs" for h
  proof -
    from stored [OF that] obtain block txs where txs: "tx_responses x cfg block (GetBlockTransactions h core) = Ok txs"
      and b: "bk_Transactions (chain h) = arrange txs"
      by (auto simp: core_GetBlock_def db_row_def db_rows_def go_simps split: option.splits if_splits)
    have "set (bk_Transactions (chain h)) = set txs" using arrange by (metis b mset_eq_setD)
    with tx_responses_Ok [OF txs] filed_hashes [of "chain h"]
    have "xt_tx_hash ` set (filed_rows (chain h)) = set (map t_tx_hash (GetBlockTransactions h core))" by (metis set_map)
    then show ?thesis by (simp add: GetBlockTransactions_def)
  qed
  then have "(\<Union>h \<in> set hs. xt_tx_hash ` set (filed_rows (chain h)))
      = (\<Union>h \<in> set hs. t_tx_hash ` {r \<in> set (core_transactions core). t_block_id r = h})" by (intro SUP_cong) simp_all
  also have "\<dots> = t_tx_hash ` {r \<in> set (core_transactions core). t_block_id r \<in> set hs}" by auto
  finally show ?thesis using complete by (simp add: etl_complete_def rows_in_def image_UN)
qed

text \<open>A block with a transaction that is not of version 1 is never answered, and the indexer waits for it forever.\<close>

lemma tx_responses_v2: "r \<in> set rows \<Longrightarrow> x_unmarshal_signed x (t_transaction r) = None \<Longrightarrow> \<nexists>txs. tx_responses x cfg block rows = Ok txs"
  by (induction rows) (auto simp: go_simps split: option.splits)

theorem v2_block_stops_indexer:
  assumes "r \<in> set (core_transactions core)" and "t_block_id r = next_height start (ix_db (wo_state w))"
    and "x_unmarshal_signed x (t_transaction r) = None" and "GetBlock (t_block_id r) core \<noteq> None" and "t_block_id r \<le> currentHeight"
  shows "index_next walk start (core_GetBlock x cfg arrange rpc currentHeight core) w = w"
proof -
  have "\<nexists>b. core_GetBlock x cfg arrange rpc currentHeight core (t_block_id r) = Ok b"
    using assms tx_responses_v2 [of r "GetBlockTransactions (t_block_id r) core" x]
    by (auto simp: core_GetBlock_def db_row_def db_rows_def go_simps GetBlockTransactions_def split: option.splits)
  with assms(2) show ?thesis by (auto simp: index_next_def Let_def split: result.splits)
qed

end
