(* ===== verification/Spec2Isabelle.thy ===== *)
theory Spec2Isabelle
  imports Safemap Pubsub Tx_Order State_Sync Proposals Block_Lifecycle Determinism
    Replication Repair_Runs Crudr Storage_Answers Endpoints Registry_Bridge Play_Queue Peer_Health
    Slashing Lifecycle Etl
begin

text \<open>
  audiusd: a node of the Audius network, written in Go. This development models the logic of
  its consensus core (\<^verbatim>\<open>src/pkg/core\<close>, with \<^verbatim>\<open>src/pkg/common\<close>, \<^verbatim>\<open>src/pkg/rewards\<close>, \<^verbatim>\<open>src/pkg/safemap\<close>,
  \<^verbatim>\<open>src/pkg/pubsub\<close> and \<^verbatim>\<open>src/pkg/lifecycle\<close>), of its copy of the Ethereum contracts (\<^verbatim>\<open>src/pkg/eth\<close>), of its
  indexer (\<^verbatim>\<open>src/pkg/etl\<close>) and of its storage node (\<^verbatim>\<open>src/pkg/mediorum\<close>), and proves what makes them correct.

  \<^bold>\<open>The program.\<close> The core is an application of CometBFT. Transactions arrive over an API, wait in a
  mempool and are sent to the peers; a proposer takes a batch, adds an SLA rollup and
  deregistrations of misbehaving validators, and the other validators check every transaction of the
  proposal. A decided block is finalized inside one PostgreSQL transaction, which is committed
  when CometBFT says so; committing removes the finalized transactions from the mempool and
  wakes the clients that wait for them. Validators register with attestations that a rendezvous of
  the registered ones signs after looking at Ethereum. A block hash may start a challenge, which
  the core hands to the storage node and answers with storage proofs. The storage node places
  blobs on hosts by rendezvous hashing, replicates and repairs them, keeps its tables in step with
  its peers by a log of operations, and reports plays to the core. A node that joins restores a
  snapshot of the database that another node serves in chunks.

  \<^bold>\<open>How the model reads.\<close> A Go call is a value of \<open>result\<close>: a value, an error or a panic. A statement
  of the database is a function of the open transaction; a failing one aborts it. \<^verbatim>\<open>int64\<close> is an integer
  whose arithmetic is wrapped by \<open>wrap64\<close>, a string is a list of bytes. Functions of third-party
  packages (hashes, signatures, protobuf, JSON, gzip, the PostgreSQL programs) are arguments, most
  of them fields of the record \<open>ext\<close>; a theorem names what it relies on of them, and its
  witness discharges that for a transparent instance. Goroutines are steps of a relation, or
  operations that a lock makes atomic, in any order. A map walked in Go's unspecified order is a list
  in some order, or an argument that turns a set into a list.

  \<^bold>\<open>Shared theories.\<close>
  \<^item> \<open>Prelude\<close>: results and their bind, machine integers, rows and association lists, the collections
    \<open>go_simps\<close> and \<open>int64_simps\<close>. \<open>Encoding\<close>: hex, base64, decimal, byte orders, runes, with round trips.
    \<open>Paging\<close>: reading a sorted table in pages behind a cursor. \<open>Go_State\<close>: calls that change a state and may
    fail, with the collection \<open>go_keeps_intros\<close> (what a call keeps). \<open>Float64\<close>: double precision, with rounding to
    even, and the conversion to an integer. \<open>Routines\<close>: goroutines that share a state and interleave; every run
    comes to rest, and the locale \<open>shared_table\<close> says that what it adds to a table is the sum of what its routines
    add, each of which may rely on what all of them preserve; it is interpreted for rows (\<open>rows_added\<close>) and for keys (\<open>keys_added\<close>).
  \<^item> \<open>Chain_Types\<close>: the messages of \<^verbatim>\<open>pkg/api\<close>, the configuration of \<^verbatim>\<open>core/config/config.go\<close>, the record \<open>ext\<close>.
  \<^item> \<open>Common\<close>: \<^verbatim>\<open>pkg/common\<close> (\<^verbatim>\<open>crypto.go\<close>, \<^verbatim>\<open>proto.go\<close>, \<^verbatim>\<open>address.go\<close>, \<^verbatim>\<open>obfus.go\<close>, \<^verbatim>\<open>rendezvous.go\<close>, \<^verbatim>\<open>reward_signing.go\<close>).
  \<^item> \<open>Core_Db\<close>: the tables of \<^verbatim>\<open>core/db/models.go\<close> and the statements of \<^verbatim>\<open>reads.sql.go\<close> and \<^verbatim>\<open>writes.sql.go\<close>, with
    transactions that abort; the collections \<open>keeps_intros\<close> (what a statement keeps) and \<open>abort_intros\<close>
    (it does nothing in an aborted transaction).

  \<^bold>\<open>The core, by component\<close> (files under \<^verbatim>\<open>src/pkg/core/server\<close>).
  \<^item> \<open>Mempool\<close> (\<^verbatim>\<open>mempool.go\<close>): the list and its index as one record; every run refines a bounded queue
    without duplicate keys, and a batch is bounded and unexpired. The locale \<open>tx_pool\<close> states what a
    pool promises its clients and is interpreted as \<open>mempool\<close>; the theories on proposals, blocks and
    endpoints use its facts.
  \<^item> \<open>Registration\<close> (\<^verbatim>\<open>attestation.go\<close>, \<^verbatim>\<open>registration.go\<close>, \<^verbatim>\<open>registration_legacy.go\<close>): when attestations are enough,
    when a registration is accepted and what finalizing it stores.
  \<^item> \<open>Registry_Bridge\<close> (\<^verbatim>\<open>registry_bridge.go\<close> and the attestation endpoints of \<^verbatim>\<open>connect.go\<close>): when a node signs
    an attestation; that the transactions built from collected signatures pass the validation of
    \<open>Registration\<close>; that the warden is conservative.
  \<^item> \<open>Auditor\<close> (\<^verbatim>\<open>auditor.go\<close>), \<open>Storage_Proofs\<close> (\<^verbatim>\<open>pos.go\<close>), \<open>Reward_Txs\<close> (\<^verbatim>\<open>rewards.go\<close>, \<^verbatim>\<open>pkg/rewards\<close>),
    \<open>Distribution\<close> (\<^verbatim>\<open>plays.go\<close>, \<^verbatim>\<open>manage_entity.go\<close>, \<^verbatim>\<open>release.go\<close>, \<^verbatim>\<open>files.go\<close>, \<^verbatim>\<open>ern.go\<close>, \<^verbatim>\<open>mead.go\<close>, \<^verbatim>\<open>pie.go\<close>,
    \<^verbatim>\<open>transaction_v2.go\<close>): the handlers of the kinds of transactions, what they accept and store.
  \<^item> \<open>Eip712\<close> (\<^verbatim>\<open>eip712.go\<close>): signing entity messages and recovering their signer, a round trip.
  \<^item> \<open>Endpoints\<close> (\<^verbatim>\<open>SendTransaction\<close>, \<^verbatim>\<open>ForwardTransaction\<close>, \<^verbatim>\<open>GetTransaction\<close> of \<^verbatim>\<open>connect.go\<close>): an accepted
    submission of version 1 that is no rollup is pending on the node and on its peers under one hash, the one
    it is finalized under; other submissions are not broadcast, or are filed under another hash.
  \<^item> \<open>Abci\<close> (\<^verbatim>\<open>abci.go\<close>): the state \<open>server\<close> and the callbacks from \<^verbatim>\<open>CheckTx\<close> to \<^verbatim>\<open>Commit\<close>, composed of the
    handlers above. \<open>Block_Invariants\<close>: the locales \<open>tx_invariant\<close> and \<open>stmt_invariant\<close> say that what every
    write keeps is kept by every handler and every block; they are interpreted on the invariants of
    the components. \<open>Node\<close>: the steps of a node (finalize, commit, restart, mempool, local writes) and
    the locale \<open>db_invariant\<close> over them. \<open>Block_Lifecycle\<close>: durability of a committed block, the
    invariants of every reachable node, the cost of a failing statement. \<open>Proposals\<close>: what a
    proposer builds is accepted. \<open>Determinism\<close>: finalizing does not depend on what is local to a
    node, except the cached height.
  \<^item> \<open>State_Sync\<close> and \<open>Retention\<close> (\<^verbatim>\<open>state_sync.go\<close>, \<^verbatim>\<open>data_companion.go\<close>): snapshots over a disk that may fail,
    the round trip through chunks in any order, pruning, the height below which blocks may go.
  \<^item> \<open>Tx_Order\<close> (\<^verbatim>\<open>tx.go\<close>), \<open>Safemap\<close> and \<open>Pubsub\<close>: the order of listed transactions; the guarded map with the
    locale \<open>kv_store\<close>, interpreted as \<open>safemap\<close>; the hub under every interleaving of its goroutines.
  \<^item> \<open>Eth_Service\<close> (\<^verbatim>\<open>pkg/eth\<close>: \<^verbatim>\<open>eth.go\<close>, \<^verbatim>\<open>connect.go\<close>, \<^verbatim>\<open>contracts/contracts.go\<close>): the tables that copy the contracts; a
    refresh makes them a copy, whenever the goroutine it starts for the proposals runs, the events keep them one, and what the registry bridge attests to is on the
    chain. \<open>Slashing\<close> (\<^verbatim>\<open>slash.go\<close>, \<^verbatim>\<open>console/adjudicate.go\<close>): bounds of the amount for a period of at
    most so many years, and that validators attest to what the console recommends.
  \<^item> \<open>Lifecycle\<close> (\<^verbatim>\<open>pkg/lifecycle\<close>): the tree of managed goroutines under every interleaving; once a
    shutdown has returned nil, nothing below it runs but what was added after the flag of a lifecycle was set.
  \<^item> \<open>Etl\<close> (\<^verbatim>\<open>pkg/etl/indexer.go\<close> with its tables, \<^verbatim>\<open>GetBlock\<close> of \<^verbatim>\<open>connect.go\<close>): one goroutine per transaction of a
    block. The rows are genuine under every interleaving, fault and restart, and complete between two
    blocks when nothing fails; the locale \<open>etl_table\<close> states what a table gains by the statements of a transaction and is
    interpreted for the twelve tables they write. Serial numbers come from a sequence that loses numbers with faults.

  \<^bold>\<open>The storage node, by component\<close> (files under \<^verbatim>\<open>src/pkg/mediorum\<close>).
  \<^item> \<open>Placement\<close> (\<^verbatim>\<open>cidutil\<close>, \<^verbatim>\<open>placement.go\<close>, \<^verbatim>\<open>replicate.go\<close>): keys of blobs and the ranking of hosts. The locale
    \<open>rendezvous\<close> is the contract of both rendezvous of the program, interpreted as \<open>attestors\<close> and
    \<open>replicas\<close>. \<open>Replication\<close>: parallel workers as a step relation, which comes to rest.
  \<^item> \<open>Repair\<close> and \<open>Repair_Runs\<close> (\<^verbatim>\<open>repair.go\<close>): which blobs one repair drops, by the rank of the
    node, and that a paged run visits every row.
  \<^item> \<open>Crudr\<close> (\<^verbatim>\<open>crudr\<close>, \<^verbatim>\<open>serve_crud.go\<close>): up to the columns a node fills from its clock,
    the tables are the effects of the logged and of the transient operations; sweeping catches up.
  \<^item> \<open>Storage_Answers\<close> (\<^verbatim>\<open>server/pos.go\<close>): nodes answer a challenge alike, composed with \<open>Storage_Proofs\<close>; the
    collation of the database is taken to be the order of bytes.
  \<^item> \<open>Storage_Auth\<close> (\<^verbatim>\<open>server_basic_auth.go\<close>, \<^verbatim>\<open>signature\<close>, \<^verbatim>\<open>requireRegisteredSignature\<close>): whom a node lets in.
    \<open>Play_Queue\<close> (\<^verbatim>\<open>play_event_queue.go\<close>): a batch is one transaction with one play, the last, for
    each signature of a request. \<open>Peer_Health\<close> (\<^verbatim>\<open>peer_health.go\<close>): the healthy peers are those that answered.

  \<^bold>\<open>Bounds and fuel.\<close> Loops are structural recursions over the data they walk, or functions whose
  termination is proved by a measure (\<open>scroll\<close>: the rows behind the cursor; \<open>chunk_loop\<close>: what is left of
  the dump). Only \<open>GetAll_loop\<close> takes a number of turns, and its behaviour is stated for every number (the
  loop of the code does not advance). Runs of sweeps and ticks are as long as the reader likes, and the
  theorems on them say how many are enough. Nothing else is bounded: lists of validators, blocks,
  peers and operations have any length.

  \<^bold>\<open>Not modelled.\<close> Handlers that only read and render stored rows (blocks, rewards, stream addresses,
  status, console, explorer), the queries and views of \<^verbatim>\<open>pkg/etl\<close> and the client library \<^verbatim>\<open>pkg/sdk\<close>: no state of their own.
  Connections, retries and timers (\<^verbatim>\<open>peers.go\<close>, \<^verbatim>\<open>cache.go\<close>, \<^verbatim>\<open>sync.go\<close>): the operations they
  call are modelled, their scheduling is the order of calls. Uploads, transcoding, images,
  metrics and delist statuses of the storage node: files and processes outside the program. Of
  \<^verbatim>\<open>pkg/eth\<close>: the generated bindings of contracts, which are a parameter, and registering in development.
\<close>

end
